(* ===== verification/Prelude.thy ===== *)
theory Prelude
  imports Main "HOL-Library.Multiset" "HOL-Library.Sublist" "HOL-Library.Char_ord"
begin

text \<open>
  Shared vocabulary of the development: Go's error results as sums, and the list and
  multiset facts that several components use. Strings are in \<open>Go_Strings\<close>.

  A Go function that returns \<open>(value, error)\<close> is a HOL function into \<open>'e + 'a\<close>, with
  \<open>Inl\<close> for a non-nil error. \<open>bindE\<close> is the \<open>if err != nil { return err }\<close> idiom.
\<close>

named_theorems go_simps "facts on Go string functions, used by simp add: go_simps"
named_theorems row_simps "facts on stored migration rows and their updates"
named_theorems zone_simps "facts on zones as multisets of record keys"

subsection \<open>Errors as sums\<close>

definition bindE :: "'e + 'a \<Rightarrow> ('a \<Rightarrow> 'e + 'b) \<Rightarrow> 'e + 'b" where
  "bindE r f = (case r of Inl e \<Rightarrow> Inl e | Inr x \<Rightarrow> f x)"

definition mapErr :: "('e \<Rightarrow> 'f) \<Rightarrow> 'e + 'a \<Rightarrow> 'f + 'a" where
  "mapErr g r = (case r of Inl e \<Rightarrow> Inl (g e) | Inr x \<Rightarrow> Inr x)"

text \<open>A check that returns only an error: \<open>None\<close> is Go's nil.\<close>

definition failE :: "'e option \<Rightarrow> ('e \<Rightarrow> 'f) \<Rightarrow> 'f + 'a \<Rightarrow> 'f + 'a" where
  "failE chk g k = (case chk of Some e \<Rightarrow> Inl (g e) | None \<Rightarrow> k)"

lemma bindE_simps [simp]:
  "bindE (Inl e) f = Inl e"
  "bindE (Inr x) f = f x"
  by (simp_all add: bindE_def)

lemma bindE_Inr_iff: "bindE r f = Inr y \<longleftrightarrow> (\<exists>x. r = Inr x \<and> f x = Inr y)"
  by (cases r) auto

lemma bindE_InrE [elim!]:
  assumes "bindE r f = Inr y"
  obtains x where "r = Inr x" and "f x = Inr y"
  using assms by (auto simp: bindE_Inr_iff)

lemma mapErr_simps [simp]:
  "mapErr g (Inl e) = Inl (g e)"
  "mapErr g (Inr x) = Inr x"
  by (simp_all add: mapErr_def)

lemma mapErr_Inr_iff [simp]: "mapErr g r = Inr x \<longleftrightarrow> r = Inr x"
  by (cases r) auto

lemma bindE_Inl_iff: "bindE r k = Inl x \<longleftrightarrow> r = Inl x \<or> (\<exists>y. r = Inr y \<and> k y = Inl x)"
  by (cases r) auto

lemma mapErr_Inl_iff: "mapErr g r = Inl x \<longleftrightarrow> (\<exists>e. r = Inl e \<and> x = g e)"
  by (cases r) auto

lemma failE_simps [simp]:
  "failE (Some e) g k = Inl (g e)"
  "failE None g k = k"
  by (simp_all add: failE_def)

lemma failE_Inr_iff [simp]: "failE chk g k = Inr x \<longleftrightarrow> chk = None \<and> k = Inr x"
  by (cases chk) auto

subsection \<open>Maps over lists that stop at the first error\<close>

fun mapE :: "('a \<Rightarrow> 'e + 'b) \<Rightarrow> 'a list \<Rightarrow> 'e + 'b list" where
  "mapE f [] = Inr []"
| "mapE f (x # xs) = bindE (f x) (\<lambda>y. bindE (mapE f xs) (\<lambda>ys. Inr (y # ys)))"

lemma mapE_Inr_iff: "mapE f xs = Inr ys \<longleftrightarrow> list_all2 (\<lambda>x y. f x = Inr y) xs ys"
  by (induction xs arbitrary: ys) (auto simp: bindE_Inr_iff list_all2_Cons1)

lemma mapE_length: "mapE f xs = Inr ys \<Longrightarrow> length ys = length xs"
  by (auto simp: mapE_Inr_iff dest: list_all2_lengthD)

lemma mapE_in_set: "mapE f xs = Inr ys \<Longrightarrow> y \<in> set ys \<Longrightarrow> \<exists>x \<in> set xs. f x = Inr y"
  by (induction xs arbitrary: ys) (auto simp: bindE_Inr_iff)

fun firstE :: "('a \<Rightarrow> 'e option) \<Rightarrow> 'a list \<Rightarrow> 'e option" where
  "firstE f [] = None"
| "firstE f (x # xs) = (case f x of Some e \<Rightarrow> Some e | None \<Rightarrow> firstE f xs)"

lemma firstE_None_iff [simp]: "firstE f xs = None \<longleftrightarrow> (\<forall>x \<in> set xs. f x = None)"
  by (induction xs) (auto split: option.splits)

subsection \<open>Indexed lists\<close>

fun enum_from :: "nat \<Rightarrow> 'a list \<Rightarrow> (nat \<times> 'a) list" where
  "enum_from n [] = []"
| "enum_from n (x # xs) = (n, x) # enum_from (Suc n) xs"

lemma map_snd_enum_from [simp]: "map snd (enum_from n xs) = xs"
  by (induction xs arbitrary: n) auto

lemma length_enum_from [simp]: "length (enum_from n xs) = length xs"
  by (induction xs arbitrary: n) auto

lemma enum_from_in_set: "(i, x) \<in> set (enum_from n xs) \<Longrightarrow> x \<in> set xs"
  by (induction xs arbitrary: n) auto

subsection \<open>Multisets of lists\<close>

lemma mset_filter_subset: "mset (filter P xs) \<subseteq># mset xs"
  by (simp add: mset_filter multiset_filter_subset)

lemma image_mset_filter_subset: "image_mset f (mset (filter P xs)) \<subseteq># image_mset f (mset xs)"
  by (intro image_mset_subseteq_mono mset_filter_subset)

lemma distinct_count_le_1: "distinct xs \<Longrightarrow> count (mset xs) x \<le> 1"
  by (simp add: distinct_count_atmost_1)

end
