(* ===== verification/Go_Strings.thy ===== *)
theory Go_Strings
  imports Prelude
begin

text \<open>
  The part of Go's standard library on strings that the program uses: package
  \<open>strings\<close>, \<open>strconv.Atoi\<close>, \<open>strconv.Itoa\<close> and \<open>fmt.Sscanf("%d")\<close>. A Go string is a
  byte string, so it is a \<open>string\<close> of HOL (each \<open>char\<close> is one byte) and \<open>length\<close> counts
  bytes as \<open>len\<close> does. Case folding and white space are those of ASCII: on text with only
  bytes below 0x80 they are Go's functions; other bytes are left as they are. DNS names,
  record types, SPF terms and header values are ASCII.
\<close>

subsection \<open>Characters\<close>

definition byte :: "char \<Rightarrow> nat" where
  "byte c = of_char c"

definition is_upper :: "char \<Rightarrow> bool" where
  "is_upper c \<longleftrightarrow> 65 \<le> byte c \<and> byte c \<le> 90"

definition is_lower :: "char \<Rightarrow> bool" where
  "is_lower c \<longleftrightarrow> 97 \<le> byte c \<and> byte c \<le> 122"

definition is_digit :: "char \<Rightarrow> bool" where
  "is_digit c \<longleftrightarrow> 48 \<le> byte c \<and> byte c \<le> 57"

definition is_space :: "char \<Rightarrow> bool" where
  "is_space c \<longleftrightarrow> byte c = 32 \<or> (9 \<le> byte c \<and> byte c \<le> 13)"

definition lower_char :: "char \<Rightarrow> char" where
  "lower_char c = (if is_upper c then char_of (byte c + 32) else c)"

definition upper_char :: "char \<Rightarrow> char" where
  "upper_char c = (if is_lower c then char_of (byte c - 32) else c)"

lemma byte_less [simp]: "byte c < 256"
  by (simp add: byte_def)

lemma byte_char_of: "n < 256 \<Longrightarrow> byte (char_of n) = n"
  by (simp add: byte_def)

lemma is_upper_lower_char [simp]: "\<not> is_upper (lower_char c)"
  by (simp add: lower_char_def is_upper_def byte_char_of)

lemma lower_char_idem [simp]: "lower_char (lower_char c) = lower_char c"
  by (simp add: lower_char_def [of "lower_char c"])

lemma is_lower_upper_char [simp]: "\<not> is_lower (upper_char c)"
proof (cases "is_lower c")
  case True
  then have l: "97 \<le> byte c" "byte c \<le> 122" by (simp_all add: is_lower_def)
  with True have "byte (upper_char c) = byte c - 32"
    by (simp add: upper_char_def byte_char_of less_imp_diff_less)
  with l show ?thesis by (simp add: is_lower_def)
next
  case False
  then show ?thesis by (simp add: upper_char_def)
qed

lemma upper_char_idem [simp]: "upper_char (upper_char c) = upper_char c"
  by (simp add: upper_char_def [of "upper_char c"])

lemma lower_char_id [simp]: "\<not> is_upper c \<Longrightarrow> lower_char c = c"
  by (simp add: lower_char_def)

lemma is_space_lower_char [simp]: "is_space (lower_char c) = is_space c"
  by (auto simp: lower_char_def is_space_def is_upper_def byte_char_of)

lemma lower_char_eq_dot_iff: "lower_char c = CHR ''.'' \<longleftrightarrow> c = CHR ''.''"
proof
  assume h: "lower_char c = CHR ''.''"
  show "c = CHR ''.''"
  proof (cases "is_upper c")
    case True
    then have "byte (lower_char c) = byte c + 32"
      by (simp add: lower_char_def byte_char_of is_upper_def)
    with h True show ?thesis by (simp add: is_upper_def byte_def)
  next
    case False
    with h show ?thesis by simp
  qed
next
  assume "c = CHR ''.''"
  then show "lower_char c = CHR ''.''"
    by (simp add: lower_char_def is_upper_def byte_def)
qed

subsection \<open>Case, prefixes and suffixes\<close>

definition ToLower :: "string \<Rightarrow> string" where
  "ToLower s = map lower_char s"

definition ToUpper :: "string \<Rightarrow> string" where
  "ToUpper s = map upper_char s"

definition EqualFold :: "string \<Rightarrow> string \<Rightarrow> bool" where
  "EqualFold a b \<longleftrightarrow> ToLower a = ToLower b"

abbreviation HasPrefix :: "string \<Rightarrow> string \<Rightarrow> bool" where
  "HasPrefix s p \<equiv> prefix p s"

abbreviation HasSuffix :: "string \<Rightarrow> string \<Rightarrow> bool" where
  "HasSuffix s p \<equiv> suffix p s"

definition TrimPrefix :: "string \<Rightarrow> string \<Rightarrow> string" where
  "TrimPrefix s p = (if HasPrefix s p then drop (length p) s else s)"

definition TrimSuffix :: "string \<Rightarrow> string \<Rightarrow> string" where
  "TrimSuffix s p = (if HasSuffix s p then take (length s - length p) s else s)"

definition TrimSpace :: "string \<Rightarrow> string" where
  "TrimSpace s = rev (dropWhile is_space (rev (dropWhile is_space s)))"

lemma ToLower_simps [simp]:
  "ToLower [] = []"
  "ToLower (c # s) = lower_char c # ToLower s"
  "ToLower (s @ t) = ToLower s @ ToLower t"
  "length (ToLower s) = length s"
  "ToLower (ToLower s) = ToLower s"
  "ToLower s = [] \<longleftrightarrow> s = []"
  by (simp_all add: ToLower_def)

lemma ToUpper_simps [simp]:
  "ToUpper [] = []"
  "ToUpper (c # s) = upper_char c # ToUpper s"
  "ToUpper (s @ t) = ToUpper s @ ToUpper t"
  "length (ToUpper s) = length s"
  "ToUpper (ToUpper s) = ToUpper s"
  "ToUpper s = [] \<longleftrightarrow> s = []"
  by (simp_all add: ToUpper_def)

lemma take_ToLower [simp]: "take n (ToLower s) = ToLower (take n s)"
  by (simp add: ToLower_def take_map)

lemma drop_ToLower [simp]: "drop n (ToLower s) = ToLower (drop n s)"
  by (simp add: ToLower_def drop_map)

lemma TrimSuffix_append [simp]: "TrimSuffix (s @ t) t = s"
  by (simp add: TrimSuffix_def suffix_def)

lemma TrimPrefix_append [simp]: "TrimPrefix (p @ s) p = s"
  by (simp add: TrimPrefix_def)

lemma TrimSuffix_prefix: "prefix (TrimSuffix s t) s"
  by (simp add: TrimSuffix_def take_is_prefix)

lemma TrimSuffix_cases: "(\<exists>u. s = u @ t \<and> TrimSuffix s t = u) \<or> (\<not> suffix t s \<and> TrimSuffix s t = s)"
  by (auto simp: TrimSuffix_def suffix_def)

lemma set_TrimSuffix: "set (TrimSuffix s t) \<subseteq> set s"
  by (auto simp: TrimSuffix_def dest: in_set_takeD)

lemma EqualFold_refl [simp]: "EqualFold a a"
  by (simp add: EqualFold_def)

lemma EqualFold_sym: "EqualFold a b \<Longrightarrow> EqualFold b a"
  by (simp add: EqualFold_def)

lemma EqualFold_trans: "EqualFold a b \<Longrightarrow> EqualFold b c \<Longrightarrow> EqualFold a c"
  by (simp add: EqualFold_def)

subsection \<open>Trimming white space\<close>

definition trimmed :: "string \<Rightarrow> bool" where
  "trimmed s \<longleftrightarrow> s = [] \<or> (\<not> is_space (hd s) \<and> \<not> is_space (last s))"

lemma hd_dropWhile_not: "dropWhile P xs \<noteq> [] \<Longrightarrow> \<not> P (hd (dropWhile P xs))"
  by (induction xs) auto

lemma last_rev_dropWhile: "rev (dropWhile P (rev xs)) \<noteq> [] \<Longrightarrow> \<not> P (last (rev (dropWhile P (rev xs))))"
  by (simp add: last_rev hd_dropWhile_not)

lemma hd_rev_dropWhile_rev: "rev (dropWhile P (rev xs)) \<noteq> [] \<Longrightarrow> hd (rev (dropWhile P (rev xs))) = hd xs"
proof -
  assume ne: "rev (dropWhile P (rev xs)) \<noteq> []"
  have "rev xs = takeWhile P (rev xs) @ dropWhile P (rev xs)" by simp
  then have "xs = rev (dropWhile P (rev xs)) @ rev (takeWhile P (rev xs))"
    by (metis rev_append rev_rev_ident)
  with ne show ?thesis by (metis hd_append2)
qed

lemma trimmed_TrimSpace [simp, intro]: "trimmed (TrimSpace s)"
proof (cases "TrimSpace s = []")
  case True
  then show ?thesis by (simp add: trimmed_def)
next
  case False
  let ?d = "dropWhile is_space s"
  have ne: "rev (dropWhile is_space (rev ?d)) \<noteq> []" using False by (simp add: TrimSpace_def)
  then have "?d \<noteq> []" by (metis dropWhile.simps(1) rev.simps(1))
  then have "\<not> is_space (hd ?d)" by (rule hd_dropWhile_not)
  with hd_rev_dropWhile_rev [OF ne] last_rev_dropWhile [OF ne] show ?thesis
    by (simp add: trimmed_def TrimSpace_def)
qed

lemma TrimSpace_id: "trimmed s \<Longrightarrow> TrimSpace s = s"
proof (cases "s = []")
  case True
  then show ?thesis by (simp add: TrimSpace_def)
next
  case False
  assume "trimmed s"
  with False have h: "\<not> is_space (hd s)" "\<not> is_space (hd (rev s))"
    by (auto simp: trimmed_def hd_rev)
  from h(1) False have 1: "dropWhile is_space s = s" by (cases s) auto
  from h(2) False have "dropWhile is_space (rev s) = rev s" by (cases "rev s") auto
  with 1 show ?thesis by (simp add: TrimSpace_def)
qed

lemma TrimSpace_idem [simp]: "TrimSpace (TrimSpace s) = TrimSpace s"
  by (rule TrimSpace_id) simp

lemma set_TrimSpace: "set (TrimSpace s) \<subseteq> set s"
proof
  fix c
  assume "c \<in> set (TrimSpace s)"
  then have "c \<in> set (dropWhile is_space (rev (dropWhile is_space s)))" by (simp add: TrimSpace_def)
  then show "c \<in> set s" by (metis set_dropWhileD set_rev)
qed

subsection \<open>Searching\<close>

fun Index :: "string \<Rightarrow> string \<Rightarrow> nat option" where
  "Index [] p = (if p = [] then Some 0 else None)"
| "Index (c # s) p = (if prefix p (c # s) then Some 0 else map_option Suc (Index s p))"

definition Contains :: "string \<Rightarrow> string \<Rightarrow> bool" where
  "Contains s p \<longleftrightarrow> Index s p \<noteq> None"

definition ContainsAny :: "string \<Rightarrow> string \<Rightarrow> bool" where
  "ContainsAny s cs \<longleftrightarrow> (\<exists>c \<in> set s. c \<in> set cs)"

definition CountChar :: "string \<Rightarrow> char \<Rightarrow> nat" where
  "CountChar s c = length (filter ((=) c) s)"

lemma Index_SomeD: "Index s p = Some i \<Longrightarrow> i \<le> length s \<and> prefix p (drop i s)"
  by (induction s arbitrary: i) (auto split: if_splits)

lemma Index_Some_split:
  assumes "Index s p = Some i"
  shows "s = take i s @ p @ drop (i + length p) s"
proof -
  obtain t where t: "drop i s = p @ t" using Index_SomeD [OF assms] by (auto simp: prefix_def)
  then have "drop (length p) (drop i s) = t" by simp
  then have "t = drop (i + length p) s" by (simp add: add.commute)
  with t show ?thesis by (metis append_take_drop_id)
qed

lemma Index_None_iff: "Index s p = None \<longleftrightarrow> \<not> sublist p s"
  by (induction s) (auto simp: sublist_Cons_right)

lemma Contains_sublist [go_simps]: "Contains s p \<longleftrightarrow> sublist p s"
  by (simp add: Contains_def Index_None_iff del: not_None_eq)

lemma Contains_Cons: "Contains (c # s) p \<longleftrightarrow> HasPrefix (c # s) p \<or> Contains s p"
  by (auto simp: Contains_def)

lemma Contains_empty [simp]: "Contains s []"
  by (simp add: Contains_sublist)

lemma Contains_single [simp]: "Contains s [c] \<longleftrightarrow> c \<in> set s"
  by (simp add: Contains_sublist sublist_def in_set_conv_decomp)

text \<open>A pattern that avoids \<open>c\<close> does not straddle a position that holds \<open>c\<close>.\<close>

lemma sublist_around:
  assumes "c \<notin> set p" and "p \<noteq> []"
  shows "sublist p (a @ c # b) \<longleftrightarrow> sublist p a \<or> sublist p b"
proof
  assume "sublist p (a @ c # b)"
  then obtain u v where e: "a @ c # b = u @ p @ v" by (auto simp: sublist_def)
  show "sublist p a \<or> sublist p b"
  proof (cases "length a < length u")
    case True
    then obtain w where "u = a @ c # w" using e
      by (metis append_eq_append_conv_if append_eq_conv_conj drop_eq_Nil2 leD list.exhaust
          list.inject not_less_iff_gr_or_eq less_imp_le_nat append_Cons append_take_drop_id
          Cons_nth_drop_Suc take_hd_drop)
    with e have "b = w @ p @ v" by simp
    then show ?thesis by (auto simp: sublist_def)
  next
    case False
    then obtain w where w: "a = u @ w" using e
      by (metis append_eq_append_conv_if not_less append_eq_conv_conj)
    with e have e2: "w @ c # b = p @ v" by simp
    have "length p \<le> length w"
    proof (rule ccontr)
      assume "\<not> length p \<le> length w"
      then have "(p @ v) ! length w = p ! length w" and "length w < length p"
        by (simp_all add: nth_append)
      moreover have "(w @ c # b) ! length w = c" by simp
      ultimately have "p ! length w = c" and "length w < length p" using e2 by auto
      with assms(1) show False by (metis nth_mem)
    qed
    with e2 obtain x where "w = p @ x"
      by (metis append_eq_append_conv_if append_eq_conv_conj)
    with w show ?thesis by (auto simp: sublist_def)
  qed
next
  show "sublist p a \<or> sublist p b \<Longrightarrow> sublist p (a @ c # b)"
    by (metis append_Cons append_Nil append_assoc sublist_def sublist_appendI sublist_order.order.trans)
qed

subsection \<open>Splitting and joining\<close>

fun split_where :: "(char \<Rightarrow> bool) \<Rightarrow> string \<Rightarrow> string list" where
  "split_where P [] = [[]]"
| "split_where P (c # s) =
     (if P c then [] # split_where P s
      else (case split_where P s of [] \<Rightarrow> [[c]] | w # ws \<Rightarrow> (c # w) # ws))"

text \<open>\<open>strings.Split\<close> with a one-byte separator, \<open>strings.Fields\<close> and \<open>strings.SplitN\<close> with
  two or three parts.\<close>

definition Split :: "string \<Rightarrow> char \<Rightarrow> string list" where
  "Split s c = split_where ((=) c) s"

definition Fields :: "string \<Rightarrow> string list" where
  "Fields s = filter (\<lambda>w. w \<noteq> []) (split_where is_space s)"

definition SplitN2 :: "string \<Rightarrow> char \<Rightarrow> string list" where
  "SplitN2 s c = (case Index s [c] of None \<Rightarrow> [s] | Some i \<Rightarrow> [take i s, drop (Suc i) s])"

fun SplitN3 :: "string \<Rightarrow> char \<Rightarrow> string list" where
  "SplitN3 s c = (case SplitN2 s c of [a, b] \<Rightarrow> a # SplitN2 b c | ws \<Rightarrow> ws)"

fun Join :: "string list \<Rightarrow> string \<Rightarrow> string" where
  "Join [] sep = []"
| "Join [w] sep = w"
| "Join (w # v # ws) sep = w @ sep @ Join (v # ws) sep"

text \<open>\<open>strings.ReplaceAll\<close> of a single byte.\<close>

definition ReplaceChar :: "char \<Rightarrow> string \<Rightarrow> string \<Rightarrow> string" where
  "ReplaceChar c w s = concat (map (\<lambda>d. if d = c then w else [d]) s)"

abbreviation "backslash \<equiv> char_of (92 :: nat)"
abbreviation "dquote \<equiv> char_of (34 :: nat)"
abbreviation "newline \<equiv> char_of (10 :: nat)"

lemma ReplaceChar_simps [simp]:
  "ReplaceChar c w [] = []" "ReplaceChar c w (d # s) = (if d = c then w else [d]) @ ReplaceChar c w s"
  "ReplaceChar c w (s @ t) = ReplaceChar c w s @ ReplaceChar c w t"
  by (simp_all add: ReplaceChar_def)

lemma char_codes [simp]: "backslash \<noteq> dquote" "backslash \<noteq> newline" "dquote \<noteq> newline" "dquote \<noteq> backslash"
  "newline \<noteq> backslash" "newline \<noteq> dquote" "CHR ''n'' \<noteq> newline" "CHR ''n'' \<noteq> dquote" "CHR ''n'' \<noteq> backslash"
  "newline \<noteq> CHR ''n''" "dquote \<noteq> CHR ''n''" "backslash \<noteq> CHR ''n''"
  by code_simp+

lemma split_where_nonempty [simp]: "split_where P s \<noteq> []"
  by (cases s) (auto split: list.splits)

lemma split_where_Cons: "\<not> P c \<Longrightarrow>
  split_where P (c # s) = (c # hd (split_where P s)) # tl (split_where P s)"
  using split_where_nonempty [of P s] by (auto split: list.splits)

lemma split_where_no_sep: "w \<in> set (split_where P s) \<Longrightarrow> c \<in> set w \<Longrightarrow> \<not> P c"
proof (induction s arbitrary: w)
  case Nil
  then show ?case by simp
next
  case (Cons d s)
  show ?case
  proof (cases "P d")
    case True
    with Cons show ?thesis by auto
  next
    case False
    obtain v vs where v: "split_where P s = v # vs"
      by (metis neq_Nil_conv split_where_nonempty)
    from False Cons.prems(1) v consider "w = d # v" | "w \<in> set vs" by auto
    then show ?thesis
    proof cases
      case 1
      with False Cons.prems(2) Cons.IH [of v] v show ?thesis by auto
    next
      case 2
      with Cons.prems(2) Cons.IH [of w] v show ?thesis by auto
    qed
  qed
qed

lemma split_where_chars: "set s = (\<Union>w \<in> set (split_where P s). set w) \<union> {c \<in> set s. P c}"
proof (induction s)
  case Nil
  then show ?case by simp
next
  case (Cons d s)
  obtain v vs where v: "split_where P s = v # vs"
    by (metis neq_Nil_conv split_where_nonempty)
  from Cons show ?case by (cases "P d") (auto simp: v)
qed

lemma split_where_append:
  "P c \<Longrightarrow> split_where P (a @ c # b) = split_where P a @ split_where P b"
proof (induction a)
  case Nil
  then show ?case by simp
next
  case (Cons d a)
  obtain v vs where "split_where P a = v # vs"
    by (metis neq_Nil_conv split_where_nonempty)
  with Cons show ?case by simp
qed

lemma split_where_id: "(\<forall>c \<in> set s. \<not> P c) \<Longrightarrow> split_where P s = [s]"
  by (induction s) auto

lemma Fields_append_space: "is_space c \<Longrightarrow> Fields (a @ c # b) = Fields a @ Fields b"
  by (simp add: Fields_def split_where_append)

lemma Fields_no_space: "s \<noteq> [] \<Longrightarrow> (\<forall>c \<in> set s. \<not> is_space c) \<Longrightarrow> Fields s = [s]"
  by (simp add: Fields_def split_where_id)

lemma Fields_Nil [simp]: "Fields [] = []"
  by (simp add: Fields_def)

lemma Fields_nonempty: "w \<in> set (Fields s) \<Longrightarrow> w \<noteq> []"
  by (simp add: Fields_def)

lemma Fields_no_space_in: "w \<in> set (Fields s) \<Longrightarrow> c \<in> set w \<Longrightarrow> \<not> is_space c"
  by (auto simp: Fields_def dest: split_where_no_sep)

lemma Split_nonempty [simp]: "Split s c \<noteq> []"
  by (simp add: Split_def)

lemma Split_no_sep: "w \<in> set (Split s c) \<Longrightarrow> c \<notin> set w"
  by (auto simp: Split_def dest: split_where_no_sep)

lemma Split_set: "set s \<subseteq> insert c (\<Union>w \<in> set (Split s c). set w)"
  using split_where_chars [of s "(=) c"] by (auto simp: Split_def)

lemma Split_id: "c \<notin> set s \<Longrightarrow> Split s c = [s]"
  by (auto simp: Split_def intro: split_where_id)

lemma Split_append: "Split (a @ c # b) c = Split a c @ Split b c"
  by (simp add: Split_def split_where_append)

lemma Join_Cons: "ws \<noteq> [] \<Longrightarrow> Join (w # ws) sep = w @ sep @ Join ws sep"
  by (cases ws) auto

lemma Join_Split: "Join (Split s c) [c] = s"
proof (induction s)
  case Nil
  then show ?case by (simp add: Split_def)
next
  case (Cons d s)
  obtain v vs where v: "split_where ((=) c) s = v # vs"
    by (metis neq_Nil_conv split_where_nonempty)
  from Cons show ?case by (cases vs; cases "c = d") (auto simp: Split_def Join_Cons v)
qed

lemma Split_Join: "ws \<noteq> [] \<Longrightarrow> (\<forall>w \<in> set ws. c \<notin> set w) \<Longrightarrow> Split (Join ws [c]) c = ws"
proof (induction ws)
  case Nil
  then show ?case by simp
next
  case (Cons w ws)
  then show ?case by (cases "ws = []") (auto simp: Join_Cons Split_append Split_id)
qed

lemma Index_first: "c \<notin> set a \<Longrightarrow> Index (a @ c # b) [c] = Some (length a)"
  by (induction a) auto

lemma SplitN2_first: "c \<notin> set a \<Longrightarrow> SplitN2 (a @ c # b) c = [a, b]"
  by (simp add: SplitN2_def Index_first)

lemma SplitN2_two: "c \<in> set k \<Longrightarrow> \<exists>a b. SplitN2 k c = [a, b] \<and> k = a @ c # b \<and> c \<notin> set a"
  by (metis split_list_first SplitN2_first)

subsection \<open>Integers in decimal\<close>

definition int64_min :: int where "int64_min = - (2 ^ 63)"

definition int64_max :: int where "int64_max = 2 ^ 63 - 1"

definition dec_value :: "string \<Rightarrow> int" where
  "dec_value s = foldl (\<lambda>n c. 10 * n + (int (byte c) - 48)) 0 s"

definition in_int64 :: "int \<Rightarrow> int option" where
  "in_int64 n = (if int64_min \<le> n \<and> n \<le> int64_max then Some n else None)"

definition split_sign :: "string \<Rightarrow> bool \<times> string" where
  "split_sign s = (case s of
      c # t \<Rightarrow> if c = CHR ''-'' then (True, t) else if c = CHR ''+'' then (False, t) else (False, s)
    | [] \<Rightarrow> (False, []))"

text \<open>\<open>strconv.Atoi\<close>: an optional sign and one or more digits, within \<open>int64\<close>.\<close>

definition Atoi :: "string \<Rightarrow> int option" where
  "Atoi s = (let (neg, d) = split_sign s in
     if d = [] \<or> \<not> list_all is_digit d then None
     else in_int64 (if neg then - dec_value d else dec_value d))"

text \<open>
  \<open>fmt.Sscanf(s, "%d", &n)\<close>: leading spaces are skipped (a newline is an error), then an
  optional sign and the longest run of digits; what follows is not looked at.
\<close>

definition Sscanf_d :: "string \<Rightarrow> int option" where
  "Sscanf_d s =
     (let t = dropWhile (\<lambda>c. is_space c \<and> c \<noteq> CHR 0x0A) s;
          (neg, d) = split_sign t;
          ds = takeWhile is_digit d
      in if ds = [] then None
         else in_int64 (if neg then - dec_value ds else dec_value ds))"

fun nat_digits :: "nat \<Rightarrow> string" where
  "nat_digits n = (if n < 10 then [char_of (48 + n)] else nat_digits (n div 10) @ [char_of (48 + n mod 10)])"

declare nat_digits.simps [simp del]

definition Itoa :: "int \<Rightarrow> string" where
  "Itoa n = (if n < 0 then CHR ''-'' # nat_digits (nat (- n)) else nat_digits (nat n))"

lemma dec_value_snoc: "dec_value (s @ [c]) = 10 * dec_value s + (int (byte c) - 48)"
  by (simp add: dec_value_def)

lemma digit_char: "d < 10 \<Longrightarrow> is_digit (char_of (48 + d)) \<and> byte (char_of (48 + d)) = 48 + d"
  by (simp add: is_digit_def byte_char_of)

lemma nat_digits_ok: "nat_digits n \<noteq> [] \<and> list_all is_digit (nat_digits n) \<and> dec_value (nat_digits n) = int n"
proof (induction n rule: nat_digits.induct)
  case (1 n)
  show ?case
  proof (cases "n < 10")
    case True
    then show ?thesis
      using digit_char [of n] by (simp add: nat_digits.simps [of n] dec_value_def)
  next
    case False
    have "10 * int (n div 10) + int (n mod 10) = int n" by presburger
    with False 1 digit_char [of "n mod 10"] show ?thesis
      by (simp add: nat_digits.simps [of n] dec_value_snoc)
  qed
qed

lemma is_digit_not_sign: "is_digit c \<Longrightarrow> c \<noteq> CHR ''-'' \<and> c \<noteq> CHR ''+''"
  by (auto simp: is_digit_def byte_def)

lemma split_sign_digits: "list_all is_digit d \<Longrightarrow> split_sign d = (False, d)"
  by (cases d) (auto simp: split_sign_def dest: is_digit_not_sign)

lemma Atoi_digits:
  "d \<noteq> [] \<Longrightarrow> list_all is_digit d \<Longrightarrow> Atoi d = in_int64 (dec_value d)"
  by (simp add: Atoi_def split_sign_digits)

lemma Atoi_Itoa: "int64_min \<le> n \<Longrightarrow> n \<le> int64_max \<Longrightarrow> Atoi (Itoa n) = Some n"
proof (cases "n < 0")
  case True
  assume "int64_min \<le> n" "n \<le> int64_max"
  with True nat_digits_ok [of "nat (- n)"] show ?thesis
    by (simp add: Atoi_def Itoa_def in_int64_def split_sign_def)
next
  case False
  assume "int64_min \<le> n" "n \<le> int64_max"
  with False nat_digits_ok [of "nat n"] show ?thesis
    by (simp add: Atoi_digits Itoa_def in_int64_def)
qed

end
