(* ===== verification/Dns_Types.thy ===== *)
theory Dns_Types
  imports Go_Strings
begin

text \<open>
  The shared data of the library (\<open>entree.go\<close>): DNS records, zones and credentials, with
  their Go fields. The \<open>DC\<close> map holds interface values; the code only ever reads strings
  out of it with a type assertion, so a value is a string or something else. A nil map is
  \<open>None\<close>. \<open>int\<close> fields are \<open>int\<close>: the code does no arithmetic on them.
\<close>

datatype dc_value = DCStr string | DCOther

record Record =
  recID :: string
  recType :: string
  recName :: string
  recContent :: string
  recTTL :: int
  recPriority :: int
  recWeight :: int
  recPort :: int
  recService :: string
  recProtocol :: string
  recDC :: "(string \<times> dc_value) list option"

definition empty_record :: Record where
  "empty_record = \<lparr>recID = [], recType = [], recName = [], recContent = [], recTTL = 0,
     recPriority = 0, recWeight = 0, recPort = 0, recService = [], recProtocol = [], recDC = None\<rparr>"

text \<open>The composite literals \<open>Record{Type: t, Name: n, Content: c, TTL: ttl}\<close> of the code.\<close>

definition mk_record :: "string \<Rightarrow> string \<Rightarrow> string \<Rightarrow> int \<Rightarrow> Record" where
  "mk_record t n c ttl = empty_record\<lparr>recType := t, recName := n, recContent := c, recTTL := ttl\<rparr>"

lemma mk_record_sel [simp]:
  "recID (mk_record t n c ttl) = []"
  "recType (mk_record t n c ttl) = t"
  "recName (mk_record t n c ttl) = n"
  "recContent (mk_record t n c ttl) = c"
  "recTTL (mk_record t n c ttl) = ttl"
  "recPriority (mk_record t n c ttl) = 0"
  "recWeight (mk_record t n c ttl) = 0"
  "recPort (mk_record t n c ttl) = 0"
  "recService (mk_record t n c ttl) = []"
  "recProtocol (mk_record t n c ttl) = []"
  "recDC (mk_record t n c ttl) = None"
  by (simp_all add: mk_record_def empty_record_def)

record Zone =
  zoneID :: string
  zoneName :: string
  zoneStatus :: string

record Credentials =
  crAPIToken :: string
  crAPIKey :: string
  crAPISecret :: string
  crAccessKey :: string
  crSecretKey :: string
  crRegion :: string
  crToken :: string
  crProjectID :: string
  crAPIUser :: string
  crUsername :: string
  crClientIP :: string

definition empty_credentials :: Credentials where
  "empty_credentials = \<lparr>crAPIToken = [], crAPIKey = [], crAPISecret = [], crAccessKey = [],
     crSecretKey = [], crRegion = [], crToken = [], crProjectID = [], crAPIUser = [],
     crUsername = [], crClientIP = []\<rparr>"

text \<open>\<open>ProviderType\<close> is a string type; these are its named constants.\<close>

abbreviation "ProviderCloudflare \<equiv> ''cloudflare''"
abbreviation "ProviderRoute53 \<equiv> ''route53''"
abbreviation "ProviderGoDaddy \<equiv> ''godaddy''"
abbreviation "ProviderGoogleCloudDNS \<equiv> ''google_cloud_dns''"

text \<open>The first record with a given name (\<open>findRecord\<close> in push.go).\<close>

fun findRecord :: "Record list \<Rightarrow> string \<Rightarrow> Record option" where
  "findRecord [] name = None"
| "findRecord (r # rs) name = (if recName r = name then Some r else findRecord rs name)"

lemma findRecord_Some: "findRecord rs name = Some r \<Longrightarrow> r \<in> set rs \<and> recName r = name"
  by (induction rs) (auto split: if_splits)

lemma findRecord_None_iff: "findRecord rs name = None \<longleftrightarrow> (\<forall>r \<in> set rs. recName r \<noteq> name)"
  by (induction rs) auto

lemma findRecord_append:
  "findRecord (rs @ ss) name = (case findRecord rs name of Some r \<Rightarrow> Some r | None \<Rightarrow> findRecord ss name)"
  by (induction rs) auto

end
