(* ===== verification/Template_Types.thy ===== *)
theory Template_Types
  imports Dns_Types
begin

text \<open>
  Domain Connect templates (\<open>template/template.go\<close>): the template records, the lenient
  integers \<open>flexInt\<close>, and the \<open>%name%\<close> variable substitution that resolve.go and process.go
  share. Go's \<open>regexp\<close> on \<open>%([a-zA-Z0-9_-]+)%\<close> is the scanner \<open>scan_vars\<close>: leftmost, greedy,
  non-overlapping matches. An error value carries the record index and the constant part of the
  code's message.
\<close>

datatype tmpl_error =
    InvalidData nat string
  | MissingParameter nat string string
  | InvalidTemplate nat string
  | TypeErr nat string
  | InvalidSignature string
  | PlainError nat string string

record flexInt =
  fxValue :: int
  fxRaw :: string

record TemplateRecord =
  trType :: string
  trHost :: string
  trPointsTo :: string
  trTarget :: string
  trData :: string
  trTTL :: flexInt
  trGroupID :: string
  trEssential :: string
  trTxtConflictMatchingMode :: string
  trTxtConflictMatchingPrefix :: string
  trPriority :: flexInt
  trWeight :: flexInt
  trPort :: flexInt
  trService :: string
  trProtocol :: string

record Template =
  tplProviderID :: string
  tplProviderName :: string
  tplServiceID :: string
  tplServiceName :: string
  tplVersion :: int
  tplLogoURL :: string
  tplDescription :: string
  tplVariableDescription :: string
  tplSyncPubKeyDomain :: string
  tplSyncRedirectDomain :: string
  tplMultiInstance :: bool
  tplHostRequired :: bool
  tplRecords :: "TemplateRecord list"

definition zero_flexInt :: flexInt where
  "zero_flexInt = \<lparr>fxValue = 0, fxRaw = []\<rparr>"

definition empty_template_record :: TemplateRecord where
  "empty_template_record = \<lparr>trType = [], trHost = [], trPointsTo = [], trTarget = [], trData = [],
     trTTL = zero_flexInt, trGroupID = [], trEssential = [], trTxtConflictMatchingMode = [],
     trTxtConflictMatchingPrefix = [], trPriority = zero_flexInt, trWeight = zero_flexInt,
     trPort = zero_flexInt, trService = [], trProtocol = []\<rparr>"

type_synonym vars = "string \<rightharpoonup> string"

subsection \<open>The variable scanner\<close>

datatype vtoken = Lit char | Var string

definition var_char :: "char \<Rightarrow> bool" where
  "var_char c \<longleftrightarrow> is_upper c \<or> is_lower c \<or> is_digit c \<or> c = CHR ''_'' \<or> c = CHR ''-''"

definition var_at :: "string \<Rightarrow> (string \<times> string) option" where
  "var_at s = (case s of
      [] \<Rightarrow> None
    | c # t \<Rightarrow>
        (let name = takeWhile var_char t; rest = dropWhile var_char t in
         if c = CHR ''%'' \<and> name \<noteq> [] \<and> rest \<noteq> [] \<and> hd rest = CHR ''%''
         then Some (name, tl rest) else None))"

lemma var_at_Some:
  assumes "var_at s = Some (name, rest)"
  shows "s = CHR ''%'' # name @ CHR ''%'' # rest \<and> name \<noteq> [] \<and> (\<forall>c \<in> set name. var_char c)"
proof -
  obtain c t where s: "s = c # t" using assms by (cases s) (auto simp: var_at_def)
  with assms have h: "c = CHR ''%''" "name = takeWhile var_char t" "name \<noteq> []"
    "dropWhile var_char t \<noteq> []" "hd (dropWhile var_char t) = CHR ''%''" "rest = tl (dropWhile var_char t)"
    by (auto simp: var_at_def Let_def split: if_splits)
  from h(4-6) have "dropWhile var_char t = CHR ''%'' # rest" by (metis list.collapse)
  then have t: "t = name @ CHR ''%'' # rest" using h(2) by (metis takeWhile_dropWhile_id)
  have ch: "\<forall>c \<in> set name. var_char c" unfolding h(2) by (blast dest: set_takeWhileD)
  from s t h(1,3) ch show ?thesis by simp
qed

lemma var_at_length: "var_at s = Some (name, rest) \<Longrightarrow> length rest < length s"
proof -
  assume "var_at s = Some (name, rest)"
  then have "s = CHR ''%'' # name @ CHR ''%'' # rest" by (blast dest: var_at_Some)
  then show ?thesis by simp
qed

function scan_vars :: "string \<Rightarrow> vtoken list" where
  "scan_vars s = (case s of
      [] \<Rightarrow> []
    | c # t \<Rightarrow> (case var_at s of
          Some (name, rest) \<Rightarrow> Var name # scan_vars rest
        | None \<Rightarrow> Lit c # scan_vars t))"
  by pat_completeness auto
termination
  by (relation "measure length") (auto dest: var_at_length)

declare scan_vars.simps [simp del]

fun render_token :: "vtoken \<Rightarrow> string" where
  "render_token (Lit c) = [c]"
| "render_token (Var n) = CHR ''%'' # n @ ''%''"

definition var_names :: "string \<Rightarrow> string list" where
  "var_names s = concat (map (\<lambda>t. case t of Var n \<Rightarrow> [n] | Lit c \<Rightarrow> []) (scan_vars s))"

lemma scan_vars_Nil [simp]: "scan_vars [] = []"
  by (simp add: scan_vars.simps)

lemma scan_vars_Cons:
  "scan_vars (c # t) = (case var_at (c # t) of
      Some (name, rest) \<Rightarrow> Var name # scan_vars rest | None \<Rightarrow> Lit c # scan_vars t)"
  by (simp add: scan_vars.simps [of "c # t"])

lemma render_scan: "concat (map render_token (scan_vars s)) = s"
proof (induction s rule: scan_vars.induct)
  case (1 s)
  show ?case
  proof (cases s)
    case Nil
    then show ?thesis by simp
  next
    case (Cons c t)
    show ?thesis
    proof (cases "var_at s")
      case None
      with 1 Cons show ?thesis by (simp add: scan_vars_Cons)
    next
      case (Some nr)
      obtain n r where nr: "nr = (n, r)" by (cases nr)
      with Some have "s = CHR ''%'' # n @ CHR ''%'' # r" by (auto dest: var_at_Some)
      with 1(2) [OF Cons Some nr [symmetric]] Cons Some nr show ?thesis by (simp add: scan_vars_Cons)
    qed
  qed
qed

lemma scan_no_percent: "CHR ''%'' \<notin> set s \<Longrightarrow> scan_vars s = map Lit s"
proof (induction s)
  case (Cons c t)
  then have "var_at (c # t) = None" by (auto simp: var_at_def)
  with Cons show ?case by (simp add: scan_vars_Cons)
qed simp

lemma var_names_no_percent: "CHR ''%'' \<notin> set s \<Longrightarrow> var_names s = []"
  by (induction s) (simp_all add: var_names_def scan_no_percent)

subsection \<open>Substitution\<close>

text \<open>\<open>ReplaceAllStringFunc\<close> with the closure of \<open>substitute\<close>: the first missing name is kept,
  and an unresolved token stays in the output.\<close>

fun subst_tokens :: "vars \<Rightarrow> vtoken list \<Rightarrow> string option \<times> string" where
  "subst_tokens vs [] = (None, [])"
| "subst_tokens vs (Lit c # ts) = (case subst_tokens vs ts of (m, out) \<Rightarrow> (m, c # out))"
| "subst_tokens vs (Var n # ts) =
     (case subst_tokens vs ts of (m, out) \<Rightarrow>
       (case vs n of Some v \<Rightarrow> (m, v @ out) | None \<Rightarrow> (Some n, render_token (Var n) @ out)))"

definition substitute :: "string \<Rightarrow> vars \<Rightarrow> nat \<Rightarrow> string \<Rightarrow> tmpl_error + string" where
  "substitute s vs recIdx field =
     (case subst_tokens vs (scan_vars s) of
        (Some n, _) \<Rightarrow> Inl (PlainError recIdx field ''missing variable'')
      | (None, out) \<Rightarrow> Inr out)"

definition processSubstitute :: "string \<Rightarrow> vars \<Rightarrow> nat \<Rightarrow> string \<Rightarrow> tmpl_error + string" where
  "processSubstitute s vs recIdx field =
     (if s = [] then Inr []
      else (case subst_tokens vs (scan_vars s) of
              (Some n, _) \<Rightarrow> Inl (MissingParameter recIdx field n)
            | (None, out) \<Rightarrow> Inr out))"

definition expand_token :: "vars \<Rightarrow> vtoken \<Rightarrow> string" where
  "expand_token vs t = (case t of Lit c \<Rightarrow> [c] | Var n \<Rightarrow> (case vs n of Some v \<Rightarrow> v | None \<Rightarrow> render_token t))"

lemma subst_tokens_spec:
  "subst_tokens vs ts = (find (\<lambda>n. vs n = None) (concat (map (\<lambda>t. case t of Var n \<Rightarrow> [n] | Lit c \<Rightarrow> []) ts)),
     concat (map (expand_token vs) ts))"
  by (induction ts rule: subst_tokens.induct) (auto simp: expand_token_def split: option.splits)

lemma processSubstitute_spec:
  "processSubstitute s vs i f =
     (case find (\<lambda>n. vs n = None) (var_names s) of
        Some n \<Rightarrow> Inl (MissingParameter i f n)
      | None \<Rightarrow> Inr (concat (map (expand_token vs) (scan_vars s))))"
  by (auto simp: processSubstitute_def subst_tokens_spec var_names_def split: option.splits)

lemma substitute_Inr_iff:
  "substitute s vs i f = Inr out \<longleftrightarrow> processSubstitute s vs j g = Inr out"
  by (auto simp: processSubstitute_spec substitute_def subst_tokens_spec var_names_def split: option.splits)

lemma processSubstitute_id:
  "CHR ''%'' \<notin> set s \<Longrightarrow> processSubstitute s vs i f = Inr s"
  by (simp add: processSubstitute_spec var_names_no_percent scan_no_percent)
     (induction s, simp_all add: expand_token_def)

text \<open>\<open>checkUnclosedVar\<close>: drop the matched tokens, then look for a lone percent sign.\<close>

definition remove_vars :: "string \<Rightarrow> string" where
  "remove_vars s = concat (map (\<lambda>t. case t of Lit c \<Rightarrow> [c] | Var n \<Rightarrow> []) (scan_vars s))"

definition checkUnclosedVar :: "string \<Rightarrow> string option" where
  "checkUnclosedVar s =
     (if s = [] then None
      else let cleaned = remove_vars s in
        (case Index cleaned ''%'' of
           None \<Rightarrow> None
         | Some idx \<Rightarrow>
             (if \<not> Contains (drop (idx + 1) cleaned) ''%'' then Some ''unclosed variable token'' else None)))"

lemma CountChar_simps [simp]:
  "CountChar [] c = 0"
  "CountChar (d # s) c = (if c = d then Suc (CountChar s c) else CountChar s c)"
  by (simp_all add: CountChar_def)

lemma CountChar_0_iff [simp]: "CountChar s c = 0 \<longleftrightarrow> c \<notin> set s"
  by (induction s) auto

lemma Index_char_count:
  "(\<exists>i. Index s [c] = Some i \<and> c \<notin> set (drop (Suc i) s)) \<longleftrightarrow> CountChar s c = 1"
  by (induction s) auto

subsection \<open>Lenient integers\<close>

definition single_var :: "string \<Rightarrow> bool" where
  "single_var s = (case var_at s of Some (n, rest) \<Rightarrow> rest = [] | None \<Rightarrow> False)"

definition unquote :: "string \<Rightarrow> string" where
  "unquote s = (if 2 \<le> length s \<and> hd s = CHR 0x22 \<and> last s = CHR 0x22 then butlast (tl s) else s)"

definition flexInt_UnmarshalJSON :: "flexInt \<Rightarrow> string \<Rightarrow> string + flexInt" where
  "flexInt_UnmarshalJSON f b =
     (if b = [] \<or> b = ''null'' then Inr zero_flexInt
      else let s = unquote b in
        if s = [] then Inr zero_flexInt
        else if Contains s ''%'' then Inr (f\<lparr>fxRaw := s, fxValue := 0\<rparr>)
        else (case Sscanf_d s of
                None \<Rightarrow> Inl ''template: invalid integer''
              | Some n \<Rightarrow> Inr (f\<lparr>fxValue := n, fxRaw := []\<rparr>)))"

definition flexInt_resolve :: "flexInt \<Rightarrow> vars \<Rightarrow> nat \<Rightarrow> string \<Rightarrow> tmpl_error + int" where
  "flexInt_resolve f vs recIdx field =
     (if fxRaw f = [] then Inr (fxValue f)
      else if Contains (fxRaw f) ''%'' \<and> \<not> single_var (fxRaw f) then Inl (InvalidData recIdx field)
      else bindE (substitute (fxRaw f) vs recIdx field) (\<lambda>sub.
        if sub = [] then Inr 0
        else (case Sscanf_d sub of
                None \<Rightarrow> Inl (PlainError recIdx field ''invalid integer after substitution'')
              | Some n \<Rightarrow> Inr n)))"

lemma Sscanf_d_Itoa: "int64_min \<le> n \<Longrightarrow> n \<le> int64_max \<Longrightarrow> Sscanf_d (Itoa n) = Some n"
proof -
  assume r: "int64_min \<le> n" "n \<le> int64_max"
  have nsp: "dropWhile (\<lambda>c. is_space c \<and> c \<noteq> CHR 0x0A) (Itoa n) = Itoa n"
    using nat_digits_ok [of "nat n"]
    by (cases "nat_digits (nat n)") (auto simp: Itoa_def is_digit_def is_space_def byte_def)
  have tw: "takeWhile is_digit (nat_digits k) = nat_digits k" for k
    using nat_digits_ok [of k] by (metis list_all_iff takeWhile_eq_all_conv)
  show ?thesis
  proof (cases "n < 0")
    case True
    then have "split_sign (Itoa n) = (True, nat_digits (nat (- n)))"
      by (simp add: Itoa_def split_sign_def)
    with r True nsp nat_digits_ok [of "nat (- n)"] show ?thesis
      by (simp add: Sscanf_d_def in_int64_def Let_def tw)
  next
    case False
    then have "split_sign (Itoa n) = (False, Itoa n)"
      using nat_digits_ok [of "nat n"] by (simp add: Itoa_def split_sign_digits)
    with r False nsp nat_digits_ok [of "nat n"] show ?thesis
      by (simp add: Sscanf_d_def Itoa_def in_int64_def Let_def tw)
  qed
qed

subsection \<open>Properties\<close>

text \<open>Substitution is one pass over the tokens of the text, which spell the text itself:
  it succeeds exactly when every variable named in the text is bound, never rescans a substituted
  value, and otherwise reports the first unbound name.\<close>

theorem processSubstitute_exact:
  "processSubstitute s vs i f =
     (if set (var_names s) \<subseteq> dom vs then Inr (concat (map (expand_token vs) (scan_vars s)))
      else Inl (MissingParameter i f (hd (filter (\<lambda>n. n \<notin> dom vs) (var_names s)))))
   \<and> concat (map render_token (scan_vars s)) = s"
proof -
  have none: "find P xs = None \<longleftrightarrow> (\<forall>x \<in> set xs. \<not> P x)" for P :: "string \<Rightarrow> bool" and xs
    by (auto simp: find_None_iff)
  have some: "find P xs = Some x \<Longrightarrow> hd (filter P xs) = x" for P :: "string \<Rightarrow> bool" and xs x
    by (induction xs) (auto split: if_splits)
  have d: "(\<lambda>n. vs n = None) = (\<lambda>n. n \<notin> dom vs)" by (auto simp: dom_def)
  show ?thesis
    using none [of "\<lambda>n. n \<notin> dom vs" "var_names s"] some [of "\<lambda>n. n \<notin> dom vs" "var_names s"]
    by (auto simp: processSubstitute_spec d render_scan subset_iff split: option.split)
qed

text \<open>The check of unclosed variables objects exactly when a single percent sign is left
  after the complete variables are removed: two or more stray signs pass.\<close>

theorem checkUnclosedVar_exact:
  "checkUnclosedVar s = None \<longleftrightarrow> CountChar (remove_vars s) CHR ''%'' \<noteq> 1"
proof (cases "s = []")
  case True
  then show ?thesis by (simp add: checkUnclosedVar_def remove_vars_def)
next
  case False
  have "checkUnclosedVar s \<noteq> None \<longleftrightarrow>
      (\<exists>i. Index (remove_vars s) ''%'' = Some i \<and> CHR ''%'' \<notin> set (drop (Suc i) (remove_vars s)))"
    using False by (auto simp: checkUnclosedVar_def Let_def split: option.splits)
  then show ?thesis using Index_char_count [of "remove_vars s" "CHR ''%''"] by blast
qed

text \<open>A decimal integer, bare or quoted, that a template gives as a number is the number
  it resolves to, whatever the variables.\<close>

theorem flexInt_roundtrip:
  assumes "int64_min \<le> n" and "n \<le> int64_max" and "b = Itoa n \<or> b = [CHR 0x22] @ Itoa n @ [CHR 0x22]"
  shows "\<exists>g. flexInt_UnmarshalJSON f b = Inr g \<and> flexInt_resolve g vs i fld = Inr n"
proof -
  let ?d = "nat_digits (nat \<bar>n\<bar>)"
  have it: "Itoa n = (if n < 0 then CHR ''-'' # ?d else ?d)" by (simp add: Itoa_def)
  have dg: "?d \<noteq> []" "list_all is_digit ?d" using nat_digits_ok by blast+
  have nq: "c \<noteq> CHR 0x22 \<and> c \<noteq> CHR ''%'' \<and> c \<noteq> CHR ''n''" if "is_digit c" for c
    using that by (auto simp: is_digit_def byte_def)
  have chars: "\<forall>c \<in> set (Itoa n). c \<noteq> CHR 0x22 \<and> c \<noteq> CHR ''%'' \<and> c \<noteq> CHR ''n''"
    using dg nq unfolding it by (auto simp: list_all_iff)
  have ne: "Itoa n \<noteq> []" using dg it by auto
  then have hd: "hd (Itoa n) \<noteq> CHR 0x22" "hd (Itoa n) \<noteq> CHR ''n''" using chars hd_in_set by blast+
  have u: "unquote b = Itoa n"
    using assms(3) hd by (auto simp: unquote_def)
  have "hd b \<noteq> CHR ''n''" using assms(3) hd by auto
  then have b: "b \<noteq> []" "b \<noteq> ''null''" using assms(3) ne by (fastforce, metis list.sel(1))
  have np: "CHR ''%'' \<notin> set (Itoa n)" using chars by blast
  have "flexInt_UnmarshalJSON f b = Inr (f\<lparr>fxValue := n, fxRaw := []\<rparr>)"
    using b ne np by (simp add: flexInt_UnmarshalJSON_def Let_def u Sscanf_d_Itoa [OF assms(1,2)])
  then show ?thesis by (simp add: flexInt_resolve_def)
qed

lemma flexInt_roundtrip_witness:
  "\<exists>g. flexInt_UnmarshalJSON zero_flexInt (Itoa 3600) = Inr g \<and> flexInt_resolve g Map.empty 0 ''ttl'' = Inr 3600"
  by (rule flexInt_roundtrip) (simp_all add: int64_min_def int64_max_def)

end
