(* ===== verification/Template_Zone.thy ===== *)
theory Template_Zone
  imports Template_Types "HOL-Library.Multiset"
begin

text \<open>
  The zone phase of \<open>process.go\<close>: the identity of records by \<open>recordKey\<close>, removal of records
  counted by key, the SPFM merge, and one step of the zone loop per resolved record. A state is
  the loop's three slices: the zone, \<open>toAdd\<close> and \<open>toDelete\<close>.
\<close>

record resolvedEntry =
  reRec :: Record
  reTmpl :: TemplateRecord
  reOrigType :: string
  reIsBacking :: bool

subsection \<open>Names and keys\<close>

definition norm_name :: "string \<Rightarrow> string" where
  "norm_name s = (let l = ToLower s in if l = ''@'' \<or> l = [] then ''@'' else l)"

definition nameEq :: "string \<Rightarrow> string \<Rightarrow> bool" where
  "nameEq a b \<longleftrightarrow> norm_name a = norm_name b"

definition isChildOf :: "string \<Rightarrow> string \<Rightarrow> bool" where
  "isChildOf child parent =
     (let c = ToLower child; p = ToLower parent in
      if p = ''@'' \<or> p = [] then c \<noteq> ''@'' \<and> c \<noteq> [] \<and> c \<noteq> p
      else HasSuffix c (''.'' @ p))"

definition recordKey :: "Record \<Rightarrow> string" where
  "recordKey r = ToUpper (recType r) @ ''|'' @ ToLower (recName r) @ ''|'' @ recContent r @ ''|''
     @ Itoa (recTTL r) @ ''|'' @ Itoa (recPriority r) @ ''|'' @ Itoa (recWeight r) @ ''|''
     @ Itoa (recPort r) @ ''|'' @ recService r @ ''|'' @ recProtocol r"

definition normalizeRecord :: "Record \<Rightarrow> Record" where
  "normalizeRecord r0 =
     (let r1 = r0\<lparr>recType := ToUpper (recType r0)\<rparr>;
          r2 = (if recName r1 \<noteq> ''@'' then r1\<lparr>recName := ToLower (recName r1)\<rparr> else r1);
          r3 = (if recType r2 \<in> set [''A'', ''AAAA'', ''CNAME'', ''MX'', ''NS'', ''SRV'']
                then r2\<lparr>recContent := ToLower (recContent r2)\<rparr> else r2)
      in r3\<lparr>recProtocol := ToLower (recProtocol r3)\<rparr>)"

subsection \<open>Removing and deduplicating\<close>

fun drop_counted :: "(string \<Rightarrow> nat) \<Rightarrow> Record list \<Rightarrow> Record list" where
  "drop_counted removeSet [] = []"
| "drop_counted removeSet (r # rs) =
     (if 0 < removeSet (recordKey r)
      then drop_counted (removeSet(recordKey r := removeSet (recordKey r) - 1)) rs
      else r # drop_counted removeSet rs)"

definition key_count :: "Record list \<Rightarrow> string \<Rightarrow> nat" where
  "key_count rs k = length (filter (\<lambda>r. recordKey r = k) rs)"

definition removeRecords :: "Record list \<Rightarrow> Record list \<Rightarrow> Record list" where
  "removeRecords zone toRemove =
     (if toRemove = [] then zone else drop_counted (key_count toRemove) zone)"

fun dedup_seen :: "string set \<Rightarrow> Record list \<Rightarrow> Record list" where
  "dedup_seen seen [] = []"
| "dedup_seen seen (r # rs) =
     (if recordKey r \<in> seen then dedup_seen seen rs
      else r # dedup_seen (insert (recordKey r) seen) rs)"

definition deduplicateRecords :: "Record list \<Rightarrow> Record list" where
  "deduplicateRecords recs = dedup_seen {} recs"

subsection \<open>The SPFM merge\<close>

definition is_zone_spf :: "string \<Rightarrow> Record \<Rightarrow> bool" where
  "is_zone_spf name zr \<longleftrightarrow> nameEq (recName zr) name \<and> recType zr = ''TXT'' \<and> HasPrefix (recContent zr) ''v=spf1 ''"

definition spf_terminators :: "string list" where
  "spf_terminators = ['' -all'', '' ~all'', '' ?all'']"

definition spfm_merge_content :: "string \<Rightarrow> string \<Rightarrow> string" where
  "spfm_merge_content content rules =
     (let (body, terminator) = (case find (\<lambda>t. HasSuffix content t) spf_terminators of
             Some t \<Rightarrow> (TrimSuffix content t, t)
           | None \<Rightarrow> (content, '' ~all''))
      in ''v=spf1 '' @ rules @ '' '' @ TrimPrefix body ''v=spf1 '' @ terminator)"

definition processSPFM :: "Record list \<Rightarrow> Record \<Rightarrow> Record list \<times> Record list" where
  "processSPFM zone spfm =
     (let name = recName spfm; rules = recContent spfm in
      case find (is_zone_spf name) zone of
        None \<Rightarrow> ([mk_record ''TXT'' name (''v=spf1 '' @ rules @ '' ~all'')
                   (if recTTL spfm = 0 then 6000 else recTTL spfm)], [])
      | Some existing \<Rightarrow>
          if Contains (recContent existing) rules then ([], [])
          else ([mk_record ''TXT'' name (spfm_merge_content (recContent existing) rules) (recTTL existing)],
                [existing]))"

subsection \<open>One step of the zone loop\<close>

record zstate =
  zsZone :: "Record list"
  zsToAdd :: "Record list"
  zsToDelete :: "Record list"

definition delete_recs :: "Record list \<Rightarrow> zstate \<Rightarrow> zstate" where
  "delete_recs dels st =
     st\<lparr>zsToDelete := zsToDelete st @ dels, zsZone := removeRecords (zsZone st) dels\<rparr>"

definition delete_where :: "(Record \<Rightarrow> bool) \<Rightarrow> zstate \<Rightarrow> zstate" where
  "delete_where P st = delete_recs (filter P (zsZone st)) st"

definition add_recs :: "Record list \<Rightarrow> zstate \<Rightarrow> zstate" where
  "add_recs rs st = st\<lparr>zsToAdd := zsToAdd st @ rs, zsZone := zsZone st @ rs\<rparr>"

definition txt_conflict :: "vars \<Rightarrow> resolvedEntry \<Rightarrow> Record \<Rightarrow> bool" where
  "txt_conflict vs e zr =
     (let mode = trTxtConflictMatchingMode (reTmpl e); name = recName (reRec e);
          pfx = (case processSubstitute (trTxtConflictMatchingPrefix (reTmpl e)) vs 0 ''prefix'' of
                   Inl _ \<Rightarrow> [] | Inr p \<Rightarrow> p) in
      if mode = [] then nameEq (recName zr) name \<and> recType zr = ''CNAME''
      else if mode = ''None'' then False
      else if mode = ''All'' then nameEq (recName zr) name \<and> recType zr = ''TXT''
      else if mode = ''Prefix''
      then nameEq (recName zr) name \<and> recType zr = ''TXT'' \<and> HasPrefix (recContent zr) pfx
      else False)"

definition already_exists :: "Record \<Rightarrow> Record list \<Rightarrow> bool" where
  "already_exists rec zone \<longleftrightarrow>
     list_ex (\<lambda>zr. recType zr = recType rec \<and> nameEq (recName zr) (recName rec) \<and> recContent zr = recContent rec) zone"

definition ns_conflict :: "(string \<Rightarrow> nat) \<Rightarrow> string \<Rightarrow> Record \<Rightarrow> bool" where
  "ns_conflict orig name zr =
     (if recType zr = ''NS'' then nameEq (recName zr) name \<and> 0 < orig (recordKey zr)
      else nameEq (recName zr) name \<or> isChildOf (recName zr) name)"

definition zone_step :: "vars \<Rightarrow> (string \<Rightarrow> nat) \<Rightarrow> resolvedEntry \<Rightarrow> zstate \<Rightarrow> zstate" where
  "zone_step vs originalZone e st =
     (let rec = reRec e; typ = recType rec; name = recName rec in
      if reIsBacking e then add_recs [rec] st
      else if typ = ''SPFM'' then
        (let (spfAdd, spfDel) = processSPFM (zsZone st) rec in add_recs spfAdd (delete_recs spfDel st))
      else if typ = ''CNAME'' then
        add_recs [rec] (delete_where (\<lambda>zr. nameEq (recName zr) name \<and> recType zr \<noteq> ''NS'') st)
      else if typ = ''A'' \<or> typ = ''AAAA'' then
        add_recs [rec] (delete_where (\<lambda>zr. nameEq (recName zr) name \<and> recType zr = ''NS'')
          (delete_where (\<lambda>zr. nameEq (recName zr) name
              \<and> (recType zr = ''A'' \<or> recType zr = ''AAAA'' \<or> recType zr = ''CNAME'')) st))
      else if typ = ''TXT'' then
        (let st' = delete_where (txt_conflict vs e) st in
         if already_exists rec (zsZone st') then st' else add_recs [rec] st')
      else if typ = ''MX'' then
        add_recs [rec] (delete_where (\<lambda>zr. nameEq (recName zr) name \<and> recType zr = ''MX'') st)
      else if typ = ''NS'' then add_recs [rec] (delete_where (ns_conflict originalZone name) st)
      else if typ = ''SRV'' then
        add_recs [rec] (delete_where (\<lambda>zr. nameEq (recName zr) name \<and> recType zr = ''SRV''
            \<and> 0 < originalZone (recordKey zr)) st)
      else if typ = ''REDIR301'' \<or> typ = ''REDIR302'' then
        add_recs [rec] (delete_where (\<lambda>zr. nameEq (recName zr) name
            \<and> (recType zr = ''A'' \<or> recType zr = ''AAAA'' \<or> recType zr = ''CNAME''
               \<or> recType zr = ''REDIR301'' \<or> recType zr = ''REDIR302'')) st)
      else if typ = ''APEXCNAME'' then
        add_recs [rec] (delete_where (\<lambda>zr. nameEq (recName zr) ''@'' \<and> recType zr \<noteq> ''NS'') st)
      else if already_exists rec (zsZone st) then st else add_recs [rec] st)"

definition zone_loop :: "vars \<Rightarrow> (string \<Rightarrow> nat) \<Rightarrow> resolvedEntry list \<Rightarrow> zstate \<Rightarrow> zstate" where
  "zone_loop vs orig es st = fold (zone_step vs orig) es st"

subsection \<open>Zones as multisets of keys\<close>

definition zkeys :: "Record list \<Rightarrow> string multiset" where
  "zkeys rs = image_mset recordKey (mset rs)"

lemma zkeys_simps [simp, zone_simps]:
  "zkeys [] = {#}"
  "zkeys (r # rs) = add_mset (recordKey r) (zkeys rs)"
  "zkeys (rs @ ss) = zkeys rs + zkeys ss"
  by (simp_all add: zkeys_def)

lemma count_zkeys: "count (zkeys rs) k = key_count rs k"
  by (induction rs) (auto simp: key_count_def)

lemma set_zkeys [simp]: "set_mset (zkeys rs) = recordKey ` set rs"
  by (simp add: zkeys_def)

lemma zkeys_filter: "zkeys (filter P rs) \<subseteq># zkeys rs"
  unfolding zkeys_def by (rule image_mset_filter_subset)

lemma zkeys_drop_counted: "count (zkeys (drop_counted f rs)) k = count (zkeys rs) k - f k"
  by (induction rs arbitrary: f) auto

lemma zkeys_removeRecords [zone_simps]: "zkeys (removeRecords zone dels) = zkeys zone - zkeys dels"
  by (rule multiset_eqI) (simp add: removeRecords_def zkeys_drop_counted count_zkeys [of dels] key_count_def)

lemma drop_counted_subseq: "subseq (drop_counted f rs) rs"
  by (induction rs arbitrary: f) auto

lemma subseq_set: "subseq xs ys \<Longrightarrow> set xs \<subseteq> set ys"
  by (induction rule: list_emb.induct) auto

lemma set_removeRecords: "set (removeRecords zone dels) \<subseteq> set zone"
  using drop_counted_subseq [THEN subseq_set] by (simp add: removeRecords_def)

text \<open>Removal is by key: when the keys decide a predicate, removing all records that satisfy
  it leaves exactly the others.\<close>

lemma removeRecords_filter:
  assumes "\<And>r s. r \<in> set zone \<Longrightarrow> s \<in> set zone \<Longrightarrow> recordKey r = recordKey s \<Longrightarrow> P r = P s"
  shows "removeRecords zone (filter P zone) = filter (\<lambda>r. \<not> P r) zone"
proof -
  have *: "drop_counted f zone = filter (\<lambda>r. \<not> P r) zone"
    if "\<And>r. r \<in> set zone \<Longrightarrow> f (recordKey r) = key_count (filter P zone) (recordKey r)" for f
    using that assms
  proof (induction zone arbitrary: f)
    case (Cons r rs)
    note cong = Cons.prems(2)
    show ?case
    proof (cases "P r")
      case True
      have "f (recordKey r) = Suc (key_count (filter P rs) (recordKey r))"
        using Cons.prems(1) [of r] True by (simp add: key_count_def)
      moreover have "drop_counted (f(recordKey r := f (recordKey r) - 1)) rs = filter (\<lambda>r. \<not> P r) rs"
      proof (rule Cons.IH)
        fix s
        assume "s \<in> set rs"
        with Cons.prems(1) [of r] Cons.prems(1) [of s] True
        show "(f(recordKey r := f (recordKey r) - 1)) (recordKey s) = key_count (filter P rs) (recordKey s)"
          by (simp add: key_count_def)
      next
        show "\<And>r s. r \<in> set rs \<Longrightarrow> s \<in> set rs \<Longrightarrow> recordKey r = recordKey s \<Longrightarrow> P r = P s"
          by (rule cong) auto
      qed
      ultimately show ?thesis using True by simp
    next
      case False
      have "filter (\<lambda>s. recordKey s = recordKey r) (filter P rs) = []"
        using cong [of r] False by (auto simp: filter_empty_conv)
      then have "f (recordKey r) = 0"
        using Cons.prems(1) [of r] False by (simp add: key_count_def)
      moreover have "drop_counted f rs = filter (\<lambda>r. \<not> P r) rs"
      proof (rule Cons.IH)
        fix s
        assume "s \<in> set rs"
        with Cons.prems(1) [of s] False show "f (recordKey s) = key_count (filter P rs) (recordKey s)"
          by simp
      next
        show "\<And>r s. r \<in> set rs \<Longrightarrow> s \<in> set rs \<Longrightarrow> recordKey r = recordKey s \<Longrightarrow> P r = P s"
          by (rule cong) auto
      qed
      ultimately show ?thesis using False by simp
    qed
  qed simp
  show ?thesis
  proof (cases "filter P zone = []")
    case True
    then have "filter (\<lambda>r. \<not> P r) zone = zone" by (auto simp: filter_empty_conv)
    with True show ?thesis by (simp add: removeRecords_def)
  next
    case False
    then show ?thesis by (simp add: removeRecords_def *)
  qed
qed

subsection \<open>Deduplication\<close>

lemma dedup_seen_keys: "recordKey ` set (dedup_seen seen rs) = recordKey ` set rs - seen"
  by (induction rs arbitrary: seen) auto

lemma dedup_seen_set: "set (dedup_seen seen rs) \<subseteq> set rs"
  by (induction rs arbitrary: seen) auto

lemma dedup_seen_distinct: "distinct (map recordKey (dedup_seen seen rs))"
proof (induction rs arbitrary: seen)
  case (Cons r rs)
  have "recordKey r \<notin> recordKey ` set (dedup_seen (insert (recordKey r) seen) rs)"
    by (simp add: dedup_seen_keys)
  with Cons show ?case by simp
qed simp

lemma dedup_seen_id:
  "distinct (map recordKey rs) \<Longrightarrow> recordKey ` set rs \<inter> seen = {} \<Longrightarrow> dedup_seen seen rs = rs"
  by (induction rs arbitrary: seen) auto

lemma deduplicate_keys: "recordKey ` set (deduplicateRecords rs) = recordKey ` set rs"
  by (simp add: deduplicateRecords_def dedup_seen_keys)

lemma deduplicate_distinct: "distinct (map recordKey (deduplicateRecords rs))"
  by (simp add: deduplicateRecords_def dedup_seen_distinct)

lemma deduplicate_idem: "deduplicateRecords (deduplicateRecords rs) = deduplicateRecords rs"
  unfolding deduplicateRecords_def [of "deduplicateRecords rs"]
  by (rule dedup_seen_id [OF deduplicate_distinct]) simp

lemma deduplicate_set: "set (deduplicateRecords rs) \<subseteq> set rs"
  by (simp add: deduplicateRecords_def dedup_seen_set)

subsection \<open>Every change of the zone is accounted for\<close>

definition accounted :: "string multiset \<Rightarrow> zstate \<Rightarrow> bool" where
  "accounted z0 st \<longleftrightarrow> zkeys (zsZone st) + zkeys (zsToDelete st) = z0 + zkeys (zsToAdd st)"

lemma delete_recs_accounted:
  assumes "accounted z0 st" "zkeys dels \<subseteq># zkeys (zsZone st)"
  shows "accounted z0 (delete_recs dels st)"
proof -
  have "zkeys (removeRecords (zsZone st) dels) + zkeys dels = zkeys (zsZone st)"
    using assms(2) by (simp add: zkeys_removeRecords)
  with assms(1) show ?thesis
    by (simp add: accounted_def delete_recs_def) (metis add.assoc add.commute)
qed

lemma delete_where_accounted: "accounted z0 st \<Longrightarrow> accounted z0 (delete_where P st)"
  unfolding delete_where_def by (rule delete_recs_accounted [OF _ zkeys_filter])

lemma add_recs_accounted: "accounted z0 st \<Longrightarrow> accounted z0 (add_recs rs st)"
  by (simp add: accounted_def add_recs_def)

lemma processSPFM_del:
  assumes "processSPFM zone rec = (a, d)"
  shows "zkeys d \<subseteq># zkeys zone"
proof -
  from assms have "d = [] \<or> (\<exists>e. find (is_zone_spf (recName rec)) zone = Some e \<and> d = [e])"
    by (auto simp: processSPFM_def Let_def split: option.splits if_splits)
  then show ?thesis
  proof
    assume "\<exists>e. find (is_zone_spf (recName rec)) zone = Some e \<and> d = [e]"
    then obtain e where "e \<in> set zone" "d = [e]" by (auto simp: find_Some_iff in_set_conv_nth)
    then show ?thesis by (auto simp: zkeys_def)
  qed simp
qed

lemma zone_step_accounted:
  assumes "accounted z0 st"
  shows "accounted z0 (zone_step vs orig e st)"
proof -
  obtain a d where ad: "processSPFM (zsZone st) (reRec e) = (a, d)" by force
  note del = delete_recs_accounted [OF assms processSPFM_del [OF ad]]
  show ?thesis
    unfolding zone_step_def Let_def ad prod.case
    by (simp add: add_recs_accounted delete_where_accounted assms del)
qed

lemma zone_loop_accounted: "accounted z0 st \<Longrightarrow> accounted z0 (zone_loop vs orig es st)"
  unfolding zone_loop_def by (induction es arbitrary: st) (auto simp: zone_step_accounted)

subsection \<open>What a step leaves in the zone\<close>

text \<open>The records a new record replaces, by its type; \<open>orig\<close> counts the keys of the zone before
  the batch.\<close>

definition displaces :: "(string \<Rightarrow> nat) \<Rightarrow> Record \<Rightarrow> Record \<Rightarrow> bool" where
  "displaces orig new zr =
     (let typ = recType new; same = nameEq (recName zr) (recName new) in
      if typ = ''CNAME'' then same \<and> recType zr \<noteq> ''NS''
      else if typ \<in> {''A'', ''AAAA''} then same \<and> recType zr \<in> {''A'', ''AAAA'', ''CNAME'', ''NS''}
      else if typ = ''MX'' then same \<and> recType zr = ''MX''
      else if typ = ''NS'' then ns_conflict orig (recName new) zr
      else if typ = ''SRV'' then same \<and> recType zr = ''SRV'' \<and> 0 < orig (recordKey zr)
      else if typ \<in> {''REDIR301'', ''REDIR302''}
      then same \<and> recType zr \<in> {''A'', ''AAAA'', ''CNAME'', ''REDIR301'', ''REDIR302''}
      else if typ = ''APEXCNAME'' then nameEq (recName zr) ''@'' \<and> recType zr \<noteq> ''NS''
      else False)"

definition replacing_types :: "string set" where
  "replacing_types = {''CNAME'', ''A'', ''AAAA'', ''MX'', ''NS'', ''SRV'', ''REDIR301'', ''REDIR302'', ''APEXCNAME''}"

text \<open>A zone whose keys determine types and names: types in upper case, no bar in a type or name.\<close>

definition keyed_record :: "Record \<Rightarrow> bool" where
  "keyed_record r \<longleftrightarrow> ToUpper (recType r) = recType r \<and> CHR ''|'' \<notin> set (recType r) \<and> CHR ''|'' \<notin> set (recName r)"

lemma lower_char_eq_bar: "lower_char c = CHR ''|'' \<longleftrightarrow> c = CHR ''|''"
proof
  assume h: "lower_char c = CHR ''|''"
  show "c = CHR ''|''"
  proof (cases "is_upper c")
    case True
    then have "byte (lower_char c) = byte c + 32" "byte c \<le> 90"
      by (simp_all add: lower_char_def byte_char_of is_upper_def)
    with h show ?thesis by (simp add: byte_def)
  qed (use h in simp)
qed (simp add: lower_char_def is_upper_def byte_def)

lemma split_at_bar:
  assumes "a @ ''|'' @ b = c @ ''|'' @ d" "CHR ''|'' \<notin> set a" "CHR ''|'' \<notin> set c"
  shows "a = c \<and> b = d"
proof -
  have t: "takeWhile ((\<noteq>) CHR ''|'') (x @ ''|'' @ y) = x" if "CHR ''|'' \<notin> set x" for x y
    using that by (subst takeWhile_append2) auto
  from arg_cong [OF assms(1), of "takeWhile ((\<noteq>) CHR ''|'')"] have "a = c"
    unfolding t [OF assms(2)] t [OF assms(3)] .
  with assms(1) show ?thesis by simp
qed

lemma keyed_recordKey:
  assumes "keyed_record r" "keyed_record s" "recordKey r = recordKey s"
  shows "recType r = recType s \<and> ToLower (recName r) = ToLower (recName s)"
proof -
  have n: "CHR ''|'' \<notin> set (ToLower (recName x))" if "keyed_record x" for x
  proof
    assume "CHR ''|'' \<in> set (ToLower (recName x))"
    then obtain c where c: "c \<in> set (recName x)" and l: "CHR ''|'' = lower_char c"
      unfolding ToLower_def set_map by (rule imageE)
    from l [symmetric] have "c = CHR ''|''" by (simp only: lower_char_eq_bar)
    with c that show False unfolding keyed_record_def by blast
  qed
  have t: "ToUpper (recType x) = recType x" "CHR ''|'' \<notin> set (recType x)" if "keyed_record x" for x
    using that by (simp_all add: keyed_record_def)
  define tail :: "Record \<Rightarrow> string" where "tail x = recContent x @ ''|'' @ Itoa (recTTL x) @ ''|'' @ Itoa (recPriority x) @ ''|''
    @ Itoa (recWeight x) @ ''|'' @ Itoa (recPort x) @ ''|'' @ recService x @ ''|'' @ recProtocol x" for x
  have k: "recordKey x = recType x @ ''|'' @ (ToLower (recName x) @ ''|'' @ tail x)" if "keyed_record x" for x
    by (simp add: recordKey_def tail_def t(1) [OF that])
  have "recType r @ ''|'' @ (ToLower (recName r) @ ''|'' @ tail r)
      = recType s @ ''|'' @ (ToLower (recName s) @ ''|'' @ tail s)"
    using assms(3) unfolding k [OF assms(1)] k [OF assms(2)] .
  from split_at_bar [OF this t(2) [OF assms(1)] t(2) [OF assms(2)]]
  have "recType r = recType s" and l: "ToLower (recName r) @ ''|'' @ tail r = ToLower (recName s) @ ''|'' @ tail s"
    by blast+
  with split_at_bar [OF l n [OF assms(1)] n [OF assms(2)]] show ?thesis by blast
qed

lemma nameEq_lower: "ToLower a = ToLower b \<Longrightarrow> nameEq a c = nameEq b c"
  by (simp add: nameEq_def norm_name_def)

lemma isChildOf_lower: "ToLower a = ToLower b \<Longrightarrow> isChildOf a c = isChildOf b c"
  by (simp add: isChildOf_def)

lemma delete_where_zone:
  assumes z: "\<forall>r \<in> set (zsZone st). keyed_record r"
    and P: "\<And>r s. recType r = recType s \<Longrightarrow> ToLower (recName r) = ToLower (recName s) \<Longrightarrow>
              recordKey r = recordKey s \<Longrightarrow> P r = P s"
  shows "zsZone (delete_where P st) = filter (\<lambda>r. \<not> P r) (zsZone st)"
proof -
  have "removeRecords (zsZone st) (filter P (zsZone st)) = filter (\<lambda>r. \<not> P r) (zsZone st)"
    by (rule removeRecords_filter) (meson P z keyed_recordKey)
  then show ?thesis by (simp add: delete_where_def delete_recs_def)
qed

lemma zsZone_add_recs [simp]: "zsZone (add_recs rs st) = zsZone st @ rs"
  by (simp add: add_recs_def)

lemma zone_step_displaces:
  assumes z: "\<forall>r \<in> set (zsZone st). keyed_record r"
    and ty: "recType (reRec e) \<in> replacing_types" and nb: "\<not> reIsBacking e"
  shows "zsZone (zone_step vs orig e st) = filter (\<lambda>zr. \<not> displaces orig (reRec e) zr) (zsZone st) @ [reRec e]"
proof -
  note dw = delete_where_zone [OF z]
  note low = nameEq_lower isChildOf_lower
  have two: "zsZone (delete_where Q (delete_where P st)) = filter (\<lambda>r. \<not> P r \<and> \<not> Q r) (zsZone st)"
    if "\<And>r s. recType r = recType s \<Longrightarrow> ToLower (recName r) = ToLower (recName s) \<Longrightarrow> P r = P s"
       "\<And>r s. recType r = recType s \<Longrightarrow> ToLower (recName r) = ToLower (recName s) \<Longrightarrow> Q r = Q s" for P Q
  proof -
    have p: "zsZone (delete_where P st) = filter (\<lambda>r. \<not> P r) (zsZone st)" by (rule dw) (rule that(1))
    have "\<forall>r \<in> set (zsZone (delete_where P st)). keyed_record r" using z by (simp add: p)
    then have "zsZone (delete_where Q (delete_where P st)) = filter (\<lambda>r. \<not> Q r) (zsZone (delete_where P st))"
      by (rule delete_where_zone) (rule that(2))
    with p show ?thesis by (simp add: conj_commute)
  qed
  consider "recType (reRec e) = ''CNAME''" | "recType (reRec e) \<in> {''A'', ''AAAA''}"
    | "recType (reRec e) = ''MX''" | "recType (reRec e) = ''NS''" | "recType (reRec e) = ''SRV''"
    | "recType (reRec e) \<in> {''REDIR301'', ''REDIR302''}" | "recType (reRec e) = ''APEXCNAME''"
    using ty by (auto simp: replacing_types_def)
  then show ?thesis
  proof cases
    case 1
    with nb show ?thesis
      by (simp add: zone_step_def Let_def displaces_def) (subst dw, auto dest: low)
  next
    case 2
    then have "zsZone (zone_step vs orig e st) =
        zsZone (delete_where (\<lambda>zr. nameEq (recName zr) (recName (reRec e)) \<and> recType zr = ''NS'')
          (delete_where (\<lambda>zr. nameEq (recName zr) (recName (reRec e))
              \<and> (recType zr = ''A'' \<or> recType zr = ''AAAA'' \<or> recType zr = ''CNAME'')) st)) @ [reRec e]"
      using nb by (auto simp: zone_step_def Let_def)
    also have "\<dots> = filter (\<lambda>zr. \<not> displaces orig (reRec e) zr) (zsZone st) @ [reRec e]"
      using 2 by (subst two) (auto simp: displaces_def Let_def dest: low intro!: filter_cong)
    finally show ?thesis .
  next
    case 3
    with nb show ?thesis
      by (simp add: zone_step_def Let_def displaces_def) (subst dw, auto dest: low)
  next
    case 4
    with nb show ?thesis
      by (simp add: zone_step_def Let_def displaces_def) (subst dw, auto simp: ns_conflict_def dest: low)
  next
    case 5
    with nb show ?thesis
      by (simp add: zone_step_def Let_def displaces_def) (subst dw, auto dest: low)
  next
    case 6
    with nb show ?thesis
      by (auto simp: zone_step_def Let_def displaces_def) (subst dw, auto dest: low)+
  next
    case 7
    with nb show ?thesis
      by (simp add: zone_step_def Let_def displaces_def) (subst dw, auto dest: low)
  qed
qed

subsection \<open>Properties\<close>

text \<open>Property C2. In a zone whose keys decide types and names, applying a CNAME, A, AAAA, MX, NS, SRV,
  redirect or APEXCNAME removes exactly the records that its type replaces, at or below its name,
  keeps all others in their order, and adds the record last.\<close>

theorem zone_step_replaces:
  assumes "\<forall>r \<in> set (zsZone st). keyed_record r"
    and "recType (reRec e) \<in> replacing_types" and "\<not> reIsBacking e"
  shows "zsZone (zone_step vs orig e st) = filter (\<lambda>zr. \<not> displaces orig (reRec e) zr) (zsZone st) @ [reRec e]"
  by (rule zone_step_displaces [OF assms])

definition demo_entry :: resolvedEntry where
  "demo_entry = \<lparr>reRec = mk_record ''CNAME'' ''www'' ''host.example.net'' 300, reTmpl = empty_template_record,
     reOrigType = ''CNAME'', reIsBacking = False\<rparr>"

definition demo_state :: zstate where
  "demo_state = \<lparr>zsZone = [mk_record ''A'' ''WWW'' ''192.0.2.1'' 60, mk_record ''NS'' ''www'' ''ns1'' 60,
     mk_record ''MX'' ''@'' ''mail'' 60], zsToAdd = [], zsToDelete = []\<rparr>"

lemma zone_step_replaces_witness:
  "zsZone (zone_step Map.empty (\<lambda>_. 0) demo_entry demo_state)
     = filter (\<lambda>zr. \<not> displaces (\<lambda>_. 0) (reRec demo_entry) zr) (zsZone demo_state) @ [reRec demo_entry]"
  by (rule zone_step_replaces) (code_simp, simp_all add: demo_entry_def replacing_types_def)

lemma find_terminator:
  assumes "t \<in> set spf_terminators"
  shows "find (\<lambda>u. HasSuffix (x @ t) u) spf_terminators = Some t"
proof -
  have eq: "HasSuffix (x @ t) u \<longleftrightarrow> u = t" if "u \<in> set spf_terminators" for u
    using that assms by (auto simp: spf_terminators_def suffix_def append_eq_append_conv2 Cons_eq_append_conv)
  show ?thesis
    using assms by (auto simp: eq find_Some_iff spf_terminators_def suffix_def less_Suc_eq nth_Cons'
        append_eq_append_conv2 Cons_eq_append_conv)
qed

text \<open>The SPFM merge replaces the zone's SPF record by one record of the same name and TTL
  that has the template's rules right after the version and keeps the old terms and terminator,
  unless the rules are already part of it.\<close>

theorem processSPFM_merges:
  assumes "find (is_zone_spf (recName spfm)) zone = Some old"
    and "recContent old = ''v=spf1 '' @ body @ t" and "t \<in> set spf_terminators"
    and "\<not> sublist (recContent spfm) (recContent old)"
  shows "processSPFM zone spfm =
    ([mk_record ''TXT'' (recName spfm) (''v=spf1 '' @ recContent spfm @ '' '' @ body @ t) (recTTL old)], [old])"
proof -
  have f: "find (HasSuffix (recContent old)) spf_terminators = Some t"
    using find_terminator [OF assms(3), of "''v=spf1 '' @ body"] assms(2) by simp
  have b: "TrimSuffix (recContent old) t = ''v=spf1 '' @ body"
    using assms(2) TrimSuffix_append [of "''v=spf1 '' @ body" t] by simp
  have p: "TrimPrefix (''v=spf1 '' @ body) ''v=spf1 '' = body" by (rule TrimPrefix_append)
  have "spfm_merge_content (recContent old) (recContent spfm)
      = ''v=spf1 '' @ recContent spfm @ '' '' @ body @ t"
    unfolding spfm_merge_content_def f option.case Let_def prod.case b p ..
  with assms(1,4) show ?thesis by (simp add: processSPFM_def Let_def Contains_sublist)
qed

lemma processSPFM_merges_witness:
  "processSPFM [mk_record ''TXT'' ''@'' ''v=spf1 include:a.com ~all'' 60] (mk_record ''SPFM'' ''@'' ''include:b.com'' 0)
    = ([mk_record ''TXT'' ''@'' (''v=spf1 '' @ ''include:b.com'' @ '' '' @ ''include:a.com'' @ '' ~all'') 60],
       [mk_record ''TXT'' ''@'' ''v=spf1 include:a.com ~all'' 60])"
proof -
  have "processSPFM [mk_record ''TXT'' ''@'' ''v=spf1 include:a.com ~all'' 60] (mk_record ''SPFM'' ''@'' ''include:b.com'' 0)
    = ([mk_record ''TXT'' (recName (mk_record ''SPFM'' ''@'' ''include:b.com'' 0))
         (''v=spf1 '' @ recContent (mk_record ''SPFM'' ''@'' ''include:b.com'' 0) @ '' '' @ ''include:a.com'' @ '' ~all'')
         (recTTL (mk_record ''TXT'' ''@'' ''v=spf1 include:a.com ~all'' 60))],
       [mk_record ''TXT'' ''@'' ''v=spf1 include:a.com ~all'' 60])"
    by (rule processSPFM_merges) (code_simp, simp, simp add: spf_terminators_def,
        simp only: Contains_sublist [symmetric], code_simp)
  then show ?thesis by simp
qed

text \<open>A defect: an SPF record that holds nothing but the version and a terminator is merged
  into a text with the version twice, since removing the terminator also removes the space that
  the prefix test looks for.\<close>

theorem processSPFM_repeats_version:
  assumes "t \<in> set spf_terminators"
  shows "spfm_merge_content (''v=spf1'' @ t) rules = ''v=spf1 '' @ rules @ '' v=spf1'' @ t"
proof -
  have f: "find (HasSuffix (''v=spf1'' @ t)) spf_terminators = Some t"
    using find_terminator [OF assms, of "''v=spf1''"] by simp
  have p: "TrimPrefix ''v=spf1'' ''v=spf1 '' = ''v=spf1''" by code_simp
  show ?thesis
    unfolding spfm_merge_content_def f option.case Let_def prod.case TrimSuffix_append p by simp
qed

lemma processSPFM_repeats_version_witness:
  "spfm_merge_content (''v=spf1'' @ '' -all'') ''include:b.com'' = ''v=spf1 '' @ ''include:b.com'' @ '' v=spf1'' @ '' -all''"
  by (rule processSPFM_repeats_version) (simp add: spf_terminators_def)

end
