(* ===== verification/Net_IP.thy ===== *)
theory Net_IP
  imports Go_Strings
begin

text \<open>
  Go's \<open>net.ParseIP\<close> and \<open>IP.To4\<close>, which the validators and the record builders call: dotted
  decimal octets without leading zeros, and IPv6 text with at most one \<open>::\<close> and an optional
  trailing IPv4 part. A parsed address is its 16 bytes, an IPv4 address being the mapped form
  as in Go. An address with a zone (any percent sign) is no \<open>net.IP\<close>.
\<close>

definition parse_octet :: "string \<Rightarrow> nat option" where
  "parse_octet w =
     (if w \<noteq> [] \<and> length w \<le> 3 \<and> list_all is_digit w \<and> (hd w \<noteq> CHR ''0'' \<or> length w = 1)
         \<and> dec_value w \<le> 255
      then Some (nat (dec_value w)) else None)"

definition parse_ipv4_fields :: "string \<Rightarrow> nat list option" where
  "parse_ipv4_fields s =
     (let ws = Split s CHR ''.'' in
      if length ws = 4 \<and> list_all (\<lambda>w. parse_octet w \<noteq> None) ws
      then Some (map (\<lambda>w. the (parse_octet w)) ws) else None)"

definition hex_digit :: "char \<Rightarrow> nat option" where
  "hex_digit c =
     (if is_digit c then Some (byte c - 48)
      else if 97 \<le> byte c \<and> byte c \<le> 102 then Some (byte c - 87)
      else if 65 \<le> byte c \<and> byte c \<le> 70 then Some (byte c - 55)
      else None)"

definition is_hex :: "char \<Rightarrow> bool" where
  "is_hex c \<longleftrightarrow> hex_digit c \<noteq> None"

definition hex_value :: "string \<Rightarrow> nat" where
  "hex_value s = foldl (\<lambda>n c. 16 * n + the (hex_digit c)) 0 s"

text \<open>The loop of \<open>netip.parseIPv6\<close>: the text left, the bytes parsed so far and the position
  of the ellipsis. The result is the bytes and the ellipsis once the text is used up.\<close>

function parse_ipv6_loop :: "string \<Rightarrow> nat list \<Rightarrow> nat option \<Rightarrow> (nat list \<times> nat option) option" where
  "parse_ipv6_loop s bs ell =
     (if 16 \<le> length bs then (if s = [] then Some (bs, ell) else None)
      else
        let h = takeWhile is_hex s; t = dropWhile is_hex s in
        if h = [] \<or> 4 < length h then None
        else if t \<noteq> [] \<and> hd t = CHR ''.'' then
          (if (ell = None \<and> length bs \<noteq> 12) \<or> 16 < length bs + 4 then None
           else map_option (\<lambda>v4. (bs @ v4, ell)) (parse_ipv4_fields s))
        else
          let bs' = bs @ [hex_value h div 256, hex_value h mod 256] in
          (case t of
             [] \<Rightarrow> Some (bs', ell)
           | c # u \<Rightarrow>
               if c \<noteq> CHR '':'' \<or> u = [] then None
               else if hd u = CHR '':'' then
                 (if ell \<noteq> None then None
                  else if tl u = [] then Some (bs', Some (length bs'))
                  else parse_ipv6_loop (tl u) bs' (Some (length bs')))
               else parse_ipv6_loop u bs' ell))"
  by pat_completeness auto
termination
proof (relation "measure (\<lambda>(s, bs, ell). length s)", goal_cases)
  case 1
  then show ?case by simp
next
  case (2 s bs ell h t bs' c u)
  then have "length (dropWhile is_hex s) = Suc (length u)" by (metis length_Cons)
  with length_dropWhile_le [of is_hex s] show ?case by simp
next
  case (3 s bs ell h t bs' c u)
  then have "length (dropWhile is_hex s) = Suc (length u)" by (metis length_Cons)
  with length_dropWhile_le [of is_hex s] show ?case by simp
qed

declare parse_ipv6_loop.simps [simp del]

definition parse_ipv6 :: "string \<Rightarrow> nat list option" where
  "parse_ipv6 s0 =
     (let lead = HasPrefix s0 ''::''; s = (if lead then drop 2 s0 else s0) in
      if lead \<and> s = [] then Some (replicate 16 0)
      else (case parse_ipv6_loop s [] (if lead then Some 0 else None) of
              None \<Rightarrow> None
            | Some (bs, ell) \<Rightarrow>
                if length bs < 16
                then (case ell of None \<Rightarrow> None
                      | Some e \<Rightarrow> Some (take e bs @ replicate (16 - length bs) 0 @ drop e bs))
                else if ell \<noteq> None then None else Some bs))"

definition v4_mapped :: "nat list" where
  "v4_mapped = replicate 10 0 @ [255, 255]"

definition ParseIP :: "string \<Rightarrow> nat list option" where
  "ParseIP s =
     (if CHR ''%'' \<in> set s then None
      else case find (\<lambda>c. c = CHR ''.'' \<or> c = CHR '':'') s of
        None \<Rightarrow> None
      | Some c \<Rightarrow> if c = CHR ''.'' then map_option (\<lambda>v4. v4_mapped @ v4) (parse_ipv4_fields s)
                  else parse_ipv6 s)"

definition To4 :: "nat list \<Rightarrow> nat list option" where
  "To4 ip = (if take 12 ip = v4_mapped then Some (drop 12 ip) else None)"

definition is_ipv4_text :: "string \<Rightarrow> bool" where
  "is_ipv4_text s = (case ParseIP s of Some ip \<Rightarrow> To4 ip \<noteq> None | None \<Rightarrow> False)"

definition is_ipv6_text :: "string \<Rightarrow> bool" where
  "is_ipv6_text s = (case ParseIP s of Some ip \<Rightarrow> To4 ip = None | None \<Rightarrow> False)"

subsection \<open>Every parsed address is sixteen bytes\<close>

lemma parse_ipv4_fields_ok: "parse_ipv4_fields s = Some v \<Longrightarrow> length v = 4 \<and> (\<forall>b \<in> set v. b < 256)"
proof -
  have o: "parse_octet w = Some b \<Longrightarrow> b < 256" for w b
    by (auto simp: parse_octet_def split: if_splits)
  assume "parse_ipv4_fields s = Some v"
  then have "length (Split s CHR ''.'') = 4" "list_all (\<lambda>w. parse_octet w \<noteq> None) (Split s CHR ''.'')"
    "v = map (\<lambda>w. the (parse_octet w)) (Split s CHR ''.'')"
    by (auto simp: parse_ipv4_fields_def Let_def split: if_splits)
  then show ?thesis by (fastforce simp: list_all_iff dest: o)
qed

lemma hex_value_bound: "list_all is_hex h \<Longrightarrow> hex_value h < 16 ^ length h"
proof (induction h rule: rev_induct)
  case (snoc c h)
  from snoc.prems obtain d where d: "hex_digit c = Some d" by (auto simp: is_hex_def)
  then have "d < 16" by (auto simp: hex_digit_def is_digit_def split: if_splits)
  with snoc d show ?case by (simp add: hex_value_def)
qed (simp add: hex_value_def)

lemma hex_value_bytes:
  assumes "list_all is_hex h" "length h \<le> 4"
  shows "hex_value h div 256 < 256"
proof -
  have "hex_value h < 16 ^ length h" using assms(1) by (rule hex_value_bound)
  also have "\<dots> \<le> 16 ^ 4" using assms(2) by (intro power_increasing) simp_all
  finally show ?thesis by simp
qed

lemma takeWhile_hex: "list_all is_hex (takeWhile is_hex s)"
  by (auto simp: list_all_iff dest: set_takeWhileD)

text \<open>One turn of the loop, after a group of one to four hexadecimal digits.\<close>

lemma parse_ipv6_loop_end:
  assumes "\<not> 16 \<le> length bs" "takeWhile is_hex s \<noteq> []" "length (takeWhile is_hex s) \<le> 4" "dropWhile is_hex s = []"
  shows "parse_ipv6_loop s bs ell =
    Some (bs @ [hex_value (takeWhile is_hex s) div 256, hex_value (takeWhile is_hex s) mod 256], ell)"
  by (subst parse_ipv6_loop.simps)
     (use assms in \<open>simp only: Let_def not_le [symmetric] if_False simp_thms list.case\<close>)

lemma parse_ipv6_loop_step:
  assumes "\<not> 16 \<le> length bs" "takeWhile is_hex s \<noteq> []" "length (takeWhile is_hex s) \<le> 4"
    "dropWhile is_hex s = c # u" "c \<noteq> CHR ''.''"
    "bs' = bs @ [hex_value (takeWhile is_hex s) div 256, hex_value (takeWhile is_hex s) mod 256]"
  shows "parse_ipv6_loop s bs ell =
    (if c \<noteq> CHR '':'' \<or> u = [] then None
     else if hd u = CHR '':'' then
       (if ell \<noteq> None then None
        else if tl u = [] then Some (bs', Some (length bs'))
        else parse_ipv6_loop (tl u) bs' (Some (length bs')))
     else parse_ipv6_loop u bs' ell)"
  by (subst parse_ipv6_loop.simps)
     (use assms in \<open>simp only: Let_def not_le [symmetric] if_False simp_thms list.case list.sel\<close>)

lemma parse_ipv6_loop_ok:
  assumes "parse_ipv6_loop s bs ell = Some (out, e)" and "length bs \<le> 16" "even (length bs)"
    "\<forall>b \<in> set bs. b < 256" "\<forall>k. ell = Some k \<longrightarrow> k \<le> length bs"
  shows "length out \<le> 16 \<and> (\<forall>b \<in> set out. b < 256) \<and> (\<forall>k. e = Some k \<longrightarrow> k \<le> length out)"
  using assms
proof (induction s bs ell rule: parse_ipv6_loop.induct)
  case (1 s bs ell)
  let ?h = "takeWhile is_hex s" and ?t = "dropWhile is_hex s"
  show ?case
  proof (cases "16 \<le> length bs")
    case True
    with "1.prems" show ?thesis by (auto simp: parse_ipv6_loop.simps [of s] split: if_splits)
  next
    case False
    with "1.prems"(2,3) have lb: "length bs + 2 \<le> 16" by presburger
    from False "1.prems"(1) have hh: "\<not> (?h = [] \<or> 4 < length ?h)"
      by (auto simp: parse_ipv6_loop.simps [of s] split: if_splits)
    then have hv: "hex_value ?h div 256 < 256"
      by (intro hex_value_bytes takeWhile_hex) auto
    show ?thesis
    proof (cases "?t \<noteq> [] \<and> hd ?t = CHR ''.''")
      case True
      with False hh "1.prems" obtain v where v: "parse_ipv4_fields s = Some v" "out = bs @ v" "e = ell"
        "length bs + 4 \<le> 16"
        by (auto simp: parse_ipv6_loop.simps [of s] Let_def split: if_splits)
      with parse_ipv4_fields_ok [OF v(1)] "1.prems" show ?thesis by auto
    next
      case dot: False
      obtain bs' where bs': "bs' = bs @ [hex_value ?h div 256, hex_value ?h mod 256]" by blast
      have inv: "length bs' \<le> 16" "even (length bs')" "\<forall>b \<in> set bs'. b < 256"
        "\<forall>k. ell = Some k \<longrightarrow> k \<le> length bs'"
        using lb hv "1.prems" by (auto simp: bs')
      show ?thesis
      proof (cases ?t)
        case Nil
        have len: "\<not> 16 \<le> length bs" and h: "?h \<noteq> []" "length ?h \<le> 4" using False hh by auto
        have "out = bs'" "e = ell"
          using "1.prems"(1) [unfolded parse_ipv6_loop_end [OF len h Nil], folded bs'] by blast+
        with inv show ?thesis by simp
      next
        case (Cons c u)
        have len: "\<not> 16 \<le> length bs" and h: "?h \<noteq> []" "length ?h \<le> 4" using False hh by auto
        have cd: "c \<noteq> CHR ''.''" using dot Cons by auto
        note un = "1.prems"(1) [unfolded parse_ipv6_loop_step [OF len h Cons cd bs']]
        have cu: "c = CHR '':''" "u \<noteq> []"
          using un by (metis option.distinct(1))+
        show ?thesis
        proof (cases "hd u = CHR '':''")
          case True
          have ell: "ell = None" using un cu True by (metis option.distinct(1))
          show ?thesis
          proof (cases "tl u = []")
            case tl: True
            have "Some (bs', Some (length bs')) = Some (out, e)" using un cu True ell tl by metis
            then have "out = bs'" "e = Some (length bs')" by blast+
            with inv show ?thesis by simp
          next
            case tl: False
            have r: "parse_ipv6_loop (tl u) bs' (Some (length bs')) = Some (out, e)"
              using un cu True ell tl by metis
            show ?thesis
              by (rule "1.IH"(1) [OF False refl refl hh dot bs' Cons _ True _ tl r inv(1-3)])
                 (use cu ell in auto)
          qed
        next
          case hd: False
          have r: "parse_ipv6_loop u bs' ell = Some (out, e)"
            using un cu hd by metis
          show ?thesis by (rule "1.IH"(2) [OF False refl refl hh dot bs' Cons _ hd r inv]) (use cu in auto)
        qed
      qed
    qed
  qed
qed

lemma ParseIP_bytes:
  assumes "ParseIP s = Some ip"
  shows "length ip = 16 \<and> (\<forall>b \<in> set ip. b < 256)"
proof -
  have v6: "length ip = 16 \<and> (\<forall>b \<in> set ip. b < 256)" if p6: "parse_ipv6 s = Some ip"
  proof (cases "HasPrefix s ''::'' \<and> drop 2 s = []")
    case True
    with p6 show ?thesis by (auto simp: parse_ipv6_def)
  next
    case False
    let ?e0 = "if HasPrefix s ''::'' then Some 0 else None :: nat option"
    let ?s = "if HasPrefix s ''::'' then drop 2 s else s"
    from p6 False obtain bs ell where l: "parse_ipv6_loop ?s [] ?e0 = Some (bs, ell)"
      and r: "ip = (case ell of Some e \<Rightarrow> take e bs @ replicate (16 - length bs) 0 @ drop e bs | None \<Rightarrow> bs)"
      and g: "if ell = None then \<not> length bs < 16 else length bs < 16"
      unfolding parse_ipv6_def Let_def by (auto split: option.splits if_splits)
    have ok: "length bs \<le> 16 \<and> (\<forall>b \<in> set bs. b < 256) \<and> (\<forall>k. ell = Some k \<longrightarrow> k \<le> length bs)"
      by (rule parse_ipv6_loop_ok [OF l]) auto
    show ?thesis
    proof (cases ell)
      case None
      with ok r g show ?thesis by auto
    next
      case (Some e)
      with ok r g have "length ip = 16" by simp
      moreover have "set ip \<subseteq> insert 0 (set bs)"
        using Some r by (auto dest: in_set_takeD in_set_dropD)
      ultimately show ?thesis using ok by fastforce
    qed
  qed
  have v4: "length ip = 16 \<and> (\<forall>b \<in> set ip. b < 256)"
    if "ip = v4_mapped @ v" "parse_ipv4_fields s = Some v" for v
    using parse_ipv4_fields_ok [OF that(2)] that(1) by (auto simp: v4_mapped_def)
  from assms v6 v4 show ?thesis by (auto simp: ParseIP_def split: if_splits option.splits)
qed

lemma is_ipv4_not_ipv6: "is_ipv4_text s \<Longrightarrow> \<not> is_ipv6_text s"
  by (auto simp: is_ipv4_text_def is_ipv6_text_def split: option.splits)

lemma ParseIP_no_percent: "ParseIP s = Some ip \<Longrightarrow> CHR ''%'' \<notin> set s"
  by (auto simp: ParseIP_def split: if_splits)

end
