(* ===== verification/Validate.thy ===== *)
theory Validate
  imports Net_IP
begin

text \<open>
  \<open>validate.go\<close>: the checks of DNS names and of record values by type. A check returns the
  constant part of its error message, or \<open>None\<close> for nil.
\<close>

subsection \<open>Names\<close>

definition name_char :: "char \<Rightarrow> bool" where
  "name_char c \<longleftrightarrow> is_lower c \<or> is_upper c \<or> is_digit c \<or> c = CHR ''-'' \<or> c = CHR ''_''"

definition validateDNSNameLabel :: "string \<Rightarrow> bool \<Rightarrow> string option" where
  "validateDNSNameLabel label isFirst =
     (if length label = 0 then Some ''empty label''
      else if 63 < length label then Some ''label exceeds 63 characters''
      else if label = ''*'' then (if isFirst then None else Some ''wildcard only allowed as first label'')
      else if label ! 0 = CHR ''-'' \<or> label ! (length label - 1) = CHR ''-''
      then Some ''label has leading or trailing hyphen''
      else if \<not> list_all name_char label then Some ''label contains invalid character''
      else None)"

definition ValidateDNSName :: "string \<Rightarrow> string option" where
  "ValidateDNSName name =
     (if name = [] then Some ''DNS name is empty''
      else if list_ex (\<lambda>c. byte c \<le> 0x20 \<or> byte c = 0x7f) name then Some ''invalid character''
      else let clean = TrimSuffix name ''.'' in
        if clean = [] then Some ''DNS name is empty after stripping trailing dot''
        else if 253 < length clean then Some ''DNS name exceeds 253 characters''
        else let labels = Split clean CHR ''.'' in
          if length labels < 2 then Some ''DNS name must have at least two labels''
          else firstE (\<lambda>(i, label). validateDNSNameLabel label (i = 0)) (enum_from 0 labels))"

subsection \<open>Record values\<close>

definition ValidateRecordValue :: "string \<Rightarrow> string \<Rightarrow> string option" where
  "ValidateRecordValue recordType value =
     (let typ = ToUpper recordType in
      if typ = ''A'' then
        (if value = [] then Some ''A record value is empty''
         else case ParseIP value of
             None \<Rightarrow> Some ''A record value is not a valid IP address''
           | Some ip \<Rightarrow> if To4 ip = None then Some ''A record value is not an IPv4 address'' else None)
      else if typ = ''AAAA'' then
        (if value = [] then Some ''AAAA record value is empty''
         else case ParseIP value of
             None \<Rightarrow> Some ''AAAA record value is not a valid IP address''
           | Some ip \<Rightarrow> if To4 ip \<noteq> None then Some ''AAAA record value is an IPv4 address'' else None)
      else if typ = ''CNAME'' then
        (if value = [] then Some ''CNAME record value is empty'' else ValidateDNSName value)
      else if typ = ''MX'' then
        (if value = [] then Some ''MX record value is empty''
         else case SplitN2 value CHR '' '' of
             p # t # _ \<Rightarrow>
               (case Atoi p of
                  None \<Rightarrow> Some ''MX record priority is not a valid integer''
                | Some n \<Rightarrow> if n < 0 then Some ''MX record priority must be non-negative''
                            else if TrimSpace t = [] then Some ''MX record target is empty'' else None)
           | _ \<Rightarrow> Some ''MX record value missing priority or target'')
      else if typ = ''TXT'' then
        (if value = [] then Some ''TXT record value is empty''
         else if 4096 < length value then Some ''TXT record value exceeds 4096 characters'' else None)
      else if typ = ''NS'' then
        (if value = [] then Some ''NS record value is empty'' else ValidateDNSName value)
      else if typ = ''SRV'' then (if value = [] then Some ''SRV record value is empty'' else None)
      else None)"

subsection \<open>What the name check accepts\<close>

text \<open>The grammar of the names meant: one to 63 safe characters per label, no hyphen at an
  end of it, a wildcard only as the whole of the first one.\<close>

definition plain_label :: "string \<Rightarrow> bool" where
  "plain_label l \<longleftrightarrow> l \<noteq> [] \<and> length l \<le> 63 \<and> list_all name_char l \<and> hd l \<noteq> CHR ''-'' \<and> last l \<noteq> CHR ''-''"

definition dns_name_ok :: "string list \<Rightarrow> bool" where
  "dns_name_ok ls \<longleftrightarrow> 2 \<le> length ls \<and> (hd ls = ''*'' \<or> plain_label (hd ls)) \<and> list_all plain_label (tl ls)"

lemma name_char_star [simp]: "\<not> name_char CHR ''*''"
  by (simp add: name_char_def is_lower_def is_upper_def is_digit_def byte_def)

lemma name_char_dot [simp]: "\<not> name_char CHR ''.''"
  by (simp add: name_char_def is_lower_def is_upper_def is_digit_def byte_def)

lemma name_char_printable: "name_char c \<Longrightarrow> 0x20 < byte c \<and> byte c \<noteq> 0x7f"
  by (auto simp: name_char_def is_lower_def is_upper_def is_digit_def byte_def)

lemma label_ok_iff:
  "validateDNSNameLabel l b = None \<longleftrightarrow> (l = ''*'' \<and> b) \<or> plain_label l"
  by (auto simp: validateDNSNameLabel_def plain_label_def hd_conv_nth last_conv_nth)

lemma firstE_labels:
  "firstE (\<lambda>(i, l). validateDNSNameLabel l (i = 0)) (enum_from (Suc n) ls) = None
     \<longleftrightarrow> list_all plain_label ls"
proof (induction ls arbitrary: n)
  case (Cons l ls)
  have "validateDNSNameLabel l False = None \<longleftrightarrow> plain_label l" by (simp add: label_ok_iff)
  with Cons show ?case by (cases "validateDNSNameLabel l False") (simp_all del: firstE_None_iff)
qed simp

lemma plain_label_printable: "plain_label l \<Longrightarrow> c \<in> set l \<Longrightarrow> 0x20 < byte c \<and> byte c \<noteq> 0x7f"
  using name_char_printable [of c] by (auto simp: plain_label_def list_all_iff)

lemma dns_name_ok_printable:
  assumes "dns_name_ok (Split clean CHR ''.'')" and "c \<in> set clean"
  shows "0x20 < byte c \<and> byte c \<noteq> 0x7f"
proof -
  from assms(2) Split_set [of clean "CHR ''.''"]
  consider "c = CHR ''.''" | w where "w \<in> set (Split clean CHR ''.'')" "c \<in> set w" by auto
  then show ?thesis
  proof cases
    case 1
    then show ?thesis by (simp add: byte_def)
  next
    case 2
    with assms(1) have "w = ''*'' \<or> plain_label w"
      by (cases "Split clean CHR ''.''") (auto simp: dns_name_ok_def list_all_iff)
    with 2 show ?thesis by (auto simp: byte_def dest: plain_label_printable)
  qed
qed

lemma ValidateDNSName_iff:
  "ValidateDNSName name = None \<longleftrightarrow>
     (let clean = TrimSuffix name ''.'' in
        clean \<noteq> [] \<and> length clean \<le> 253 \<and> dns_name_ok (Split clean CHR ''.''))"
proof -
  let ?c = "TrimSuffix name ''.''" and ?ls = "Split (TrimSuffix name ''.'') CHR ''.''"
  have labels: "firstE (\<lambda>(i, l). validateDNSNameLabel l (i = 0)) (enum_from 0 ls) = None
      \<and> 2 \<le> length ls \<longleftrightarrow> dns_name_ok ls" for ls
  proof (cases ls)
    case (Cons l ls')
    have "validateDNSNameLabel l True = None \<longleftrightarrow> l = ''*'' \<or> plain_label l" by (simp add: label_ok_iff)
    with Cons firstE_labels [of 0 ls'] show ?thesis
      by (cases "validateDNSNameLabel l True") (auto simp: dns_name_ok_def simp del: firstE_None_iff)
  qed (simp add: dns_name_ok_def)
  have bad: "list_ex (\<lambda>c. byte c \<le> 0x20 \<or> byte c = 0x7f) name = False" if "dns_name_ok ?ls"
  proof -
    have "set name \<subseteq> insert CHR ''.'' (set ?c)"
    proof (cases "suffix ''.'' name")
      case True
      then obtain u where "name = u @ ''.''" by (auto simp: suffix_def)
      then show ?thesis by auto
    qed (auto simp: TrimSuffix_def)
    with dns_name_ok_printable [OF that] show ?thesis
      by (fastforce simp: list_ex_iff byte_def)
  qed
  have ne: "name = [] \<Longrightarrow> ?c = []" by (simp add: TrimSuffix_def)
  show ?thesis
    using labels [of ?ls] bad ne
    by (cases "dns_name_ok ?ls") (auto simp: ValidateDNSName_def Let_def simp del: firstE_None_iff)
qed

subsection \<open>Properties\<close>

text \<open>Property C22. A DNS name passes exactly when, less one trailing dot, it has at most 253 bytes in at
  least two labels of one to 63 letters, digits, hyphens and underscores with no hyphen at an end,
  the first of which may be a wildcard instead.\<close>

theorem ValidateDNSName_exact:
  "ValidateDNSName name = None \<longleftrightarrow>
     (let clean = TrimSuffix name ''.'' in
        clean \<noteq> [] \<and> length clean \<le> 253 \<and> dns_name_ok (Split clean CHR ''.''))"
  by (rule ValidateDNSName_iff)

text \<open>An address accepted as an A value is one of Go's sixteen-byte addresses in the mapped
  IPv4 range, and is never accepted as an AAAA value.\<close>

theorem ValidateRecordValue_A:
  assumes "ValidateRecordValue typ v = None" and "ToUpper typ = ''A''"
  shows "(\<exists>ip v4. ParseIP v = Some ip \<and> length ip = 16 \<and> To4 ip = Some v4 \<and> length v4 = 4)
    \<and> ValidateRecordValue ''AAAA'' v \<noteq> None"
proof -
  have u: "ToUpper ''AAAA'' = ''AAAA''" by code_simp
  obtain ip where ip: "ParseIP v = Some ip" "To4 ip \<noteq> None" "v \<noteq> []"
    using assms(1) unfolding ValidateRecordValue_def assms(2) Let_def by (auto split: if_splits option.splits)
  then obtain v4 where v4: "To4 ip = Some v4" by auto
  then have "v4 = drop 12 ip" by (auto simp: To4_def split: if_splits)
  with ParseIP_bytes [OF ip(1)] have "length ip = 16" "length v4 = 4" by simp_all
  moreover have "ValidateRecordValue ''AAAA'' v \<noteq> None"
    unfolding ValidateRecordValue_def u Let_def using ip by simp
  ultimately show ?thesis using ip(1) v4 by auto
qed

lemma ValidateRecordValue_A_witness:
  "(\<exists>ip v4. ParseIP ''192.0.2.7'' = Some ip \<and> length ip = 16 \<and> To4 ip = Some v4 \<and> length v4 = 4)
    \<and> ValidateRecordValue ''AAAA'' ''192.0.2.7'' \<noteq> None"
  by (rule ValidateRecordValue_A [of "''a''"]) code_simp+

end
