(* ===== verification/Net_URL.thy ===== *)
theory Net_URL
  imports Net_IP
begin

text \<open>
  The part of Go's \<open>net/url\<close> that the program uses: \<open>url.Parse\<close> as far as the scheme and the
  host it finds, and \<open>url.QueryEscape\<close>. A host in square brackets is left out (\<open>None\<close>): it is an
  IPv6 literal, with at least two colons, which the only caller of \<open>url.Parse\<close> rejects.
\<close>

subsection \<open>Percent escapes\<close>

fun escapes_ok :: "string \<Rightarrow> bool" where
  "escapes_ok [] = True"
| "escapes_ok (c # s) =
     (if c = CHR ''%'' then (case s of a # b # t \<Rightarrow> is_hex a \<and> is_hex b \<and> escapes_ok t | _ \<Rightarrow> False)
      else escapes_ok s)"

definition host_char_ok :: "char \<Rightarrow> bool" where
  "host_char_ok c \<longleftrightarrow> 0x80 \<le> byte c \<or> is_upper c \<or> is_lower c \<or> is_digit c
     \<or> c \<in> set ''!$&()*+,;=:[]<>-_.~'' \<or> byte c = 0x27 \<or> byte c = 0x22"

definition escape_value :: "char \<Rightarrow> char \<Rightarrow> nat" where
  "escape_value a b = 16 * the (hex_digit a) + the (hex_digit b)"

fun unescape_host :: "string \<Rightarrow> string option" where
  "unescape_host [] = Some []"
| "unescape_host (c # s) =
     (if c = CHR ''%'' then
        (case s of
           a # b # t \<Rightarrow>
             if is_hex a \<and> is_hex b \<and> (8 \<le> the (hex_digit a) \<or> (a = CHR ''2'' \<and> b = CHR ''5''))
             then map_option (\<lambda>r. char_of (escape_value a b) # r) (unescape_host t) else None
         | _ \<Rightarrow> None)
      else if host_char_ok c then map_option ((#) c) (unescape_host s) else None)"

subsection \<open>url.Parse\<close>

definition cut_at :: "string \<Rightarrow> char \<Rightarrow> string \<times> string" where
  "cut_at s c = (takeWhile ((\<noteq>) c) s, drop 1 (dropWhile ((\<noteq>) c) s))"

definition scheme_char :: "nat \<Rightarrow> char \<Rightarrow> bool" where
  "scheme_char i c \<longleftrightarrow> is_lower c \<or> is_upper c
     \<or> (i \<noteq> 0 \<and> (is_digit c \<or> c = CHR ''+'' \<or> c = CHR ''-'' \<or> c = CHR ''.''))"

text \<open>\<open>getScheme\<close>: \<open>None\<close> is the error "missing protocol scheme".\<close>

definition get_scheme :: "string \<Rightarrow> (string \<times> string) option" where
  "get_scheme s =
     (if s \<noteq> [] \<and> hd s = CHR '':'' then None
      else let name = takeWhile (scheme_char 1) s; rest = dropWhile (scheme_char 1) s in
        if s = [] \<or> \<not> scheme_char 0 (hd s) \<or> rest = [] \<or> hd rest \<noteq> CHR '':'' then Some ([], s)
        else Some (name, tl rest))"

definition userinfo_char :: "char \<Rightarrow> bool" where
  "userinfo_char c \<longleftrightarrow> is_upper c \<or> is_lower c \<or> is_digit c
     \<or> c \<in> set ''-._:~!$&()*+,;=%@'' \<or> byte c = 0x27"

definition last_at :: "string \<Rightarrow> (string \<times> string) option" where
  "last_at s = (if CHR ''@'' \<in> set s
     then Some (rev (drop 1 (dropWhile ((\<noteq>) CHR ''@'') (rev s))), rev (takeWhile ((\<noteq>) CHR ''@'') (rev s)))
     else None)"

definition valid_optional_port :: "string \<Rightarrow> bool" where
  "valid_optional_port p \<longleftrightarrow> p = [] \<or> (hd p = CHR '':'' \<and> list_all is_digit (tl p))"

definition parse_host :: "string \<Rightarrow> string option" where
  "parse_host h =
     (if CHR ''['' \<in> set h \<or> CHR '']'' \<in> set h then None
      else if valid_optional_port (dropWhile ((\<noteq>) CHR '':'') h) then unescape_host h else None)"

definition parse_authority :: "string \<Rightarrow> string option" where
  "parse_authority a =
     (case last_at a of
        None \<Rightarrow> parse_host a
      | Some (user, h) \<Rightarrow> (if list_all userinfo_char user \<and> escapes_ok user then parse_host h else None))"

text \<open>The scheme and the host of \<open>url.Parse\<close>, \<open>None\<close> where it returns an error.\<close>

definition url_parse :: "string \<Rightarrow> (string \<times> string) option" where
  "url_parse raw =
     (let (u, frag) = cut_at raw CHR ''#'' in
      if list_ex (\<lambda>c. byte c < 0x20 \<or> byte c = 0x7f) u \<or> \<not> escapes_ok frag then None
      else if u = ''*'' then Some ([], [])
      else case get_scheme u of
        None \<Rightarrow> None
      | Some (sch, rest0) \<Rightarrow>
          (let scheme = ToLower sch; rest = fst (cut_at rest0 CHR ''?'') in
           if \<not> HasPrefix rest ''/'' \<and> scheme \<noteq> [] then Some (scheme, [])
           else if \<not> HasPrefix rest ''/'' \<and> CHR '':'' \<in> set (fst (cut_at rest CHR ''/'')) then None
           else if (scheme \<noteq> [] \<or> \<not> HasPrefix rest ''///'') \<and> HasPrefix rest ''//'' then
             (let auth = takeWhile ((\<noteq>) CHR ''/'') (drop 2 rest);
                  path = dropWhile ((\<noteq>) CHR ''/'') (drop 2 rest) in
              case parse_authority auth of
                None \<Rightarrow> None
              | Some h \<Rightarrow> (if escapes_ok path then Some (scheme, h) else None))
           else if escapes_ok rest then Some (scheme, []) else None))"

subsection \<open>url.QueryEscape\<close>

definition hex_char :: "nat \<Rightarrow> char" where
  "hex_char n = char_of (if n < 10 then 48 + n else 55 + n)"

definition query_unreserved :: "char \<Rightarrow> bool" where
  "query_unreserved c \<longleftrightarrow> is_upper c \<or> is_lower c \<or> is_digit c \<or> c \<in> set ''-_.~''"

definition escape_char :: "char \<Rightarrow> string" where
  "escape_char c =
     (if query_unreserved c then [c]
      else if c = CHR '' '' then ''+''
      else [CHR ''%'', hex_char (byte c div 16), hex_char (byte c mod 16)])"

definition QueryEscape :: "string \<Rightarrow> string" where
  "QueryEscape s = concat (map escape_char s)"

text \<open>Decoding of percent escapes, the inverse a receiver applies.\<close>

fun percent_decode :: "string \<Rightarrow> string" where
  "percent_decode [] = []"
| "percent_decode (c # s) =
     (if c = CHR ''%'' then
        (case s of a # b # t \<Rightarrow> char_of (escape_value a b) # percent_decode t | _ \<Rightarrow> c # percent_decode s)
      else c # percent_decode s)"

lemma hex_digit_hex_char: "n < 16 \<Longrightarrow> hex_digit (hex_char n) = Some n"
  by (auto simp: hex_digit_def hex_char_def is_digit_def byte_char_of)

lemma escape_value_char: "escape_value (hex_char (byte c div 16)) (hex_char (byte c mod 16)) = byte c"
proof -
  have "byte c div 16 < 16" using byte_less [of c] by linarith
  then show ?thesis by (simp add: escape_value_def hex_digit_hex_char)
qed

lemma char_of_byte [simp]: "char_of (byte c) = c"
  by (simp add: byte_def)

lemma query_unreserved_not: "query_unreserved c \<Longrightarrow> c \<noteq> CHR ''%'' \<and> c \<noteq> CHR ''&'' \<and> c \<noteq> CHR ''='' \<and> c \<noteq> CHR ''+''"
  by (auto simp: query_unreserved_def is_upper_def is_lower_def is_digit_def byte_def)

lemma hex_char_not: "n < 16 \<Longrightarrow> hex_char n \<noteq> CHR ''&'' \<and> hex_char n \<noteq> CHR ''='' \<and> hex_char n \<noteq> CHR ''+''"
proof -
  assume n: "n < 16"
  then have "byte (hex_char n) = (if n < 10 then 48 + n else 55 + n)"
    by (auto simp: hex_char_def byte_char_of)
  with n have b: "byte (hex_char n) \<ge> 48" "byte (hex_char n) \<noteq> 61" by auto
  show ?thesis
  proof (intro conjI notI)
    assume "hex_char n = CHR ''&''"
    with b show False by (simp add: byte_def)
  next
    assume "hex_char n = CHR ''=''"
    with b show False by (simp add: byte_def)
  next
    assume "hex_char n = CHR ''+''"
    with b show False by (simp add: byte_def)
  qed
qed

end
