(* ===== verification/Template_Validate.thy ===== *)
theory Template_Validate
  imports Template_Types Validate Net_URL
begin

text \<open>
  The checks of the template package: hosts, labels and targets of \<open>resolve.go\<close>, and the
  record types, hosts, addresses, targets and redirect URLs of \<open>process.go\<close>.
\<close>

subsection \<open>resolve.go\<close>

definition hasForbiddenChars :: "string \<Rightarrow> string option" where
  "hasForbiddenChars s = firstE (\<lambda>c.
     if byte c = 0 then Some ''contains null byte''
     else if byte c = 0x0D then Some ''contains carriage return''
     else if byte c = 0x0A then Some ''contains newline''
     else if byte c < 0x20 \<and> byte c \<noteq> 9 then Some ''contains control character''
     else if byte c = 0x7f then Some ''contains DEL character''
     else None) s"

definition validateTXTData :: "string \<Rightarrow> string option" where
  "validateTXTData s = hasForbiddenChars s"

definition validateDNSLabel :: "string \<Rightarrow> string option" where
  "validateDNSLabel label =
     (if length label = 0 then Some ''empty DNS label''
      else if 63 < length label then Some ''DNS label exceeds 63 characters''
      else if label = ''*'' \<or> label = ''@'' then None
      else if label ! 0 = CHR ''-'' \<or> label ! (length label - 1) = CHR ''-''
      then Some ''DNS label has leading or trailing hyphen''
      else if \<not> list_all name_char label then Some ''DNS label contains invalid character''
      else None)"

definition host_forbidden :: string where
  "host_forbidden = [CHR '' '', CHR 0x09, CHR '';'']"

definition validateHost :: "string \<Rightarrow> string option" where
  "validateHost host0 =
     (case hasForbiddenChars host0 of
        Some e \<Rightarrow> Some e
      | None \<Rightarrow>
          let host = TrimPrefix (TrimSuffix host0 ''.'') ''.'' in
          if host = [] \<or> host = ''@'' then None
          else if ContainsAny host host_forbidden then Some ''host contains forbidden character''
          else if 253 < length host then Some ''host exceeds 253 characters''
          else firstE validateDNSLabel (Split host CHR ''.''))"

definition validatePointsTo :: "string \<Rightarrow> string \<Rightarrow> string option" where
  "validatePointsTo typ val =
     (case hasForbiddenChars val of
        Some e \<Rightarrow> Some e
      | None \<Rightarrow>
          if val = [] then Some ''pointsTo is empty''
          else if val = ''@'' then None
          else if ContainsAny val host_forbidden then Some ''pointsTo contains forbidden character''
          else if Contains val ''://'' then Some ''pointsTo must not contain a URL scheme''
          else if ContainsAny val ''/?#'' then Some ''pointsTo must not contain path or query''
          else if typ = ''A'' then
            (case ParseIP val of
               None \<Rightarrow> Some ''invalid IPv4 address''
             | Some ip \<Rightarrow> if To4 ip = None then Some ''invalid IPv4 address'' else None)
          else if typ = ''AAAA'' then
            (case ParseIP val of
               None \<Rightarrow> Some ''invalid IPv6 address''
             | Some ip \<Rightarrow> if To4 ip \<noteq> None then Some ''invalid IPv6 address'' else None)
          else if Contains val '':'' then Some ''pointsTo must not contain a port''
          else let host = TrimPrefix (TrimSuffix val ''.'') ''.'' in
            if length host = 0 \<or> 253 < length host then Some ''pointsTo length out of range''
            else firstE validateDNSLabel (Split host CHR ''.''))"

subsection \<open>process.go\<close>

definition knownTypes :: "string list" where
  "knownTypes = [''A'', ''AAAA'', ''CNAME'', ''TXT'', ''MX'', ''NS'', ''SRV'', ''SPFM'', ''REDIR301'',
     ''REDIR302'', ''APEXCNAME'', ''CAA'']"

definition isCustomType :: "string \<Rightarrow> bool" where
  "isCustomType typ \<longleftrightarrow> typ \<notin> set [''A'', ''AAAA'', ''CNAME'', ''TXT'', ''MX'', ''NS'', ''SRV'', ''SPFM'',
     ''REDIR301'', ''REDIR302'', ''APEXCNAME'']"

definition alnum :: "char \<Rightarrow> bool" where
  "alnum c \<longleftrightarrow> is_upper c \<or> is_lower c \<or> is_digit c"

definition validRecordType :: "string \<Rightarrow> bool" where
  "validRecordType typ =
     (if typ \<in> set knownTypes then True
      else if HasPrefix typ ''TYPE'' \<and> 4 < length typ then list_all is_digit (drop 4 typ)
      else if \<not> list_all alnum typ then False
      else 0 < length typ)"

definition validProtocols :: "string list" where
  "validProtocols = [''udp'', ''tcp'', ''tls'', ''UDP'', ''TCP'', ''TLS'']"

definition resolveHostName :: "string \<Rightarrow> string \<Rightarrow> string \<Rightarrow> string + string" where
  "resolveHostName templateHost callerHost domain =
     (let h = templateHost in
      if h = ''@'' \<or> h = [] then
        (if callerHost \<noteq> [] \<and> callerHost \<noteq> ''@'' then Inr callerHost else Inr ''@'')
      else if HasSuffix h ''.'' then
        (let h' = TrimSuffix h ''.''; domainLower = ToLower domain; hLower = ToLower h';
             suffix = ''.'' @ domainLower in
         if hLower = domainLower then Inr ''@''
         else if HasSuffix hLower suffix then Inr (take (length h' - length suffix) h')
         else Inl ''host is an FQDN outside zone'')
      else if callerHost \<noteq> [] \<and> callerHost \<noteq> ''@'' then Inr (h @ ''.'' @ callerHost)
      else Inr h)"

definition resolvePointsTo :: "string \<Rightarrow> string \<Rightarrow> string \<Rightarrow> string \<Rightarrow> string" where
  "resolvePointsTo val callerHost domain typ =
     (if val \<noteq> ''@'' then val
      else if callerHost \<noteq> [] \<and> callerHost \<noteq> ''@'' then callerHost @ ''.'' @ domain
      else domain)"

definition processValidateLabel :: "string \<Rightarrow> string option" where
  "processValidateLabel label =
     (if length label = 0 then Some ''empty DNS label''
      else if 63 < length label then Some ''DNS label exceeds 63 characters''
      else if label ! 0 = CHR ''-'' \<or> label ! (length label - 1) = CHR ''-''
      then Some ''DNS label has leading or trailing hyphen''
      else if \<not> list_all name_char label then Some ''DNS label contains invalid character''
      else None)"

definition wildcard_check :: "string list \<Rightarrow> string option" where
  "wildcard_check labels = firstE (\<lambda>(i, label).
     if Contains label ''*'' then
       (if i \<noteq> 0 then Some ''wildcard not in leftmost position''
        else if label \<noteq> ''*'' then Some ''wildcard must be a bare * label''
        else if list_ex (\<lambda>l. l = ''*'' \<or> l = ''@'') (drop 1 labels) then Some ''invalid label after wildcard''
        else None)
     else None) (enum_from 0 labels)"

definition processValidateHost :: "string \<Rightarrow> string option" where
  "processValidateHost host =
     (if host = [] \<or> host = ''@'' then None
      else if HasSuffix host ''.'' then Some ''trailing dot in host''
      else if ContainsAny host host_forbidden then Some ''host contains forbidden character''
      else if 253 < length host then Some ''host exceeds 253 characters''
      else let labels = Split host CHR ''.'' in
        (case wildcard_check labels of
           Some e \<Rightarrow> Some e
         | None \<Rightarrow> firstE (\<lambda>label. if label = ''*'' \<or> label = ''@'' then None else processValidateLabel label) labels))"

definition ip_hex_char :: "char \<Rightarrow> bool" where
  "ip_hex_char c \<longleftrightarrow> is_hex c \<or> c = CHR '':'' \<or> c = CHR ''.''"

definition processValidateIP :: "string \<Rightarrow> string \<Rightarrow> string option" where
  "processValidateIP typ val =
     (if ContainsAny val [CHR '' '', CHR 0x09] then Some ''contains whitespace''
      else if typ = ''A'' then
        (if \<not> Contains val ''.'' then Some ''invalid IPv4 address''
         else if list_ex (\<lambda>c. c \<noteq> CHR ''.'' \<and> \<not> is_digit c) val then Some ''invalid IPv4 address''
         else None)
      else if typ = ''AAAA'' then
        (if \<not> Contains val '':'' then Some ''invalid IPv6 address''
         else if \<not> list_all ip_hex_char val then Some ''invalid IPv6 address''
         else None)
      else None)"

definition validatePointsToLength :: "string \<Rightarrow> string option" where
  "validatePointsToLength val =
     (let v = TrimSuffix val ''.'' in
      if 253 < length v then Some ''pointsTo exceeds 253 characters''
      else firstE (\<lambda>l. if 63 < length l then Some ''pointsTo label exceeds 63 characters'' else None)
             (Split v CHR ''.''))"

definition isValidRedirectURL :: "string \<Rightarrow> bool" where
  "isValidRedirectURL s =
     (case url_parse s of
        None \<Rightarrow> False
      | Some (scheme, host) \<Rightarrow>
          if scheme \<noteq> ''http'' \<and> scheme \<noteq> ''https'' then False
          else if host = [] then False
          else if 1 < CountChar host CHR '':'' then False
          else True)"

subsection \<open>What the checks accept\<close>

lemma validateDNSLabel_iff:
  "validateDNSLabel l = None \<longleftrightarrow> l = ''*'' \<or> l = ''@'' \<or> plain_label l"
  by (auto simp: validateDNSLabel_def plain_label_def hd_conv_nth last_conv_nth)

lemma processValidateLabel_iff: "processValidateLabel l = None \<longleftrightarrow> plain_label l"
  by (auto simp: processValidateLabel_def plain_label_def hd_conv_nth last_conv_nth)

lemma hasForbiddenChars_iff:
  "hasForbiddenChars s = None \<longleftrightarrow> (\<forall>c \<in> set s. (0x20 \<le> byte c \<or> byte c = 9) \<and> byte c \<noteq> 0x7f)"
  by (auto simp: hasForbiddenChars_def split: if_splits)

text \<open>A host of labels, the wildcard only as the first one.\<close>

definition host_labels_ok :: "string list \<Rightarrow> bool" where
  "host_labels_ok ls \<longleftrightarrow>
     (\<forall>l \<in> set ls. l = ''*'' \<or> l = ''@'' \<or> plain_label l)
     \<and> (\<forall>l \<in> set (tl ls). l \<noteq> ''*'') \<and> (hd ls = ''*'' \<longrightarrow> ''@'' \<notin> set (tl ls))"

lemma plain_label_no_star: "plain_label l \<Longrightarrow> \<not> Contains l ''*''"
  by (auto simp: plain_label_def list_all_iff)

lemma enum_from_Suc_pos: "(i, x) \<in> set (enum_from (Suc n) xs) \<Longrightarrow> i \<noteq> 0"
  by (induction xs arbitrary: n) auto

lemma in_enum_from: "x \<in> set xs \<Longrightarrow> \<exists>i. (i, x) \<in> set (enum_from n xs)"
  by (induction xs arbitrary: n) auto

lemma wildcard_check_iff:
  "wildcard_check (l # ls) = None \<longleftrightarrow>
     (\<forall>x \<in> set ls. \<not> Contains x ''*'') \<and>
     (Contains l ''*'' \<longrightarrow> l = ''*'' \<and> ''@'' \<notin> set ls \<and> ''*'' \<notin> set ls)"
proof -
  have "(\<forall>p \<in> set (enum_from (Suc 0) ls). \<not> Contains (snd p) ''*'') \<longleftrightarrow> (\<forall>x \<in> set ls. \<not> Contains x ''*'')"
    by (metis enum_from_in_set in_enum_from prod.collapse snd_conv)
  moreover have "(\<forall>p \<in> set (enum_from (Suc 0) ls).
      (case p of (i, label) \<Rightarrow> if Contains label ''*'' then
       (if i \<noteq> 0 then Some ''wildcard not in leftmost position''
        else if label \<noteq> ''*'' then Some ''wildcard must be a bare * label''
        else if list_ex (\<lambda>l. l = ''*'' \<or> l = ''@'') (drop 1 (l # ls)) then Some ''invalid label after wildcard''
        else None)
     else None) = None) \<longleftrightarrow> (\<forall>p \<in> set (enum_from (Suc 0) ls). \<not> Contains (snd p) ''*'')"
    by (rule ball_cong [OF refl]) (auto dest: enum_from_Suc_pos simp del: Contains_single)
  ultimately show ?thesis
    by (simp add: wildcard_check_def del: Contains_single) (auto simp: list_ex_iff)
qed

lemma wildcard_labels:
  assumes "S st" "\<not> S at" "\<And>x. P x \<Longrightarrow> \<not> S x"
  shows "((\<forall>x \<in> set ls. \<not> S x) \<and> (S l \<longrightarrow> l = st \<and> at \<notin> set ls \<and> st \<notin> set ls))
      \<and> (\<forall>x \<in> set (l # ls). x \<noteq> st \<longrightarrow> x \<noteq> at \<longrightarrow> P x)
    \<longleftrightarrow> (\<forall>x \<in> set (l # ls). x = st \<or> x = at \<or> P x) \<and> (\<forall>x \<in> set ls. x \<noteq> st) \<and> (l = st \<longrightarrow> at \<notin> set ls)"
  using assms by fastforce

lemma processValidateHost_iff:
  assumes "host \<noteq> []" "host \<noteq> ''@''"
  shows "processValidateHost host = None \<longleftrightarrow>
     \<not> HasSuffix host ''.'' \<and> \<not> ContainsAny host host_forbidden \<and> length host \<le> 253
     \<and> host_labels_ok (Split host CHR ''.'')"
proof -
  obtain l ls where s: "Split host CHR ''.'' = l # ls" by (meson Split_nonempty neq_Nil_conv)
  have w: "wildcard_check (l # ls) = None
      \<and> (\<forall>x \<in> set (l # ls). x \<noteq> ''*'' \<longrightarrow> x \<noteq> ''@'' \<longrightarrow> processValidateLabel x = None)
      \<longleftrightarrow> host_labels_ok (l # ls)"
    unfolding wildcard_check_iff host_labels_ok_def processValidateLabel_iff list.sel
    by (rule wildcard_labels [of "\<lambda>x. Contains x ''*''"]) (simp, simp, erule plain_label_no_star)
  have f: "firstE (\<lambda>label. if label = ''*'' \<or> label = ''@'' then None else processValidateLabel label) (l # ls) = None
      \<longleftrightarrow> (\<forall>x \<in> set (l # ls). x \<noteq> ''*'' \<longrightarrow> x \<noteq> ''@'' \<longrightarrow> processValidateLabel x = None)"
    unfolding firstE_None_iff by (meson option.distinct(1))
  have c: "(case a of Some e \<Rightarrow> Some e | None \<Rightarrow> b) = None \<longleftrightarrow> a = None \<and> b = None" for a b :: "string option"
    by (cases a) simp_all
  show ?thesis
    unfolding processValidateHost_def s Let_def
    by (simp only: assms simp_thms if_False c f w not_le [symmetric] option.distinct split: if_split) blast
qed

lemma validRecordType_alnum: "validRecordType typ \<Longrightarrow> c \<in> set typ \<Longrightarrow> alnum c"
proof -
  assume v: "validRecordType typ" and c: "c \<in> set typ"
  have k: "\<forall>t \<in> set knownTypes. list_all alnum t" by code_simp
  show "alnum c"
  proof (cases "typ \<in> set knownTypes")
    case True
    with k c show ?thesis by (auto simp: list_all_iff)
  next
    case False
    show ?thesis
    proof (cases "HasPrefix typ ''TYPE'' \<and> 4 < length typ")
      case True
      then obtain d where d: "typ = ''TYPE'' @ d" by (auto simp: prefix_def)
      with v False True have "list_all is_digit d" by (simp add: validRecordType_def)
      moreover have "list_all alnum ''TYPE''" by code_simp
      ultimately show ?thesis using c d by (auto simp: list_all_iff alnum_def)
    next
      case no: False
      with v False have "list_all alnum typ" by (auto simp: validRecordType_def split: if_splits)
      with c show ?thesis by (simp add: list_all_iff)
    qed
  qed
qed

end
