(* ===== verification/Template_Sig.thy ===== *)
theory Template_Sig
  imports Template_Types
begin

text \<open>
  Signed Domain Connect requests (\<open>template/sigverify.go\<close>). The cryptography is not under the
  repository: decoding of base64, of the key and the signature check are the fields of
  \<open>crypto\<close>. \<open>sort.Slice\<close> with the order number of a part is a stable insertion sort here; the
  code's sort is unspecified on parts with equal numbers.
\<close>

record 'k crypto =
  cryB64 :: "string \<Rightarrow> string option"
  cryParsePKIX :: "string \<Rightarrow> 'k option option"
  cryVerify :: "'k \<Rightarrow> string \<Rightarrow> string \<Rightarrow> bool"

subsection \<open>The key in TXT parts\<close>

definition dc_part :: "string \<Rightarrow> (int \<times> string) option" where
  "dc_part t =
     (if HasPrefix t ''p='' then
        (case SplitN3 t CHR '','' of
           [a, _, d] \<Rightarrow>
             (case Atoi (TrimPrefix a ''p='') of
                Some p \<Rightarrow> if HasPrefix d ''d='' then Some (p, TrimPrefix d ''d='') else None
              | None \<Rightarrow> None)
         | _ \<Rightarrow> None)
      else None)"

fun collect_parts :: "string list \<Rightarrow> (int \<times> string) list \<Rightarrow> bool \<Rightarrow> (int \<times> string) list \<times> bool" where
  "collect_parts [] parts plain = (parts, plain)"
| "collect_parts (t0 # ts) parts plain =
     (let t = TrimSpace t0 in
      if t = [] then collect_parts ts parts plain
      else case dc_part t of
          Some p \<Rightarrow> collect_parts ts (parts @ [p]) False
        | None \<Rightarrow> collect_parts ts (parts @ [(int (length parts), t)]) plain)"

definition parseDCPubKeyTXT :: "string list \<Rightarrow> string" where
  "parseDCPubKeyTXT txts =
     (let (parts, plain) = collect_parts txts [] True in
      concat (map snd (if \<not> plain \<and> parts \<noteq> [] then sort_key fst parts else parts)))"

definition VerifySignature ::
  "'k crypto \<Rightarrow> (string \<Rightarrow> string list option) \<Rightarrow> string \<Rightarrow> string \<Rightarrow> string \<Rightarrow> string \<Rightarrow> tmpl_error option" where
  "VerifySignature cry lookup qs sig keyHost syncPubKeyDomain =
     (if sig = [] then Some (InvalidSignature ''empty signature'')
      else if keyHost = [] then Some (InvalidSignature ''empty key host'')
      else if syncPubKeyDomain = [] then Some (InvalidSignature ''empty syncPubKeyDomain'')
      else case lookup (keyHost @ ''.'' @ syncPubKeyDomain) of
        None \<Rightarrow> Some (InvalidSignature ''DNS lookup'')
      | Some txts \<Rightarrow>
          (let b64 = parseDCPubKeyTXT txts in
           if b64 = [] then Some (InvalidSignature ''no public key'')
           else case cryB64 cry b64 of
             None \<Rightarrow> Some (InvalidSignature ''base64 decode public key'')
           | Some der \<Rightarrow>
               (case cryParsePKIX cry der of
                  None \<Rightarrow> Some (InvalidSignature ''parse public key'')
                | Some None \<Rightarrow> Some (InvalidSignature ''public key is not RSA'')
                | Some (Some key) \<Rightarrow>
                    (case cryB64 cry sig of
                       None \<Rightarrow> Some (InvalidSignature ''base64 decode signature'')
                     | Some raw \<Rightarrow>
                         if cryVerify cry key qs raw then None
                         else Some (InvalidSignature ''signature verification failed'')))))"

lemma VerifySignature_accepts:
  "VerifySignature cry lookup qs sig keyHost spk = None \<longleftrightarrow>
     sig \<noteq> [] \<and> keyHost \<noteq> [] \<and> spk \<noteq> [] \<and>
     (\<exists>txts der key raw. lookup (keyHost @ ''.'' @ spk) = Some txts \<and> parseDCPubKeyTXT txts \<noteq> []
        \<and> cryB64 cry (parseDCPubKeyTXT txts) = Some der \<and> cryParsePKIX cry der = Some (Some key)
        \<and> cryB64 cry sig = Some raw \<and> cryVerify cry key qs raw)"
  by (auto simp: VerifySignature_def Let_def split: option.splits if_splits)

lemma VerifySignature_error_kind:
  "VerifySignature cry lookup qs sig keyHost spk = Some e \<Longrightarrow> \<exists>m. e = InvalidSignature m"
  by (auto simp: VerifySignature_def Let_def split: option.splits if_splits)

text \<open>The key does not depend on the order in which the resolver returns the parts.\<close>

lemma collect_parts_dc:
  assumes "\<forall>t \<in> set txts. TrimSpace t \<noteq> [] \<and> dc_part (TrimSpace t) \<noteq> None"
  shows "collect_parts txts parts plain =
    (parts @ map (\<lambda>t. the (dc_part (TrimSpace t))) txts, plain \<and> txts = [])"
  using assms by (induction txts arbitrary: parts plain) (auto simp: Let_def)

lemma parseDC_order_free:
  assumes all: "\<forall>t \<in> set txts. TrimSpace t \<noteq> [] \<and> dc_part (TrimSpace t) \<noteq> None"
    and dist: "distinct (map (\<lambda>t. fst (the (dc_part (TrimSpace t)))) txts)"
    and perm: "mset txts' = mset txts"
  shows "parseDCPubKeyTXT txts' = parseDCPubKeyTXT txts"
proof -
  let ?p = "\<lambda>t. the (dc_part (TrimSpace t))"
  have all': "\<forall>t \<in> set txts'. TrimSpace t \<noteq> [] \<and> dc_part (TrimSpace t) \<noteq> None"
    using all perm by (metis mset_eq_setD)
  have d': "distinct (map (\<lambda>t. fst (?p t)) txts')"
    using dist perm by (metis mset_map mset_eq_imp_distinct_iff)
  have inj: "inj_on fst (set (map ?p txts'))"
    using d' by (simp add: distinct_map inj_on_def) blast
  have "mset (map ?p txts') = mset (map ?p txts)" using perm by simp
  then have "sort_key fst (map ?p txts') = sort_key fst (map ?p txts)"
    using inj by (intro sort_key_inj_key_eq) simp_all
  moreover have "txts' = [] \<longleftrightarrow> txts = []" using perm by auto
  ultimately show ?thesis
    by (cases "txts = []") (simp_all add: parseDCPubKeyTXT_def collect_parts_dc [OF all] collect_parts_dc [OF all'])
qed

subsection \<open>Properties\<close>

text \<open>The signing key assembled from the TXT parts does not depend on the order in which the
  resolver returns them, when every part is numbered and no number occurs twice.\<close>

theorem parseDCPubKeyTXT_order_free:
  assumes "\<forall>t \<in> set txts. TrimSpace t \<noteq> [] \<and> dc_part (TrimSpace t) \<noteq> None"
    and "distinct (map (\<lambda>t. fst (the (dc_part (TrimSpace t)))) txts)"
    and "mset txts' = mset txts"
  shows "parseDCPubKeyTXT txts' = parseDCPubKeyTXT txts"
  by (rule parseDC_order_free [OF assms])

lemma parseDCPubKeyTXT_order_free_witness:
  "parseDCPubKeyTXT [''p=2,a=RS256,d=bb'', ''p=1,a=RS256,d=aa''] = parseDCPubKeyTXT [''p=1,a=RS256,d=aa'', ''p=2,a=RS256,d=bb'']"
  by (rule parseDCPubKeyTXT_order_free) (code_simp, code_simp, simp)

end
