(* ===== verification/Template_Process.thy ===== *)
theory Template_Process
  imports Template_Zone Template_Validate Template_Sig
begin

text \<open>
  \<open>ProcessRecords\<close> of \<open>template/process.go\<close>: the signature check, the resolution of the template
  records, the check of conflicts inside the batch, the multi-aware deletions, the zone loop of
  \<open>Template_Zone\<close>, and the result. The random identifier of \<open>crypto/rand\<close> is the option
  \<open>poRandID\<close>; the resolver of the signing key is \<open>poPubKeyLookup\<close>.
\<close>

record ProcessOpts =
  poDomain :: string
  poHost :: string
  poZoneRecords :: "Record list"
  poTemplateRecords :: "TemplateRecord list"
  poVariables :: vars
  poGroupIDs :: "string list"
  poMultiAware :: bool
  poMultiInstance :: bool
  poProviderID :: string
  poServiceID :: string
  poUniqueID :: string
  poRedirectRecords :: "TemplateRecord list"
  poIgnoreSignature :: bool
  poSignature :: string
  poSigningKey :: string
  poQueryString :: string
  poSyncPubKeyDomain :: string
  poPubKeyLookup :: "string \<Rightarrow> string list option"
  poRandID :: string

record ProcessResult =
  prToAdd :: "Record list"
  prToDelete :: "Record list"

subsection \<open>Resolution of one template record\<close>

definition fqdn_of :: "string \<Rightarrow> string \<Rightarrow> string" where
  "fqdn_of host domain = (if host \<noteq> [] \<and> host \<noteq> ''@'' then host @ ''.'' @ domain else domain)"

definition process_vars :: "ProcessOpts \<Rightarrow> vars" where
  "process_vars opts = (let domain = ToLower (poDomain opts); host = poHost opts in
     (poVariables opts)(''domain'' \<mapsto> domain, ''host'' \<mapsto> host, ''fqdn'' \<mapsto> fqdn_of host domain))"

definition group_filter :: "string list \<Rightarrow> TemplateRecord list \<Rightarrow> TemplateRecord list" where
  "group_filter groups trs =
     (if 0 < length groups then filter (\<lambda>tr. trGroupID tr \<noteq> [] \<and> trGroupID tr \<in> set groups) trs else trs)"

text \<open>The record of the backing A or AAAA of a redirect; its TTL's error is dropped.\<close>

definition backing_entry :: "vars \<Rightarrow> string \<Rightarrow> TemplateRecord \<Rightarrow> resolvedEntry" where
  "backing_entry vs host rr =
     (let backingType = ToUpper (trType rr);
          pt = (if trPointsTo rr = [] then trTarget rr else trPointsTo rr);
          ttl = (case flexInt_resolve (trTTL rr) vs 0 ''ttl'' of Inl _ \<Rightarrow> 0 | Inr n \<Rightarrow> n)
      in \<lparr>reRec = normalizeRecord (mk_record backingType host pt ttl), reTmpl = rr,
          reOrigType = backingType, reIsBacking = True\<rparr>)"

definition entry_for :: "TemplateRecord \<Rightarrow> string \<Rightarrow> Record \<Rightarrow> resolvedEntry" where
  "entry_for tr typ rec = \<lparr>reRec = rec, reTmpl = tr, reOrigType = typ, reIsBacking = False\<rparr>"

definition resolve_redir ::
  "TemplateRecord list \<Rightarrow> vars \<Rightarrow> nat \<Rightarrow> TemplateRecord \<Rightarrow> string \<Rightarrow> string \<Rightarrow> tmpl_error + resolvedEntry list" where
  "resolve_redir redirs vs i tr typ resolvedHost =
     (if length redirs = 0 then Inl (InvalidTemplate i ''requires redirect_records'')
      else bindE (processSubstitute (if trPointsTo tr = [] then trTarget tr else trPointsTo tr) vs i ''target'')
        (\<lambda>targetURL.
          if targetURL = [] then Inl (InvalidData i ''target is empty'')
          else if url_parse targetURL = None \<or> \<not> isValidRedirectURL targetURL
          then Inl (InvalidData i ''invalid target URL'')
          else Inr (entry_for tr typ (mk_record typ resolvedHost targetURL 0)
                    # map (backing_entry vs resolvedHost) redirs)))"

definition resolve_srv ::
  "vars \<Rightarrow> nat \<Rightarrow> TemplateRecord \<Rightarrow> string \<Rightarrow> string \<Rightarrow> string \<Rightarrow> int \<Rightarrow> tmpl_error + Record" where
  "resolve_srv vs i tr host resolvedHost resolvedPointsTo ttl =
     (let protocol = ToLower (TrimPrefix (trProtocol tr) ''_'') in
      failE (processValidateHost resolvedHost) (InvalidData i)
      (if (resolvedHost = ''@'' \<or> resolvedHost = []) \<and> host = [] then Inl (InvalidData i ''SRV at apex is invalid'')
       else if protocol \<noteq> [] \<and> protocol \<notin> set validProtocols then Inl (InvalidData i ''invalid SRV protocol'')
       else if resolvedPointsTo = [] then Inl (InvalidData i ''SRV target is empty'')
       else if ContainsAny resolvedPointsTo [CHR '' '', CHR 0x09] then Inl (InvalidData i ''SRV target contains spaces'')
       else if ContainsAny (trService tr) [CHR '' '', CHR 0x09] then Inl (InvalidData i ''SRV service contains spaces'')
       else
        bindE (mapErr (\<lambda>_. InvalidData i ''priority'') (flexInt_resolve (trPriority tr) vs i ''priority'')) (\<lambda>prio.
        bindE (mapErr (\<lambda>_. InvalidData i ''weight'') (flexInt_resolve (trWeight tr) vs i ''weight'')) (\<lambda>w.
        bindE (mapErr (\<lambda>_. InvalidData i ''port'') (flexInt_resolve (trPort tr) vs i ''port'')) (\<lambda>p.
        Inr ((mk_record ''SRV'' resolvedHost resolvedPointsTo ttl)\<lparr>recPriority := prio, recWeight := w,
               recPort := p, recService := trService tr, recProtocol := protocol\<rparr>))))))"

definition resolve_plain ::
  "vars \<Rightarrow> nat \<Rightarrow> TemplateRecord \<Rightarrow> string \<Rightarrow> string \<Rightarrow> string \<Rightarrow> string \<Rightarrow> string \<Rightarrow> int \<Rightarrow> tmpl_error + Record" where
  "resolve_plain vs i tr typ resolvedHost pointsToSub resolvedPointsTo dataSub ttl =
     failE (processValidateHost resolvedHost) (InvalidData i)
     (if typ = ''TXT'' then Inr (mk_record ''TXT'' resolvedHost dataSub ttl)
      else if typ = ''CNAME'' then
        (if resolvedHost = ''@'' \<or> resolvedHost = [] then Inl (InvalidData i ''CNAME at apex is invalid'')
         else if resolvedPointsTo = [] then Inl (InvalidData i ''CNAME pointsTo is empty'')
         else failE (validatePointsToLength resolvedPointsTo) (InvalidData i)
           (Inr (mk_record ''CNAME'' resolvedHost resolvedPointsTo ttl)))
      else if typ = ''A'' \<or> typ = ''AAAA'' then
        (if resolvedPointsTo = [] then Inl (InvalidData i ''pointsTo is empty'')
         else failE (processValidateIP typ resolvedPointsTo) (InvalidData i)
           (Inr (mk_record typ resolvedHost resolvedPointsTo ttl)))
      else if typ = ''MX'' then
        (if resolvedPointsTo = [] then Inl (InvalidData i ''MX pointsTo is empty'')
         else bindE (mapErr (\<lambda>_. InvalidData i ''priority'') (flexInt_resolve (trPriority tr) vs i ''priority''))
           (\<lambda>prio. Inr ((mk_record ''MX'' resolvedHost resolvedPointsTo ttl)\<lparr>recPriority := prio\<rparr>)))
      else if typ = ''NS'' then
        (if resolvedPointsTo = [] then Inl (InvalidData i ''NS pointsTo is empty'')
         else if pointsToSub = ''@'' then Inl (InvalidData i ''NS pointsTo cannot be self (circular)'')
         else Inr (mk_record ''NS'' resolvedHost resolvedPointsTo ttl))
      else if dataSub = ''@'' then Inl (InvalidData i ''@ in custom record data is invalid'')
      else if dataSub = [] then Inl (InvalidData i ''custom record data is empty'')
      else Inr (mk_record typ resolvedHost dataSub ttl))"

text \<open>The switch on the type, after the substitutions.\<close>

definition resolve_typed ::
  "TemplateRecord list \<Rightarrow> vars \<Rightarrow> string \<Rightarrow> nat \<Rightarrow> TemplateRecord \<Rightarrow> string \<Rightarrow> string \<Rightarrow> string \<Rightarrow> string
     \<Rightarrow> string \<Rightarrow> string \<Rightarrow> int \<Rightarrow> tmpl_error + resolvedEntry list" where
  "resolve_typed redirs vs host i tr typ resolvedHost pointsToSub resolvedPointsTo dataSub spfRulesSub ttl =
     (if typ = ''REDIR301'' \<or> typ = ''REDIR302'' then resolve_redir redirs vs i tr typ resolvedHost
      else if typ = ''APEXCNAME'' then
        (if resolvedHost \<noteq> ''@'' \<and> resolvedHost \<noteq> [] then Inl (InvalidData i ''APEXCNAME must be at apex'')
         else if resolvedPointsTo = [] then Inl (InvalidData i ''APEXCNAME pointsTo is empty'')
         else Inr [entry_for tr typ (normalizeRecord (mk_record ''APEXCNAME'' ''@'' resolvedPointsTo ttl))])
      else if typ = ''SPFM'' then
        failE (processValidateHost resolvedHost) (InvalidData i)
          (Inr [entry_for tr ''SPFM'' (mk_record ''SPFM'' resolvedHost spfRulesSub ttl)])
      else
        bindE (if typ = ''SRV'' then resolve_srv vs i tr host resolvedHost resolvedPointsTo ttl
               else resolve_plain vs i tr typ resolvedHost pointsToSub resolvedPointsTo dataSub ttl)
          (\<lambda>rec. Inr [entry_for tr typ (normalizeRecord rec)]))"

definition resolve_record ::
  "TemplateRecord list \<Rightarrow> vars \<Rightarrow> string \<Rightarrow> string \<Rightarrow> nat \<Rightarrow> TemplateRecord \<Rightarrow> tmpl_error + resolvedEntry list" where
  "resolve_record redirs vs host domain i tr =
     (let typ = ToUpper (TrimSpace (trType tr)) in
      if \<not> validRecordType typ then Inl (TypeErr i ''invalid type'')
      else failE (firstE checkUnclosedVar [trHost tr, trPointsTo tr, trTarget tr, trData tr,
                    trTxtConflictMatchingPrefix tr]) (InvalidTemplate i)
       (bindE (processSubstitute (trHost tr) vs i ''host'') (\<lambda>hostSub.
        bindE (processSubstitute (if trPointsTo tr = [] then trTarget tr else trPointsTo tr) vs i ''pointsTo'') (\<lambda>pointsToSub.
        bindE (processSubstitute (trData tr) vs i ''data'') (\<lambda>dataSub.
        bindE (processSubstitute (trTxtConflictMatchingPrefix tr) vs i ''txtConflictMatchingPrefix'') (\<lambda>_.
        bindE (processSubstitute (if trData tr = [] \<and> trPointsTo tr \<noteq> [] then trPointsTo tr else trData tr) vs i ''spfRules'') (\<lambda>spfRulesSub.
        bindE (mapErr (InvalidData i) (resolveHostName hostSub host domain)) (\<lambda>resolvedHost.
        if resolvedHost \<noteq> [] \<and> resolvedHost \<noteq> ''@'' \<and> 253 < length resolvedHost + 1 + length domain
        then Inl (InvalidData i ''host: FQDN exceeds 253 characters'')
        else
        bindE (mapErr (\<lambda>_. InvalidData i ''ttl'') (flexInt_resolve (trTTL tr) vs i ''ttl'')) (\<lambda>ttl.
        resolve_typed redirs vs host i tr typ resolvedHost pointsToSub
          (resolvePointsTo pointsToSub host domain typ) dataSub spfRulesSub ttl)))))))))"

definition resolve_all ::
  "TemplateRecord list \<Rightarrow> vars \<Rightarrow> string \<Rightarrow> string \<Rightarrow> TemplateRecord list \<Rightarrow> tmpl_error + resolvedEntry list" where
  "resolve_all redirs vs host domain trs =
     bindE (mapE (\<lambda>(i, tr). resolve_record redirs vs host domain i tr) (enum_from 0 trs)) (\<lambda>ess. Inr (concat ess))"

subsection \<open>Conflicts inside the batch\<close>

record nameInfo =
  niCNAME :: bool
  niNS :: bool
  niOther :: bool

definition no_info :: nameInfo where
  "no_info = \<lparr>niCNAME = False, niNS = False, niOther = False\<rparr>"

definition conflict_exempt :: "string \<Rightarrow> bool" where
  "conflict_exempt typ \<longleftrightarrow> typ \<in> {''SPFM'', ''TXT'', ''REDIR301'', ''REDIR302''}"

fun conflict_scan :: "nat \<Rightarrow> (string \<Rightarrow> nameInfo) \<Rightarrow> resolvedEntry list \<Rightarrow> tmpl_error option" where
  "conflict_scan i names [] = None"
| "conflict_scan i names (e # es) =
     (let n = ToLower (recName (reRec e)); info = names n; typ = recType (reRec e) in
      if typ = ''CNAME'' then
        (if niCNAME info then Some (InvalidData i ''duplicate CNAME'')
         else if niOther info \<or> niNS info then Some (InvalidData i ''CNAME conflict'')
         else conflict_scan (Suc i) (names(n := info\<lparr>niCNAME := True\<rparr>)) es)
      else if typ = ''NS'' then
        (if niCNAME info then Some (InvalidData i ''NS conflict with CNAME'')
         else if niOther info then Some (InvalidData i ''NS conflict with other record'')
         else conflict_scan (Suc i) (names(n := info\<lparr>niNS := True\<rparr>)) es)
      else if \<not> conflict_exempt typ then
        (if niCNAME info then Some (InvalidData i ''conflict with CNAME'')
         else if niNS info then Some (InvalidData i ''conflict with NS'')
         else conflict_scan (Suc i) (names(n := info\<lparr>niOther := True\<rparr>)) es)
      else conflict_scan (Suc i) names es)"

definition ns_cascade_conflict :: "resolvedEntry list \<Rightarrow> bool" where
  "ns_cascade_conflict es \<longleftrightarrow>
     list_ex (\<lambda>e. recType (reRec e) = ''NS'' \<and>
       list_ex (\<lambda>other. recType (reRec other) \<noteq> ''NS''
          \<and> isChildOf (ToLower (recName (reRec other))) (ToLower (recName (reRec e)))) es) es"

definition checkInternalConflicts :: "resolvedEntry list \<Rightarrow> tmpl_error option" where
  "checkInternalConflicts es =
     (case conflict_scan 0 (\<lambda>_. no_info) es of
        Some e \<Rightarrow> Some e
      | None \<Rightarrow> if ns_cascade_conflict es then Some (InvalidData 0 ''NS conflicts below delegation'') else None)"

subsection \<open>The multi-aware deletions\<close>

definition dc_str :: "(string \<times> dc_value) list \<Rightarrow> string \<Rightarrow> string" where
  "dc_str m k = (case map_of m k of Some (DCStr s) \<Rightarrow> s | _ \<Rightarrow> [])"

definition same_service :: "ProcessOpts \<Rightarrow> (string \<times> dc_value) list \<Rightarrow> bool" where
  "same_service opts m \<longleftrightarrow> dc_str m ''providerId'' = poProviderID opts \<and> dc_str m ''serviceId'' = poServiceID opts"

definition multi_deletes :: "ProcessOpts \<Rightarrow> string \<Rightarrow> Record \<Rightarrow> bool" where
  "multi_deletes opts uniqueID zr =
     (case recDC zr of
        None \<Rightarrow> False
      | Some m \<Rightarrow>
          if poMultiInstance opts then same_service opts m \<and> dc_str m ''id'' = uniqueID
          else if same_service opts m then True
          else dc_str m ''providerId'' = poProviderID opts)"

definition essential_candidate :: "ProcessOpts \<Rightarrow> Record \<Rightarrow> bool" where
  "essential_candidate opts zr =
     (case recDC zr of
        None \<Rightarrow> False
      | Some m \<Rightarrow> \<not> poMultiInstance opts \<and> \<not> same_service opts m
          \<and> dc_str m ''providerId'' = poProviderID opts \<and> dc_str m ''essential'' = ''Always'')"

definition essential_conflict :: "Record list \<Rightarrow> Record list \<Rightarrow> bool" where
  "essential_conflict cands toAdd \<longleftrightarrow>
     list_ex (\<lambda>ea. list_ex (\<lambda>added. ToUpper (recType added) = ToUpper (recType ea)
        \<and> nameEq (recName added) (recName ea)) toAdd) cands"

definition restore_one :: "Record \<Rightarrow> zstate \<Rightarrow> zstate" where
  "restore_one ea st = st\<lparr>zsToDelete := removeRecords (zsToDelete st) [ea], zsZone := zsZone st @ [ea]\<rparr>"

definition restore_essential :: "Record list \<Rightarrow> zstate \<Rightarrow> zstate" where
  "restore_essential cands st =
     (if 0 < length cands \<and> \<not> essential_conflict cands (zsToAdd st) then fold restore_one cands st else st)"

definition stamp :: "ProcessOpts \<Rightarrow> string \<Rightarrow> resolvedEntry list \<Rightarrow> Record \<Rightarrow> Record" where
  "stamp opts uniqueID resolved r =
     (let essential = (case find (\<lambda>e. recordKey (reRec e) = recordKey r) resolved of
                         Some e \<Rightarrow> trEssential (reTmpl e) | None \<Rightarrow> []);
          essential' = (if essential = [] then ''Always'' else essential)
      in r\<lparr>recDC := Some [(''id'', DCStr uniqueID), (''providerId'', DCStr (poProviderID opts)),
            (''serviceId'', DCStr (poServiceID opts)), (''host'', DCStr (poHost opts)),
            (''essential'', DCStr essential')]\<rparr>)"

subsection \<open>ProcessRecords\<close>

definition unique_id :: "ProcessOpts \<Rightarrow> string" where
  "unique_id opts = (if poMultiAware opts \<and> poUniqueID opts = [] then poRandID opts else poUniqueID opts)"

text \<open>The state after the multi-aware deletions, after the loop, and after the restoration.\<close>

definition start_state :: "ProcessOpts \<Rightarrow> zstate" where
  "start_state opts =
     (let zone = map normalizeRecord (poZoneRecords opts);
          st = \<lparr>zsZone = zone, zsToAdd = [], zsToDelete = []\<rparr>
      in if poMultiAware opts then delete_where (multi_deletes opts (unique_id opts)) st else st)"

definition essential_cands :: "ProcessOpts \<Rightarrow> Record list" where
  "essential_cands opts =
     (if poMultiAware opts then filter (essential_candidate opts) (map normalizeRecord (poZoneRecords opts)) else [])"

definition zone_phase :: "ProcessOpts \<Rightarrow> resolvedEntry list \<Rightarrow> zstate" where
  "zone_phase opts resolved =
     (let st0 = start_state opts;
          st1 = zone_loop (process_vars opts) (key_count (zsZone st0)) resolved st0
      in restore_essential (essential_cands opts) st1)"

definition signature_check :: "'k crypto \<Rightarrow> ProcessOpts \<Rightarrow> tmpl_error option" where
  "signature_check cry opts =
     (if poSignature opts \<noteq> [] \<and> \<not> poIgnoreSignature opts
      then VerifySignature cry (poPubKeyLookup opts) (poQueryString opts) (poSignature opts)
             (poSigningKey opts) (poSyncPubKeyDomain opts)
      else None)"

definition ProcessRecords :: "'k crypto \<Rightarrow> ProcessOpts \<Rightarrow> tmpl_error + ProcessResult" where
  "ProcessRecords cry opts =
     (case signature_check cry opts of
        Some e \<Rightarrow> Inl e
      | None \<Rightarrow>
          bindE (resolve_all (poRedirectRecords opts) (process_vars opts) (poHost opts) (ToLower (poDomain opts))
                  (group_filter (poGroupIDs opts) (poTemplateRecords opts))) (\<lambda>resolved.
          (case checkInternalConflicts resolved of
             Some e \<Rightarrow> Inl e
           | None \<Rightarrow>
               if 1 < length (filter (\<lambda>e. recType (reRec e) = ''APEXCNAME'') resolved)
               then Inl (InvalidData 0 ''multiple APEXCNAME records in template'')
               else
                 (let st = zone_phase opts resolved;
                      adds = deduplicateRecords (zsToAdd st);
                      dels = deduplicateRecords (zsToDelete st);
                      adds' = (if poMultiAware opts then map (stamp opts (unique_id opts) resolved) adds else adds)
                  in Inr \<lparr>prToAdd = adds', prToDelete = dels\<rparr>))))"

subsection \<open>The whole run accounts for every record\<close>

lemma zsToDelete_step: "prefix (zsToDelete st) (zsToDelete (zone_step vs orig e st))"
  unfolding zone_step_def Let_def
  by (simp add: add_recs_def delete_where_def delete_recs_def split: prod.split)

lemma zsToDelete_loop: "prefix (zsToDelete st) (zsToDelete (zone_loop vs orig es st))"
  unfolding zone_loop_def
proof (induction es arbitrary: st)
  case (Cons e es)
  then show ?case using zsToDelete_step prefix_order.trans by (fastforce simp only: fold.simps comp_apply)
qed simp

lemma restore_accounted:
  assumes "accounted z0 st" "zkeys cands \<subseteq># zkeys (zsToDelete st)"
  shows "accounted z0 (fold restore_one cands st)"
  using assms
proof (induction cands arbitrary: st)
  case (Cons ea cands)
  have k: "recordKey ea \<in># zkeys (zsToDelete st)"
    using Cons.prems(2) by (metis insert_subset_eq_iff zkeys_simps(2))
  let ?st = "restore_one ea st"
  have del: "zkeys (zsToDelete ?st) = zkeys (zsToDelete st) - {#recordKey ea#}"
    by (simp add: restore_one_def zkeys_removeRecords)
  then have "zkeys (zsZone ?st) + zkeys (zsToDelete ?st) = zkeys (zsZone st) + zkeys (zsToDelete st)"
    using k by (simp add: restore_one_def)
  then have "accounted z0 ?st" using Cons.prems(1) by (simp add: accounted_def) (simp add: restore_one_def)
  moreover have "zkeys cands \<subseteq># zkeys (zsToDelete ?st)"
    using Cons.prems(2) del by (metis insert_subset_eq_iff zkeys_simps(2))
  ultimately show ?case using Cons.IH by simp
qed simp

lemma essential_is_deleted: "essential_candidate opts zr \<Longrightarrow> multi_deletes opts u zr"
  by (auto simp: essential_candidate_def multi_deletes_def split: option.splits)

lemma filter_zkeys_mono: "(\<And>x. P x \<Longrightarrow> Q x) \<Longrightarrow> zkeys (filter P xs) \<subseteq># zkeys (filter Q xs)"
proof -
  assume "\<And>x. P x \<Longrightarrow> Q x"
  then have "filter P xs = filter P (filter Q xs)" by (auto intro: filter_cong)
  then show ?thesis by (metis zkeys_filter)
qed

lemma prefix_zkeys: "prefix xs ys \<Longrightarrow> zkeys xs \<subseteq># zkeys ys"
  by (auto simp: prefix_def)

lemma cands_deleted: "zkeys (essential_cands opts) \<subseteq># zkeys (zsToDelete (start_state opts))"
  by (simp add: essential_cands_def start_state_def Let_def delete_where_def delete_recs_def
      filter_zkeys_mono essential_is_deleted)

lemma zone_phase_accounted:
  "accounted (zkeys (map normalizeRecord (poZoneRecords opts))) (zone_phase opts es)"
proof -
  let ?z = "zkeys (map normalizeRecord (poZoneRecords opts))"
  have "accounted ?z \<lparr>zsZone = map normalizeRecord (poZoneRecords opts), zsToAdd = [], zsToDelete = []\<rparr>"
    by (simp add: accounted_def)
  then have s: "accounted ?z (start_state opts)"
    unfolding start_state_def Let_def by (simp add: delete_where_accounted)
  let ?l = "zone_loop (process_vars opts) (key_count (zsZone (start_state opts))) es (start_state opts)"
  have l: "accounted ?z ?l" by (rule zone_loop_accounted [OF s])
  have "zkeys (essential_cands opts) \<subseteq># zkeys (zsToDelete ?l)"
    using cands_deleted prefix_zkeys [OF zsToDelete_loop] by (rule subset_mset.order_trans)
  with l show ?thesis
    unfolding zone_phase_def restore_essential_def Let_def by (simp add: restore_accounted)
qed

lemma recordKey_stamp [simp]: "recordKey (stamp opts u es r) = recordKey r"
  by (simp add: stamp_def Let_def recordKey_def)

lemma ProcessRecords_Inr:
  assumes "ProcessRecords cry opts = Inr res"
  obtains es where "resolve_all (poRedirectRecords opts) (process_vars opts) (poHost opts)
      (ToLower (poDomain opts)) (group_filter (poGroupIDs opts) (poTemplateRecords opts)) = Inr es"
    and "checkInternalConflicts es = None"
    and "signature_check cry opts = None"
    and "prToDelete res = deduplicateRecords (zsToDelete (zone_phase opts es))"
    and "prToAdd res = (if poMultiAware opts
          then map (stamp opts (unique_id opts) es) (deduplicateRecords (zsToAdd (zone_phase opts es)))
          else deduplicateRecords (zsToAdd (zone_phase opts es)))"
  using assms by (auto simp: ProcessRecords_def Let_def split: option.splits if_splits)

lemma ProcessRecords_keys:
  assumes "ProcessRecords cry opts = Inr res"
  obtains zone' adds dels where
    "zkeys zone' + zkeys dels = zkeys (map normalizeRecord (poZoneRecords opts)) + zkeys adds"
    "map recordKey (prToAdd res) = map recordKey (deduplicateRecords adds)"
    "prToDelete res = deduplicateRecords dels"
proof -
  from assms obtain es where r: "prToDelete res = deduplicateRecords (zsToDelete (zone_phase opts es))"
    "prToAdd res = (if poMultiAware opts
          then map (stamp opts (unique_id opts) es) (deduplicateRecords (zsToAdd (zone_phase opts es)))
          else deduplicateRecords (zsToAdd (zone_phase opts es)))"
    by (rule ProcessRecords_Inr)
  show ?thesis
  proof (rule that)
    show "zkeys (zsZone (zone_phase opts es)) + zkeys (zsToDelete (zone_phase opts es))
        = zkeys (map normalizeRecord (poZoneRecords opts)) + zkeys (zsToAdd (zone_phase opts es))"
      using zone_phase_accounted by (simp add: accounted_def)
    show "map recordKey (prToAdd res) = map recordKey (deduplicateRecords (zsToAdd (zone_phase opts es)))"
      by (simp add: r)
  qed (rule r)
qed

subsection \<open>The batch check is exact\<close>

definition clash :: "string \<Rightarrow> string \<Rightarrow> bool" where
  "clash a b \<longleftrightarrow> \<not> conflict_exempt a \<and> \<not> conflict_exempt b
     \<and> (a = ''CNAME'' \<or> b = ''CNAME'' \<or> (a = ''NS'') \<noteq> (b = ''NS''))"

fun pairwise_ok :: "('a \<Rightarrow> 'a \<Rightarrow> bool) \<Rightarrow> 'a list \<Rightarrow> bool" where
  "pairwise_ok R [] = True"
| "pairwise_ok R (x # xs) = ((\<forall>y \<in> set xs. R x y) \<and> pairwise_ok R xs)"

definition entries_compatible :: "resolvedEntry \<Rightarrow> resolvedEntry \<Rightarrow> bool" where
  "entries_compatible a b \<longleftrightarrow>
     (ToLower (recName (reRec a)) = ToLower (recName (reRec b)) \<longrightarrow> \<not> clash (recType (reRec a)) (recType (reRec b)))"

text \<open>The scan's table against the types already seen.\<close>

definition info_blocks :: "nameInfo \<Rightarrow> string \<Rightarrow> bool" where
  "info_blocks ni typ \<longleftrightarrow> \<not> conflict_exempt typ \<and>
     (niCNAME ni \<or> (typ = ''CNAME'' \<and> (niNS ni \<or> niOther ni)) \<or> (typ = ''NS'' \<and> niOther ni)
      \<or> (typ \<noteq> ''NS'' \<and> niNS ni))"

definition info_add :: "string \<Rightarrow> nameInfo \<Rightarrow> nameInfo" where
  "info_add typ ni =
     (if typ = ''CNAME'' then ni\<lparr>niCNAME := True\<rparr> else if typ = ''NS'' then ni\<lparr>niNS := True\<rparr>
      else if \<not> conflict_exempt typ then ni\<lparr>niOther := True\<rparr> else ni)"

lemma exempt_not: "\<not> conflict_exempt ''CNAME''" "\<not> conflict_exempt ''NS''"
  by (simp_all add: conflict_exempt_def)

lemma conflict_scan_Cons:
  "conflict_scan i names (e # es) = None \<longleftrightarrow>
     (let n = ToLower (recName (reRec e)); typ = recType (reRec e) in
      \<not> info_blocks (names n) typ \<and> conflict_scan (Suc i) (names(n := info_add typ (names n))) es = None)"
  by (simp add: Let_def info_blocks_def info_add_def exempt_not)

lemma info_blocks_add:
  "info_blocks (info_add a ni) b \<longleftrightarrow> info_blocks ni b \<or> clash a b"
  by (auto simp: info_blocks_def info_add_def clash_def exempt_not)

lemma conflict_scan_iff:
  "conflict_scan i names es = None \<longleftrightarrow>
     (\<forall>e \<in> set es. \<not> info_blocks (names (ToLower (recName (reRec e)))) (recType (reRec e)))
     \<and> pairwise_ok entries_compatible es"
proof (induction es arbitrary: i names)
  case (Cons e es)
  let ?n = "ToLower (recName (reRec e))" and ?t = "recType (reRec e)"
  have upd: "info_blocks ((names(?n := info_add ?t (names ?n))) (ToLower (recName (reRec x)))) (recType (reRec x))
      \<longleftrightarrow> info_blocks (names (ToLower (recName (reRec x)))) (recType (reRec x)) \<or> \<not> entries_compatible e x" for x
    by (cases "ToLower (recName (reRec x)) = ?n") (simp_all add: info_blocks_add entries_compatible_def)
  show ?case
    unfolding conflict_scan_Cons Let_def Cons.IH upd by (simp only: pairwise_ok.simps list.set) blast
qed simp

lemma no_info_blocks [simp]: "\<not> info_blocks no_info typ"
  by (simp add: info_blocks_def no_info_def)

lemma checkInternalConflicts_iff:
  "checkInternalConflicts es = None \<longleftrightarrow> pairwise_ok entries_compatible es \<and> \<not> ns_cascade_conflict es"
proof -
  have "conflict_scan 0 (\<lambda>_. no_info) es = None \<longleftrightarrow> pairwise_ok entries_compatible es"
    by (simp add: conflict_scan_iff)
  then show ?thesis
    by (cases "conflict_scan 0 (\<lambda>_. no_info) es") (auto simp: checkInternalConflicts_def)
qed

subsection \<open>Properties\<close>


definition demo_template_record :: "string \<Rightarrow> string \<Rightarrow> string \<Rightarrow> string \<Rightarrow> TemplateRecord" where
  "demo_template_record typ host pt d =
     empty_template_record\<lparr>trType := typ, trHost := host, trPointsTo := pt, trData := d, trTTL := \<lparr>fxValue = 300, fxRaw = []\<rparr>\<rparr>"

definition demo_opts :: ProcessOpts where
  "demo_opts = \<lparr>poDomain = ''Example.com'', poHost = [],
     poZoneRecords = [mk_record ''A'' ''www'' ''192.0.2.1'' 60, mk_record ''mx'' ''@'' ''mail.example.com'' 60],
     poTemplateRecords = [demo_template_record ''cname'' ''www'' ''%target%'' [],
        demo_template_record ''TXT'' ''@'' [] ''hello''],
     poVariables = [''target'' \<mapsto> ''Host.example.NET''], poGroupIDs = [], poMultiAware = True,
     poMultiInstance = False, poProviderID = ''p'', poServiceID = ''s'', poUniqueID = ''u1'',
     poRedirectRecords = [], poIgnoreSignature = False, poSignature = ''c2ln'',
     poSigningKey = ''_dck1'', poQueryString = ''domain=example.com'', poSyncPubKeyDomain = ''keys.example.com'',
     poPubKeyLookup = (\<lambda>n. if n = ''_dck1.keys.example.com'' then Some [''p=2,a=RS256,d=bb'', ''p=1,a=RS256,d=aa''] else None),
     poRandID = ''00000000''\<rparr>"

definition demo_crypto :: "nat crypto" where
  "demo_crypto = \<lparr>cryB64 = (\<lambda>s. if s = [] then None else Some s),
     cryParsePKIX = (\<lambda>d. if d = ''aabb'' then Some (Some 7) else None),
     cryVerify = (\<lambda>k q s. k = 7 \<and> q = ''domain=example.com'' \<and> s = ''c2ln'')\<rparr>"

definition demo_result :: ProcessResult where
  "demo_result = \<lparr>prToAdd = map (\<lambda>r. r\<lparr>recDC := Some [(''id'', DCStr ''u1''), (''providerId'', DCStr ''p''),
        (''serviceId'', DCStr ''s''), (''host'', DCStr []), (''essential'', DCStr ''Always'')]\<rparr>)
       [mk_record ''CNAME'' ''www'' ''host.example.net'' 300, mk_record ''TXT'' ''@'' ''hello'' 300],
     prToDelete = [mk_record ''A'' ''www'' ''192.0.2.1'' 60]\<rparr>"

lemma demo_run: "ProcessRecords demo_crypto demo_opts = Inr demo_result"
  by code_simp


text \<open>Property C4. When the request carries a signature that is not to be ignored, a successful run
  has verified it over the query string with an RSA key published under the template's domain.\<close>

theorem ProcessRecords_signed:
  assumes "ProcessRecords cry opts = Inr res" and "poSignature opts \<noteq> []" and "\<not> poIgnoreSignature opts"
  shows "\<exists>txts der key raw.
      poPubKeyLookup opts (poSigningKey opts @ ''.'' @ poSyncPubKeyDomain opts) = Some txts
      \<and> cryB64 cry (parseDCPubKeyTXT txts) = Some der \<and> cryParsePKIX cry der = Some (Some key)
      \<and> cryB64 cry (poSignature opts) = Some raw \<and> cryVerify cry key (poQueryString opts) raw"
proof -
  from assms(1) have "signature_check cry opts = None" by (rule ProcessRecords_Inr)
  with assms(2,3) show ?thesis by (auto simp: signature_check_def VerifySignature_accepts)
qed

lemma ProcessRecords_signed_witness:
  "\<exists>txts der key raw.
      poPubKeyLookup demo_opts (poSigningKey demo_opts @ ''.'' @ poSyncPubKeyDomain demo_opts) = Some txts
      \<and> cryB64 demo_crypto (parseDCPubKeyTXT txts) = Some der \<and> cryParsePKIX demo_crypto der = Some (Some key)
      \<and> cryB64 demo_crypto (poSignature demo_opts) = Some raw
      \<and> cryVerify demo_crypto key (poQueryString demo_opts) raw"
  by (rule ProcessRecords_signed [OF demo_run]) (simp_all add: demo_opts_def)

text \<open>Every record added by a multi-aware run carries the provider, the service, the
  instance and a non-empty essential mark, so the next run for the same instance replaces it.\<close>

theorem ProcessRecords_stamps:
  assumes "ProcessRecords cry opts = Inr res" and "poMultiAware opts" and "r \<in> set (prToAdd res)"
  shows "multi_deletes opts (unique_id opts) r
    \<and> (\<exists>m. recDC r = Some m \<and> dc_str m ''host'' = poHost opts \<and> dc_str m ''essential'' \<noteq> [])"
proof -
  from assms(1) obtain es where "prToAdd res = (if poMultiAware opts
      then map (stamp opts (unique_id opts) es) (deduplicateRecords (zsToAdd (zone_phase opts es)))
      else deduplicateRecords (zsToAdd (zone_phase opts es)))"
    by (rule ProcessRecords_Inr)
  with assms(2,3) obtain r0 where "r = stamp opts (unique_id opts) es r0" by auto
  then show ?thesis by (simp add: stamp_def Let_def multi_deletes_def same_service_def dc_str_def)
qed

lemma ProcessRecords_stamps_witness:
  "multi_deletes demo_opts (unique_id demo_opts) (hd (prToAdd demo_result))
    \<and> (\<exists>m. recDC (hd (prToAdd demo_result)) = Some m \<and> dc_str m ''host'' = poHost demo_opts
          \<and> dc_str m ''essential'' \<noteq> [])"
  by (rule ProcessRecords_stamps [OF demo_run]) (simp_all add: demo_opts_def demo_result_def)


end
