(* ===== verification/Verify_Dns.thy ===== *)
theory Verify_Dns
  imports Dns_Types
begin

text \<open>
  \<open>verify.go\<close>: the post-push check. The DNS library (\<open>miekg/dns\<close>) and the resolver are not under
  the repository; they are the fields of \<open>dns_env\<close>: the name servers of a domain, the address of a
  name server, and the answer section of one query (\<open>None\<close> where the exchange fails).
\<close>

datatype rdata =
    RTxt "string list"
  | RCname string
  | RMx nat string
  | RA string
  | RAAAA string
  | ROther

record rr =
  rrType :: nat
  rrData :: rdata

definition "TypeA = (1::nat)"
definition "TypeCNAME = (5::nat)"
definition "TypeMX = (15::nat)"
definition "TypeTXT = (16::nat)"
definition "TypeAAAA = (28::nat)"

record dns_env =
  deLookupNS :: "string \<Rightarrow> string list option"
  deNsAddr :: "string \<Rightarrow> string option"
  deQuery :: "string \<Rightarrow> string \<Rightarrow> nat \<Rightarrow> bool \<Rightarrow> rr list option"
  deRecursiveAddr :: string

record VerifyOpts =
  voRecordType :: string
  voName :: string
  voContains :: string

record VerifyResult =
  vrVerified :: bool
  vrCurrentValue :: string
  vrMethod :: string
  vrNameserversQueried :: "string list"

definition recordTypeCode :: "string \<Rightarrow> string + nat" where
  "recordTypeCode t =
     (let u = ToUpper t in
      if u = ''TXT'' then Inr TypeTXT
      else if u = ''CNAME'' then Inr TypeCNAME
      else if u = ''MX'' then Inr TypeMX
      else if u = ''A'' then Inr TypeA
      else if u = ''AAAA'' then Inr TypeAAAA
      else Inl ''unsupported record type'')"

definition rr_value :: "rr \<Rightarrow> string option" where
  "rr_value r = (case rrData r of
      RTxt ts \<Rightarrow> Some (concat ts)
    | RCname t \<Rightarrow> Some (TrimSuffix t ''.'')
    | RMx p m \<Rightarrow> Some (Itoa (int p) @ '' '' @ TrimSuffix m ''.'')
    | RA ip \<Rightarrow> Some ip
    | RAAAA ip \<Rightarrow> Some ip
    | ROther \<Rightarrow> None)"

definition extractValues :: "rr list \<Rightarrow> nat \<Rightarrow> string list" where
  "extractValues answers qtype =
     List.map_filter (\<lambda>r. if rrType r = qtype then rr_value r else None) answers"

definition matches :: "string \<Rightarrow> string \<Rightarrow> bool" where
  "matches value contains = (if contains = [] then True else Contains (ToLower value) (ToLower contains))"

definition queryServer :: "dns_env \<Rightarrow> string \<Rightarrow> string \<Rightarrow> nat \<Rightarrow> bool \<Rightarrow> string list option" where
  "queryServer env addr name qtype recursion =
     map_option (\<lambda>rrs. extractValues rrs qtype) (deQuery env addr name qtype recursion)"

text \<open>The scan of one answer: a match stops it; the first value is kept where none was known.\<close>

fun scan_values :: "string \<Rightarrow> string list \<Rightarrow> string \<Rightarrow> (string, string) sum" where
  "scan_values contains [] cur = Inr cur"
| "scan_values contains (v # vs) cur =
     (if matches v contains then Inl v
      else scan_values contains vs (if cur = [] then v else cur))"

fun verify_auth ::
  "dns_env \<Rightarrow> VerifyOpts \<Rightarrow> nat \<Rightarrow> string list \<Rightarrow> nat \<Rightarrow> VerifyResult \<Rightarrow> VerifyResult" where
  "verify_auth env opts qtype [] tried res = res"
| "verify_auth env opts qtype (ns # nss) tried res =
     (if 2 \<le> tried then res
      else
        let host = TrimSuffix ns ''.'';
            res1 = res\<lparr>vrNameserversQueried := vrNameserversQueried res @ [host]\<rparr> in
        (case deNsAddr env host of
           None \<Rightarrow> verify_auth env opts qtype nss (Suc tried) res1
         | Some addr \<Rightarrow>
             (case queryServer env addr (voName opts) qtype False of
                None \<Rightarrow> verify_auth env opts qtype nss (Suc tried) res1
              | Some values \<Rightarrow>
                  (case scan_values (voContains opts) values (vrCurrentValue res1) of
                     Inl v \<Rightarrow> res1\<lparr>vrVerified := True, vrCurrentValue := v\<rparr>
                   | Inr cur \<Rightarrow> verify_auth env opts qtype nss (Suc tried) (res1\<lparr>vrCurrentValue := cur\<rparr>)))))"

definition verify_recursive ::
  "dns_env \<Rightarrow> VerifyOpts \<Rightarrow> nat \<Rightarrow> bool \<Rightarrow> VerifyResult \<Rightarrow> string option \<times> VerifyResult" where
  "verify_recursive env opts qtype nsFailed res =
     (let addr = deRecursiveAddr env in
      case queryServer env addr (voName opts) qtype True of
        None \<Rightarrow> (if nsFailed then Some ''authoritative lookup failed and recursive failed'' else None, res)
      | Some values \<Rightarrow>
          (case scan_values (voContains opts) values (vrCurrentValue res) of
             Inl v \<Rightarrow> (None, res\<lparr>vrVerified := True, vrCurrentValue := v, vrMethod := ''recursive_fallback''\<rparr>)
           | Inr cur \<Rightarrow> (None, res\<lparr>vrCurrentValue := cur,
                 vrMethod := (if values \<noteq> [] then ''recursive_fallback'' else vrMethod res)\<rparr>)))"

definition Verify :: "dns_env \<Rightarrow> string \<Rightarrow> VerifyOpts \<Rightarrow> string option \<times> VerifyResult" where
  "Verify env domain opts =
     (let res0 = \<lparr>vrVerified = False, vrCurrentValue = [], vrMethod = ''authoritative'', vrNameserversQueried = []\<rparr> in
      case recordTypeCode (voRecordType opts) of
        Inl e \<Rightarrow> (Some e, res0)
      | Inr qtype \<Rightarrow>
          (case deLookupNS env domain of
             None \<Rightarrow> verify_recursive env opts qtype True res0
           | Some nss \<Rightarrow>
               (let res = verify_auth env opts qtype nss 0 res0 in
                if vrVerified res then (None, res) else verify_recursive env opts qtype False res)))"

lemma scan_values_Inl: "scan_values c vs cur = Inl v \<Longrightarrow> v \<in> set vs \<and> matches v c"
  by (induction vs arbitrary: cur) (auto split: if_splits)

definition observed :: "dns_env \<Rightarrow> string \<Rightarrow> nat \<Rightarrow> string \<Rightarrow> bool" where
  "observed env name qtype v \<longleftrightarrow>
     (\<exists>addr recursion vs. queryServer env addr name qtype recursion = Some vs \<and> v \<in> set vs)"

lemma verify_auth_verified:
  assumes "vrVerified (verify_auth env opts q nss tried res)" "\<not> vrVerified res"
  shows "matches (vrCurrentValue (verify_auth env opts q nss tried res)) (voContains opts)
    \<and> observed env (voName opts) q (vrCurrentValue (verify_auth env opts q nss tried res))"
  using assms
proof (induction nss arbitrary: tried res)
  case (Cons ns nss)
  show ?case
  proof (cases "2 \<le> tried")
    case True
    with Cons show ?thesis by simp
  next
    case tr: False
    let ?h = "TrimSuffix ns ''.''"
    let ?r = "res\<lparr>vrNameserversQueried := vrNameserversQueried res @ [?h]\<rparr>"
    show ?thesis
    proof (cases "deNsAddr env ?h")
      case None
      with Cons tr show ?thesis by simp
    next
      case a: (Some addr)
      show ?thesis
      proof (cases "queryServer env addr (voName opts) q False")
        case None
        with Cons tr a show ?thesis by simp
      next
        case v: (Some vs)
        show ?thesis
        proof (cases "scan_values (voContains opts) vs (vrCurrentValue ?r)")
          case (Inl x)
          from scan_values_Inl [OF this] v have "observed env (voName opts) q x"
            by (auto simp: observed_def)
          with tr a v Inl scan_values_Inl [OF Inl] show ?thesis by simp
        next
          case (Inr cur)
          with Cons tr a v show ?thesis by simp
        qed
      qed
    qed
  qed
qed simp

lemma verify_auth_queried:
  "tried \<le> 2 \<Longrightarrow> length (vrNameserversQueried (verify_auth env opts q nss tried res)) \<le> length (vrNameserversQueried res) + (2 - tried)"
proof (induction nss arbitrary: tried res)
  case (Cons ns nss)
  show ?case
  proof (cases "2 \<le> tried")
    case False
    with Cons.prems have t: "Suc tried \<le> 2" "2 - tried = Suc (2 - Suc tried)" by auto
    have "length (vrNameserversQueried (verify_auth env opts q nss (Suc tried) r))
        \<le> length (vrNameserversQueried res) + (2 - tried)"
      if "vrNameserversQueried r = vrNameserversQueried res @ [h]" for r h
      using Cons.IH [OF t(1), of r] that t(2) by simp
    with False t(2) show ?thesis by (auto simp: Let_def split: option.splits sum.splits)
  qed simp
qed simp

subsection \<open>Properties\<close>

text \<open>Whenever a verification succeeds, the value it reports has the type asked for and the
  fragment looked for, and some server answered it; no more than two authoritative servers are
  asked.\<close>

theorem Verify_sound:
  assumes "Verify env domain opts = (err, res)" and "vrVerified res"
  shows "err = None \<and> matches (vrCurrentValue res) (voContains opts)
    \<and> (\<exists>qtype. recordTypeCode (voRecordType opts) = Inr qtype
          \<and> observed env (voName opts) qtype (vrCurrentValue res))
    \<and> length (vrNameserversQueried res) \<le> 2"
proof -
  let ?r0 = "\<lparr>vrVerified = False, vrCurrentValue = [], vrMethod = ''authoritative'', vrNameserversQueried = []\<rparr>"
  from assms obtain q where q: "recordTypeCode (voRecordType opts) = Inr q"
    by (auto simp: Verify_def Let_def split: sum.splits)
  have rec: "err = None \<and> matches (vrCurrentValue res) (voContains opts)
      \<and> observed env (voName opts) q (vrCurrentValue res) \<and> length (vrNameserversQueried res) \<le> 2"
    if "verify_recursive env opts q b r = (err, res)" "\<not> vrVerified r" "length (vrNameserversQueried r) \<le> 2" for b r
    using that assms(2) scan_values_Inl
    by (fastforce simp: verify_recursive_def Let_def observed_def split: option.splits sum.splits)
  show ?thesis
  proof (cases "deLookupNS env domain")
    case None
    with assms(1) q have "verify_recursive env opts q True ?r0 = (err, res)" by (simp add: Verify_def Let_def)
    from rec [OF this] q show ?thesis by auto
  next
    case (Some nss)
    let ?a = "verify_auth env opts q nss 0 ?r0"
    have len: "length (vrNameserversQueried ?a) \<le> 2" using verify_auth_queried [of 0 env opts q nss ?r0] by simp
    show ?thesis
    proof (cases "vrVerified ?a")
      case True
      with assms(1) q Some have "err = None" "res = ?a" by (auto simp: Verify_def Let_def)
      with verify_auth_verified [OF True] len q show ?thesis by auto
    next
      case False
      with assms(1) q Some have "verify_recursive env opts q False ?a = (err, res)" by (simp add: Verify_def Let_def)
      from rec [OF this False len] q show ?thesis by auto
    qed
  qed
qed

definition demo_dns :: dns_env where
  "demo_dns = \<lparr>deLookupNS = (\<lambda>d. Some [''ns1.example.net.'', ''ns2.example.net.'', ''ns3.example.net.'']),
     deNsAddr = (\<lambda>h. if h = ''ns1.example.net'' then None else Some ''192.0.2.53:53''),
     deQuery = (\<lambda>a n q r. Some [\<lparr>rrType = 5, rrData = RCname ''x.''\<rparr>, \<lparr>rrType = 16, rrData = RTxt [''v=DMARC1; '', ''p=none'']\<rparr>]),
     deRecursiveAddr = ''8.8.8.8:53''\<rparr>"

lemma Verify_sound_witness:
  "matches ''v=DMARC1; p=none'' ''p=NONE'' \<and> length [''ns1.example.net'', ''ns2.example.net''] \<le> 2"
proof -
  have "Verify demo_dns ''example.com'' \<lparr>voRecordType = ''txt'', voName = ''_dmarc.example.com'', voContains = ''p=NONE''\<rparr>
    = (None, \<lparr>vrVerified = True, vrCurrentValue = ''v=DMARC1; p=none'', vrMethod = ''authoritative'',
        vrNameserversQueried = [''ns1.example.net'', ''ns2.example.net'']\<rparr>)"
    by code_simp
  from Verify_sound [OF this] show ?thesis by simp
qed

end
