(* ===== verification/Spf.thy ===== *)
theory Spf
  imports Dns_Types
begin

text \<open>
  SPF merging and lookup counting (\<open>spf.go\<close>). The DNS resolver that
  \<open>WithRecursiveLookupCount\<close> installs is a parameter of type \<open>spf_resolver\<close>: a function
  from a domain to its TXT strings or an error. The \<open>seen\<close> map that the recursion mutates
  is passed through as a list, latest first.
\<close>

type_synonym spf_resolver = "string \<Rightarrow> string + string list"

record MergeResult =
  mrValue :: string
  mrChanged :: bool
  mrBrokenInput :: bool
  mrLookupCount :: nat
  mrLookupLimitExceeded :: bool
  mrWarnings :: "string list"

subsection \<open>Counting lookups\<close>

datatype spf_term = NoLookup | OneLookup | Include string | Redirect string

definition stripQualifier :: "string \<Rightarrow> string" where
  "stripQualifier mech = (case mech of
      [] \<Rightarrow> mech
    | c # rest \<Rightarrow> if c \<in> {CHR ''+'', CHR ''-'', CHR ''~'', CHR ''?''} then rest else mech)"

text \<open>The switch of the counting loops, with the target that \<open>include:\<close> and \<open>redirect=\<close>
  carry. The prefix is tested on the lower-cased token and trimmed from the token itself.\<close>

definition spf_token :: "string \<Rightarrow> spf_term" where
  "spf_token tok = (let low = ToLower tok in
     if low = ''a'' \<or> low = ''mx'' then OneLookup
     else if HasPrefix low ''a:'' \<or> HasPrefix low ''mx:'' \<or> HasPrefix low ''ptr:'' \<or> HasPrefix low ''exists:''
       then OneLookup
     else if HasPrefix low ''include:'' then Include (stripQualifier (TrimPrefix tok ''include:''))
     else if HasPrefix low ''redirect='' then Redirect (TrimPrefix tok ''redirect='')
     else NoLookup)"

definition is_spf_text :: "string \<Rightarrow> bool" where
  "is_spf_text txt = HasPrefix (ToLower (TrimSpace txt)) ''v=spf1''"

function (sequential)
  recursiveSPFLookupCount :: "spf_resolver \<Rightarrow> string \<Rightarrow> nat \<Rightarrow> string list \<Rightarrow> nat \<times> string option \<times> string list"
  and count_tokens :: "spf_resolver \<Rightarrow> string list \<Rightarrow> nat \<Rightarrow> string list \<Rightarrow> nat \<times> string option \<times> string list"
  and recurseInto :: "spf_resolver \<Rightarrow> string \<Rightarrow> nat \<Rightarrow> string list \<Rightarrow> nat \<times> string option \<times> string list"
where
  "recursiveSPFLookupCount r spf depth seen =
     (if depth > 10 then (0, None, seen) else count_tokens r (Fields spf) depth seen)"
| "count_tokens r [] depth seen = (0, None, seen)"
| "count_tokens r (tok # toks) depth seen =
     (case spf_token tok of
        NoLookup \<Rightarrow> count_tokens r toks depth seen
      | OneLookup \<Rightarrow> (case count_tokens r toks depth seen of (n, e, s) \<Rightarrow> (Suc n, e, s))
      | Include target \<Rightarrow>
          (case recurseInto r target depth seen of (sub, err, seen1) \<Rightarrow>
            (case err of Some e \<Rightarrow> (1, Some e, seen1)
             | None \<Rightarrow> (case count_tokens r toks depth seen1 of (n, e, s) \<Rightarrow> (Suc (sub + n), e, s))))
      | Redirect target \<Rightarrow>
          (case recurseInto r target depth seen of (sub, err, seen1) \<Rightarrow>
            (case err of Some e \<Rightarrow> (1, Some e, seen1)
             | None \<Rightarrow> (case count_tokens r toks depth seen1 of (n, e, s) \<Rightarrow> (Suc (sub + n), e, s)))))"
| "recurseInto r target0 depth seen =
     (let target = TrimSuffix target0 ''.'' in
      if target = [] \<or> target \<in> set seen then (0, None, seen)
      else (case r target of
              Inl e \<Rightarrow> (0, Some e, target # seen)
            | Inr txts \<Rightarrow>
                (case find is_spf_text txts of
                   None \<Rightarrow> (0, None, target # seen)
                 | Some txt \<Rightarrow> recursiveSPFLookupCount r txt (Suc depth) (target # seen))))"
  by pat_completeness auto
termination
  by (relation "measures [\<lambda>x. case x of Inl (r, spf, d, s) \<Rightarrow> 11 - d
                          | Inr (Inl (r, toks, d, s)) \<Rightarrow> 11 - d | Inr (Inr (r, t, d, s)) \<Rightarrow> 11 - d,
                         \<lambda>x. case x of Inl (r, spf, d, s) \<Rightarrow> (if d > 10 then 0 else 3 + length (Fields spf))
                          | Inr (Inl (r, toks, d, s)) \<Rightarrow> 2 + length toks | Inr (Inr (r, t, d, s)) \<Rightarrow> 1]")
    auto

fun count_surface :: "string list \<Rightarrow> nat" where
  "count_surface [] = 0"
| "count_surface (tok # toks) =
     (let low = ToLower tok in
      if low = ''a'' \<or> low = ''mx'' then Suc (count_surface toks)
      else if HasPrefix low ''include:'' \<or> HasPrefix low ''a:'' \<or> HasPrefix low ''mx:''
        \<or> HasPrefix low ''ptr:'' \<or> HasPrefix low ''exists:'' \<or> HasPrefix low ''redirect=''
        then Suc (count_surface toks)
      else count_surface toks)"

definition CountSPFLookups :: "string \<Rightarrow> nat" where
  "CountSPFLookups spf = count_surface (Fields spf)"

subsection \<open>Merging includes\<close>

definition include_term :: "string \<Rightarrow> string" where
  "include_term inc = ''include:'' @ inc"

definition buildFresh :: "string list \<Rightarrow> string" where
  "buildFresh includes =
     (if includes = [] then ''v=spf1 ~all''
      else Join (''v=spf1'' # map include_term includes @ [''~all'']) '' '')"

definition spf_additions :: "string \<Rightarrow> string list \<Rightarrow> string list" where
  "spf_additions current includes =
     map include_term (filter (\<lambda>inc. \<not> Contains current (include_term inc)) includes)"

fun first_index :: "string \<Rightarrow> string list \<Rightarrow> nat option" where
  "first_index s [] = None"
| "first_index s (t # ts) = (case Index s t of Some i \<Rightarrow> Some i | None \<Rightarrow> first_index s ts)"

definition insert_terms :: "string \<Rightarrow> string \<Rightarrow> string" where
  "insert_terms s ins =
     (case first_index s ['' -all'', '' ~all'', '' ?all'', '' +all''] of
        Some i \<Rightarrow> take i s @ ins @ drop i s
      | None \<Rightarrow> (case Index s '' redirect='' of
            Some i \<Rightarrow> take i s @ ins @ drop i s
          | None \<Rightarrow> s @ ins @ '' -all''))"

definition warn_unparseable :: string where
  "warn_unparseable = ''existing SPF was unparseable; replaced with fresh record''"

definition warn_incomplete :: string where
  "warn_incomplete = ''recursive SPF lookup count incomplete: ''"

definition warn_limit :: string where
  "warn_limit = ''SPF record exceeds 10 DNS lookup limit (RFC 7208); mail receivers may return permerror''"

text \<open>The \<open>switch\<close> of \<open>MergeSPF\<close>: value, changed, broken input and warnings.\<close>

definition merge_value :: "string \<Rightarrow> string list \<Rightarrow> string \<times> bool \<times> bool \<times> string list" where
  "merge_value s includes =
     (if s = [] then (buildFresh includes, True, False, [])
      else if \<not> HasPrefix (ToLower s) ''v=spf1'' then (buildFresh includes, True, True, [warn_unparseable])
      else let additions = spf_additions s includes in
        if additions = [] then (s, False, False, [])
        else (insert_terms s ('' '' @ Join additions '' ''), True, False, []))"

definition MergeSPF :: "string \<Rightarrow> string list \<Rightarrow> spf_resolver option \<Rightarrow> MergeResult" where
  "MergeSPF current includes resolver =
     (case merge_value (TrimSpace current) includes of (v, changed, broken, warns) \<Rightarrow>
       let (count, warns1) =
         (case resolver of
            None \<Rightarrow> (CountSPFLookups v, warns)
          | Some r \<Rightarrow>
              (case recursiveSPFLookupCount r v 0 [] of (n, err, seen) \<Rightarrow>
                (case err of
                   Some e \<Rightarrow> (CountSPFLookups v, warns @ [warn_incomplete @ e])
                 | None \<Rightarrow> (n, warns))));
         exceeded = count > 10
       in \<lparr>mrValue = v, mrChanged = changed, mrBrokenInput = broken, mrLookupCount = count,
           mrLookupLimitExceeded = exceeded,
           mrWarnings = (if exceeded then warns1 @ [warn_limit] else warns1)\<rparr>)"

declare recursiveSPFLookupCount.simps [simp del] recurseInto.simps [simp del]

subsection \<open>Facts on the counters\<close>

lemma count_surface_spf_token:
  "count_surface (tok # toks) = (if spf_token tok = NoLookup then 0 else 1) + count_surface toks"
  by (auto simp: spf_token_def Let_def)

lemma suffix_trans': "suffix a b \<Longrightarrow> suffix b c \<Longrightarrow> suffix a c"
  by (auto simp: suffix_def)

text \<open>
  Every lookup puts its domain on \<open>seen\<close> first, so \<open>seen\<close> is the log of the lookups: it only
  grows, stays duplicate free, and the recursive count is at least the surface count.
\<close>

lemma recursive_count_facts:
  "recursiveSPFLookupCount r spf depth seen = (n, e, s) \<Longrightarrow>
     suffix seen s \<and> (distinct seen \<longrightarrow> distinct s) \<and>
     (depth \<le> 10 \<longrightarrow> e = None \<longrightarrow> CountSPFLookups spf \<le> n)"
  "count_tokens r toks depth seen = (n, e, s) \<Longrightarrow>
     suffix seen s \<and> (distinct seen \<longrightarrow> distinct s) \<and> (e = None \<longrightarrow> count_surface toks \<le> n)"
  "recurseInto r target depth seen = (n, e, s) \<Longrightarrow>
     suffix seen s \<and> (distinct seen \<longrightarrow> distinct s)"
proof (induction r spf depth seen and r toks depth seen and r target depth seen
    arbitrary: n e s and n e s and n e s
    rule: recursiveSPFLookupCount_count_tokens_recurseInto.induct)
  case (1 r spf depth seen)
  then show ?case
    by (auto simp: recursiveSPFLookupCount.simps [of r spf] CountSPFLookups_def split: if_splits)
next
  case (2 r depth seen)
  then show ?case by simp
next
  case (3 r tok toks depth seen)
  note IH = "3.IH" and eq = "3.prems"
  show ?case
  proof (cases "spf_token tok")
    case NoLookup
    with eq IH(1) show ?thesis by (simp add: count_surface_spf_token del: count_surface.simps)
  next
    case OneLookup
    with eq IH(2) show ?thesis
      by (auto simp: count_surface_spf_token simp del: count_surface.simps split: prod.splits)
  next
    case (Include target)
    obtain sub err s1 where s1: "recurseInto r target depth seen = (sub, err, s1)"
      by (metis prod_cases3)
    note f1 = IH(3) [OF Include s1]
    show ?thesis
    proof (cases err)
      case None
      obtain n1 e1 s2 where s2: "count_tokens r toks depth s1 = (n1, e1, s2)" by (metis prod_cases3)
      note f2 = IH(4) [OF Include s1 [symmetric] refl None s2]
      from eq Include s1 s2 None f1 f2 show ?thesis
        by (auto simp: count_surface_spf_token simp del: count_surface.simps dest: suffix_trans')
    next
      case (Some x)
      with eq Include s1 f1 show ?thesis by auto
    qed
  next
    case (Redirect target)
    obtain sub err s1 where s1: "recurseInto r target depth seen = (sub, err, s1)"
      by (metis prod_cases3)
    note f1 = IH(5) [OF Redirect s1]
    show ?thesis
    proof (cases err)
      case None
      obtain n1 e1 s2 where s2: "count_tokens r toks depth s1 = (n1, e1, s2)" by (metis prod_cases3)
      note f2 = IH(6) [OF Redirect s1 [symmetric] refl None s2]
      from eq Redirect s1 s2 None f1 f2 show ?thesis
        by (auto simp: count_surface_spf_token simp del: count_surface.simps dest: suffix_trans')
    next
      case (Some x)
      with eq Redirect s1 f1 show ?thesis by auto
    qed
  qed
next
  case (4 r target0 depth seen)
  let ?t = "TrimSuffix target0 ''.''"
  show ?case
  proof (cases "?t = [] \<or> ?t \<in> set seen")
    case True
    with "4.prems" show ?thesis by (auto simp: recurseInto.simps [of r target0] Let_def)
  next
    case False
    then have ne: "?t \<noteq> []" "?t \<notin> set seen" by auto
    have suf: "suffix seen (?t # seen)" by (simp add: suffix_ConsI)
    show ?thesis
    proof (cases "r ?t")
      case (Inl x)
      with "4.prems" ne suf show ?thesis by (auto simp: recurseInto.simps [of r target0] Let_def)
    next
      case (Inr txts)
      show ?thesis
      proof (cases "find is_spf_text txts")
        case None
        with "4.prems" Inr ne suf show ?thesis by (auto simp: recurseInto.simps [of r target0] Let_def)
      next
        case (Some rec)
        with "4.prems" Inr ne have
          "recursiveSPFLookupCount r rec (Suc depth) (?t # seen) = (n, e, s)"
          by (simp add: recurseInto.simps [of r target0] Let_def)
        from "4.IH" [OF refl False Inr Some this] ne suf show ?thesis
          by (auto dest: suffix_trans')
      qed
    qed
  qed
qed

subsection \<open>Facts on the merge\<close>

lemma sublist_Join: "w \<in> set ws \<Longrightarrow> sublist w (Join ws sep)"
proof (induction ws)
  case Nil
  then show ?case by simp
next
  case (Cons v ws)
  show ?case
  proof (cases "ws = []")
    case True
    with Cons show ?thesis by simp
  next
    case False
    with Cons show ?thesis
      by (metis Join_Cons set_ConsD sublist_appendI sublist_order.order.trans sublist_append_leftI
          sublist_append_rightI)
  qed
qed

definition plain :: "string \<Rightarrow> bool" where
  "plain s \<longleftrightarrow> (\<forall>c \<in> set s. \<not> is_space c)"

lemma is_space_blank [simp]: "is_space (CHR '' '')"
  by (simp add: is_space_def byte_def)

lemma plain_no_blank: "plain s \<Longrightarrow> CHR '' '' \<notin> set s"
  by (auto simp: plain_def)

lemma plain_include_term [simp]: "plain (include_term inc) \<longleftrightarrow> plain inc"
  by (simp add: plain_def include_term_def is_space_def byte_def)

lemma include_term_ne [simp]: "include_term inc \<noteq> []"
  by (simp add: include_term_def)

lemma Fields_Join_plain:
  "(\<forall>w \<in> set ws. plain w \<and> w \<noteq> []) \<Longrightarrow> Fields (Join ws '' '') = ws"
proof (induction ws)
  case Nil
  then show ?case by simp
next
  case (Cons w ws)
  then have w: "Fields w = [w]" by (simp add: Fields_no_space plain_def)
  with Cons show ?case by (cases "ws = []") (simp_all add: Join_Cons Fields_append_space)
qed

text \<open>Where the insertion point lies: the rest of the record starts with a blank.\<close>

lemma first_index_blank:
  "first_index s ts = Some i \<Longrightarrow> (\<forall>t \<in> set ts. \<exists>u. t = CHR '' '' # u) \<Longrightarrow> \<exists>r. drop i s = CHR '' '' # r"
  by (induction ts) (fastforce split: option.splits dest: Index_SomeD simp: prefix_def)+

lemma insert_terms_cases:
  obtains (mid) p r where "s = p @ CHR '' '' # r" and "insert_terms s ins = p @ ins @ CHR '' '' # r"
  | (tail) "insert_terms s ins = s @ ins @ '' -all''"
proof -
  have "(\<exists>i r. drop i s = CHR '' '' # r \<and> insert_terms s ins = take i s @ ins @ drop i s)
      \<or> insert_terms s ins = s @ ins @ '' -all''"
  proof (cases "first_index s ['' -all'', '' ~all'', '' ?all'', '' +all'']")
    case (Some i)
    then have "\<exists>r. drop i s = CHR '' '' # r" by (rule first_index_blank) auto
    with Some show ?thesis by (auto simp: insert_terms_def)
  next
    case None
    show ?thesis
    proof (cases "Index s '' redirect=''")
      case None2: None
      with None show ?thesis by (simp add: insert_terms_def)
    next
      case (Some i)
      then have "\<exists>r. drop i s = CHR '' '' # r" by (auto simp: prefix_def dest!: Index_SomeD)
      with None Some show ?thesis by (auto simp: insert_terms_def)
    qed
  qed
  then show thesis by (metis append_take_drop_id mid tail)
qed

lemma insert_terms_Contains:
  assumes "CHR '' '' \<notin> set w" and "w \<noteq> []" and "Contains s w"
  shows "Contains (insert_terms s ins) w"
proof (cases rule: insert_terms_cases [of s ins])
  case (mid p r)
  from assms mid(1) have "sublist w p \<or> sublist w r"
    by (simp add: Contains_sublist sublist_around)
  then show ?thesis unfolding mid(2) Contains_sublist
    by (metis append_Cons append_Nil append_assoc sublist_append_leftI sublist_append_rightI
        sublist_order.order.trans)
next
  case tail
  with assms(3) show ?thesis unfolding tail Contains_sublist
    by (metis sublist_append_rightI sublist_order.order.trans)
qed

lemma insert_terms_contains_ins: "sublist ins (insert_terms s ins)"
  by (cases rule: insert_terms_cases [of s ins]) auto

lemma Fields_insert_terms:
  "\<exists>l r. Fields s = l @ r \<and>
     (Fields (insert_terms s (CHR '' '' # ins)) = l @ Fields ins @ r \<or>
      (r = [] \<and> Fields (insert_terms s (CHR '' '' # ins)) = l @ Fields ins @ [''-all'']))"
proof (cases rule: insert_terms_cases [of s "CHR '' '' # ins"])
  case (mid p r)
  then have "Fields s = Fields p @ Fields r"
    and "Fields (insert_terms s (CHR '' '' # ins)) = Fields p @ Fields ins @ Fields r"
    by (simp_all add: Fields_append_space)
  then show ?thesis by blast
next
  case tail
  have "Fields ''-all'' = [''-all'']"
    by (rule Fields_no_space) (simp_all add: is_space_def byte_def)
  with tail have "Fields (insert_terms s (CHR '' '' # ins)) = Fields s @ Fields ins @ [''-all'']"
    by (simp add: Fields_append_space)
  then show ?thesis by (intro exI [of _ "Fields s"] exI [of _ "[]"]) simp
qed

lemma prefix_ToLower_no_blank:
  assumes "HasPrefix (ToLower (p @ CHR '' '' # r)) w" and "CHR '' '' \<notin> set w"
  shows "HasPrefix (ToLower p) w"
proof -
  have b: "lower_char (CHR '' '') = CHR '' ''" by (simp add: lower_char_def is_upper_def byte_def)
  from assms(1) have "prefix w (ToLower p @ CHR '' '' # ToLower r)" by (simp add: b)
  with assms(2) show ?thesis by (auto simp: prefix_append prefix_Cons)
qed

lemma insert_terms_head:
  assumes "trimmed s" and "HasPrefix (ToLower s) ''v=spf1''"
  shows "trimmed (insert_terms s ins) \<and> insert_terms s ins \<noteq> [] \<and>
    HasPrefix (ToLower (insert_terms s ins)) ''v=spf1''"
proof (cases rule: insert_terms_cases [of s ins])
  case (mid p r)
  from assms(2) mid(1) have pre: "HasPrefix (ToLower p) ''v=spf1''"
    by (auto intro: prefix_ToLower_no_blank)
  then have "p \<noteq> []" by auto
  with assms(1) mid pre show ?thesis
    by (cases r) (auto simp: trimmed_def)
next
  case tail
  from assms(2) have "s \<noteq> []" by auto
  with assms tail show ?thesis
    by (auto simp: trimmed_def is_space_def byte_def)
qed

lemma buildFresh_shape: "\<exists>m. buildFresh includes = ''v=spf1 '' @ m @ ''~all''"
proof (cases "includes = []")
  case True
  then show ?thesis by (intro exI [of _ "[]"]) (simp add: buildFresh_def)
next
  case False
  have j: "Join (ws @ [''~all'']) '' '' = (if ws = [] then [] else Join ws '' '' @ '' '') @ ''~all''" for ws
    by (induction ws) (auto simp: Join_Cons)
  have "buildFresh includes = ''v=spf1'' @ '' '' @ Join (map include_term includes @ [''~all'']) '' ''"
    using False by (simp add: buildFresh_def Join_Cons)
  with False j [of "map include_term includes"] show ?thesis by auto
qed

lemma buildFresh_head:
  "trimmed (buildFresh includes) \<and> buildFresh includes \<noteq> [] \<and>
   HasPrefix (ToLower (buildFresh includes)) ''v=spf1''"
proof -
  obtain m where m: "buildFresh includes = ''v=spf1 '' @ m @ ''~all''" using buildFresh_shape by blast
  show ?thesis unfolding m by (simp add: trimmed_def is_space_def byte_def lower_char_def is_upper_def)
qed

lemma buildFresh_contains: "inc \<in> set includes \<Longrightarrow> Contains (buildFresh includes) (include_term inc)"
  unfolding Contains_sublist buildFresh_def
  by (auto intro!: sublist_Join)

lemma mrValue_MergeSPF: "mrValue (MergeSPF cur incs res) = fst (merge_value (TrimSpace cur) incs)"
  and mrChanged_MergeSPF: "mrChanged (MergeSPF cur incs res) = fst (snd (merge_value (TrimSpace cur) incs))"
  and mrBroken_MergeSPF: "mrBrokenInput (MergeSPF cur incs res) = fst (snd (snd (merge_value (TrimSpace cur) incs)))"
  by (auto simp: MergeSPF_def Let_def split: prod.splits option.splits)

lemma mrCount_MergeSPF:
  "mrLookupLimitExceeded (MergeSPF cur incs res) \<longleftrightarrow> mrLookupCount (MergeSPF cur incs res) > 10"
  by (auto simp: MergeSPF_def Let_def split: prod.splits option.splits)

lemmas merge_spf_sels = mrValue_MergeSPF mrChanged_MergeSPF mrBroken_MergeSPF

text \<open>The merged value is a trimmed SPF record that holds every requested include.\<close>

lemma merge_value_head:
  assumes "trimmed s" and "merge_value s incs = (v, ch, br, ws)"
  shows "trimmed v \<and> v \<noteq> [] \<and> HasPrefix (ToLower v) ''v=spf1''"
  using assms buildFresh_head [of incs] insert_terms_head [of s]
  by (auto simp: merge_value_def Let_def split: if_splits)

lemma merge_value_contains:
  assumes "\<forall>inc \<in> set incs. plain inc" and "merge_value s incs = (v, ch, br, ws)" and "inc \<in> set incs"
  shows "Contains v (include_term inc)"
proof -
  from assms(1,3) have b: "CHR '' '' \<notin> set (include_term inc)"
    by (simp add: plain_no_blank)
  show ?thesis
  proof (cases "s = [] \<or> \<not> HasPrefix (ToLower s) ''v=spf1''")
    case True
    with assms(2) have "v = buildFresh incs" by (auto simp: merge_value_def split: if_splits)
    with assms(3) show ?thesis by (simp add: buildFresh_contains)
  next
    case False
    show ?thesis
    proof (cases "Contains s (include_term inc)")
      case True
      with False assms(2) b show ?thesis
        by (auto simp: merge_value_def Let_def insert_terms_Contains split: if_splits)
    next
      case False2: False
      then have m: "include_term inc \<in> set (spf_additions s incs)"
        using assms(3) by (auto simp: spf_additions_def)
      then have "v = insert_terms s ('' '' @ Join (spf_additions s incs) '' '')"
        using False assms(2) by (auto simp: merge_value_def Let_def split: if_splits)
      moreover have "sublist (include_term inc) ('' '' @ Join (spf_additions s incs) '' '')"
        using sublist_Join [OF m] by (metis sublist_append_leftI sublist_order.order.trans)
      ultimately show ?thesis unfolding Contains_sublist
        using insert_terms_contains_ins sublist_order.order.trans by blast
    qed
  qed
qed

subsection \<open>Properties\<close>

lemma MergeSPF_is_spf: "HasPrefix (ToLower (mrValue (MergeSPF current includes res))) ''v=spf1''"
proof -
  obtain v ch br ws where mv: "merge_value (TrimSpace current) includes = (v, ch, br, ws)"
    by (metis prod_cases4)
  with merge_value_head [OF trimmed_TrimSpace mv] show ?thesis by (simp add: merge_spf_sels)
qed

lemma MergeSPF_again:
  assumes "\<forall>inc \<in> set includes. plain inc"
  shows "mrValue (MergeSPF (mrValue (MergeSPF current includes res)) includes res')
           = mrValue (MergeSPF current includes res)
       \<and> \<not> mrChanged (MergeSPF (mrValue (MergeSPF current includes res)) includes res')
       \<and> \<not> mrBrokenInput (MergeSPF (mrValue (MergeSPF current includes res)) includes res')"
proof -
  obtain v ch br ws where mv: "merge_value (TrimSpace current) includes = (v, ch, br, ws)"
    by (metis prod_cases4)
  note h = merge_value_head [OF trimmed_TrimSpace mv]
  have "spf_additions v includes = []"
    using merge_value_contains [OF assms mv] by (simp add: spf_additions_def filter_empty_conv)
  with h have "merge_value (TrimSpace v) includes = (v, False, False, [])"
    by (simp add: TrimSpace_id) (simp add: merge_value_def Let_def)
  with mv show ?thesis by (simp add: merge_spf_sels)
qed

text \<open>Merging is idempotent, as the doc comment of \<open>MergeSPF\<close> says: merging the same
  includes into its own output changes nothing and reports \<open>Changed = false\<close>. It needs the
  includes to hold no white space (the comment leaves their validation to the caller).\<close>

theorem MergeSPF_idempotent:
  assumes "\<forall>inc \<in> set includes. plain inc"
  shows "mrValue (MergeSPF (mrValue (MergeSPF current includes res)) includes res')
           = mrValue (MergeSPF current includes res)
       \<and> \<not> mrChanged (MergeSPF (mrValue (MergeSPF current includes res)) includes res')
       \<and> \<not> mrBrokenInput (MergeSPF (mrValue (MergeSPF current includes res)) includes res')"
  by (rule MergeSPF_again [OF assms])

theorem MergeSPF_idempotent_witness:
  "mrValue (MergeSPF ''v=spf1 mx -all'' [''_spf.google.com''] None)
       = ''v=spf1 mx include:_spf.google.com -all''
   \<and> \<not> mrChanged (MergeSPF (mrValue (MergeSPF ''v=spf1 mx -all'' [''_spf.google.com''] None))
        [''_spf.google.com''] None)"
proof -
  have h: "\<forall>inc \<in> set [''_spf.google.com'']. plain inc" by code_simp
  have "mrValue (MergeSPF ''v=spf1 mx -all'' [''_spf.google.com''] None)
       = ''v=spf1 mx include:_spf.google.com -all''" by code_simp
  then show ?thesis using MergeSPF_idempotent [OF h, of "''v=spf1 mx -all''" None None] by blast
qed



text \<open>A missing include is overlooked when its name is a proper prefix of one that is
  there: the test for presence is a substring test, so the record is reported as unchanged.\<close>

theorem MergeSPF_prefix_include_overlooked:
  assumes "HasPrefix (ToLower s) ''v=spf1''" and "trimmed s"
    and "include_term longer \<in> set (Fields s)" and "HasPrefix longer inc"
  shows "mrValue (MergeSPF s [inc] res) = s \<and> \<not> mrChanged (MergeSPF s [inc] res)"
proof -
  have sub: "w \<in> set (Fields t) \<Longrightarrow> sublist w t" for w t
  proof (induction t arbitrary: w)
    case Nil
    then show ?case by simp
  next
    case (Cons c t)
    obtain v vs where v: "split_where is_space t = v # vs"
      by (metis neq_Nil_conv split_where_nonempty)
    have pre: "prefix v t" if "split_where is_space t = v # vs" for v vs t
      using that
    proof (induction t arbitrary: v vs)
      case (Cons d t)
      then show ?case by (auto split: list.splits if_splits)
    qed simp
    show ?case
    proof (cases "is_space c")
      case True
      with Cons.prems have "w \<in> set (Fields t)" by (simp add: Fields_def)
      with Cons.IH show ?thesis by (simp add: sublist_Cons_right)
    next
      case False
      with Cons.prems v have "w = c # v \<or> w \<in> set (Fields t)" by (auto simp: Fields_def)
      with Cons.IH pre [OF v] show ?thesis by (auto simp: sublist_Cons_right)
    qed
  qed
  have "sublist (include_term inc) (include_term longer)"
    using assms(4) by (auto simp: include_term_def prefix_def)
  with sub [OF assms(3)] have "Contains s (include_term inc)"
    by (metis Contains_sublist sublist_order.order.trans)
  moreover from assms(1) have "s \<noteq> []" by auto
  ultimately have "merge_value s [inc] = (s, False, False, [])"
    using assms(1) by (simp add: merge_value_def spf_additions_def)
  with assms(2) show ?thesis by (simp add: merge_spf_sels TrimSpace_id)
qed

theorem MergeSPF_prefix_include_overlooked_witness:
  "include_term ''mail.example.com'' \<notin> set (Fields ''v=spf1 include:mail.example.com.au ~all'')
   \<and> \<not> mrChanged (MergeSPF ''v=spf1 include:mail.example.com.au ~all'' [''mail.example.com''] None)"
proof -
  let ?s = "''v=spf1 include:mail.example.com.au ~all''"
  have 1: "HasPrefix (ToLower ?s) ''v=spf1''" and 2: "trimmed ?s"
    and 3: "include_term ''mail.example.com.au'' \<in> set (Fields ?s)"
    and 4: "HasPrefix ''mail.example.com.au'' ''mail.example.com''"
    and n: "include_term ''mail.example.com'' \<notin> set (Fields ?s)"
    by code_simp+
  from MergeSPF_prefix_include_overlooked [OF 1 2 3 4, of None] n show ?thesis by blast
qed


definition demo_resolver :: spf_resolver where
  "demo_resolver d = (if d = ''a.com'' then Inr [''x'', ''v=spf1 mx include:a.com ~all''] else Inl ''no such host'')"


end
