(* ===== verification/Push.thy ===== *)
theory Push
  imports Verify_Dns Spf
begin

text \<open>
  The push service (\<open>push.go\<close>, \<open>apply.go\<close>) over an abstract provider. A provider is its state and
  three operations; the service is a client of the locale \<open>record_provider\<close>, whose laws say what
  reading returns after writing. \<open>Fake_Provider\<close> interprets it.
\<close>

record 's provider =
  pvGet :: "'s \<Rightarrow> string \<Rightarrow> string \<Rightarrow> string + Record list"
  pvSet :: "'s \<Rightarrow> string \<Rightarrow> Record \<Rightarrow> string option \<times> 's"
  pvDelete :: "'s \<Rightarrow> string \<Rightarrow> string \<Rightarrow> string option \<times> 's"

datatype PushStatus = StatusCreated | StatusUpdated | StatusAlreadyConfigured | StatusFailed

record PushResult =
  psStatus :: PushStatus
  psRecordName :: string
  psRecordValue :: string
  psPreviousValue :: string
  psVerified :: bool
  psVerifyError :: "string option"

type_synonym verifier = "string \<Rightarrow> VerifyOpts \<Rightarrow> string option \<times> VerifyResult"

definition normalizeHost :: "string \<Rightarrow> string" where
  "normalizeHost s = TrimSuffix (ToLower (TrimSpace s)) ''.''"

definition push_result :: "PushStatus \<Rightarrow> string \<Rightarrow> string \<Rightarrow> string \<Rightarrow> PushResult" where
  "push_result st name val prev = \<lparr>psStatus = st, psRecordName = name, psRecordValue = val,
     psPreviousValue = prev, psVerified = False, psVerifyError = None\<rparr>"

definition runVerify :: "verifier \<Rightarrow> string \<Rightarrow> VerifyOpts \<Rightarrow> PushResult \<Rightarrow> PushResult" where
  "runVerify ver domain opts result =
     (case ver domain opts of
        (Some e, _) \<Rightarrow> result\<lparr>psVerifyError := Some e\<rparr>
      | (None, vr) \<Rightarrow>
          if vrVerified vr then result\<lparr>psVerified := True\<rparr>
          else result\<lparr>psVerified := False,
                 psVerifyError := Some ''post-push verification did not observe record''\<rparr>)"

lemma runVerify_sel [simp]:
  "psStatus (runVerify ver d opts r) = psStatus r"
  "psRecordName (runVerify ver d opts r) = psRecordName r"
  "psRecordValue (runVerify ver d opts r) = psRecordValue r"
  "psPreviousValue (runVerify ver d opts r) = psPreviousValue r"
  by (auto simp: runVerify_def split: prod.split option.split)

definition verify_opts :: "string \<Rightarrow> string \<Rightarrow> string \<Rightarrow> VerifyOpts" where
  "verify_opts typ name contains = \<lparr>voRecordType = typ, voName = name, voContains = contains\<rparr>"

text \<open>The tail of every push: set, status by whether a record was there, verify.\<close>

definition push_set ::
  "'s provider \<Rightarrow> verifier \<Rightarrow> string \<Rightarrow> Record \<Rightarrow> VerifyOpts \<Rightarrow> bool \<Rightarrow> PushResult \<Rightarrow> 's
     \<Rightarrow> (string option \<times> PushResult) \<times> 's" where
  "push_set P ver domain rec vo existed result s =
     (case pvSet P s domain rec of
        (Some e, s') \<Rightarrow> ((Some ''set record'', result\<lparr>psStatus := StatusFailed\<rparr>), s')
      | (None, s') \<Rightarrow>
          ((None, runVerify ver domain vo
              (result\<lparr>psStatus := (if existed then StatusUpdated else StatusCreated)\<rparr>)), s'))"

definition generic_types :: "string list" where
  "generic_types = [''A'', ''AAAA'', ''MX'', ''NS'', ''SRV'']"

definition PushGenericRecord ::
  "'s provider \<Rightarrow> verifier \<Rightarrow> string \<Rightarrow> Record \<Rightarrow> 's \<Rightarrow> (string option \<times> PushResult) \<times> 's" where
  "PushGenericRecord P ver domain record s =
     (let failed = push_result StatusFailed (recName record) (recContent record) [] in
      if recType record \<notin> set generic_types then
        ((Some (if recType record = ''TXT'' \<or> recType record = ''CNAME''
                then ''use PushTXTRecord/PushCNAMERecord'' else ''unsupported record type''), failed), s)
      else case pvGet P s domain (recType record) of
        Inl e \<Rightarrow> ((Some ''get records'', failed), s)
      | Inr records \<Rightarrow>
          (let existing = findRecord records (recName record);
               prev = (case existing of Some r \<Rightarrow> recContent r | None \<Rightarrow> []) in
           if (case existing of
                 Some r \<Rightarrow> recContent r = recContent record
                   \<and> (recType record \<noteq> ''MX'' \<or> recPriority r = recPriority record)
               | None \<Rightarrow> False)
           then ((None, push_result StatusAlreadyConfigured (recName record) (recContent record) []), s)
           else
             (let rec = (if recTTL record = 0 then record\<lparr>recTTL := 300\<rparr> else record) in
              push_set P ver domain rec (verify_opts (recType rec) (recName rec) (take 32 (recContent rec)))
                (existing \<noteq> None) (push_result StatusFailed (recName record) (recContent record) prev) s)))"

definition PushTXTRecord ::
  "'s provider \<Rightarrow> verifier \<Rightarrow> string \<Rightarrow> string \<Rightarrow> string \<Rightarrow> 's \<Rightarrow> (string option \<times> PushResult) \<times> 's" where
  "PushTXTRecord P ver domain name content s =
     (case pvGet P s domain ''TXT'' of
        Inl e \<Rightarrow> ((Some ''get records'', push_result StatusFailed name content []), s)
      | Inr records \<Rightarrow>
          (let existing = findRecord records name;
               prev = (case existing of Some r \<Rightarrow> recContent r | None \<Rightarrow> []) in
           if (case existing of Some r \<Rightarrow> recContent r = content | None \<Rightarrow> False)
           then ((None, push_result StatusAlreadyConfigured name content []), s)
           else push_set P ver domain (mk_record ''TXT'' name content 300)
             (verify_opts ''TXT'' name (take 32 content)) (existing \<noteq> None)
             (push_result StatusFailed name content prev) s))"

definition is_spf_record :: "string \<Rightarrow> Record \<Rightarrow> bool" where
  "is_spf_record domain r \<longleftrightarrow> recName r = domain \<and> HasPrefix (ToLower (recContent r)) ''v=spf1''"

definition PushSPFRecord ::
  "'s provider \<Rightarrow> verifier \<Rightarrow> string \<Rightarrow> string list \<Rightarrow> 's \<Rightarrow> (string option \<times> PushResult) \<times> 's" where
  "PushSPFRecord P ver domain includes s =
     (case pvGet P s domain ''TXT'' of
        Inl e \<Rightarrow> ((Some ''get records'', push_result StatusFailed domain [] []), s)
      | Inr records \<Rightarrow>
          (let currentSPF = (case find (is_spf_record domain) records of Some r \<Rightarrow> recContent r | None \<Rightarrow> []);
               merge = MergeSPF currentSPF includes None in
           if \<not> mrChanged merge
           then ((None, push_result StatusAlreadyConfigured domain (mrValue merge) currentSPF), s)
           else push_set P ver domain (mk_record ''TXT'' domain (mrValue merge) 300)
             (verify_opts ''TXT'' domain ''v=spf1'') (currentSPF \<noteq> [])
             (push_result StatusFailed domain (mrValue merge) currentSPF) s))"

definition PushCNAMERecord ::
  "'s provider \<Rightarrow> verifier \<Rightarrow> string \<Rightarrow> string \<Rightarrow> string \<Rightarrow> 's \<Rightarrow> (string option \<times> PushResult) \<times> 's" where
  "PushCNAMERecord P ver domain name target s =
     (case pvGet P s domain ''CNAME'' of
        Inl e \<Rightarrow> ((Some ''get records'', push_result StatusFailed name target []), s)
      | Inr records \<Rightarrow>
          (let existing = findRecord records name;
               prev = (case existing of Some r \<Rightarrow> recContent r | None \<Rightarrow> []) in
           if (case existing of Some r \<Rightarrow> normalizeHost (recContent r) = normalizeHost target | None \<Rightarrow> False)
           then ((None, push_result StatusAlreadyConfigured name target []), s)
           else push_set P ver domain (mk_record ''CNAME'' name target 300)
             (verify_opts ''CNAME'' name (normalizeHost target)) (existing \<noteq> None)
             (push_result StatusFailed name target prev) s))"

text \<open>\<open>DefaultApplyRecords\<close>: one \<open>SetRecord\<close> after the other, stopping at the first error.\<close>

fun DefaultApplyRecords :: "'s provider \<Rightarrow> string \<Rightarrow> Record list \<Rightarrow> 's \<Rightarrow> string option \<times> 's" where
  "DefaultApplyRecords P domain [] s = (None, s)"
| "DefaultApplyRecords P domain (r # rs) s =
     (case pvSet P s domain r of
        (Some e, s') \<Rightarrow> (Some ''apply record'', s')
      | (None, s') \<Rightarrow> DefaultApplyRecords P domain rs s')"

subsection \<open>The contract of a provider\<close>

locale record_provider =
  fixes P :: "'s provider"
    and inv :: "'s \<Rightarrow> bool"
    and adm :: "string \<Rightarrow> Record \<Rightarrow> bool"
  assumes set_inv: "inv s \<Longrightarrow> adm d r \<Longrightarrow> pvSet P s d r = (None, s') \<Longrightarrow> inv s'"
    and get_set: "inv s \<Longrightarrow> adm d r \<Longrightarrow> pvSet P s d r = (None, s') \<Longrightarrow>
      \<exists>rs r'. pvGet P s' d (recType r) = Inr rs \<and> findRecord rs (recName r) = Some r'
        \<and> recContent r' = recContent r \<and> (recType r = ''MX'' \<longrightarrow> recPriority r' = recPriority r)"
    and get_set_other: "inv s \<Longrightarrow> adm d r \<Longrightarrow> pvSet P s d r = (None, s') \<Longrightarrow> pvGet P s d t = Inr rs \<Longrightarrow>
      (t, n) \<noteq> (recType r, recName r) \<Longrightarrow>
      \<exists>rs'. pvGet P s' d t = Inr rs' \<and> findRecord rs' n = findRecord rs n"
begin

lemma push_set_success:
  "push_set P ver d rec vo ex res s = ((None, r), s') \<Longrightarrow>
     pvSet P s d rec = (None, s') \<and> psStatus r = (if ex then StatusUpdated else StatusCreated)"
  by (auto simp: push_set_def split: prod.splits option.splits)

lemma PushTXT_success:
  assumes "PushTXTRecord P ver d name content s = ((None, r), s')" "inv s"
    "adm d (mk_record ''TXT'' name content 300)"
  shows "inv s' \<and> (\<exists>rs q. pvGet P s' d ''TXT'' = Inr rs \<and> findRecord rs name = Some q \<and> recContent q = content)"
proof -
  from assms(1) obtain rs where rs: "pvGet P s d ''TXT'' = Inr rs"
    by (auto simp: PushTXTRecord_def split: sum.splits)
  show ?thesis
  proof (cases "\<exists>q. findRecord rs name = Some q \<and> recContent q = content")
    case True
    with assms rs show ?thesis by (auto simp: PushTXTRecord_def Let_def)
  next
    case False
    then have c: "(case findRecord rs name of Some q \<Rightarrow> recContent q = content | None \<Rightarrow> False) = False"
      by (auto split: option.splits)
    from assms(1) have "pvSet P s d (mk_record ''TXT'' name content 300) = (None, s')"
      unfolding PushTXTRecord_def rs sum.case Let_def c if_False by (rule push_set_success [THEN conjunct1])
    from set_inv [OF assms(2,3) this] get_set [OF assms(2,3) this] show ?thesis by auto
  qed
qed

lemma PushTXT_again:
  assumes "PushTXTRecord P ver d name content s = ((None, r), s')" "inv s"
    "adm d (mk_record ''TXT'' name content 300)"
  shows "PushTXTRecord P ver' d name content s' = ((None, push_result StatusAlreadyConfigured name content []), s')"
  using PushTXT_success [OF assms] by (auto simp: PushTXTRecord_def)

lemma PushTXT_other:
  assumes "PushTXTRecord P ver d name content s = ((None, r), s')" "inv s"
    "adm d (mk_record ''TXT'' name content 300)" "pvGet P s d t = Inr rs" "(t, n) \<noteq> (''TXT'', name)"
  shows "\<exists>rs'. pvGet P s' d t = Inr rs' \<and> findRecord rs' n = findRecord rs n"
proof -
  from assms(1) have "s' = s \<or> pvSet P s d (mk_record ''TXT'' name content 300) = (None, s')"
    by (auto simp: PushTXTRecord_def Let_def dest: push_set_success split: sum.splits if_splits)
  then show ?thesis
  proof
    assume "pvSet P s d (mk_record ''TXT'' name content 300) = (None, s')"
    from get_set_other [OF assms(2,3) this assms(4)] assms(5) show ?thesis by simp
  qed (use assms(4) in auto)
qed

lemma PushCNAME_again:
  assumes "PushCNAMERecord P ver d name target s = ((None, r), s')" "inv s"
    "adm d (mk_record ''CNAME'' name target 300)"
  shows "PushCNAMERecord P ver' d name target s' = ((None, push_result StatusAlreadyConfigured name target []), s')"
proof -
  from assms(1) obtain rs where rs: "pvGet P s d ''CNAME'' = Inr rs"
    by (auto simp: PushCNAMERecord_def split: sum.splits)
  show ?thesis
  proof (cases "\<exists>q. findRecord rs name = Some q \<and> normalizeHost (recContent q) = normalizeHost target")
    case True
    with assms(1) rs show ?thesis by (auto simp: PushCNAMERecord_def)
  next
    case False
    then have c: "(case findRecord rs name of Some q \<Rightarrow> normalizeHost (recContent q) = normalizeHost target
        | None \<Rightarrow> False) = False" by (auto split: option.splits)
    from assms(1) have "pvSet P s d (mk_record ''CNAME'' name target 300) = (None, s')"
      unfolding PushCNAMERecord_def rs sum.case Let_def c if_False by (rule push_set_success [THEN conjunct1])
    from get_set [OF assms(2,3) this] show ?thesis by (auto simp: PushCNAMERecord_def)
  qed
qed

lemma PushGeneric_again:
  assumes "PushGenericRecord P ver d rec s = ((None, r), s')" "inv s"
    "adm d (if recTTL rec = 0 then rec\<lparr>recTTL := 300\<rparr> else rec)"
  shows "PushGenericRecord P ver' d rec s' =
    ((None, push_result StatusAlreadyConfigured (recName rec) (recContent rec) []), s')"
proof -
  let ?rec = "if recTTL rec = 0 then rec\<lparr>recTTL := 300\<rparr> else rec"
  have f: "recType ?rec = recType rec" "recName ?rec = recName rec" "recContent ?rec = recContent rec"
    "recPriority ?rec = recPriority rec" by simp_all
  have gt: "recType rec \<in> set generic_types"
  proof (rule ccontr)
    assume "recType rec \<notin> set generic_types"
    with assms(1) show False by (simp add: PushGenericRecord_def Let_def)
  qed
  from assms(1) gt obtain rs where rs: "pvGet P s d (recType rec) = Inr rs"
    by (auto simp: PushGenericRecord_def Let_def split: sum.splits)
  let ?ok = "\<lambda>q. recContent q = recContent rec \<and> (recType rec \<noteq> ''MX'' \<or> recPriority q = recPriority rec)"
  show ?thesis
  proof (cases "\<exists>q. findRecord rs (recName rec) = Some q \<and> ?ok q")
    case True
    with assms(1) rs gt show ?thesis by (auto simp: PushGenericRecord_def Let_def)
  next
    case False
    then have c: "(case findRecord rs (recName rec) of Some q \<Rightarrow> ?ok q | None \<Rightarrow> False) = False"
      by (auto split: option.splits)
    have g: "(recType rec \<notin> set generic_types) = False" using gt by simp
    from assms(1) have "pvSet P s d ?rec = (None, s')"
      unfolding PushGenericRecord_def rs sum.case Let_def c g if_False by (rule push_set_success [THEN conjunct1])
    from get_set [OF assms(2,3) this] gt show ?thesis
      unfolding f by (auto simp: PushGenericRecord_def Let_def)
  qed
qed

lemma PushSPF_again:
  assumes "PushSPFRecord P ver d includes s = ((None, r), s')" "inv s"
    "\<And>v. adm d (mk_record ''TXT'' d v 300)" "\<forall>inc \<in> set includes. plain inc"
  shows "\<exists>v prev. PushSPFRecord P ver' d includes s' = ((None, push_result StatusAlreadyConfigured d v prev), s')"
proof -
  from assms(1) obtain rs where rs: "pvGet P s d ''TXT'' = Inr rs"
    by (auto simp: PushSPFRecord_def split: sum.splits)
  define cur where "cur = (case find (is_spf_record d) rs of Some r \<Rightarrow> recContent r | None \<Rightarrow> [])"
  define v where "v = mrValue (MergeSPF cur includes None)"
  show ?thesis
  proof (cases "mrChanged (MergeSPF cur includes None)")
    case False
    with assms(1) rs show ?thesis by (auto simp: PushSPFRecord_def Let_def cur_def)
  next
    case True
    then have set: "pvSet P s d (mk_record ''TXT'' d v 300) = (None, s')"
      using assms(1) push_set_success
      by (fastforce simp: PushSPFRecord_def Let_def rs v_def simp flip: cur_def)
    from get_set [OF assms(2,3) set] obtain rs' q where
      q: "pvGet P s' d ''TXT'' = Inr rs'" "findRecord rs' d = Some q" "recContent q = v" by auto
    have spf: "HasPrefix (ToLower v) ''v=spf1''" unfolding v_def by (rule MergeSPF_is_spf)
    have "find (is_spf_record d) rs' = Some q"
      using q(2,3) spf findRecord_Some [OF q(2)]
      by (induction rs') (auto simp: is_spf_record_def split: if_splits)
    with q MergeSPF_again [OF assms(4), of cur None None] show ?thesis
      by (auto simp: PushSPFRecord_def Let_def v_def)
  qed
qed

lemma PushTXT_status:
  assumes "PushTXTRecord P ver d name content s = ((None, r), s')" "pvGet P s d ''TXT'' = Inr rs"
  shows "psStatus r = (case findRecord rs name of
      None \<Rightarrow> StatusCreated
    | Some q \<Rightarrow> if recContent q = content then StatusAlreadyConfigured else StatusUpdated)"
  using assms
  by (auto simp: PushTXTRecord_def Let_def push_result_def dest: push_set_success split: option.splits if_splits)

lemma apply_inv:
  "DefaultApplyRecords P d rs s = (None, s') \<Longrightarrow> inv s \<Longrightarrow> \<forall>r \<in> set rs. adm d r \<Longrightarrow> inv s'"
proof (induction rs arbitrary: s)
  case (Cons r rs)
  then show ?case using set_inv [of s d r] by (auto split: prod.splits option.splits)
qed simp

text \<open>After a batch with pairwise different names per type, every record of it is in place.\<close>

lemma apply_get_kept:
  assumes "DefaultApplyRecords P d rs s = (None, s')" "inv s" "\<forall>r \<in> set rs. adm d r"
    "pvGet P s d t = Inr xs" "(t, n) \<notin> (\<lambda>r. (recType r, recName r)) ` set rs"
  shows "\<exists>xs'. pvGet P s' d t = Inr xs' \<and> findRecord xs' n = findRecord xs n"
  using assms
proof (induction rs arbitrary: s xs)
  case (Cons r rs)
  from Cons.prems(1) obtain s1 where s1: "pvSet P s d r = (None, s1)" "DefaultApplyRecords P d rs s1 = (None, s')"
    by (auto split: prod.splits option.splits)
  have a: "adm d r" and n: "(t, n) \<noteq> (recType r, recName r)" using Cons.prems(3,5) by auto
  from get_set_other [OF Cons.prems(2) a s1(1) Cons.prems(4) n] obtain ys where
    ys: "pvGet P s1 d t = Inr ys" "findRecord ys n = findRecord xs n" by auto
  have "inv s1" by (rule set_inv [OF Cons.prems(2) a s1(1)])
  with Cons.IH [OF s1(2) _ _ ys(1)] Cons.prems(3,5) ys(2) show ?case by auto
qed simp

lemma apply_in_place:
  assumes "DefaultApplyRecords P d rs s = (None, s')" "inv s" "\<forall>r \<in> set rs. adm d r"
    "distinct (map (\<lambda>r. (recType r, recName r)) rs)" "r \<in> set rs"
  shows "\<exists>xs q. pvGet P s' d (recType r) = Inr xs \<and> findRecord xs (recName r) = Some q \<and> recContent q = recContent r"
  using assms
proof (induction rs arbitrary: s)
  case (Cons r0 rs)
  from Cons.prems(1) obtain s1 where s1: "pvSet P s d r0 = (None, s1)" "DefaultApplyRecords P d rs s1 = (None, s')"
    by (auto split: prod.splits option.splits)
  have a: "adm d r0" using Cons.prems(3) by simp
  have i1: "inv s1" by (rule set_inv [OF Cons.prems(2) a s1(1)])
  show ?case
  proof (cases "r = r0")
    case True
    from get_set [OF Cons.prems(2) a s1(1)] obtain xs q where
      x: "pvGet P s1 d (recType r0) = Inr xs" "findRecord xs (recName r0) = Some q" "recContent q = recContent r0" by auto
    have "(recType r0, recName r0) \<notin> (\<lambda>r. (recType r, recName r)) ` set rs" using Cons.prems(4) by simp
    from apply_get_kept [OF s1(2) i1 _ x(1) this] Cons.prems(3) x True show ?thesis by auto
  next
    case False
    with Cons.IH [OF s1(2) i1] Cons.prems show ?thesis by auto
  qed
qed simp

end

end
