(* ===== verification/Fake_Provider.thy ===== *)
theory Fake_Provider
  imports Push
begin

text \<open>
  The in-memory provider (\<open>internal/fakeprovider\<close>) that the program's test suites and its
  \<open>fake\<close> slug use, and the registry of provider factories (\<open>registry.go\<close>). The provider meets
  the contract of \<open>record_provider\<close> on every record, so the push service is idempotent on it.
\<close>

type_synonym fake_state = "string \<Rightarrow> Record list"

fun upsert_record :: "Record list \<Rightarrow> Record \<Rightarrow> Record list" where
  "upsert_record [] r = [r]"
| "upsert_record (x # xs) r = (if recName x = recName r then r # xs else x # upsert_record xs r)"

definition fake_New :: fake_state where
  "fake_New = (\<lambda>_. [])"

definition fake_Verify :: "fake_state \<Rightarrow> Zone list" where
  "fake_Verify s = [\<lparr>zoneID = ''fake-zone'', zoneName = ''example.com'', zoneStatus = ''active''\<rparr>]"

definition fake_GetRecords :: "fake_state \<Rightarrow> string \<Rightarrow> string \<Rightarrow> string + Record list" where
  "fake_GetRecords s domain recordType = Inr (s recordType)"

definition fake_SetRecord :: "fake_state \<Rightarrow> string \<Rightarrow> Record \<Rightarrow> string option \<times> fake_state" where
  "fake_SetRecord s domain r = (None, s(recType r := upsert_record (s (recType r)) r))"

definition fake_DeleteRecord :: "fake_state \<Rightarrow> string \<Rightarrow> string \<Rightarrow> string option \<times> fake_state" where
  "fake_DeleteRecord s domain recordID = (None, s)"

definition fake_ApplyRecords :: "fake_state \<Rightarrow> string \<Rightarrow> Record list \<Rightarrow> string option \<times> fake_state" where
  "fake_ApplyRecords s domain rs = (None, fold (\<lambda>r st. snd (fake_SetRecord st domain r)) rs s)"

definition fake_ops :: "fake_state provider" where
  "fake_ops = \<lparr>pvGet = fake_GetRecords, pvSet = fake_SetRecord, pvDelete = fake_DeleteRecord\<rparr>"

lemma upsert_same [simp]: "findRecord (upsert_record xs r) (recName r) = Some r"
  by (induction xs) auto

lemma upsert_other: "n \<noteq> recName r \<Longrightarrow> findRecord (upsert_record xs r) n = findRecord xs n"
  by (induction xs) auto

lemma upsert_names: "recName ` set (upsert_record xs r) = insert (recName r) (recName ` set xs)"
  by (induction xs) auto

interpretation fake: record_provider fake_ops "\<lambda>_. True" "\<lambda>_ _. True"
  by unfold_locales
     (auto simp: fake_ops_def fake_SetRecord_def fake_GetRecords_def upsert_other split: if_splits)

lemma fake_apply_default: "fake_ApplyRecords s d rs = DefaultApplyRecords fake_ops d rs s"
  by (induction rs arbitrary: s) (auto simp: fake_ApplyRecords_def fake_ops_def fake_SetRecord_def)

subsection \<open>The registry\<close>

type_synonym 'p factory = "Credentials \<Rightarrow> string + 'p"

definition RegisterProvider :: "string \<Rightarrow> 'p factory \<Rightarrow> (string \<rightharpoonup> 'p factory) \<Rightarrow> (string \<rightharpoonup> 'p factory)" where
  "RegisterProvider slug factory registry = registry(slug \<mapsto> factory)"

definition NewProvider :: "(string \<rightharpoonup> 'p factory) \<Rightarrow> string \<Rightarrow> Credentials \<Rightarrow> string + 'p" where
  "NewProvider registry slug creds =
     (case registry slug of None \<Rightarrow> Inl ''unknown provider'' | Some f \<Rightarrow> f creds)"

definition RegisteredProviders :: "(string \<rightharpoonup> 'p factory) \<Rightarrow> string set" where
  "RegisteredProviders registry = dom registry"

lemma NewProvider_registered:
  "NewProvider (RegisterProvider slug f reg) s c = (if s = slug then f c else NewProvider reg s c)"
  by (simp add: NewProvider_def RegisterProvider_def)

subsection \<open>Properties\<close>

text \<open>Pushing is idempotent on the provider: after a push of a TXT, CNAME or generic record
  has succeeded, the same push reports the record as already configured, whatever the later
  verification says, and leaves the provider as it is.\<close>

theorem fake_push_idempotent:
  "(PushTXTRecord fake_ops ver d name content s = ((None, r), s1) \<longrightarrow>
      PushTXTRecord fake_ops ver' d name content s1
        = ((None, push_result StatusAlreadyConfigured name content []), s1))
   \<and> (PushCNAMERecord fake_ops ver d name content s = ((None, r), s1) \<longrightarrow>
      PushCNAMERecord fake_ops ver' d name content s1
        = ((None, push_result StatusAlreadyConfigured name content []), s1))
   \<and> (PushGenericRecord fake_ops ver d rec s = ((None, r), s1) \<longrightarrow>
      PushGenericRecord fake_ops ver' d rec s1
        = ((None, push_result StatusAlreadyConfigured (recName rec) (recContent rec) []), s1))"
  by (intro conjI impI) (erule fake.PushTXT_again fake.PushCNAME_again fake.PushGeneric_again; rule TrueI)+

definition unverified :: verifier where
  "unverified d opts = (None, \<lparr>vrVerified = False, vrCurrentValue = [], vrMethod = ''stubbed'', vrNameserversQueried = []\<rparr>)"

lemma fake_push_idempotent_witness:
  "PushTXTRecord fake_ops unverified ''example.com'' ''_dmarc.example.com'' ''v=DMARC1; p=none''
      (snd (PushTXTRecord fake_ops unverified ''example.com'' ''_dmarc.example.com'' ''v=DMARC1; p=none'' fake_New))
    = ((None, push_result StatusAlreadyConfigured ''_dmarc.example.com'' ''v=DMARC1; p=none'' []),
       snd (PushTXTRecord fake_ops unverified ''example.com'' ''_dmarc.example.com'' ''v=DMARC1; p=none'' fake_New))"
proof -
  obtain e r s1 where p: "PushTXTRecord fake_ops unverified ''example.com'' ''_dmarc.example.com''
      ''v=DMARC1; p=none'' fake_New = ((e, r), s1)"
    by (metis prod.collapse)
  have "fst (fst (PushTXTRecord fake_ops unverified ''example.com'' ''_dmarc.example.com''
      ''v=DMARC1; p=none'' fake_New)) = None"
    by (simp add: PushTXTRecord_def fake_ops_def fake_GetRecords_def fake_New_def push_set_def fake_SetRecord_def Let_def)
  with p have "e = None" by simp
  with p fake_push_idempotent [of unverified "''example.com''" "''_dmarc.example.com''" "''v=DMARC1; p=none''"
      fake_New r s1 unverified empty_record] show ?thesis by simp
qed

text \<open>The SPF push is idempotent: once it has succeeded for includes without white space,
  pushing the same includes again changes nothing.\<close>

theorem fake_push_spf_idempotent:
  assumes "PushSPFRecord fake_ops ver d includes s = ((None, r), s')" and "\<forall>inc \<in> set includes. plain inc"
  shows "\<exists>v prev. PushSPFRecord fake_ops ver' d includes s'
    = ((None, push_result StatusAlreadyConfigured d v prev), s')"
  by (rule fake.PushSPF_again [OF assms(1) TrueI TrueI assms(2)])

lemma fake_push_spf_idempotent_witness:
  "\<exists>v prev. PushSPFRecord fake_ops unverified ''example.com'' [''_spf.google.com'']
      (snd (PushSPFRecord fake_ops unverified ''example.com'' [''_spf.google.com''] fake_New))
    = ((None, push_result StatusAlreadyConfigured ''example.com'' v prev),
       snd (PushSPFRecord fake_ops unverified ''example.com'' [''_spf.google.com''] fake_New))"
proof -
  obtain e r s1 where p: "PushSPFRecord fake_ops unverified ''example.com'' [''_spf.google.com''] fake_New = ((e, r), s1)"
    by (metis prod.collapse)
  have "fst (fst (PushSPFRecord fake_ops unverified ''example.com'' [''_spf.google.com''] fake_New)) = None"
    by (simp add: PushSPFRecord_def fake_ops_def fake_GetRecords_def fake_New_def push_set_def fake_SetRecord_def Let_def)
  with p have "e = None" by simp
  with p fake_push_spf_idempotent [of unverified "''example.com''" "[''_spf.google.com'']" fake_New r s1 unverified]
  show ?thesis by (simp add: plain_def is_space_def byte_def)
qed

text \<open>After a batch whose records differ in type or name has been applied, each of its records
  is the one the provider returns for its name, and records of other names are as before.\<close>

theorem fake_apply_in_place:
  assumes "distinct (map (\<lambda>r. (recType r, recName r)) rs)" and "r \<in> set rs"
    and "(t, n) \<notin> (\<lambda>r. (recType r, recName r)) ` set rs"
  shows "(\<exists>q. findRecord (snd (fake_ApplyRecords s d rs) (recType r)) (recName r) = Some q \<and> recContent q = recContent r)
    \<and> findRecord (snd (fake_ApplyRecords s d rs) t) n = findRecord (s t) n"
proof -
  obtain s' where s': "DefaultApplyRecords fake_ops d rs s = (None, s')"
    using fake_apply_default [of s d rs] by (metis fake_ApplyRecords_def)
  then have e: "snd (fake_ApplyRecords s d rs) = s'" by (simp add: fake_apply_default)
  have g: "pvGet fake_ops x d u = Inr (x u)" for x u by (simp add: fake_ops_def fake_GetRecords_def)
  from fake.apply_in_place [OF s' TrueI _ assms(1,2)] fake.apply_get_kept [OF s' TrueI _ g assms(3)]
  show ?thesis by (auto simp: e g)
qed

lemma fake_apply_in_place_witness:
  "(\<exists>q. findRecord (snd (fake_ApplyRecords fake_New ''d'' [mk_record ''A'' ''x'' ''192.0.2.1'' 60, mk_record ''TXT'' ''x'' ''t'' 60])
        ''TXT'') ''x'' = Some q \<and> recContent q = ''t'')
    \<and> findRecord (snd (fake_ApplyRecords fake_New ''d'' [mk_record ''A'' ''x'' ''192.0.2.1'' 60, mk_record ''TXT'' ''x'' ''t'' 60])
        ''A'') ''y'' = findRecord (fake_New ''A'') ''y''"
  using fake_apply_in_place [of "[mk_record ''A'' ''x'' ''192.0.2.1'' 60, mk_record ''TXT'' ''x'' ''t'' 60]"
    "mk_record ''TXT'' ''x'' ''t'' 60" "''A''" "''y''" fake_New "''d''"] by simp

end
