(* ===== verification/Template_Apply.thy ===== *)
theory Template_Apply
  imports Template_Validate Fake_Provider
begin

text \<open>
  Resolving a template (\<open>template/resolve.go\<close>) and applying it through the push service
  (\<open>template/apply.go\<close>): one result per resolved record, errors collected, conflicts of TXT records
  removed before the push. The code's joined error is the list of its parts.
\<close>

subsection \<open>resolve.go\<close>

definition supportedTypes :: "string list" where
  "supportedTypes = [''TXT'', ''CNAME'', ''A'', ''AAAA'', ''MX'', ''NS'', ''SRV'', ''SPFM'']"

record ResolvedRecord =
  rrRecord :: Record
  rrMode :: string
  rrPrefix :: string

definition resolveOne :: "nat \<Rightarrow> TemplateRecord \<Rightarrow> string \<Rightarrow> vars \<Rightarrow> tmpl_error + Record" where
  "resolveOne i r typ vs =
     bindE (substitute (trHost r) vs i ''host'') (\<lambda>host.
     bindE (substitute (if trPointsTo r = [] then trTarget r else trPointsTo r) vs i ''pointsTo'') (\<lambda>pointsToSub.
     bindE (substitute (trData r) vs i ''data'') (\<lambda>dataSub.
     failE (validateHost host) (PlainError i ''host'')
     (failE (if typ = ''TXT'' then validateTXTData dataSub else None) (PlainError i ''data'')
     (failE (if typ \<in> {''CNAME'', ''A'', ''AAAA'', ''MX'', ''NS'', ''SRV''} then validatePointsTo typ pointsToSub else None)
        (PlainError i ''pointsTo'')
     (bindE (flexInt_resolve (trTTL r) vs i ''ttl'') (\<lambda>ttl.
      if typ = ''TXT'' then Inr (mk_record typ host dataSub ttl)
      else if typ = ''SPFM'' then Inr (mk_record typ host (if dataSub = [] then pointsToSub else dataSub) ttl)
      else if typ = ''MX'' then
        bindE (flexInt_resolve (trPriority r) vs i ''priority'') (\<lambda>prio.
        Inr ((mk_record typ host pointsToSub ttl)\<lparr>recPriority := prio\<rparr>))
      else if typ = ''SRV'' then
        bindE (flexInt_resolve (trPriority r) vs i ''priority'') (\<lambda>prio.
        bindE (flexInt_resolve (trWeight r) vs i ''weight'') (\<lambda>w.
        bindE (flexInt_resolve (trPort r) vs i ''port'') (\<lambda>p.
        Inr ((mk_record typ host pointsToSub ttl)\<lparr>recPriority := prio, recWeight := w, recPort := p,
               recService := trService r, recProtocol := trProtocol r\<rparr>))))
      else Inr (mk_record typ host pointsToSub ttl))))))))"

fun resolve_detailed_from :: "nat \<Rightarrow> TemplateRecord list \<Rightarrow> vars \<Rightarrow> tmpl_error + ResolvedRecord list" where
  "resolve_detailed_from i [] vs = Inr []"
| "resolve_detailed_from i (r # rs) vs =
     (let typ = ToUpper (TrimSpace (trType r)) in
      if typ \<notin> set supportedTypes then resolve_detailed_from (Suc i) rs vs
      else bindE (resolveOne i r typ vs) (\<lambda>rec.
           bindE (substitute (trTxtConflictMatchingPrefix r) vs i ''txtConflictMatchingPrefix'') (\<lambda>prefix.
           bindE (resolve_detailed_from (Suc i) rs vs) (\<lambda>out.
           Inr (\<lparr>rrRecord = rec, rrMode = trTxtConflictMatchingMode r, rrPrefix = prefix\<rparr> # out)))))"

definition ResolveDetailed :: "Template \<Rightarrow> vars \<Rightarrow> tmpl_error + ResolvedRecord list" where
  "ResolveDetailed t vs = resolve_detailed_from 0 (tplRecords t) vs"

definition Resolve :: "Template \<Rightarrow> vars \<Rightarrow> tmpl_error + Record list" where
  "Resolve t vs = bindE (ResolveDetailed t vs) (\<lambda>d. Inr (map rrRecord d))"

subsection \<open>apply.go\<close>

definition isApexName :: "string \<Rightarrow> string \<Rightarrow> bool" where
  "isApexName name domain \<longleftrightarrow> (name = [] \<or> name = ''@'') \<or> name = domain"

definition extractInclude :: "string \<Rightarrow> string" where
  "extractInclude spfData =
     (let s = TrimSpace spfData in
      if s = [] then []
      else case Index s ''include:'' of
          Some idx \<Rightarrow> takeWhile (\<lambda>c. c \<noteq> CHR '' '' \<and> c \<noteq> CHR 0x09) (drop (idx + 8) s)
        | None \<Rightarrow> s)"

definition conflict_match :: "ResolvedRecord \<Rightarrow> Record \<Rightarrow> bool" where
  "conflict_match rr e \<longleftrightarrow> recName e = recName (rrRecord rr) \<and>
     (if rrMode rr = ''Prefix'' then rrPrefix rr \<noteq> [] \<and> HasPrefix (recContent e) (rrPrefix rr)
      else if rrMode rr = ''Exact'' then recContent e = recContent (rrRecord rr)
      else rrMode rr = ''All'')"

fun delete_matches :: "'s provider \<Rightarrow> string \<Rightarrow> (Record \<Rightarrow> bool) \<Rightarrow> Record list \<Rightarrow> 's \<Rightarrow> string option \<times> 's" where
  "delete_matches P domain m [] s = (None, s)"
| "delete_matches P domain m (e # es) s =
     (if \<not> m e then delete_matches P domain m es s
      else case pvDelete P s domain (recID e) of
          (Some err, s') \<Rightarrow> (Some ''delete'', s')
        | (None, s') \<Rightarrow> delete_matches P domain m es s')"

definition applyConflicts :: "'s provider \<Rightarrow> string \<Rightarrow> ResolvedRecord \<Rightarrow> 's \<Rightarrow> (string list list \<times> string option) \<times> 's" where
  "applyConflicts P domain rr s =
     (case pvGet P s domain ''TXT'' of
        Inl e \<Rightarrow> (([], Some ''get existing TXT''), s)
      | Inr existing \<Rightarrow>
          (let clobbered = map recContent (filter (\<lambda>e. recName e = recName (rrRecord rr)) existing);
               warnings = (if rrMode rr = ''All'' \<and> isApexName (recName (rrRecord rr)) domain \<and> 0 < length clobbered
                           then [clobbered] else []);
               (err, s') = delete_matches P domain (conflict_match rr) existing s
           in ((warnings, err), s')))"

definition dispatchRecord ::
  "'s provider \<Rightarrow> verifier \<Rightarrow> string \<Rightarrow> Record \<Rightarrow> 's \<Rightarrow> (string option \<times> PushResult) \<times> 's" where
  "dispatchRecord P ver domain rec s =
     (if recType rec = ''TXT'' then PushTXTRecord P ver domain (recName rec) (recContent rec) s
      else if recType rec = ''CNAME'' then PushCNAMERecord P ver domain (recName rec) (recContent rec) s
      else if recType rec = ''SPFM'' then
        (let inc = extractInclude (recContent rec) in
         if inc = [] then ((None, push_result StatusAlreadyConfigured (recName rec) [] []), s)
         else PushSPFRecord P ver domain [inc] s)
      else if recType rec \<in> {''A'', ''AAAA'', ''MX'', ''NS'', ''SRV''} then PushGenericRecord P ver domain rec s
      else ((Some ''unsupported record type'', push_result StatusFailed (recName rec) (recContent rec) []), s))"

record apply_state =
  asResults :: "PushResult list"
  asWarnings :: "string list list"
  asErrs :: "string list"

definition apply_one ::
  "'s provider \<Rightarrow> verifier \<Rightarrow> string \<Rightarrow> ResolvedRecord \<Rightarrow> apply_state \<times> 's \<Rightarrow> apply_state \<times> 's" where
  "apply_one P ver domain rr acc =
     (case acc of (a, s) \<Rightarrow>
       let (warns, cerr, s1) =
         (if recType (rrRecord rr) = ''TXT'' \<and> rrMode rr \<noteq> [] \<and> rrMode rr \<noteq> ''None''
          then (case applyConflicts P domain rr s of ((w, c), s') \<Rightarrow> (w, c, s')) else ([], None, s));
           a1 = a\<lparr>asWarnings := asWarnings a @ warns\<rparr>
       in case cerr of
            Some e \<Rightarrow>
              (a1\<lparr>asResults := asResults a1 @ [push_result StatusFailed (recName (rrRecord rr)) (recContent (rrRecord rr)) []],
                  asErrs := asErrs a1 @ [''conflict resolution'']\<rparr>, s1)
          | None \<Rightarrow>
              (case dispatchRecord P ver domain (rrRecord rr) s1 of
                 ((perr, res), s2) \<Rightarrow>
                   (a1\<lparr>asResults := asResults a1 @ [res],
                       asErrs := asErrs a1 @ (case perr of Some e \<Rightarrow> [''push''] | None \<Rightarrow> [])\<rparr>, s2)))"

definition ApplyTemplateWithReport ::
  "'s provider \<Rightarrow> verifier \<Rightarrow> string \<Rightarrow> Template \<Rightarrow> vars \<Rightarrow> 's \<Rightarrow> (tmpl_error + apply_state) \<times> 's" where
  "ApplyTemplateWithReport P ver domain tmpl vs s =
     (case ResolveDetailed tmpl vs of
        Inl e \<Rightarrow> (Inl e, s)
      | Inr resolved \<Rightarrow>
          (case fold (apply_one P ver domain) resolved (\<lparr>asResults = [], asWarnings = [], asErrs = []\<rparr>, s) of
             (a, s') \<Rightarrow> (Inr a, s')))"

subsection \<open>Facts\<close>

lemma resolve_detailed_types:
  "resolve_detailed_from i rs vs = Inr out \<Longrightarrow> rr \<in> set out \<Longrightarrow> recType (rrRecord rr) \<in> set supportedTypes"
proof (induction rs arbitrary: i out)
  case (Cons r rs)
  have t: "resolveOne i r ty vs = Inr rec \<Longrightarrow> recType rec = ty" for ty rec
    by (auto simp: resolveOne_def Let_def split: if_splits)
  show ?case
  proof (cases "ToUpper (TrimSpace (trType r)) \<in> set supportedTypes")
    case True
    with Cons.prems obtain rec p o' where "resolveOne i r (ToUpper (TrimSpace (trType r))) vs = Inr rec"
      "resolve_detailed_from (Suc i) rs vs = Inr o'"
      "out = \<lparr>rrRecord = rec, rrMode = trTxtConflictMatchingMode r, rrPrefix = p\<rparr> # o'"
      by (auto simp: Let_def bindE_Inr_iff)
    with Cons.IH [of "Suc i" o'] Cons.prems(2) True t show ?thesis by auto
  next
    case False
    with Cons show ?thesis by (auto simp: Let_def)
  qed
qed simp

lemma apply_one_results: "length (asResults (fst (apply_one P ver d rr (a, s)))) = Suc (length (asResults a))"
  by (auto simp: apply_one_def Let_def split: prod.splits option.splits)

lemma apply_fold_results:
  "length (asResults (fst (fold (apply_one P ver d) rrs (a, s)))) = length (asResults a) + length rrs"
proof (induction rrs arbitrary: a s)
  case (Cons rr rrs)
  obtain a1 s1 where "apply_one P ver d rr (a, s) = (a1, s1)" by force
  with Cons.IH [of a1 s1] apply_one_results [of P ver d rr a s] show ?case by simp
qed simp

lemma resolveOne_checked:
  assumes "resolveOne i r typ vs = Inr rec"
  shows "validateHost (recName rec) = None
    \<and> (typ \<in> {''CNAME'', ''A'', ''AAAA'', ''MX'', ''NS'', ''SRV''} \<longrightarrow> validatePointsTo typ (recContent rec) = None)
    \<and> (typ = ''TXT'' \<longrightarrow> hasForbiddenChars (recContent rec) = None)"
  using assms by (auto simp: resolveOne_def validateTXTData_def split: if_splits)

lemma resolve_detailed_checked:
  "resolve_detailed_from i rs vs = Inr out \<Longrightarrow> rr \<in> set out \<Longrightarrow>
     \<exists>j r typ. r \<in> set rs \<and> resolveOne j r typ vs = Inr (rrRecord rr) \<and> typ = recType (rrRecord rr)"
proof (induction rs arbitrary: i out)
  case (Cons r rs)
  let ?t = "ToUpper (TrimSpace (trType r))"
  have t: "resolveOne j q ty vs = Inr rec \<Longrightarrow> recType rec = ty" for j q ty rec
    by (auto simp: resolveOne_def Let_def split: if_splits)
  show ?case
  proof (cases "?t \<in> set supportedTypes")
    case True
    with Cons.prems obtain rec p o' where rec: "resolveOne i r ?t vs = Inr rec"
      "resolve_detailed_from (Suc i) rs vs = Inr o'"
      "out = \<lparr>rrRecord = rec, rrMode = trTxtConflictMatchingMode r, rrPrefix = p\<rparr> # o'"
      by (auto simp: Let_def bindE_Inr_iff)
    show ?thesis
    proof (cases "rr \<in> set o'")
      case True
      with Cons.IH [OF rec(2)] show ?thesis by auto
    next
      case False
      with Cons.prems(2) rec(3) have "rrRecord rr = rec" by auto
      with rec(1) t [OF rec(1)] show ?thesis by (intro exI [of _ i] exI [of _ r] exI [of _ ?t]) auto
    qed
  next
    case False
    with Cons.prems have "resolve_detailed_from (Suc i) rs vs = Inr out" by (auto simp: Let_def)
    from Cons.IH [OF this Cons.prems(2)] show ?thesis by auto
  qed
qed simp

subsection \<open>Properties\<close>

text \<open>Every record a template resolves to has a supported type, a host that passes the host
  check after substitution, and a target or text that passes the check of its type: no value of a
  variable can smuggle in a control character, a URL, a path or a malformed name.\<close>

theorem Resolve_safe:
  assumes "Resolve t vs = Inr recs" and "r \<in> set recs"
  shows "recType r \<in> set supportedTypes \<and> validateHost (recName r) = None
    \<and> (recType r \<in> {''CNAME'', ''A'', ''AAAA'', ''MX'', ''NS'', ''SRV''} \<longrightarrow> validatePointsTo (recType r) (recContent r) = None)
    \<and> (recType r = ''TXT'' \<longrightarrow> hasForbiddenChars (recContent r) = None)"
proof -
  from assms obtain out rr where o: "resolve_detailed_from 0 (tplRecords t) vs = Inr out" "rr \<in> set out" "r = rrRecord rr"
    by (auto simp: Resolve_def ResolveDetailed_def bindE_Inr_iff)
  from resolve_detailed_checked [OF o(1,2)] obtain j q where "resolveOne j q (recType r) vs = Inr r" using o(3) by auto
  from resolveOne_checked [OF this] resolve_detailed_types [OF o(1,2)] o(3) show ?thesis by simp
qed

definition demo_template :: Template where
  "demo_template = \<lparr>tplProviderID = ''p'', tplProviderName = [], tplServiceID = ''s'', tplServiceName = [], tplVersion = 1,
     tplLogoURL = [], tplDescription = [], tplVariableDescription = [], tplSyncPubKeyDomain = [],
     tplSyncRedirectDomain = [], tplMultiInstance = False, tplHostRequired = False,
     tplRecords = [empty_template_record\<lparr>trType := ''a'', trHost := ''www'', trPointsTo := ''%ip%''\<rparr>,
       empty_template_record\<lparr>trType := ''CAA'', trData := ''ignored''\<rparr>,
       empty_template_record\<lparr>trType := ''TXT'', trHost := ''@'', trData := ''key=%v%''\<rparr>]\<rparr>"

lemma Resolve_safe_witness:
  "recType (mk_record ''A'' ''www'' ''192.0.2.1'' 0) \<in> set supportedTypes
    \<and> validatePointsTo ''A'' (recContent (mk_record ''A'' ''www'' ''192.0.2.1'' 0)) = None"
proof -
  have "Resolve demo_template [''ip'' \<mapsto> ''192.0.2.1'', ''v'' \<mapsto> ''1'']
    = Inr [mk_record ''A'' ''www'' ''192.0.2.1'' 0, mk_record ''TXT'' ''@'' ''key=1'' 0]"
    by code_simp
  from Resolve_safe [OF this, of "mk_record ''A'' ''www'' ''192.0.2.1'' 0"] show ?thesis by simp
qed

text \<open>Applying a resolvable template returns exactly one result per resolved record, in every
  case of failing conflict removal or failing push.\<close>

theorem ApplyTemplate_accounts:
  assumes "ResolveDetailed tmpl vs = Inr rrs"
  shows "\<exists>a s'. ApplyTemplateWithReport P ver d tmpl vs s = (Inr a, s') \<and> length (asResults a) = length rrs"
proof -
  obtain a s' where f: "fold (apply_one P ver d) rrs (\<lparr>asResults = [], asWarnings = [], asErrs = []\<rparr>, s) = (a, s')"
    by force
  with apply_fold_results [of P ver d rrs "\<lparr>asResults = [], asWarnings = [], asErrs = []\<rparr>" s] assms show ?thesis
    by (simp add: ApplyTemplateWithReport_def)
qed

lemma ApplyTemplate_accounts_witness:
  "\<exists>a s'. ApplyTemplateWithReport fake_ops unverified ''example.com'' demo_template [''ip'' \<mapsto> ''192.0.2.1'', ''v'' \<mapsto> ''1''] fake_New
     = (Inr a, s') \<and> length (asResults a)
     = length [\<lparr>rrRecord = mk_record ''A'' ''www'' ''192.0.2.1'' 0, rrMode = [], rrPrefix = []\<rparr>,
               \<lparr>rrRecord = mk_record ''TXT'' ''@'' ''key=1'' 0, rrMode = [], rrPrefix = []\<rparr>]"
  by (rule ApplyTemplate_accounts) code_simp

end
