(* ===== verification/Namecheap.thy ===== *)
theory Namecheap
  imports Dns_Types
begin

text \<open>
  The Namecheap provider (\<open>providers/namecheap/namecheap.go\<close>). Its API is one HTTP call with form
  parameters, a function of the service's state: the parameter \<open>call\<close> of the definitions, \<open>None\<close>
  where transport or XML decoding fails. Writing replaces the whole host list, so every operation
  that changes a record reads, merges and writes.
\<close>

record nc_host =
  hHostID :: string
  hName :: string
  hType :: string
  hAddress :: string
  hMXPref :: string
  hTTL :: string

record nc_response =
  nrStatus :: string
  nrErrors :: "(string \<times> string) list"
  nrHosts :: "nc_host list"
  nrDomains :: "(string \<times> string) list"

type_synonym params = "(string \<times> string) list"
type_synonym 's nc_call = "'s \<Rightarrow> params \<Rightarrow> nc_response option \<times> 's"

record nc_provider =
  npApiUser :: string
  npApiKey :: string
  npUsername :: string
  npClientIP :: string

definition nc_NewProvider :: "string \<Rightarrow> string \<Rightarrow> string \<Rightarrow> string \<Rightarrow> string + nc_provider" where
  "nc_NewProvider apiUser apiKey username clientIP =
     (if apiUser = [] \<or> apiKey = [] \<or> clientIP = []
      then Inl ''namecheap: api_user, api_key, and client_ip are required''
      else Inr \<lparr>npApiUser = apiUser, npApiKey = apiKey,
             npUsername = (if username = [] then apiUser else username), npClientIP = clientIP\<rparr>)"

text \<open>\<open>url.Values.Set\<close>: the last value of a key wins; the order of keys is immaterial.\<close>

definition pset :: "params \<Rightarrow> string \<Rightarrow> string \<Rightarrow> params" where
  "pset ps k v = filter (\<lambda>kv. fst kv \<noteq> k) ps @ [(k, v)]"

definition commonParams :: "nc_provider \<Rightarrow> string \<Rightarrow> params" where
  "commonParams p command =
     pset (pset (pset (pset (pset [] ''ApiUser'' (npApiUser p)) ''ApiKey'' (npApiKey p))
       ''UserName'' (npUsername p)) ''ClientIp'' (npClientIP p)) ''Command'' command"

definition nc_err :: "nc_response \<Rightarrow> string option" where
  "nc_err r =
     (if EqualFold (nrStatus r) ''OK'' then None
      else if length (nrErrors r) = 0 then Some ''namecheap: unknown error''
      else Some (''namecheap: '' @ Join (map (\<lambda>(n, m). TrimSpace m @ '' ('' @ n @ '')'') (nrErrors r)) ''; ''))"

definition doXML :: "'s nc_call \<Rightarrow> params \<Rightarrow> 's \<Rightarrow> (string + nc_response) \<times> 's" where
  "doXML call ps s =
     (case call s ps of
        (None, s') \<Rightarrow> (Inl ''namecheap: http call'', s')
      | (Some r, s') \<Rightarrow> (case nc_err r of Some e \<Rightarrow> (Inl e, s') | None \<Rightarrow> (Inr r, s')))"

definition nc_Verify :: "'s nc_call \<Rightarrow> nc_provider \<Rightarrow> 's \<Rightarrow> (string + Zone list) \<times> 's" where
  "nc_Verify call p s =
     (case doXML call (pset (commonParams p ''namecheap.domains.getList'') ''PageSize'' ''100'') s of
        (Inl e, s') \<Rightarrow> (Inl e, s')
      | (Inr r, s') \<Rightarrow>
          (Inr (map (\<lambda>(n, ex). \<lparr>zoneID = [], zoneName = n,
                   zoneStatus = (if EqualFold ex ''true'' then ''expired'' else ''active'')\<rparr>) (nrDomains r)), s'))"

subsection \<open>Names and hosts\<close>

definition splitDomain :: "string \<Rightarrow> string + (string \<times> string)" where
  "splitDomain domain =
     (let d = TrimSuffix (ToLower (TrimSpace domain)) ''.'' in
      if d = [] then Inl ''namecheap: empty domain''
      else case Index d ''.'' of
          None \<Rightarrow> Inl ''namecheap: not a full domain''
        | Some idx \<Rightarrow> Inr (take idx d, drop (idx + 1) d))"

definition hostNameFor :: "string \<Rightarrow> string \<Rightarrow> string" where
  "hostNameFor recordName domain =
     (let n = TrimSuffix (ToLower recordName) ''.''; d = TrimSuffix (ToLower domain) ''.'' in
      if n = [] \<or> n = d then ''@''
      else if HasSuffix n (''.'' @ d) then TrimSuffix n (''.'' @ d)
      else n)"

definition atoi0 :: "string \<Rightarrow> int" where
  "atoi0 s = (case Atoi s of Some n \<Rightarrow> n | None \<Rightarrow> 0)"

definition hostToRecord :: "nc_host \<Rightarrow> string \<Rightarrow> Record" where
  "hostToRecord h domain =
     (let name = (if hName h = ''@'' then domain
                  else if \<not> HasSuffix (hName h) (''.'' @ domain) then hName h @ ''.'' @ domain else hName h)
      in empty_record\<lparr>recID := hHostID h, recType := ToUpper (hType h), recName := name,
           recContent := hAddress h, recTTL := atoi0 (hTTL h), recPriority := atoi0 (hMXPref h)\<rparr>)"

definition newHost :: "Record \<Rightarrow> string \<Rightarrow> nc_host" where
  "newHost rec domain =
     \<lparr>hHostID = [], hName = hostNameFor (recName rec) domain, hType = ToUpper (recType rec),
      hAddress = recContent rec, hMXPref = (if 0 < recPriority rec then Itoa (recPriority rec) else ''10''),
      hTTL = (if recTTL rec = 0 then ''1800'' else Itoa (recTTL rec))\<rparr>"

definition same_host :: "nc_host \<Rightarrow> nc_host \<Rightarrow> bool" where
  "same_host nh h \<longleftrightarrow> EqualFold (hName h) (hName nh) \<and> EqualFold (hType h) (hType nh)"

fun replace_or_append :: "nc_host list \<Rightarrow> nc_host \<Rightarrow> nc_host list" where
  "replace_or_append [] nh = [nh]"
| "replace_or_append (h # hs) nh = (if same_host nh h then nh # hs else h # replace_or_append hs nh)"

definition mergeRecord :: "nc_host list \<Rightarrow> Record \<Rightarrow> string \<Rightarrow> nc_host list" where
  "mergeRecord hosts rec domain = replace_or_append hosts (newHost rec domain)"

subsection \<open>Reading and writing the host list\<close>

definition getHosts_params :: "nc_provider \<Rightarrow> string \<Rightarrow> string \<Rightarrow> params" where
  "getHosts_params p sld tld =
     pset (pset (commonParams p ''namecheap.domains.dns.getHosts'') ''SLD'' sld) ''TLD'' tld"

definition getHosts :: "'s nc_call \<Rightarrow> nc_provider \<Rightarrow> string \<Rightarrow> 's \<Rightarrow> (string + nc_host list) \<times> 's" where
  "getHosts call p domain s =
     (case splitDomain domain of
        Inl e \<Rightarrow> (Inl e, s)
      | Inr (sld, tld) \<Rightarrow>
          (case doXML call (getHosts_params p sld tld) s of
             (Inl e, s') \<Rightarrow> (Inl e, s')
           | (Inr r, s') \<Rightarrow> (Inr (nrHosts r), s')))"

definition host_params :: "nat \<Rightarrow> nc_host \<Rightarrow> params" where
  "host_params i h =
     (let idx = Itoa (int i) in
      [(''HostName'' @ idx, hName h), (''RecordType'' @ idx, hType h), (''Address'' @ idx, hAddress h)]
      @ (if hMXPref h \<noteq> [] then [(''MXPref'' @ idx, hMXPref h)] else [])
      @ (if hTTL h \<noteq> [] then [(''TTL'' @ idx, hTTL h)] else []))"

definition setHosts_params :: "nc_provider \<Rightarrow> string \<Rightarrow> string \<Rightarrow> nc_host list \<Rightarrow> params" where
  "setHosts_params p sld tld hosts =
     fold (\<lambda>(k, v) ps. pset ps k v) (concat (map (\<lambda>(i, h). host_params i h) (enum_from 1 hosts)))
       (pset (pset (commonParams p ''namecheap.domains.dns.setHosts'') ''SLD'' sld) ''TLD'' tld)"

definition setHosts :: "'s nc_call \<Rightarrow> nc_provider \<Rightarrow> string \<Rightarrow> nc_host list \<Rightarrow> 's \<Rightarrow> string option \<times> 's" where
  "setHosts call p domain hosts s =
     (case splitDomain domain of
        Inl e \<Rightarrow> (Some e, s)
      | Inr (sld, tld) \<Rightarrow>
          (case doXML call (setHosts_params p sld tld hosts) s of
             (Inl e, s') \<Rightarrow> (Some e, s')
           | (Inr r, s') \<Rightarrow> (None, s')))"

subsection \<open>The provider's operations\<close>

definition nc_GetRecords :: "'s nc_call \<Rightarrow> nc_provider \<Rightarrow> string \<Rightarrow> string \<Rightarrow> 's \<Rightarrow> (string + Record list) \<times> 's" where
  "nc_GetRecords call p domain recordType s =
     (case getHosts call p domain s of
        (Inl e, s') \<Rightarrow> (Inl e, s')
      | (Inr hosts, s') \<Rightarrow>
          (Inr (map (\<lambda>h. hostToRecord h domain)
             (filter (\<lambda>h. recordType = [] \<or> EqualFold (hType h) recordType) hosts)), s'))"

definition nc_SetRecord :: "'s nc_call \<Rightarrow> nc_provider \<Rightarrow> string \<Rightarrow> Record \<Rightarrow> 's \<Rightarrow> string option \<times> 's" where
  "nc_SetRecord call p domain rec s =
     (case getHosts call p domain s of
        (Inl e, s') \<Rightarrow> (Some e, s')
      | (Inr hosts, s') \<Rightarrow> setHosts call p domain (mergeRecord hosts rec domain) s')"

definition nc_DeleteRecord :: "'s nc_call \<Rightarrow> nc_provider \<Rightarrow> string \<Rightarrow> string \<Rightarrow> 's \<Rightarrow> string option \<times> 's" where
  "nc_DeleteRecord call p domain recordID s =
     (if recordID = [] then (Some ''namecheap: DeleteRecord requires a record ID'', s)
      else case getHosts call p domain s of
          (Inl e, s') \<Rightarrow> (Some e, s')
        | (Inr hosts, s') \<Rightarrow>
            (let kept = filter (\<lambda>h. hHostID h \<noteq> recordID) hosts in
             if length kept = length hosts then (Some ''namecheap: record not found'', s')
             else setHosts call p domain kept s'))"

definition nc_ApplyRecords :: "'s nc_call \<Rightarrow> nc_provider \<Rightarrow> string \<Rightarrow> Record list \<Rightarrow> 's \<Rightarrow> string option \<times> 's" where
  "nc_ApplyRecords call p domain records s =
     (case getHosts call p domain s of
        (Inl e, s') \<Rightarrow> (Some e, s')
      | (Inr hosts, s') \<Rightarrow> setHosts call p domain (fold (\<lambda>r hs. mergeRecord hs r domain) records hosts) s')"

subsection \<open>Merging keeps the other hosts\<close>

lemma replace_or_append_spec:
  "replace_or_append hs nh =
     (case find (same_host nh) hs of
        None \<Rightarrow> hs @ [nh]
      | Some h \<Rightarrow> takeWhile (\<lambda>h. \<not> same_host nh h) hs @ nh # tl (dropWhile (\<lambda>h. \<not> same_host nh h) hs))"
  by (induction hs) (auto split: option.splits)

lemma replace_or_append_others:
  "filter (\<lambda>h. \<not> same_host nh h) (replace_or_append hs nh) = filter (\<lambda>h. \<not> same_host nh h) hs"
proof -
  have "same_host nh nh" by (simp add: same_host_def)
  then show ?thesis by (induction hs) auto
qed

lemma mergeRecord_others:
  "filter (\<lambda>h. \<not> same_host (newHost r d) h) (mergeRecord hosts r d)
     = filter (\<lambda>h. \<not> same_host (newHost r d) h) hosts"
  by (simp add: mergeRecord_def replace_or_append_others)

lemma mergeRecord_in: "newHost r d \<in> set (mergeRecord hosts r d)"
  unfolding mergeRecord_def by (induction hosts) auto

subsection \<open>Names round trip\<close>

definition nc_name_ok :: "string \<Rightarrow> string \<Rightarrow> bool" where
  "nc_name_ok d n \<longleftrightarrow> ToLower d = d \<and> ToLower n = n \<and> d \<noteq> [] \<and> \<not> HasSuffix d ''.'' \<and>
     (n = d \<or> (HasSuffix n (''.'' @ d) \<and> TrimSuffix n (''.'' @ d) \<notin> {[], ''@''}
        \<and> \<not> HasSuffix (TrimSuffix n (''.'' @ d)) (''.'' @ d)))"

lemma TrimSuffix_none: "\<not> suffix t s \<Longrightarrow> TrimSuffix s t = s"
  by (simp add: TrimSuffix_def)

lemma suffix_dot_last: "suffix ''.'' s \<longleftrightarrow> s \<noteq> [] \<and> last s = CHR ''.''"
  by (metis append_butlast_last_id last_snoc snoc_eq_iff_butlast suffix_def)

lemma hostName_roundtrip:
  assumes "nc_name_ok d n"
  shows "recName (hostToRecord (h\<lparr>hName := hostNameFor n d\<rparr>) d) = n"
proof -
  from assms have l: "ToLower d = d" "ToLower n = n" "d \<noteq> []" "\<not> HasSuffix d ''.''"
    by (simp_all add: nc_name_ok_def)
  have dt: "TrimSuffix d ''.'' = d" by (rule TrimSuffix_none [OF l(4)])
  show ?thesis
  proof (cases "n = d")
    case True
    then show ?thesis by (simp add: hostToRecord_def hostNameFor_def l dt)
  next
    case False
    with assms obtain x where x: "n = x @ ''.'' @ d" "x \<noteq> []" "x \<noteq> ''@''" "\<not> HasSuffix x (''.'' @ d)"
      by (auto simp: nc_name_ok_def suffix_def TrimSuffix_append [of _ "CHR ''.'' # d", simplified])
    have nl: "last n = last d" using x(1) l(3) by simp
    have nt: "TrimSuffix n ''.'' = n"
      by (rule TrimSuffix_none) (use l(3,4) nl in \<open>simp add: suffix_dot_last\<close>)
    have e: "hostNameFor n d = (if n = [] \<or> n = d then ''@'' else if HasSuffix n (''.'' @ d)
        then TrimSuffix n (''.'' @ d) else n)"
      unfolding hostNameFor_def l nt dt Let_def ..
    have "HasSuffix n (''.'' @ d)" "TrimSuffix n (''.'' @ d) = x" "n \<noteq> []"
      using x(1) TrimSuffix_append [of x "''.'' @ d"] by (simp_all add: suffix_def)
    with e False have "hostNameFor n d = x" by simp
    with x show ?thesis by (simp add: hostToRecord_def)
  qed
qed

subsection \<open>The request carries the host list\<close>

text \<open>What the service reads from the numbered parameters.\<close>

definition decode_host :: "params \<Rightarrow> nat \<Rightarrow> nc_host option" where
  "decode_host ps i =
     (let get = (\<lambda>k. map_of ps (k @ Itoa (int i))) in
      case (get ''HostName'', get ''RecordType'', get ''Address'') of
        (Some n, Some t, Some a) \<Rightarrow>
          Some \<lparr>hHostID = [], hName = n, hType = t, hAddress = a,
            hMXPref = (case get ''MXPref'' of Some v \<Rightarrow> v | None \<Rightarrow> []),
            hTTL = (case get ''TTL'' of Some v \<Rightarrow> v | None \<Rightarrow> [])\<rparr>
      | _ \<Rightarrow> None)"

lemma Itoa_inj: "Itoa (int i) = Itoa (int j) \<longleftrightarrow> i = j"
proof
  assume "Itoa (int i) = Itoa (int j)"
  then have "nat_digits i = nat_digits j" by (simp add: Itoa_def)
  then have "dec_value (nat_digits i) = dec_value (nat_digits j)" by (rule arg_cong)
  then show "i = j" using nat_digits_ok [of i] nat_digits_ok [of j] by simp
qed simp

lemma map_of_pset: "map_of (pset ps k v) k' = (if k' = k then Some v else map_of ps k')"
proof -
  have "map_of (filter (\<lambda>kv. fst kv \<noteq> k) ps) k' = (if k' = k then None else map_of ps k')"
    by (induction ps) auto
  then show ?thesis by (simp add: pset_def map_add_def split: option.split)
qed

lemma map_of_fold_pset:
  "map_of (fold (\<lambda>(k, v) ps. pset ps k v) kvs ps) k =
     (case map_of (rev kvs) k of Some v \<Rightarrow> Some v | None \<Rightarrow> map_of ps k)"
proof (induction kvs arbitrary: ps)
  case (Cons kv kvs)
  show ?case
    by (cases kv) (auto simp: Cons.IH map_of_pset map_add_def split: option.split)
qed simp

definition host_keys :: "string list" where
  "host_keys = [''HostName'', ''RecordType'', ''Address'', ''MXPref'', ''TTL'']"

lemma host_keys_digits:
  assumes "k \<in> set host_keys" "k' \<in> set host_keys"
  shows "k @ Itoa (int i) = k' @ Itoa (int j) \<longleftrightarrow> k = k' \<and> i = j"
proof
  assume e: "k @ Itoa (int i) = k' @ Itoa (int j)"
  have "k \<noteq> []" "k' \<noteq> []" using assms by (auto simp: host_keys_def)
  with e have "hd k = hd k'" by (metis hd_append2)
  with assms have "k = k'" by (auto simp: host_keys_def)
  with e show "k = k' \<and> i = j" by (simp add: Itoa_inj)
qed simp

lemma host_params_keys: "(k, v) \<in> set (host_params i h) \<Longrightarrow> \<exists>b \<in> set host_keys. k = b @ Itoa (int i)"
  by (auto simp: host_params_def host_keys_def Let_def split: if_splits)

lemma enum_from_index: "(j, h) \<in> set (enum_from n hs) \<Longrightarrow> n \<le> j"
proof (induction hs arbitrary: n)
  case (Cons x hs)
  then show ?case by (auto dest: Cons.IH)
qed simp

lemma enum_from_bounds: "(j, h) \<in> set (enum_from n hs) \<Longrightarrow> n \<le> j \<and> j < n + length hs"
proof (induction hs arbitrary: n)
  case (Cons x hs)
  then show ?case by (auto dest: Cons.IH)
qed simp

lemma map_of_other_hosts:
  assumes "b \<in> set host_keys" "i < n"
  shows "map_of (rev (concat (map (\<lambda>(i, h). host_params i h) (enum_from n hs)))) (b @ Itoa (int i)) = None"
proof -
  have "b @ Itoa (int i) \<noteq> k" if "(k, v) \<in> set (host_params j h)" "(j, h) \<in> set (enum_from n hs)" for k v j h
  proof -
    from host_params_keys [OF that(1)] obtain b' where "b' \<in> set host_keys" "k = b' @ Itoa (int j)" by blast
    with host_keys_digits [OF assms(1), of b' i j] enum_from_index [OF that(2)] assms(2) show ?thesis by auto
  qed
  then show ?thesis by (auto simp: map_of_eq_None_iff image_iff)
qed

lemma map_of_host_params:
  assumes "b \<in> set host_keys"
  shows "map_of (rev (host_params i h)) (b @ Itoa (int i)) =
    (if b = ''HostName'' then Some (hName h) else if b = ''RecordType'' then Some (hType h)
     else if b = ''Address'' then Some (hAddress h)
     else if b = ''MXPref'' then (if hMXPref h \<noteq> [] then Some (hMXPref h) else None)
     else (if hTTL h \<noteq> [] then Some (hTTL h) else None))"
  using assms by (auto simp: host_params_def host_keys_def Let_def)

lemma map_of_params:
  assumes "b \<in> set host_keys" "n \<le> i" "i < n + length hs"
  shows "map_of (rev (concat (map (\<lambda>(i, h). host_params i h) (enum_from n hs)))) (b @ Itoa (int i))
    = map_of (rev (host_params i (hs ! (i - n)))) (b @ Itoa (int i))"
  using assms(2,3)
proof (induction hs arbitrary: n)
  case (Cons h hs)
  show ?case
  proof (cases "i = n")
    case True
    then show ?thesis
      using map_of_other_hosts [OF assms(1), of i "Suc n" hs]
      by (simp add: map_add_def split: option.split)
  next
    case False
    with Cons.prems have i: "Suc n \<le> i" "i < Suc n + length hs" "(h # hs) ! (i - n) = hs ! (i - Suc n)"
      by (auto simp: nth_Cons' )
    have "map_of (rev (host_params n h)) (b @ Itoa (int i)) = None"
    proof -
      have "b @ Itoa (int i) \<noteq> k" if "(k, v) \<in> set (host_params n h)" for k v
      proof -
        from host_params_keys [OF that] obtain b' where "b' \<in> set host_keys" "k = b' @ Itoa (int n)" by blast
        with host_keys_digits [OF assms(1), of b' i n] False show ?thesis by auto
      qed
      then show ?thesis by (auto simp: map_of_eq_None_iff image_iff) blast
    qed
    then show ?thesis using Cons.IH [OF i(1,2)] i(3) by (simp add: map_add_def split: option.split)
  qed
qed simp

lemma base_params_no_host_key:
  "b \<in> set host_keys \<Longrightarrow>
     map_of (pset (pset (commonParams p c) ''SLD'' sld) ''TLD'' tld) (b @ Itoa (int i)) = None"
  unfolding map_of_pset commonParams_def by (auto simp: host_keys_def)

lemma map_of_setHosts:
  assumes "b \<in> set host_keys"
  shows "map_of (setHosts_params p sld tld hs) (b @ Itoa (int i)) =
    (if 1 \<le> i \<and> i < 1 + length hs then map_of (rev (host_params i (hs ! (i - 1)))) (b @ Itoa (int i)) else None)"
proof (cases "1 \<le> i \<and> i < 1 + length hs")
  case True
  then show ?thesis
    using map_of_params [OF assms, of 1 i hs] base_params_no_host_key [OF assms]
    by (simp add: setHosts_params_def map_of_fold_pset split: option.split)
next
  case False
  have "b @ Itoa (int i) \<noteq> k" if "(j, h) \<in> set (enum_from 1 hs)" "(k, v) \<in> set (host_params j h)" for j h k v
  proof -
    have j: "1 \<le> j \<and> j < 1 + length hs"
      by (rule enum_from_bounds [OF that(1)])
    from host_params_keys [OF that(2)] obtain b' where "b' \<in> set host_keys" "k = b' @ Itoa (int j)" by blast
    with host_keys_digits [OF assms, of b' i j] j False show ?thesis by auto
  qed
  then have "map_of (rev (concat (map (\<lambda>(i, h). host_params i h) (enum_from 1 hs)))) (b @ Itoa (int i)) = None"
    by (auto simp: map_of_eq_None_iff image_iff)
  with False show ?thesis
    using base_params_no_host_key [OF assms] by (auto simp: setHosts_params_def map_of_fold_pset)
qed

lemma decode_setHosts:
  "decode_host (setHosts_params p sld tld hs) i =
     (if 1 \<le> i \<and> i < 1 + length hs then Some ((hs ! (i - 1))\<lparr>hHostID := []\<rparr>) else None)"
proof -
  have k: "''HostName'' \<in> set host_keys" "''RecordType'' \<in> set host_keys" "''Address'' \<in> set host_keys"
    "''MXPref'' \<in> set host_keys" "''TTL'' \<in> set host_keys" by (simp_all add: host_keys_def)
  show ?thesis
    unfolding decode_host_def Let_def map_of_setHosts [OF k(1)] map_of_setHosts [OF k(2)]
      map_of_setHosts [OF k(3)] map_of_setHosts [OF k(4)] map_of_setHosts [OF k(5)]
      map_of_host_params [OF k(1)] map_of_host_params [OF k(2)] map_of_host_params [OF k(3)]
      map_of_host_params [OF k(4)] map_of_host_params [OF k(5)]
    by (cases "hs ! (i - 1)") auto
qed

subsection \<open>A service that behaves as documented\<close>

text \<open>What the provider relies on: a successful \<open>setHosts\<close> replaces the host list, up to host
  identifiers, by the one in the request.\<close>

definition nc_documented :: "'s nc_call \<Rightarrow> nc_provider \<Rightarrow> bool" where
  "nc_documented call p \<longleftrightarrow>
     (\<forall>s sld tld hs r s'. doXML call (setHosts_params p sld tld hs) s = (Inr r, s') \<longrightarrow>
        (\<exists>r' s''. doXML call (getHosts_params p sld tld) s' = (Inr r', s'')
           \<and> map (\<lambda>h. h\<lparr>hHostID := []\<rparr>) (nrHosts r') = map (\<lambda>h. h\<lparr>hHostID := []\<rparr>) hs))"

fun decode_from :: "params \<Rightarrow> nat \<Rightarrow> nat \<Rightarrow> nc_host list" where
  "decode_from ps i 0 = []"
| "decode_from ps i (Suc k) = (case decode_host ps i of None \<Rightarrow> [] | Some h \<Rightarrow> h # decode_from ps (Suc i) k)"

definition the_default :: "string \<Rightarrow> string option \<Rightarrow> string" where
  "the_default d v = (case v of Some x \<Rightarrow> x | None \<Rightarrow> d)"

definition demo_service :: "(string \<Rightarrow> nc_host list) nc_call" where
  "demo_service s ps =
     (let zone = the_default [] (map_of ps ''SLD'') @ ''.'' @ the_default [] (map_of ps ''TLD'') in
      if map_of ps ''Command'' = Some ''namecheap.domains.dns.setHosts''
      then (Some \<lparr>nrStatus = ''OK'', nrErrors = [], nrHosts = [], nrDomains = []\<rparr>, s(zone := decode_from ps 1 (length ps)))
      else (Some \<lparr>nrStatus = ''OK'', nrErrors = [], nrHosts = s zone, nrDomains = []\<rparr>, s))"

lemma nth_drop_Cons: "k < length hs \<Longrightarrow> drop k hs = hs ! k # drop (Suc k) hs"
  by (simp add: Cons_nth_drop_Suc)

lemma decode_from_setHosts:
  "1 \<le> i \<Longrightarrow> i \<le> Suc (length hs) \<Longrightarrow> Suc (length hs) - i \<le> k \<Longrightarrow>
     decode_from (setHosts_params p sld tld hs) i k = map (\<lambda>h. h\<lparr>hHostID := []\<rparr>) (drop (i - 1) hs)"
proof (induction k arbitrary: i)
  case (Suc k)
  show ?case
  proof (cases "i \<le> length hs")
    case True
    with Suc.prems have "drop (i - 1) hs = hs ! (i - 1) # drop (Suc i - 1) hs"
      using nth_drop_Cons [of "i - 1" hs] by simp
    with True Suc show ?thesis by (simp add: decode_setHosts)
  next
    case False
    with Suc.prems show ?thesis by (simp add: decode_setHosts)
  qed
qed simp

lemma length_pset: "length (pset ps k v) = (if map_of ps k = None then Suc (length ps) else length (pset ps k v))"
proof (cases "map_of ps k")
  case None
  then have "filter (\<lambda>kv. fst kv \<noteq> k) ps = ps" by (induction ps) (auto split: if_splits)
  with None show ?thesis by (simp add: pset_def)
qed simp

text \<open>Every host leaves at least one parameter of its own in the request.\<close>

lemma setHosts_length: "length hs \<le> length (setHosts_params p sld tld hs)"
proof -
  let ?ps = "setHosts_params p sld tld hs"
  let ?K = "(\<lambda>i. ''HostName'' @ Itoa (int i)) ` {1..length hs}"
  have "?K \<subseteq> fst ` set ?ps"
  proof
    fix k
    assume "k \<in> ?K"
    then obtain i where i: "k = ''HostName'' @ Itoa (int i)" "1 \<le> i" "i < 1 + length hs" by auto
    have h: "''HostName'' \<in> set host_keys" by (simp add: host_keys_def)
    have "map_of ?ps k = Some (hName (hs ! (i - 1)))"
      unfolding i(1) map_of_setHosts [OF h] map_of_host_params [OF h] using i(2,3) by simp
    then show "k \<in> fst ` set ?ps" by (force dest: map_of_SomeD)
  qed
  then have "card ?K \<le> card (fst ` set ?ps)" by (intro card_mono) auto
  also have "\<dots> \<le> length ?ps" by (metis card_image_le card_length finite_set le_trans)
  also have "card ?K = length hs"
    by (subst card_image) (auto simp: inj_on_def Itoa_inj)
  finally show ?thesis .
qed

lemma setHosts_fixed:
  "map_of (setHosts_params p sld tld hs) ''Command'' = Some ''namecheap.domains.dns.setHosts''"
  "map_of (setHosts_params p sld tld hs) ''SLD'' = Some sld"
  "map_of (setHosts_params p sld tld hs) ''TLD'' = Some tld"
proof -
  have n: "map_of (rev (concat (map (\<lambda>(i, h). host_params i h) (enum_from 1 hs)))) k = None"
    if "\<And>b i. b \<in> set host_keys \<Longrightarrow> k \<noteq> b @ Itoa (int i)" for k
  proof -
    have "k \<noteq> k'" if "(k', v) \<in> set (host_params j h)" for k' v j h
      using host_params_keys [OF that] \<open>\<And>b i. b \<in> set host_keys \<Longrightarrow> k \<noteq> b @ Itoa (int i)\<close> by blast
    then show ?thesis by (auto simp: map_of_eq_None_iff image_iff)
  qed
  have c: "''Command'' \<noteq> b @ Itoa (int i)" "''SLD'' \<noteq> b @ Itoa (int i)" "''TLD'' \<noteq> b @ Itoa (int i)"
    if "b \<in> set host_keys" for b i using that by (auto simp: host_keys_def)
  have nc: "map_of (rev (concat (map (\<lambda>(i, h). host_params i h) (enum_from 1 hs)))) ''Command'' = None"
    "map_of (rev (concat (map (\<lambda>(i, h). host_params i h) (enum_from 1 hs)))) ''SLD'' = None"
    "map_of (rev (concat (map (\<lambda>(i, h). host_params i h) (enum_from 1 hs)))) ''TLD'' = None"
    by (rule n, erule c)+
  show "map_of (setHosts_params p sld tld hs) ''Command'' = Some ''namecheap.domains.dns.setHosts''"
    "map_of (setHosts_params p sld tld hs) ''SLD'' = Some sld"
    "map_of (setHosts_params p sld tld hs) ''TLD'' = Some tld"
    unfolding setHosts_params_def map_of_fold_pset nc(1) nc(2) nc(3) option.case
      map_of_pset commonParams_def by simp_all
qed

lemma nc_err_OK: "nc_err \<lparr>nrStatus = ''OK'', nrErrors = es, nrHosts = hs, nrDomains = ds\<rparr> = None"
  by (simp add: nc_err_def)

lemma demo_service_documented: "nc_documented demo_service p"
proof -
  have "\<exists>r' s''. doXML demo_service (getHosts_params p sld tld) s' = (Inr r', s'')
      \<and> map (\<lambda>h. h\<lparr>hHostID := []\<rparr>) (nrHosts r') = map (\<lambda>h. h\<lparr>hHostID := []\<rparr>) hs"
    if "doXML demo_service (setHosts_params p sld tld hs) s = (Inr r, s')" for s sld tld hs r s'
  proof -
    let ?ps = "setHosts_params p sld tld hs"
    have d: "decode_from ?ps 1 (length ?ps) = map (\<lambda>h. h\<lparr>hHostID := []\<rparr>) hs"
      using decode_from_setHosts [of 1 hs "length ?ps" p sld tld] setHosts_length [of hs p sld tld] by simp
    have s': "s' = s(sld @ ''.'' @ tld := map (\<lambda>h. h\<lparr>hHostID := []\<rparr>) hs)"
      using that by (simp add: doXML_def demo_service_def Let_def setHosts_fixed the_default_def nc_err_OK d del: One_nat_def)
    have g: "map_of (getHosts_params p sld tld) ''Command'' = Some ''namecheap.domains.dns.getHosts''"
      "map_of (getHosts_params p sld tld) ''SLD'' = Some sld" "map_of (getHosts_params p sld tld) ''TLD'' = Some tld"
      unfolding getHosts_params_def commonParams_def map_of_pset by simp_all
    show ?thesis
      by (simp add: doXML_def demo_service_def Let_def g the_default_def nc_err_OK s' comp_def)
  qed
  then show ?thesis by (auto simp: nc_documented_def)
qed

subsection \<open>Properties\<close>

text \<open>The numbered form parameters of a write decode to exactly the list of hosts that the
  provider sends, with no host after the last.\<close>

theorem setHosts_params_roundtrip:
  "decode_host (setHosts_params p sld tld hs) i =
     (if 1 \<le> i \<and> i < 1 + length hs then Some ((hs ! (i - 1))\<lparr>hHostID := []\<rparr>) else None)"
  by (rule decode_setHosts)


text \<open>A second record of the same name and type always replaces the first one, so a batch
  with two mail exchangers or two text records of one name keeps only the last of them.\<close>

theorem nc_merge_overwrites:
  assumes "same_host (newHost r2 d) (newHost r1 d)"
  shows "mergeRecord (mergeRecord hosts r1 d) r2 d = mergeRecord hosts r2 d"
proof -
  have eq: "same_host (newHost r1 d) h \<longleftrightarrow> same_host (newHost r2 d) h" for h
    using assms by (auto simp: same_host_def EqualFold_def)
  show ?thesis
    unfolding mergeRecord_def using assms by (induction hosts) (auto simp: eq)
qed

definition demo_nc :: nc_provider where
  "demo_nc = \<lparr>npApiUser = ''u'', npApiKey = ''k'', npUsername = ''u'', npClientIP = ''192.0.2.9''\<rparr>"

definition demo_hosts :: "nc_host list" where
  "demo_hosts = [\<lparr>hHostID = ''1'', hName = ''@'', hType = ''MX'', hAddress = ''mail.example.com'', hMXPref = ''10'', hTTL = ''1800''\<rparr>,
     \<lparr>hHostID = ''2'', hName = ''www'', hType = ''A'', hAddress = ''192.0.2.1'', hMXPref = [], hTTL = ''60''\<rparr>]"

lemma demo_get: "getHosts demo_service demo_nc ''example.com'' (\<lambda>_. demo_hosts) = (Inr demo_hosts, \<lambda>_. demo_hosts)"
proof -
  have sd: "splitDomain ''example.com'' = Inr (''example'', ''com'')" by code_simp
  have g: "map_of (getHosts_params demo_nc x y) ''Command'' = Some ''namecheap.domains.dns.getHosts''" for x y
    unfolding getHosts_params_def commonParams_def map_of_pset by simp
  show ?thesis by (simp add: getHosts_def sd doXML_def demo_service_def Let_def g nc_err_OK)
qed

lemma demo_set: "fst (nc_SetRecord demo_service demo_nc ''example.com'' (mk_record ''a'' ''www.example.com'' ''192.0.2.2'' 0)
    (\<lambda>_. demo_hosts)) = None"
proof -
  have sd: "splitDomain ''example.com'' = Inr (''example'', ''com'')" by code_simp
  show ?thesis
    unfolding nc_SetRecord_def demo_get prod.case sum.case setHosts_def sd
    by (simp add: doXML_def demo_service_def Let_def setHosts_fixed nc_err_OK)
qed


lemma nc_merge_overwrites_witness:
  "mergeRecord (mergeRecord [] (mk_record ''MX'' ''example.com'' ''mx1.example.net'' 0) ''example.com'')
      (mk_record ''MX'' ''example.com'' ''mx2.example.net'' 0) ''example.com''
    = mergeRecord [] (mk_record ''MX'' ''example.com'' ''mx2.example.net'' 0) ''example.com''"
  by (rule nc_merge_overwrites) (simp add: same_host_def newHost_def)

end
