(* ===== verification/Godaddy.thy ===== *)
theory Godaddy
  imports Push
begin

text \<open>
  The GoDaddy provider (\<open>providers/godaddy/godaddy.go\<close>): the retry loop around one HTTP exchange,
  and the read-modify-write of the records of one name and type. The HTTP client, the rate limiter
  and the JSON decoder are the parameter \<open>call\<close>: the outcome of one attempt, with the decoded
  records or domains of the answer. Waiting times are kept as a list of milliseconds; a Retry-After
  whose nanoseconds leave 64 bits is outside the model.
\<close>

record gd_record =
  gdType :: string
  gdName :: string
  gdData :: string
  gdTTL :: int

record gd_request =
  gqMethod :: string
  gqPath :: string
  gqBody :: "gd_record list"

record gd_response =
  gsStatus :: nat
  gsRetryAfter :: string
  gsRecords :: "gd_record list option"
  gsDomains :: "(string \<times> string) list option"

datatype gd_outcome = LimiterErr | NetErr | Resp gd_response

type_synonym 's gd_call = "'s \<Rightarrow> gd_request \<Rightarrow> gd_outcome \<times> 's"

definition gd_NewProvider :: "string \<Rightarrow> string \<Rightarrow> string + string \<times> string" where
  "gd_NewProvider apiKey apiSecret =
     (if apiKey = [] then Inl ''godaddy: APIKey required''
      else if apiSecret = [] then Inl ''godaddy: APISecret required''
      else Inr (apiKey, apiSecret))"

subsection \<open>Retrying\<close>

definition maxRetries :: nat where
  "maxRetries = 3"

fun backoffDuration :: "nat \<Rightarrow> nat" where
  "backoffDuration 0 = 500"
| "backoffDuration (Suc n) = 2 * backoffDuration n"

definition retry_wait :: "nat \<Rightarrow> string \<Rightarrow> int" where
  "retry_wait attempt ra =
     (if ra \<noteq> [] then (case Atoi ra of
          Some secs \<Rightarrow> if 0 \<le> secs then secs * 1000 else int (backoffDuration attempt)
        | None \<Rightarrow> int (backoffDuration attempt))
      else int (backoffDuration attempt))"

definition retryable :: "nat \<Rightarrow> bool" where
  "retryable status \<longleftrightarrow> \<not> (status < 500 \<and> status \<noteq> 429)"

function gd_loop :: "'s gd_call \<Rightarrow> gd_request \<Rightarrow> nat \<Rightarrow> nat \<Rightarrow> 's \<Rightarrow> ((string + gd_response) \<times> int list) \<times> 's" where
  "gd_loop call req maxR attempt s =
     (if maxR < attempt then ((Inl ''godaddy: no response'', []), s)
      else case call s req of
        (LimiterErr, s') \<Rightarrow> ((Inl ''godaddy: rate limiter'', []), s')
      | (NetErr, s') \<Rightarrow>
          (if attempt = maxR then ((Inl ''godaddy: http request'', []), s')
           else (case gd_loop call req maxR (Suc attempt) s' of
                   ((r, ws), s'') \<Rightarrow> ((r, int (backoffDuration attempt) # ws), s'')))
      | (Resp resp, s') \<Rightarrow>
          (if \<not> retryable (gsStatus resp) \<or> attempt = maxR then ((Inr resp, []), s')
           else (case gd_loop call req maxR (Suc attempt) s' of
                   ((r, ws), s'') \<Rightarrow> ((r, retry_wait attempt (gsRetryAfter resp) # ws), s''))))"
  by pat_completeness auto
termination
  by (relation "measure (\<lambda>(call, req, maxR, attempt, s). Suc maxR - attempt)") auto

declare gd_loop.simps [simp del]

definition gd_do :: "'s gd_call \<Rightarrow> gd_request \<Rightarrow> 's \<Rightarrow> ((string + gd_response) \<times> int list) \<times> 's" where
  "gd_do call req s = gd_loop call req maxRetries 0 s"

definition gd_exchange :: "'s gd_call \<Rightarrow> gd_request \<Rightarrow> 's \<Rightarrow> (string + gd_response) \<times> 's" where
  "gd_exchange call req s = (case gd_do call req s of ((r, ws), s') \<Rightarrow> (r, s'))"

subsection \<open>Operations\<close>

definition fetchRecords :: "'s gd_call \<Rightarrow> string \<Rightarrow> 's \<Rightarrow> (string + gd_record list) \<times> 's" where
  "fetchRecords call path s =
     (case gd_exchange call \<lparr>gqMethod = ''GET'', gqPath = path, gqBody = []\<rparr> s of
        (Inl e, s') \<Rightarrow> (Inl ''godaddy: get records'', s')
      | (Inr resp, s') \<Rightarrow>
          (if gsStatus resp \<noteq> 200 then (Inl ''godaddy api'', s')
           else (case gsRecords resp of None \<Rightarrow> (Inl ''godaddy: decode'', s') | Some rs \<Rightarrow> (Inr rs, s'))))"

definition gd_Verify :: "'s gd_call \<Rightarrow> 's \<Rightarrow> (string + Zone list) \<times> 's" where
  "gd_Verify call s =
     (case gd_exchange call \<lparr>gqMethod = ''GET'', gqPath = ''/domains?statuses=ACTIVE'', gqBody = []\<rparr> s of
        (Inl e, s') \<Rightarrow> (Inl ''godaddy: list domains'', s')
      | (Inr resp, s') \<Rightarrow>
          (if gsStatus resp \<noteq> 200 then (Inl ''godaddy api'', s')
           else (case gsDomains resp of
               None \<Rightarrow> (Inl ''godaddy: decode'', s')
             | Some ds \<Rightarrow> (Inr (map (\<lambda>(d, st). \<lparr>zoneID = d, zoneName = d, zoneStatus = ToLower st\<rparr>) ds), s'))))"

definition records_path :: "string \<Rightarrow> string" where
  "records_path domain = ''/domains/'' @ domain @ ''/records''"

definition gd_to_record :: "string \<Rightarrow> gd_record \<Rightarrow> Record" where
  "gd_to_record domain r =
     (mk_record (gdType r) (if gdName r \<noteq> ''@'' then gdName r @ ''.'' @ domain else domain) (gdData r) (gdTTL r))
       \<lparr>recID := gdName r @ ''|'' @ gdType r\<rparr>"

definition gd_GetRecords :: "'s gd_call \<Rightarrow> string \<Rightarrow> string \<Rightarrow> 's \<Rightarrow> (string + Record list) \<times> 's" where
  "gd_GetRecords call domain recordType s =
     (case fetchRecords call (records_path domain @ (if recordType \<noteq> [] then ''/'' @ recordType else [])) s of
        (Inl e, s') \<Rightarrow> (Inl e, s')
      | (Inr rs, s') \<Rightarrow> (Inr (map (gd_to_record domain) rs), s'))"

definition at_name_type :: "string \<Rightarrow> string \<Rightarrow> string \<Rightarrow> string" where
  "at_name_type domain recordType name = records_path domain @ ''/'' @ recordType @ ''/'' @ name"

fun mergeGoDaddyRecords :: "gd_record list \<Rightarrow> gd_record \<Rightarrow> gd_record list" where
  "mergeGoDaddyRecords [] new = [new]"
| "mergeGoDaddyRecords (r # rs) new = (if gdData r = gdData new then new # rs else r # mergeGoDaddyRecords rs new)"

definition normalizeGoDaddyName :: "string \<Rightarrow> string \<Rightarrow> string" where
  "normalizeGoDaddyName name domain =
     (let n = (if HasSuffix name (''.'' @ domain) then TrimSuffix name (''.'' @ domain) else name) in
      if n = domain then ''@'' else n)"

definition gd_new_record :: "string \<Rightarrow> Record \<Rightarrow> gd_record" where
  "gd_new_record domain rec =
     \<lparr>gdType = recType rec, gdName = normalizeGoDaddyName (recName rec) domain, gdData = recContent rec,
      gdTTL = (if recTTL rec < 600 then 600 else recTTL rec)\<rparr>"

definition gd_SetRecord :: "'s gd_call \<Rightarrow> string \<Rightarrow> Record \<Rightarrow> 's \<Rightarrow> string option \<times> 's" where
  "gd_SetRecord call domain rec s =
     (let new = gd_new_record domain rec; path = at_name_type domain (recType rec) (gdName new) in
      case fetchRecords call path s of
        (got, s1) \<Rightarrow>
          (let existing = (case got of Inl e \<Rightarrow> [] | Inr rs \<Rightarrow> rs);
               merged = mergeGoDaddyRecords existing new in
           case gd_exchange call \<lparr>gqMethod = ''PUT'', gqPath = path, gqBody = merged\<rparr> s1 of
             (Inl e, s2) \<Rightarrow> (Some ''godaddy: set record'', s2)
           | (Inr resp, s2) \<Rightarrow> (if 400 \<le> gsStatus resp then (Some ''godaddy api'', s2) else (None, s2))))"

definition gd_DeleteRecord :: "'s gd_call \<Rightarrow> string \<Rightarrow> string \<Rightarrow> 's \<Rightarrow> string option \<times> 's" where
  "gd_DeleteRecord call domain recordID s =
     (case SplitN2 recordID CHR ''|'' of
        [name, rType] \<Rightarrow>
          (case gd_exchange call \<lparr>gqMethod = ''DELETE'', gqPath = at_name_type domain rType name, gqBody = []\<rparr> s of
             (Inl e, s') \<Rightarrow> (Some ''godaddy: delete record'', s')
           | (Inr resp, s') \<Rightarrow> (if 400 \<le> gsStatus resp then (Some ''godaddy api'', s') else (None, s')))
      | _ \<Rightarrow> (Some ''godaddy: invalid record ID'', s))"

fun gd_ApplyRecords :: "'s gd_call \<Rightarrow> string \<Rightarrow> Record list \<Rightarrow> 's \<Rightarrow> string option \<times> 's" where
  "gd_ApplyRecords call domain [] s = (None, s)"
| "gd_ApplyRecords call domain (r # rs) s =
     (case gd_SetRecord call domain r s of
        (Some e, s') \<Rightarrow> (Some ''apply record'', s')
      | (None, s') \<Rightarrow> gd_ApplyRecords call domain rs s')"

subsection \<open>Facts\<close>

lemma gd_loop_final:
  assumes "attempt \<le> maxR" "gd_loop call req maxR attempt s = ((r, ws), s')"
  shows "length ws \<le> maxR - attempt
    \<and> (\<forall>resp. r = Inr resp \<longrightarrow> \<not> retryable (gsStatus resp) \<or> length ws = maxR - attempt)"
  using assms
proof (induction call req maxR attempt s arbitrary: r ws s' rule: gd_loop.induct)
  case (1 call req maxR attempt s)
  obtain o' s1 where c: "call s req = (o', s1)" by force
  note un = "1.prems"(2) [unfolded gd_loop.simps [of call req maxR attempt s] c prod.case]
  have lt: "\<not> maxR < attempt" using "1.prems"(1) by simp
  show ?case
  proof (cases o')
    case LimiterErr
    with un lt show ?thesis by auto
  next
    case NetErr
    show ?thesis
    proof (cases "attempt = maxR")
      case True
      with un lt NetErr show ?thesis by auto
    next
      case False
      obtain r1 ws1 s2 where l: "gd_loop call req maxR (Suc attempt) s1 = ((r1, ws1), s2)" by (metis prod.collapse)
      with un lt NetErr False have e: "r = r1" "ws = int (backoffDuration attempt) # ws1" by auto
      from False "1.prems"(1) have le: "Suc attempt \<le> maxR" by simp
      from "1.IH"(1) [OF lt c [symmetric] NetErr False le l] e le show ?thesis by auto
    qed
  next
    case (Resp resp)
    show ?thesis
    proof (cases "\<not> retryable (gsStatus resp) \<or> attempt = maxR")
      case True
      with un lt Resp show ?thesis by auto
    next
      case False
      obtain r1 ws1 s2 where l: "gd_loop call req maxR (Suc attempt) s1 = ((r1, ws1), s2)" by (metis prod.collapse)
      with un lt Resp False have e: "r = r1" "ws = retry_wait attempt (gsRetryAfter resp) # ws1" by auto
      from False "1.prems"(1) have le: "Suc attempt \<le> maxR" by simp
      from "1.IH"(2) [OF lt c [symmetric] Resp False le l] e le show ?thesis by auto
    qed
  qed
qed

lemma mergeGoDaddy_keeps:
  "filter (\<lambda>r. gdData r \<noteq> gdData new) (mergeGoDaddyRecords rs new) = filter (\<lambda>r. gdData r \<noteq> gdData new) rs
   \<and> new \<in> set (mergeGoDaddyRecords rs new)"
  by (induction rs) auto

subsection \<open>Properties\<close>


definition demo_gd :: "nat gd_call" where
  "demo_gd s req = (if s < 2 then Resp \<lparr>gsStatus = 429, gsRetryAfter = ''7'', gsRecords = None, gsDomains = None\<rparr>
     else Resp \<lparr>gsStatus = 200, gsRetryAfter = [], gsRecords = Some [], gsDomains = None\<rparr>, Suc s)"


text \<open>The read-modify-write sends, for the name and type of the record, the records that were
  read there with the record of the same data replaced: siblings with other data keep their place.\<close>

theorem gd_SetRecord_keeps_siblings:
  assumes "fetchRecords call (at_name_type d (recType rec) (gdName (gd_new_record d rec))) s = (Inr rs, s1)"
  shows "\<exists>body. gd_SetRecord call d rec s =
      (case gd_exchange call \<lparr>gqMethod = ''PUT'', gqPath = at_name_type d (recType rec) (gdName (gd_new_record d rec)),
          gqBody = body\<rparr> s1 of
         (Inl e, s2) \<Rightarrow> (Some ''godaddy: set record'', s2)
       | (Inr resp, s2) \<Rightarrow> (if 400 \<le> gsStatus resp then (Some ''godaddy api'', s2) else (None, s2)))
    \<and> filter (\<lambda>r. gdData r \<noteq> recContent rec) body = filter (\<lambda>r. gdData r \<noteq> recContent rec) rs
    \<and> gd_new_record d rec \<in> set body"
  using mergeGoDaddy_keeps [of "gd_new_record d rec" rs]
  by (intro exI [of _ "mergeGoDaddyRecords rs (gd_new_record d rec)"])
     (simp add: gd_SetRecord_def assms Let_def, simp add: gd_new_record_def)

lemma gd_SetRecord_keeps_siblings_witness:
  "\<exists>body. filter (\<lambda>r. gdData r \<noteq> ''x'') body = filter (\<lambda>r. gdData r \<noteq> ''x'') []
     \<and> gd_new_record ''example.com'' (mk_record ''TXT'' ''a.example.com'' ''x'' 60) \<in> set body"
proof -
  have "fetchRecords demo_gd (at_name_type ''example.com'' (recType (mk_record ''TXT'' ''a.example.com'' ''x'' 60))
      (gdName (gd_new_record ''example.com'' (mk_record ''TXT'' ''a.example.com'' ''x'' 60)))) 2 = (Inr [], 3)"
    by code_simp
  from gd_SetRecord_keeps_siblings [OF this] show ?thesis by auto
qed

text \<open>A defect: when the read fails, for whatever reason, the write still goes ahead with the
  new record alone, so that every other record of that name and type is lost.\<close>

theorem gd_SetRecord_wipes_on_failed_read:
  assumes "fetchRecords call (at_name_type d (recType rec) (gdName (gd_new_record d rec))) s = (Inl e, s1)"
  shows "gd_SetRecord call d rec s =
      (case gd_exchange call \<lparr>gqMethod = ''PUT'', gqPath = at_name_type d (recType rec) (gdName (gd_new_record d rec)),
          gqBody = [gd_new_record d rec]\<rparr> s1 of
         (Inl e, s2) \<Rightarrow> (Some ''godaddy: set record'', s2)
       | (Inr resp, s2) \<Rightarrow> (if 400 \<le> gsStatus resp then (Some ''godaddy api'', s2) else (None, s2)))"
  by (simp add: gd_SetRecord_def assms Let_def)

definition demo_gd_down :: "nat gd_call" where
  "demo_gd_down s req = (if s < 4 then NetErr else Resp \<lparr>gsStatus = 200, gsRetryAfter = [], gsRecords = None, gsDomains = None\<rparr>, Suc s)"

lemma gd_SetRecord_wipes_on_failed_read_witness:
  "gd_SetRecord demo_gd_down ''example.com'' (mk_record ''TXT'' ''a.example.com'' ''x'' 60) 0 = (None, 5)"
proof -
  have "fetchRecords demo_gd_down (at_name_type ''example.com'' (recType (mk_record ''TXT'' ''a.example.com'' ''x'' 60))
      (gdName (gd_new_record ''example.com'' (mk_record ''TXT'' ''a.example.com'' ''x'' 60)))) 0
    = (Inl ''godaddy: get records'', 4)"
    by code_simp
  note w = gd_SetRecord_wipes_on_failed_read [OF this]
  show ?thesis unfolding w by code_simp
qed

end
