(* ===== verification/Cloud_Providers.thy ===== *)
theory Cloud_Providers
  imports Push
begin

text \<open>
  The Cloudflare, Route 53 and Google Cloud DNS providers (\<open>providers/cloudflare\<close>,
  \<open>providers/route53\<close>, \<open>providers/gcdns\<close>). The vendors' clients are parameters: a record of the
  calls the provider makes, each a function of the service's state, \<open>Inl\<close> for an error.
\<close>

subsection \<open>Cloudflare\<close>

record 's cf_client =
  cfListZones :: "'s \<Rightarrow> string + Zone list"
  cfZoneIDByName :: "'s \<Rightarrow> string \<Rightarrow> string + string"
  cfListDNSRecords :: "'s \<Rightarrow> string \<Rightarrow> string \<Rightarrow> string \<Rightarrow> string + Record list"
  cfCreateDNSRecord :: "'s \<Rightarrow> string \<Rightarrow> Record \<Rightarrow> string option \<times> 's"
  cfUpdateDNSRecord :: "'s \<Rightarrow> string \<Rightarrow> Record \<Rightarrow> string option \<times> 's"
  cfDeleteDNSRecord :: "'s \<Rightarrow> string \<Rightarrow> string \<Rightarrow> string option \<times> 's"

definition cf_Verify :: "'s cf_client \<Rightarrow> 's \<Rightarrow> string + Zone list" where
  "cf_Verify C s = mapErr (\<lambda>_. ''list zones'') (cfListZones C s)"

lemma Index_less: "Index s p = Some i \<Longrightarrow> p \<noteq> [] \<Longrightarrow> i < length s"
  by (induction s arbitrary: i) (auto split: if_splits)

text \<open>The parent lookup: the loop drops the first label until a zone is found or no label is left.\<close>

function cf_resolve_loop :: "(string \<Rightarrow> string + string) \<Rightarrow> string \<Rightarrow> string + string" where
  "cf_resolve_loop lookup name =
     (case lookup name of
        Inr zid \<Rightarrow> Inr zid
      | Inl e \<Rightarrow>
          (case Index name ''.'' of
             None \<Rightarrow> Inl ''zone lookup''
           | Some idx \<Rightarrow>
               if idx = length name - 1 then Inl ''zone lookup''
               else cf_resolve_loop lookup (drop (idx + 1) name)))"
  by pat_completeness auto

termination
  by (relation "measure (\<lambda>(lookup, name). length name)") (auto dest: Index_less)

declare cf_resolve_loop.simps [simp del]

definition cf_resolveZoneID :: "'s cf_client \<Rightarrow> 's \<Rightarrow> string \<Rightarrow> string + string" where
  "cf_resolveZoneID C s domain = cf_resolve_loop (cfZoneIDByName C s) domain"

definition cf_GetRecords :: "'s cf_client \<Rightarrow> 's \<Rightarrow> string \<Rightarrow> string \<Rightarrow> string + Record list" where
  "cf_GetRecords C s domain recordType =
     bindE (cf_resolveZoneID C s domain) (\<lambda>zid.
     bindE (mapErr (\<lambda>_. ''list records'') (cfListDNSRecords C s zid recordType [])) (\<lambda>rs.
     Inr (map (\<lambda>r. (mk_record (recType r) (recName r) (recContent r) (recTTL r))\<lparr>recID := recID r\<rparr>) rs)))"

definition cf_SetRecord :: "'s cf_client \<Rightarrow> 's \<Rightarrow> string \<Rightarrow> Record \<Rightarrow> string option \<times> 's" where
  "cf_SetRecord C s domain rec =
     (case cf_resolveZoneID C s domain of
        Inl e \<Rightarrow> (Some e, s)
      | Inr zid \<Rightarrow>
          (case cfListDNSRecords C s zid (recType rec) (recName rec) of
             Inl e \<Rightarrow> (Some ''check existing'', s)
           | Inr existing \<Rightarrow>
               (let ttl = (if recTTL rec = 0 then 1 else recTTL rec);
                    new = mk_record (recType rec) (recName rec) (recContent rec) ttl in
                case existing of
                  e # _ \<Rightarrow>
                    (case cfUpdateDNSRecord C s zid (new\<lparr>recID := recID e\<rparr>) of
                       (Some err, s') \<Rightarrow> (Some ''update record'', s')
                     | (None, s') \<Rightarrow> (None, s'))
                | [] \<Rightarrow>
                    (case cfCreateDNSRecord C s zid new of
                       (Some err, s') \<Rightarrow> (Some ''create record'', s')
                     | (None, s') \<Rightarrow> (None, s')))))"

definition cf_DeleteRecord :: "'s cf_client \<Rightarrow> 's \<Rightarrow> string \<Rightarrow> string \<Rightarrow> string option \<times> 's" where
  "cf_DeleteRecord C s domain recordID =
     (case cf_resolveZoneID C s domain of
        Inl e \<Rightarrow> (Some e, s)
      | Inr zid \<Rightarrow>
          (case cfDeleteDNSRecord C s zid recordID of
             (Some err, s') \<Rightarrow> (Some ''delete record'', s')
           | (None, s') \<Rightarrow> (None, s')))"

definition cf_ops :: "'s cf_client \<Rightarrow> 's provider" where
  "cf_ops C = \<lparr>pvGet = cf_GetRecords C, pvSet = cf_SetRecord C, pvDelete = cf_DeleteRecord C\<rparr>"

definition cf_ApplyRecords :: "'s cf_client \<Rightarrow> string \<Rightarrow> Record list \<Rightarrow> 's \<Rightarrow> string option \<times> 's" where
  "cf_ApplyRecords C domain rs s = DefaultApplyRecords (cf_ops C) domain rs s"

subsection \<open>The zone with the longest matching name\<close>

definition zone_covers :: "string \<Rightarrow> string \<Rightarrow> bool" where
  "zone_covers domain name \<longleftrightarrow> name = domain \<or> HasSuffix domain (''.'' @ name)"

definition better_zone :: "string \<Rightarrow> Zone \<Rightarrow> Zone option \<Rightarrow> Zone option" where
  "better_zone domain z best =
     (if zone_covers domain (zoneName z) then
        (case best of
           None \<Rightarrow> Some z
         | Some b \<Rightarrow> if length (zoneName b) < length (zoneName z) then Some z else Some b)
      else best)"

definition best_zone :: "string \<Rightarrow> Zone list \<Rightarrow> Zone option" where
  "best_zone domain zs = fold (better_zone domain) zs None"

lemma best_zone_fold:
  assumes "fold (better_zone d) zs b = Some z"
  shows "(b = Some z \<or> (z \<in> set zs \<and> zone_covers d (zoneName z)))
    \<and> (\<forall>y \<in> set zs. zone_covers d (zoneName y) \<longrightarrow> length (zoneName y) \<le> length (zoneName z))
    \<and> (\<forall>y. b = Some y \<longrightarrow> length (zoneName y) \<le> length (zoneName z))"
  using assms
proof (induction zs arbitrary: b)
  case (Cons x zs)
  let ?b = "better_zone d x b"
  from Cons.IH [of ?b] Cons.prems have ih: "?b = Some z \<or> (z \<in> set zs \<and> zone_covers d (zoneName z))"
    "\<forall>y \<in> set zs. zone_covers d (zoneName y) \<longrightarrow> length (zoneName y) \<le> length (zoneName z)"
    "\<forall>y. ?b = Some y \<longrightarrow> length (zoneName y) \<le> length (zoneName z)" by simp_all
  have x: "zone_covers d (zoneName x) \<Longrightarrow> length (zoneName x) \<le> length (zoneName z)"
    using ih(3) by (auto simp: better_zone_def split: option.splits if_splits)
  have b: "b = Some y \<Longrightarrow> length (zoneName y) \<le> length (zoneName z)" for y
    using ih(3) by (auto simp: better_zone_def split: option.splits if_splits)
  have z: "?b = Some z \<Longrightarrow> b = Some z \<or> (z = x \<and> zone_covers d (zoneName x))"
    by (auto simp: better_zone_def split: option.splits if_splits)
  from ih(1,2) x b z show ?case by auto
qed simp

lemma best_zone_None: "fold (better_zone d) zs b = None \<longleftrightarrow> b = None \<and> (\<forall>y \<in> set zs. \<not> zone_covers d (zoneName y))"
proof (induction zs arbitrary: b)
  case (Cons x zs)
  then show ?case by (auto simp: better_zone_def split: option.splits if_splits)
qed simp

subsection \<open>Quoted texts\<close>

definition TrimChar :: "string \<Rightarrow> char \<Rightarrow> string" where
  "TrimChar s c = rev (dropWhile ((=) c) (rev (dropWhile ((=) c) s)))"

definition quote_content :: "string \<Rightarrow> string \<Rightarrow> string" where
  "quote_content typ content = (if typ = ''TXT'' then [CHR 0x22] @ content @ [CHR 0x22] else content)"

subsection \<open>Route 53\<close>

record rrset =
  rsName :: string
  rsType :: string
  rsTTL :: int
  rsValues :: "string list"

datatype r53_action = Upsert | Delete

record 's r53_client =
  r5ListHostedZones :: "'s \<Rightarrow> string + Zone list"
  r5ListHostedZonesByName :: "'s \<Rightarrow> string \<Rightarrow> string + Zone list"
  r5ListRecordSets :: "'s \<Rightarrow> string \<Rightarrow> string + rrset list"
  r5Change :: "'s \<Rightarrow> string \<Rightarrow> r53_action \<Rightarrow> rrset \<Rightarrow> string option \<times> 's"

definition r53_NewProvider :: "string \<Rightarrow> string \<Rightarrow> string \<Rightarrow> string + string \<times> string \<times> string" where
  "r53_NewProvider accessKey secretKey region =
     (if accessKey = [] then Inl ''route53: AccessKey required''
      else if secretKey = [] then Inl ''route53: SecretKey required''
      else Inr (accessKey, secretKey, if region = [] then ''us-east-1'' else region))"

definition r53_zone :: "Zone \<Rightarrow> Zone" where
  "r53_zone hz = \<lparr>zoneID = TrimPrefix (zoneID hz) ''/hostedzone/'', zoneName = TrimSuffix (zoneName hz) ''.'',
     zoneStatus = ''active''\<rparr>"

definition r53_Verify :: "'s r53_client \<Rightarrow> 's \<Rightarrow> string + Zone list" where
  "r53_Verify C s = bindE (mapErr (\<lambda>_. ''list hosted zones'') (r5ListHostedZones C s)) (\<lambda>zs. Inr (map r53_zone zs))"

definition r53_findZoneID :: "'s r53_client \<Rightarrow> 's \<Rightarrow> string \<Rightarrow> string + string" where
  "r53_findZoneID C s domain =
     bindE (mapErr (\<lambda>_. ''find zone'') (r5ListHostedZonesByName C s domain)) (\<lambda>zs.
       case best_zone domain (map r53_zone zs) of
         None \<Rightarrow> Inl ''no hosted zone found''
       | Some z \<Rightarrow> if zoneID z = [] then Inl ''no hosted zone found'' else Inr (zoneID z))"

definition rrset_records :: "rrset \<Rightarrow> Record list" where
  "rrset_records rs =
     (let name = TrimSuffix (rsName rs) ''.'' in
      map (\<lambda>v. (mk_record (rsType rs) name (TrimChar v CHR 0x22) (rsTTL rs))\<lparr>recID := name @ ''|'' @ rsType rs\<rparr>)
        (rsValues rs))"

definition r53_GetRecords :: "'s r53_client \<Rightarrow> 's \<Rightarrow> string \<Rightarrow> string \<Rightarrow> string + Record list" where
  "r53_GetRecords C s domain recordType =
     bindE (r53_findZoneID C s domain) (\<lambda>zid.
     bindE (mapErr (\<lambda>_. ''list records'') (r5ListRecordSets C s zid)) (\<lambda>sets.
     Inr (concat (map rrset_records (filter (\<lambda>rs. recordType = [] \<or> rsType rs = recordType) sets)))))"

definition r53_SetRecord :: "'s r53_client \<Rightarrow> 's \<Rightarrow> string \<Rightarrow> Record \<Rightarrow> string option \<times> 's" where
  "r53_SetRecord C s domain rec =
     (case r53_findZoneID C s domain of
        Inl e \<Rightarrow> (Some e, s)
      | Inr zid \<Rightarrow>
          (let ttl = (if recTTL rec = 0 then 300 else recTTL rec) in
           case r5Change C s zid Upsert \<lparr>rsName = recName rec, rsType = recType rec, rsTTL = ttl,
                  rsValues = [quote_content (recType rec) (recContent rec)]\<rparr> of
             (Some e, s') \<Rightarrow> (Some ''upsert record'', s')
           | (None, s') \<Rightarrow> (None, s')))"

definition r53_DeleteRecord :: "'s r53_client \<Rightarrow> 's \<Rightarrow> string \<Rightarrow> string \<Rightarrow> string option \<times> 's" where
  "r53_DeleteRecord C s domain recordID =
     (case r53_findZoneID C s domain of
        Inl e \<Rightarrow> (Some e, s)
      | Inr zid \<Rightarrow>
          (case SplitN2 recordID CHR ''|'' of
             [name, rType] \<Rightarrow>
               (case r53_GetRecords C s domain rType of
                  Inl e \<Rightarrow> (Some e, s)
                | Inr records \<Rightarrow>
                    (case findRecord records name of
                       None \<Rightarrow> (Some ''record not found'', s)
                     | Some r \<Rightarrow> r5Change C s zid Delete \<lparr>rsName = name, rsType = rType, rsTTL = recTTL r,
                         rsValues = [quote_content rType (recContent r)]\<rparr>))
           | _ \<Rightarrow> (Some ''invalid record ID format'', s)))"

definition r53_ops :: "'s r53_client \<Rightarrow> 's provider" where
  "r53_ops C = \<lparr>pvGet = r53_GetRecords C, pvSet = r53_SetRecord C, pvDelete = r53_DeleteRecord C\<rparr>"

definition r53_ApplyRecords :: "'s r53_client \<Rightarrow> string \<Rightarrow> Record list \<Rightarrow> 's \<Rightarrow> string option \<times> 's" where
  "r53_ApplyRecords C domain rs s = DefaultApplyRecords (r53_ops C) domain rs s"

subsection \<open>Google Cloud DNS\<close>

record 's gc_client =
  gcManagedZones :: "'s \<Rightarrow> string + Zone list"
  gcRRSets :: "'s \<Rightarrow> string \<Rightarrow> string \<Rightarrow> string \<Rightarrow> string + rrset list"
  gcChange :: "'s \<Rightarrow> string \<Rightarrow> rrset list \<Rightarrow> rrset list \<Rightarrow> string option \<times> 's"
  gcDeleteRRSet :: "'s \<Rightarrow> string \<Rightarrow> string \<Rightarrow> string \<Rightarrow> string option \<times> 's"

definition gc_NewProvider :: "string \<Rightarrow> string \<Rightarrow> string + string \<times> string" where
  "gc_NewProvider accessToken projectID =
     (if accessToken = [] then Inl ''gcdns: Token required''
      else if projectID = [] then Inl ''gcdns: ProjectID required''
      else Inr (accessToken, projectID))"

definition gc_Verify :: "'s gc_client \<Rightarrow> 's \<Rightarrow> string + Zone list" where
  "gc_Verify C s = bindE (gcManagedZones C s) (\<lambda>zs.
     Inr (map (\<lambda>mz. \<lparr>zoneID = zoneID mz, zoneName = TrimSuffix (zoneName mz) ''.'', zoneStatus = ''active''\<rparr>) zs))"

definition gc_findZoneID :: "'s gc_client \<Rightarrow> 's \<Rightarrow> string \<Rightarrow> string + string" where
  "gc_findZoneID C s domain = bindE (gc_Verify C s) (\<lambda>zs.
     case best_zone domain zs of None \<Rightarrow> Inl ''gcdns: no managed zone found'' | Some z \<Rightarrow> Inr (zoneID z))"

definition gc_GetRecords :: "'s gc_client \<Rightarrow> 's \<Rightarrow> string \<Rightarrow> string \<Rightarrow> string + Record list" where
  "gc_GetRecords C s domain recordType =
     bindE (gc_findZoneID C s domain) (\<lambda>zid.
     bindE (gcRRSets C s zid [] recordType) (\<lambda>sets. Inr (concat (map rrset_records sets))))"

definition gc_getRRSet :: "'s gc_client \<Rightarrow> 's \<Rightarrow> string \<Rightarrow> string \<Rightarrow> string \<Rightarrow> string + rrset option" where
  "gc_getRRSet C s zid name rType =
     bindE (gcRRSets C s zid name rType) (\<lambda>sets. Inr (find (\<lambda>rs. rsName rs = name \<and> rsType rs = rType) sets))"

definition with_dot :: "string \<Rightarrow> string" where
  "with_dot name = (if \<not> HasSuffix name ''.'' then name @ ''.'' else name)"

definition gc_SetRecord :: "'s gc_client \<Rightarrow> 's \<Rightarrow> string \<Rightarrow> Record \<Rightarrow> string option \<times> 's" where
  "gc_SetRecord C s domain rec =
     (case gc_findZoneID C s domain of
        Inl e \<Rightarrow> (Some e, s)
      | Inr zid \<Rightarrow>
          (let ttl = (if recTTL rec = 0 then 300 else recTTL rec); name = with_dot (recName rec);
               new = \<lparr>rsName = name, rsType = recType rec, rsTTL = ttl,
                      rsValues = [quote_content (recType rec) (recContent rec)]\<rparr> in
           case gc_getRRSet C s zid name (recType rec) of
             Inl e \<Rightarrow> (Some ''gcdns: lookup existing rrset'', s)
           | Inr existing \<Rightarrow>
               (case gcChange C s zid [new] (case existing of Some rs \<Rightarrow> [rs] | None \<Rightarrow> []) of
                  (Some e, s') \<Rightarrow> (Some ''gcdns: apply change'', s')
                | (None, s') \<Rightarrow> (None, s'))))"

definition gc_DeleteRecord :: "'s gc_client \<Rightarrow> 's \<Rightarrow> string \<Rightarrow> string \<Rightarrow> string option \<times> 's" where
  "gc_DeleteRecord C s domain recordID =
     (case gc_findZoneID C s domain of
        Inl e \<Rightarrow> (Some e, s)
      | Inr zid \<Rightarrow>
          (case SplitN2 recordID CHR ''|'' of
             [name, rType] \<Rightarrow> gcDeleteRRSet C s zid (with_dot name) rType
           | _ \<Rightarrow> (Some ''gcdns: invalid record ID'', s)))"

definition gc_ops :: "'s gc_client \<Rightarrow> 's provider" where
  "gc_ops C = \<lparr>pvGet = gc_GetRecords C, pvSet = gc_SetRecord C, pvDelete = gc_DeleteRecord C\<rparr>"

definition gc_ApplyRecords :: "'s gc_client \<Rightarrow> string \<Rightarrow> Record list \<Rightarrow> 's \<Rightarrow> string option \<times> 's" where
  "gc_ApplyRecords C domain rs s = DefaultApplyRecords (gc_ops C) domain rs s"

text \<open>\<open>discoverGCPProject\<close>: \<open>zones_of\<close> is the number of zones a project reports, \<open>None\<close> where the
  request, its status or its body fails.\<close>

definition discoverGCPProject :: "string + string list \<Rightarrow> (string \<Rightarrow> string \<Rightarrow> nat option) \<Rightarrow> string \<Rightarrow> string + string" where
  "discoverGCPProject projects zones_of domain =
     bindE projects (\<lambda>ps.
       case find (\<lambda>p. case zones_of p (domain @ ''.'') of Some n \<Rightarrow> 0 < n | None \<Rightarrow> False) ps of
         Some p \<Rightarrow> Inr p
       | None \<Rightarrow> Inl ''gcdns: no GCP project found with DNS zone'')"

subsection \<open>Facts\<close>

text \<open>The parents of a name, as the loop of Cloudflare visits them.\<close>

function parents :: "string \<Rightarrow> string list" where
  "parents name = name # (case Index name ''.'' of
      None \<Rightarrow> []
    | Some idx \<Rightarrow> if idx = length name - 1 then [] else parents (drop (idx + 1) name))"
  by pat_completeness auto
termination
  by (relation "measure length") (auto dest: Index_less)

declare parents.simps [simp del]

lemma cf_resolve_first:
  "cf_resolve_loop f name =
     (case find (\<lambda>n. \<exists>z. f n = Inr z) (parents name) of
        Some n \<Rightarrow> f n
      | None \<Rightarrow> Inl ''zone lookup'')"
proof (induction f name rule: cf_resolve_loop.induct)
  case (1 f name)
  show ?case
    by (subst cf_resolve_loop.simps, subst parents.simps)
      (use 1 in \<open>auto split: sum.splits option.splits\<close>)
qed

lemma trim_quoted:
  "TrimChar (quote_content ''TXT'' c) CHR 0x22 = c \<longleftrightarrow> c = [] \<or> (hd c \<noteq> CHR 0x22 \<and> last c \<noteq> CHR 0x22)"
proof -
  let ?q = "CHR 0x22"
  have id: "dropWhile ((=) ?q) c = c \<longleftrightarrow> c = [] \<or> hd c \<noteq> ?q" for c
  proof (cases c)
    case (Cons a b)
    have "length (dropWhile ((=) ?q) b) \<le> length b" by (rule length_dropWhile_le)
    then have "dropWhile ((=) ?q) b \<noteq> a # b" by auto
    with Cons show ?thesis by auto
  qed simp
  have all: "TrimChar (quote_content ''TXT'' c) ?q = TrimChar c ?q"
  proof (cases "\<forall>x \<in> set c. x = ?q")
    case True
    then have 1: "dropWhile ((=) ?q) (c @ [?q]) = []" and 2: "dropWhile ((=) ?q) c = []"
      by (simp_all only: dropWhile_eq_Nil_conv) auto
    have "dropWhile ((=) ?q) (quote_content ''TXT'' c) = []" using 1 by (simp add: quote_content_def)
    with 2 show ?thesis by (simp only: TrimChar_def)
  next
    case False
    then obtain x where "x \<in> set c" "?q \<noteq> x" by auto
    then have "dropWhile ((=) ?q) (c @ [?q]) = dropWhile ((=) ?q) c @ [?q]" by (intro dropWhile_append1) auto
    then show ?thesis by (simp add: TrimChar_def quote_content_def)
  qed
  have len: "length (dropWhile ((=) ?q) c) \<le> length c" for c by (rule length_dropWhile_le)
  show ?thesis
  proof
    assume "TrimChar (quote_content ''TXT'' c) ?q = c"
    then have t: "rev (dropWhile ((=) ?q) (rev (dropWhile ((=) ?q) c))) = c"
      unfolding all unfolding TrimChar_def .
    have "length (dropWhile ((=) ?q) c) = length c"
      using arg_cong [OF t, of length] len [of c] len [of "rev (dropWhile ((=) ?q) c)"] by simp
    then have d: "dropWhile ((=) ?q) c = c"
      by (metis dropWhile_eq_drop drop_eq_Nil diff_is_0_eq length_drop append_Nil takeWhile_dropWhile_id
          length_append add_cancel_left_left length_0_conv)
    with t have "dropWhile ((=) ?q) (rev c) = rev c" by (metis rev_rev_ident)
    with d id [of c] id [of "rev c"] show "c = [] \<or> (hd c \<noteq> ?q \<and> last c \<noteq> ?q)" by (auto simp: hd_rev)
  next
    assume "c = [] \<or> (hd c \<noteq> ?q \<and> last c \<noteq> ?q)"
    then have "dropWhile ((=) ?q) c = c" "dropWhile ((=) ?q) (rev c) = rev c"
      using id [of c] id [of "rev c"] by (auto simp: hd_rev)
    then show "TrimChar (quote_content ''TXT'' c) ?q = c" unfolding all by (simp add: TrimChar_def)
  qed
qed

subsection \<open>Properties\<close>

text \<open>The parent lookup of Cloudflare always ends, with the zone of the first of the name and its
  parents, longest first, that the service knows, and with an error exactly when it knows none.\<close>

theorem cf_resolveZoneID_first_parent:
  "cf_resolveZoneID C s domain =
     (case find (\<lambda>n. \<exists>z. cfZoneIDByName C s n = Inr z) (parents domain) of
        Some n \<Rightarrow> cfZoneIDByName C s n
      | None \<Rightarrow> Inl ''zone lookup'')"
  unfolding cf_resolveZoneID_def by (rule cf_resolve_first)

text \<open>The zone chosen for a domain covers it, and no covering zone has a longer name, so records of a
  delegated subdomain go to its own zone; none is chosen exactly when no zone covers the domain.\<close>

theorem best_zone_longest:
  "(case best_zone domain zs of
      Some z \<Rightarrow> z \<in> set zs \<and> zone_covers domain (zoneName z)
        \<and> length (zoneName z) = Max ((\<lambda>y. length (zoneName y)) ` {y \<in> set zs. zone_covers domain (zoneName y)})
    | None \<Rightarrow> {y \<in> set zs. zone_covers domain (zoneName y)} = {})"
proof (cases "best_zone domain zs")
  case None
  then have "\<forall>y \<in> set zs. \<not> zone_covers domain (zoneName y)" by (simp add: best_zone_def best_zone_None)
  with None show ?thesis by auto
next
  case (Some z)
  from best_zone_fold [OF Some [unfolded best_zone_def]]
  have z: "z \<in> set zs" "zone_covers domain (zoneName z)"
    and m: "\<forall>y \<in> set zs. zone_covers domain (zoneName y) \<longrightarrow> length (zoneName y) \<le> length (zoneName z)" by auto
  have "Max ((\<lambda>y. length (zoneName y)) ` {y \<in> set zs. zone_covers domain (zoneName y)}) = length (zoneName z)"
    by (rule Max_eqI) (use z m in auto)
  with z Some show ?thesis by simp
qed

text \<open>A text that Route 53 and Google Cloud DNS store in quotes is read back as it was written
  exactly when it neither begins nor ends with a quote.\<close>

theorem quoted_txt_roundtrip:
  "TrimChar (quote_content ''TXT'' c) CHR 0x22 = c \<longleftrightarrow> c = [] \<or> (hd c \<noteq> CHR 0x22 \<and> last c \<noteq> CHR 0x22)"
  by (rule trim_quoted)

end
