(* ===== verification/Detect.thy ===== *)
theory Detect
  imports Dns_Types
begin

text \<open>
  DNS provider detection (\<open>detect.go\<close>): the pattern tables, classification of name servers, and the
  RDAP fallback. Name server and RDAP lookups are parameters; an RDAP answer is its decoded
  entities, \<open>None\<close> where the request, its status or its JSON fails.
\<close>

record DetectionResult =
  drProvider :: string
  drLabel :: string
  drSupported :: bool
  drNameservers :: "string list"
  drMethod :: string

definition nsPatterns :: "(string \<times> string) list" where
  "nsPatterns = [(''cloudflare.com'', ''cloudflare''), (''awsdns'', ''route53''),
     (''domaincontrol.com'', ''godaddy''), (''godaddy.com'', ''godaddy''),
     (''googledomains.com'', ''google_cloud_dns''), (''squarespace'', ''squarespace''),
     (''namecheap'', ''namecheap''), (''hover.com'', ''hover''),
     (''digitalocean.com'', ''digitalocean''), (''hetzner.com'', ''hetzner''),
     (''registrar-servers.com'', ''namecheap''), (''dns-parking.com'', ''namecheap''),
     (''nsone.net'', ''ns1''), (''dnsv.jp'', ''dnsv''), (''linode.com'', ''linode''),
     (''vultr.com'', ''vultr''), (''dnsimple.com'', ''dnsimple'')]"

definition providerLabels :: "(string \<times> string) list" where
  "providerLabels = [(''cloudflare'', ''Cloudflare''), (''route53'', ''Amazon Route 53''),
     (''godaddy'', ''GoDaddy''), (''google_cloud_dns'', ''Google Cloud DNS''),
     (''squarespace'', ''Squarespace''), (''namecheap'', ''Namecheap''), (''hover'', ''Hover''),
     (''digitalocean'', ''DigitalOcean''), (''hetzner'', ''Hetzner''), (''ns1'', ''NS1''),
     (''dnsv'', ''DNSV''), (''linode'', ''Linode''), (''vultr'', ''Vultr''),
     (''dnsimple'', ''DNSimple'')]"

definition tier1Providers :: "string list" where
  "tier1Providers = [''cloudflare'', ''route53'', ''godaddy'', ''google_cloud_dns'', ''namecheap'']"

definition registrarPatterns :: "(string \<times> string) list" where
  "registrarPatterns = [(''squarespace'', ''squarespace''), (''godaddy'', ''godaddy''),
     (''cloudflare'', ''cloudflare''), (''namecheap'', ''namecheap''), (''amazon'', ''route53''),
     (''route 53'', ''route53''), (''google'', ''google_cloud_dns''), (''hover'', ''hover''),
     (''digitalocean'', ''digitalocean''), (''hetzner'', ''hetzner'')]"

definition label_of :: "string \<Rightarrow> string" where
  "label_of p = (case map_of providerLabels p of Some l \<Rightarrow> l | None \<Rightarrow> [])"

text \<open>The first pattern that is a substring of the lower-case text.\<close>

definition first_pattern :: "(string \<times> string) list \<Rightarrow> string \<Rightarrow> string option" where
  "first_pattern pats s = map_option snd (find (\<lambda>(pat, p). Contains (ToLower s) pat) pats)"

fun first_host :: "string list \<Rightarrow> string option" where
  "first_host [] = None"
| "first_host (h # hs) = (case first_pattern nsPatterns h of Some p \<Rightarrow> Some p | None \<Rightarrow> first_host hs)"

definition DetectFromNS :: "string list \<Rightarrow> DetectionResult" where
  "DetectFromNS hosts =
     (case first_host hosts of
        Some p \<Rightarrow> \<lparr>drProvider = p, drLabel = label_of p, drSupported = p \<in> set tier1Providers,
                  drNameservers = hosts, drMethod = ''ns_pattern''\<rparr>
      | None \<Rightarrow> \<lparr>drProvider = [], drLabel = [], drSupported = False, drNameservers = hosts, drMethod = ''ns_pattern''\<rparr>)"

definition registrarToProvider :: "string \<Rightarrow> string" where
  "registrarToProvider registrar = (case first_pattern registrarPatterns registrar of Some p \<Rightarrow> p | None \<Rightarrow> [])"

subsection \<open>RDAP\<close>

definition last_label :: "string \<Rightarrow> string" where
  "last_label domain = rev (takeWhile ((\<noteq>) CHR ''.'') (rev domain))"

definition rdapEndpoints :: "string \<Rightarrow> string list" where
  "rdapEndpoints domain =
     (let tld = last_label domain in
      if tld \<in> {''com'', ''net''} then [''https://rdap.verisign.com/'' @ tld @ ''/v1/domain/'' @ domain]
      else if tld = ''org'' then [''https://rdap.org/domain/'' @ domain]
      else if tld = ''io'' then [''https://rdap.nic.io/domain/'' @ domain]
      else [''https://rdap.identitydigital.services/rdap/domain/'' @ domain,
            ''https://rdap.verisign.com/com/v1/domain/'' @ domain,
            ''https://rdap.org/domain/'' @ domain])"

text \<open>An entity has its roles and the fields of its vCard: the name of the field and its fourth item,
  where these are strings. \<open>None\<close> is a vCard that is missing or does not decode.\<close>

record rdap_entity =
  reRoles :: "string list"
  reVCard :: "(string \<times> string) list option"

definition entity_name :: "rdap_entity \<Rightarrow> string option" where
  "entity_name e =
     (if ''registrar'' \<in> set (reRoles e)
      then (case reVCard e of
              None \<Rightarrow> None
            | Some vs \<Rightarrow> map_option snd (find (\<lambda>(n, v). n = ''fn'' \<and> v \<noteq> []) vs))
      else None)"

fun first_some :: "('a \<Rightarrow> 'b option) \<Rightarrow> 'a list \<Rightarrow> 'b option" where
  "first_some f [] = None"
| "first_some f (x # xs) = (case f x of Some y \<Rightarrow> Some y | None \<Rightarrow> first_some f xs)"

definition lookupRegistrar :: "(string \<Rightarrow> rdap_entity list option) \<Rightarrow> string \<Rightarrow> string" where
  "lookupRegistrar rdap domain =
     (case first_some (\<lambda>url. case rdap url of None \<Rightarrow> None | Some es \<Rightarrow> first_some entity_name es)
        (rdapEndpoints domain) of
        Some n \<Rightarrow> n | None \<Rightarrow> [])"

definition DetectProvider ::
  "(string \<Rightarrow> string list option) \<Rightarrow> (string \<Rightarrow> rdap_entity list option) \<Rightarrow> string \<Rightarrow> string + DetectionResult" where
  "DetectProvider lookupNS rdap domain =
     (case lookupNS domain of
        None \<Rightarrow> Inl ''lookup NS''
      | Some hs \<Rightarrow>
          (let result = DetectFromNS (map (\<lambda>h. ToLower (TrimSuffix h ''.'')) hs);
               ambiguous = (drProvider result = [] \<or> drProvider result = ProviderGoogleCloudDNS) in
           if ambiguous then
             (let registrar = lookupRegistrar rdap domain;
                  override = (if registrar \<noteq> [] then registrarToProvider registrar else []) in
              if override \<noteq> [] \<and> override \<noteq> drProvider result
              then Inr (result\<lparr>drProvider := override, drLabel := label_of override,
                     drSupported := override \<in> set tier1Providers, drMethod := ''rdap_fallback''\<rparr>)
              else Inr result)
           else Inr result))"

subsection \<open>Facts\<close>

definition result_consistent :: "DetectionResult \<Rightarrow> bool" where
  "result_consistent r \<longleftrightarrow> drLabel r = label_of (drProvider r) \<and> drSupported r = (drProvider r \<in> set tier1Providers)
     \<and> (drProvider r \<noteq> [] \<longrightarrow> drLabel r \<noteq> []) \<and> (drSupported r \<longrightarrow> drProvider r \<noteq> [])"

lemma tables_labelled:
  "list_all (\<lambda>p. p \<noteq> [] \<and> label_of p \<noteq> []) (map snd nsPatterns @ map snd registrarPatterns)"
  "label_of [] = []" "[] \<notin> set tier1Providers"
  by code_simp+

lemma first_pattern_in: "first_pattern pats s = Some p \<Longrightarrow> p \<in> snd ` set pats"
  by (force simp: first_pattern_def find_Some_iff in_set_conv_nth)

lemma provider_consistent:
  assumes "p \<in> snd ` set nsPatterns \<union> snd ` set registrarPatterns"
  shows "p \<noteq> [] \<and> label_of p \<noteq> []"
  using assms tables_labelled(1) by (auto simp: list_all_iff)

lemma first_host_in: "first_host hs = Some p \<Longrightarrow> p \<in> snd ` set nsPatterns"
  by (induction hs) (auto dest: first_pattern_in split: option.splits)

lemma DetectFromNS_consistent: "result_consistent (DetectFromNS hosts)"
  using tables_labelled(2,3) provider_consistent first_host_in [of hosts]
  by (auto simp: DetectFromNS_def result_consistent_def split: option.split)

lemma DetectProvider_consistent:
  assumes "DetectProvider lookupNS rdap domain = Inr r"
  shows "result_consistent r"
proof -
  have reg: "registrarToProvider x \<noteq> [] \<Longrightarrow> label_of (registrarToProvider x) \<noteq> []" for x
    using provider_consistent first_pattern_in [of registrarPatterns x]
    by (auto simp: registrarToProvider_def split: option.splits)
  from assms obtain hs where c: "r = DetectFromNS hs \<or> (\<exists>x. registrarToProvider x \<noteq> [] \<and>
      r = (DetectFromNS hs)\<lparr>drProvider := registrarToProvider x, drLabel := label_of (registrarToProvider x),
        drSupported := registrarToProvider x \<in> set tier1Providers, drMethod := ''rdap_fallback''\<rparr>)"
    by (auto simp: DetectProvider_def Let_def split: option.splits if_splits)
  then show ?thesis
    using DetectFromNS_consistent reg by (auto simp: result_consistent_def)
qed

subsection \<open>Properties\<close>

text \<open>Every detection, by name server pattern or by registrar, is consistent with the tables: a
  detected provider has its label, and it is reported as supported exactly when it is one of the
  providers with an API.\<close>

theorem detection_consistent:
  assumes "DetectProvider lookupNS rdap domain = Inr r"
  shows "result_consistent r"
  by (rule DetectProvider_consistent [OF assms])

lemma detection_consistent_witness:
  "drProvider \<lparr>drProvider = ''godaddy'', drLabel = ''GoDaddy'', drSupported = True, drNameservers = [''ns1.x.org''], drMethod = ''rdap_fallback''\<rparr>
    \<noteq> []"
proof -
  have "DetectProvider (\<lambda>d. Some [''NS1.x.org.'']) (\<lambda>u. if u = ''https://rdap.org/domain/x.org''
        then Some [\<lparr>reRoles = [''registrar''], reVCard = Some [(''fn'', ''GoDaddy.com, LLC'')]\<rparr>] else None) ''x.org''
    = Inr \<lparr>drProvider = ''godaddy'', drLabel = ''GoDaddy'', drSupported = True, drNameservers = [''ns1.x.org''], drMethod = ''rdap_fallback''\<rparr>"
    by code_simp
  from detection_consistent [OF this] show ?thesis by (simp add: result_consistent_def)
qed

end
