(* ===== verification/Esp.thy ===== *)
theory Esp
  imports Spf
begin

text \<open>
  Sender classification (package \<open>esp\<close>): the catalogs, lookup by SPF include and by DKIM target,
  the walk of the include chain that looks for Amazon SES, and the merge of the two kinds of
  evidence. The TXT and CNAME resolvers are parameters. The \<open>seen\<close> map that the walk mutates is
  threaded through as a list, and \<open>11 - depth\<close> of the code is the walk's first argument.
\<close>

record ESPInfo =
  eiName :: string
  eiCategory :: string
  eiInfrastructure :: string
  eiIntegration :: string

record SenderClassification =
  scName :: string
  scCategory :: string
  scInfrastructure :: string
  scIntegration :: string
  scSPFSource :: string
  scDKIMSelector :: string
  scDKIMTarget :: string
  scViaChain :: bool

abbreviation "InfraSES \<equiv> ''ses''"
abbreviation "InfraSESMixed \<equiv> ''ses_mixed''"

definition amazonses :: string where
  "amazonses = ''amazonses.com''"

definition esp_info :: "string \<Rightarrow> string \<Rightarrow> string \<Rightarrow> string \<Rightarrow> ESPInfo" where
  "esp_info n c i g = \<lparr>eiName = n, eiCategory = c, eiInfrastructure = i, eiIntegration = g\<rparr>"

subsection \<open>Catalogs\<close>

definition Catalog :: "(string \<times> ESPInfo) list" where
  "Catalog = [
     (''_spf.resend.com'', esp_info ''Resend'' ''esp'' ''ses'' ''resend_api''),
     (''_spf.loops.so'', esp_info ''Loops'' ''esp'' ''ses'' ''loops_api''),
     (''_spf.bentonow.com'', esp_info ''Bento'' ''esp'' ''ses'' ''bento_api''),
     (''_spf.customeriomail.com'', esp_info ''Customer.io'' ''esp'' ''ses'' ''customerio_api''),
     (''_spf.customer.io'', esp_info ''Customer.io'' ''esp'' ''ses'' ''customerio_api''),
     (''_spf.stripemail.com'', esp_info ''Stripe'' ''esp'' ''ses'' ''stripe_managed''),
     (''_spf.salesforce.com'', esp_info ''Salesforce'' ''esp'' ''ses'' ''salesforce_oauth''),
     (''_spfg.salesforce.com'', esp_info ''Salesforce'' ''esp'' ''ses'' ''salesforce_oauth''),
     (''servers.mcsv.net'', esp_info ''Mailchimp'' ''esp'' ''ses_mixed'' ''mailchimp_api''),
     (''_spf.mcsv.net'', esp_info ''Mailchimp / Pardot'' ''esp'' ''ses_mixed'' ''mailchimp_api''),
     (''amazonses.com'', esp_info ''Amazon SES'' ''infra'' ''ses'' ''aws_iam''),
     (''sendgrid.net'', esp_info ''SendGrid'' ''esp'' ''twilio'' ''sendgrid_api''),
     (''sendgrid.com'', esp_info ''SendGrid'' ''esp'' ''twilio'' ''sendgrid_api''),
     (''spf.mtasv.net'', esp_info ''Postmark'' ''esp'' ''postmark'' ''postmark_api''),
     (''mailgun.org'', esp_info ''Mailgun'' ''esp'' ''mailgun'' ''mailgun_api''),
     (''mg.mailgun.org'', esp_info ''Mailgun'' ''esp'' ''mailgun'' ''mailgun_api''),
     (''spf.hubspot.com'', esp_info ''HubSpot'' ''esp'' ''hubspot'' ''hubspot_api''),
     (''sendinblue.com'', esp_info ''Brevo (Sendinblue)'' ''esp'' [] ''manual''),
     (''spf.brevo.com'', esp_info ''Brevo'' ''esp'' [] ''manual''),
     (''cust-spf.exacttarget.com'', esp_info ''Salesforce Marketing Cloud'' ''esp'' ''exacttarget'' ''manual''),
     (''_spf.exacttarget.com'', esp_info ''Salesforce Marketing Cloud'' ''esp'' ''exacttarget'' ''manual''),
     (''_spf.google.com'', esp_info ''Google Workspace'' ''mailbox'' ''google'' ''google_oauth''),
     (''spf.protection.outlook.com'', esp_info ''Microsoft 365'' ''mailbox'' ''microsoft'' ''m365_oauth''),
     (''one.zoho.com'', esp_info ''Zoho Mail'' ''mailbox'' ''zoho'' ''zoho_api''),
     (''_spf.zoho.com'', esp_info ''Zoho Mail'' ''mailbox'' ''zoho'' ''zoho_api''),
     (''spf.messagingengine.com'', esp_info ''Fastmail'' ''mailbox'' ''fastmail'' ''manual''),
     (''icloud.com'', esp_info ''iCloud Mail'' ''mailbox'' ''apple'' ''manual'')]"

definition DKIMTargetCatalog :: "(string \<times> ESPInfo) list" where
  "DKIMTargetCatalog = [
     (''dkim.amazonses.com'', esp_info ''Amazon SES'' ''infra'' ''ses'' ''aws_iam''),
     (''sendgrid.net'', esp_info ''SendGrid'' ''esp'' ''twilio'' ''sendgrid_api''),
     (''resend.com'', esp_info ''Resend'' ''esp'' ''ses'' ''resend_api''),
     (''pm.mtasv.net'', esp_info ''Postmark'' ''esp'' ''postmark'' ''postmark_api''),
     (''mailgun.org'', esp_info ''Mailgun'' ''esp'' ''mailgun'' ''mailgun_api''),
     (''mcsv.net'', esp_info ''Mailchimp'' ''esp'' ''ses_mixed'' ''mailchimp_api''),
     (''hubspotemail.net'', esp_info ''HubSpot'' ''esp'' ''hubspot'' ''hubspot_api''),
     (''salesforce.com'', esp_info ''Salesforce'' ''esp'' ''ses'' ''salesforce_oauth''),
     (''gappssmtp.com'', esp_info ''Google Workspace'' ''mailbox'' ''google'' ''google_oauth''),
     (''outbound.protection.outlook.com'', esp_info ''Microsoft 365'' ''mailbox'' ''microsoft'' ''m365_oauth''),
     (''zoho.com'', esp_info ''Zoho Mail'' ''mailbox'' ''zoho'' ''zoho_api''),
     (''loops.so'', esp_info ''Loops'' ''esp'' ''ses'' ''loops_api''),
     (''customeriomail.com'', esp_info ''Customer.io'' ''esp'' ''ses'' ''customerio_api'')]"

definition DefaultDKIMSelectors :: "string list" where
  "DefaultDKIMSelectors = [
     ''google'', ''selector1'', ''selector2'', ''s1'', ''s2'', ''mte1'', ''mte2'', ''k1'', ''k2'',
     ''k3'', ''resend'', ''resend2'', ''pm'', ''pm-bounces'', ''mailo'', ''smtp'', ''default'',
     ''dkim'', ''email'', ''loops'', ''bento'', ''cm'', ''salesforce'', ''sfdc'',
     ''hs1-hubspotemail'', ''hs2-hubspotemail'']"

definition LookupByInclude :: "string \<Rightarrow> ESPInfo option" where
  "LookupByInclude inc = map_of Catalog (ToLower (TrimSpace inc))"

text \<open>The loop of \<open>LookupByDKIMTarget\<close>: the table is tried on the host, then on the host without its
  first label, until there is no dot left or nothing left.\<close>

function dkim_suffix :: "string \<Rightarrow> ESPInfo option" where
  "dkim_suffix host =
     (if host = [] then None
      else case map_of DKIMTargetCatalog host of
        Some info \<Rightarrow> Some info
      | None \<Rightarrow> (case Index host ''.'' of
          None \<Rightarrow> None
        | Some idx \<Rightarrow> dkim_suffix (drop (idx + 1) host)))"
  by pat_completeness auto
termination
  by (relation "measure length") (auto dest: Index_SomeD)

declare dkim_suffix.simps [simp del]

definition LookupByDKIMTarget :: "string \<Rightarrow> ESPInfo option" where
  "LookupByDKIMTarget target = dkim_suffix (ToLower (TrimSuffix (TrimSpace target) ''.''))"

subsection \<open>The include chain\<close>

text \<open>The hosts that a policy refers to: the \<open>include:\<close> and \<open>redirect=\<close> cases of the switch.\<close>

definition chain_target :: "string \<Rightarrow> string option" where
  "chain_target tok =
     (if HasPrefix tok ''include:''
      then Some (TrimSuffix (stripQualifier (TrimPrefix tok ''include:'')) ''.'')
      else if HasPrefix tok ''redirect='' then Some (TrimSuffix (TrimPrefix tok ''redirect='') ''.'')
      else None)"

definition chain_targets :: "string list \<Rightarrow> string list" where
  "chain_targets txts =
     concat (map (\<lambda>txt. let low = ToLower (TrimSpace txt) in
       if HasPrefix low ''v=spf1'' then List.map_filter chain_target (Fields low) else []) txts)"

text \<open>The nested loops over the texts and their tokens, for a given walk of one target.\<close>

fun walk_subs :: "(string \<Rightarrow> string list \<Rightarrow> bool \<times> string list) \<Rightarrow> string list \<Rightarrow> string list \<Rightarrow> bool \<times> string list" where
  "walk_subs w [] seen = (False, seen)"
| "walk_subs w (sub # subs) seen =
     (if sub = amazonses then (True, seen)
      else case w sub seen of
        (found, seen') \<Rightarrow> if found then (True, seen') else walk_subs w subs seen')"

fun walkForSES :: "(string \<Rightarrow> string list option) \<Rightarrow> nat \<Rightarrow> string \<Rightarrow> string list \<Rightarrow> bool \<times> string list" where
  "walkForSES r 0 target seen = (False, seen)"
| "walkForSES r (Suc left) target seen =
     (if target = [] \<or> target \<in> set seen then (False, seen)
      else if target = amazonses then (True, target # seen)
      else case r target of
        None \<Rightarrow> (False, target # seen)
      | Some txts \<Rightarrow> walk_subs (walkForSES r left) (chain_targets txts) (target # seen))"

definition isSESInChain :: "(string \<Rightarrow> string list option) \<Rightarrow> string \<Rightarrow> bool" where
  "isSESInChain r target0 =
     (let target = TrimSuffix (ToLower (TrimSpace target0)) ''.'' in
      if target = amazonses then True else fst (walkForSES r 11 target []))"

subsection \<open>Classification\<close>

definition include_target :: "string \<Rightarrow> string option" where
  "include_target tok =
     (let low = ToLower tok in
      if HasPrefix low ''include:''
      then (let target = TrimSuffix (TrimPrefix low ''include:'') ''.'' in
            if target \<noteq> [] then Some target else None)
      else if length low \<ge> 9 \<and> hd low \<in> {CHR ''+'', CHR ''-'', CHR ''~'', CHR ''?''} \<and> HasPrefix (drop 1 low) ''include:''
      then Some (TrimSuffix (drop 9 low) ''.'')
      else None)"

definition extractIncludes :: "string \<Rightarrow> string list" where
  "extractIncludes spf = List.map_filter include_target (Fields spf)"

definition known_sender :: "ESPInfo \<Rightarrow> SenderClassification" where
  "known_sender info = \<lparr>scName = eiName info, scCategory = eiCategory info,
     scInfrastructure = eiInfrastructure info, scIntegration = eiIntegration info,
     scSPFSource = [], scDKIMSelector = [], scDKIMTarget = [], scViaChain = False\<rparr>"

definition custom_sender :: "string \<Rightarrow> SenderClassification" where
  "custom_sender inc = \<lparr>scName = ''Custom sender ('' @ inc @ '')'', scCategory = [],
     scInfrastructure = [], scIntegration = ''manual'',
     scSPFSource = inc, scDKIMSelector = [], scDKIMTarget = [], scViaChain = False\<rparr>"

definition ClassifyFromSPF :: "string \<Rightarrow> SenderClassification list" where
  "ClassifyFromSPF spf = List.map_filter (\<lambda>inc. case LookupByInclude inc of
       Some info \<Rightarrow> Some ((known_sender info)\<lparr>scSPFSource := inc\<rparr>) | None \<Rightarrow> None) (extractIncludes spf)"

definition classify_include :: "(string \<Rightarrow> string list option) \<Rightarrow> string \<Rightarrow> SenderClassification" where
  "classify_include r inc =
     (let c = (case LookupByInclude inc of
                 Some info \<Rightarrow> (known_sender info)\<lparr>scSPFSource := inc\<rparr>
               | None \<Rightarrow> custom_sender inc) in
      if (scInfrastructure c = [] \<or> scInfrastructure c = InfraSESMixed) \<and> isSESInChain r inc
      then (let v = c\<lparr>scViaChain := True\<rparr> in
            if scInfrastructure v = [] then v\<lparr>scInfrastructure := InfraSES\<rparr> else v)
      else c)"

definition ClassifyFromSPFRecursive ::
  "(string \<Rightarrow> string list option) option \<Rightarrow> string \<Rightarrow> SenderClassification list" where
  "ClassifyFromSPFRecursive resolver spf =
     (case resolver of
        None \<Rightarrow> ClassifyFromSPF spf
      | Some r \<Rightarrow> map (classify_include r) (extractIncludes spf))"

fun dkim_loop :: "(string \<Rightarrow> string option) \<Rightarrow> string \<Rightarrow> string list \<Rightarrow> string list \<Rightarrow> SenderClassification list" where
  "dkim_loop cname domain [] seenNames = []"
| "dkim_loop cname domain (sel # sels) seenNames =
     (let host = sel @ ''._domainkey.'' @ TrimSuffix domain ''.'' in
      case cname host of
        None \<Rightarrow> dkim_loop cname domain sels seenNames
      | Some target0 \<Rightarrow>
          (let target = TrimSuffix (ToLower target0) ''.'' in
           if target0 = [] \<or> target = host \<or> target = TrimSuffix host ''.''
           then dkim_loop cname domain sels seenNames
           else case LookupByDKIMTarget target of
               None \<Rightarrow> dkim_loop cname domain sels seenNames
             | Some info \<Rightarrow>
                 if eiName info \<in> set seenNames then dkim_loop cname domain sels seenNames
                 else (known_sender info)\<lparr>scDKIMSelector := sel, scDKIMTarget := target\<rparr>
                   # dkim_loop cname domain sels (eiName info # seenNames)))"

definition ClassifyFromDKIM ::
  "(string \<Rightarrow> string option) option \<Rightarrow> string \<Rightarrow> string list option \<Rightarrow> SenderClassification list" where
  "ClassifyFromDKIM resolver domain selectors =
     (case resolver of
        None \<Rightarrow> []
      | Some cname \<Rightarrow>
          if domain = [] then []
          else dkim_loop cname domain (case selectors of None \<Rightarrow> DefaultDKIMSelectors | Some s \<Rightarrow> s) [])"

subsection \<open>Merging\<close>

definition merge_key :: "SenderClassification \<Rightarrow> string \<times> string" where
  "merge_key c = (ToLower (scName c), scInfrastructure c)"

definition merge_into :: "SenderClassification \<Rightarrow> SenderClassification \<Rightarrow> SenderClassification" where
  "merge_into existing c =
     (let e1 = (if scSPFSource existing = [] \<and> scSPFSource c \<noteq> []
                then existing\<lparr>scSPFSource := scSPFSource c, scViaChain := scViaChain c\<rparr> else existing) in
      if scDKIMSelector e1 = [] \<and> scDKIMSelector c \<noteq> []
      then e1\<lparr>scDKIMSelector := scDKIMSelector c, scDKIMTarget := scDKIMTarget c\<rparr> else e1)"

text \<open>The index of the code and its list of keys in order of arrival, as one association list.\<close>

fun merge_add :: "((string \<times> string) \<times> SenderClassification) list \<Rightarrow> SenderClassification \<Rightarrow>
    ((string \<times> string) \<times> SenderClassification) list" where
  "merge_add [] c = [(merge_key c, c)]"
| "merge_add ((k, e) # ix) c =
     (if k = merge_key c then (k, merge_into e c) # ix else (k, e) # merge_add ix c)"

definition MergeSenders :: "SenderClassification list \<Rightarrow> SenderClassification list \<Rightarrow> SenderClassification list" where
  "MergeSenders spfResults dkimResults = map snd (foldl merge_add [] (spfResults @ dkimResults))"

definition ClassifyDomainWithResolvers ::
  "string \<Rightarrow> string \<Rightarrow> string list option \<Rightarrow> (string \<Rightarrow> string list option) option \<Rightarrow>
   (string \<Rightarrow> string option) option \<Rightarrow> SenderClassification list" where
  "ClassifyDomainWithResolvers domain spf selectors spfResolver dkimResolver =
     MergeSenders (ClassifyFromSPFRecursive spfResolver spf) (ClassifyFromDKIM dkimResolver domain selectors)"

subsection \<open>Facts on the walk\<close>

text \<open>The specification: a host reaches SES through includes and redirects of published policies.\<close>

inductive ses_reach :: "(string \<Rightarrow> string list option) \<Rightarrow> string \<Rightarrow> bool" for r where
  ses_here: "ses_reach r amazonses"
| ses_step: "r t = Some txts \<Longrightarrow> s \<in> set (chain_targets txts) \<Longrightarrow> t \<noteq> [] \<Longrightarrow> ses_reach r s \<Longrightarrow> ses_reach r t"

inductive_cases ses_reachE: "ses_reach r t"

lemma ses_reach_nonempty: "\<not> ses_reach r []"
  by (auto elim: ses_reachE simp: amazonses_def)

lemma walk_subs_sound:
  assumes "fst (walk_subs w subs seen)"
    and "\<And>s seen. fst (w s seen) \<Longrightarrow> P s" and "P amazonses"
  shows "\<exists>s \<in> set subs. P s"
  using assms(1)
proof (induction subs arbitrary: seen)
  case (Cons s subs)
  then show ?case
    using assms(2) [of s seen] assms(3) by (auto split: if_splits prod.splits)
qed simp

lemma walk_sound: "fst (walkForSES r n t seen) \<Longrightarrow> ses_reach r t"
proof (induction n arbitrary: t seen)
  case (Suc n)
  show ?case
  proof (cases "t = amazonses")
    case False
    with Suc.prems obtain txts where r: "r t = Some txts" "t \<noteq> []"
      and w: "fst (walk_subs (walkForSES r n) (chain_targets txts) (t # seen))"
      by (auto split: if_splits option.splits)
    from walk_subs_sound [OF w, of "ses_reach r"] Suc.IH ses_here
    obtain s where "s \<in> set (chain_targets txts)" "ses_reach r s" by blast
    with r show ?thesis by (blast intro: ses_step)
  qed (simp add: ses_here)
qed simp

text \<open>When the walk fails, everything it has newly visited is closed under the references.\<close>

definition refs_in :: "(string \<Rightarrow> string list option) \<Rightarrow> string set \<Rightarrow> string \<Rightarrow> bool" where
  "refs_in r S x \<longleftrightarrow> x \<noteq> amazonses \<and>
     (\<forall>txts. r x = Some txts \<longrightarrow> (\<forall>s \<in> set (chain_targets txts). s \<noteq> amazonses \<and> (s \<noteq> [] \<longrightarrow> s \<in> S)))"

lemma refs_in_mono: "refs_in r S x \<Longrightarrow> S \<subseteq> S' \<Longrightarrow> refs_in r S' x"
  by (auto simp: refs_in_def)

definition closed_new :: "(string \<Rightarrow> string list option) \<Rightarrow> string set \<Rightarrow> string set \<Rightarrow> bool" where
  "closed_new r S S' \<longleftrightarrow> (\<forall>x \<in> S' - S. refs_in r S' x)"

lemma walk_subs_mono:
  assumes "\<And>s seen. set seen \<subseteq> set (snd (w s seen))"
  shows "set seen \<subseteq> set (snd (walk_subs w subs seen))"
proof (induction subs arbitrary: seen)
  case (Cons s subs)
  obtain f seen' where w: "w s seen = (f, seen')" by fastforce
  with assms [of seen s] have "set seen \<subseteq> set seen'" by simp
  with Cons.IH [of seen'] w show ?case by auto
qed simp

lemma walk_mono: "set seen \<subseteq> set (snd (walkForSES r n t seen))"
proof (induction n arbitrary: t seen)
  case (Suc n)
  have "set (t # seen) \<subseteq> set (snd (walk_subs (walkForSES r n) subs (t # seen)))" for subs
    by (rule walk_subs_mono) (rule Suc.IH)
  then show ?case by (auto split: option.split)
qed simp

lemma walk_subs_closed:
  assumes w: "\<And>s seen. s \<in> R \<Longrightarrow> T \<subseteq> set seen \<Longrightarrow> \<not> fst (w s seen) \<Longrightarrow>
      closed_new r (set seen) (set (snd (w s seen))) \<and> (s \<noteq> [] \<longrightarrow> s \<in> set (snd (w s seen)))"
    and mono: "\<And>s seen. set seen \<subseteq> set (snd (w s seen))"
    and subs: "set subs \<subseteq> R" and T: "T \<subseteq> set seen" and no: "\<not> fst (walk_subs w subs seen)"
  shows "closed_new r (set seen) (set (snd (walk_subs w subs seen)))
    \<and> (\<forall>s \<in> set subs. s \<noteq> amazonses \<and> (s \<noteq> [] \<longrightarrow> s \<in> set (snd (walk_subs w subs seen))))"
  using subs T no
proof (induction subs arbitrary: seen)
  case Nil
  then show ?case by (simp add: closed_new_def)
next
  case (Cons s subs)
  obtain f seen' where ws: "w s seen = (f, seen')" by fastforce
  from Cons.prems ws have ns: "s \<noteq> amazonses" "\<not> f" by (auto split: if_splits)
  from mono [of seen s] ws have sub: "set seen \<subseteq> set seen'" by simp
  from w [of s seen] Cons.prems ws ns
  have c1: "closed_new r (set seen) (set seen')" "s \<noteq> [] \<longrightarrow> s \<in> set seen'" by auto
  let ?S = "set (snd (walk_subs w subs seen'))"
  have "T \<subseteq> set seen'" using Cons.prems(2) sub by blast
  with Cons.IH [of seen'] Cons.prems ws ns
  have c2: "closed_new r (set seen') ?S" "\<forall>s \<in> set subs. s \<noteq> amazonses \<and> (s \<noteq> [] \<longrightarrow> s \<in> ?S)" by auto
  have m: "set seen' \<subseteq> ?S" by (rule walk_subs_mono) (rule mono)
  have "closed_new r (set seen) ?S"
    using c1(1) c2(1) m unfolding closed_new_def by (blast intro: refs_in_mono)
  with c1(2) c2(2) m ws ns show ?case by auto
qed

lemma walk_closed:
  assumes fin: "finite R" and R: "\<forall>x \<in> R. \<forall>txts. r x = Some txts \<longrightarrow> set (chain_targets txts) \<subseteq> R"
  shows "t \<in> R \<Longrightarrow> card (R - set seen) \<le> n \<Longrightarrow> \<not> fst (walkForSES r n t seen) \<Longrightarrow>
    closed_new r (set seen) (set (snd (walkForSES r n t seen)))
    \<and> (t \<noteq> [] \<longrightarrow> t \<in> set (snd (walkForSES r n t seen)))"
proof (induction n arbitrary: t seen)
  case 0
  with fin have "R - set seen = {}" by simp
  with 0 show ?case by (auto simp: closed_new_def)
next
  case (Suc n)
  show ?case
  proof (cases "t = [] \<or> t \<in> set seen")
    case True
    then show ?thesis by (auto simp: closed_new_def)
  next
    case False
    with Suc.prems have t: "t \<noteq> amazonses" by auto
    show ?thesis
    proof (cases "r t")
      case None
      with False t show ?thesis by (auto simp: closed_new_def refs_in_def)
    next
      case (Some txts)
      have "R - set (t # seen) \<subset> R - set seen" using False Suc.prems(1) by auto
      with fin Suc.prems(2) have small: "card (R - set (t # seen)) \<le> n"
        by (meson finite_Diff less_Suc_eq_le order_less_le_trans psubset_card_mono)
      have step: "closed_new r (set sn) (set (snd (walkForSES r n s sn))) \<and> (s \<noteq> [] \<longrightarrow> s \<in> set (snd (walkForSES r n s sn)))"
        if "s \<in> R" "set (t # seen) \<subseteq> set sn" "\<not> fst (walkForSES r n s sn)" for s sn
      proof (rule Suc.IH [OF that(1) _ that(3)])
        show "card (R - set sn) \<le> n"
          using that(2) small fin by (meson Diff_mono card_mono finite_Diff le_trans order_refl)
      qed
      let ?W = "walk_subs (walkForSES r n) (chain_targets txts) (t # seen)"
      have eq: "walkForSES r (Suc n) t seen = ?W" using False t Some by simp
      have c: "closed_new r (set (t # seen)) (set (snd ?W))
        \<and> (\<forall>s \<in> set (chain_targets txts). s \<noteq> amazonses \<and> (s \<noteq> [] \<longrightarrow> s \<in> set (snd ?W)))"
        proof (rule walk_subs_closed [where T = "set (t # seen)" and R = R, OF step])
        show "set (chain_targets txts) \<subseteq> R" using R Suc.prems(1) Some by blast
        show "\<not> fst ?W" using Suc.prems(3) eq by simp
      qed (auto intro: walk_mono [THEN subsetD])
      have m: "set (t # seen) \<subseteq> set (snd ?W)" by (rule walk_subs_mono) (rule walk_mono)
      have "closed_new r (set seen) (set (snd ?W))"
        unfolding closed_new_def
      proof
        fix x
        assume x: "x \<in> set (snd ?W) - set seen"
        show "refs_in r (set (snd ?W)) x"
        proof (cases "x = t")
          case True
          with t Some conjunct2 [OF c] show ?thesis unfolding refs_in_def by (metis option.inject)
        next
          case False
          with x conjunct1 [OF c] show ?thesis unfolding closed_new_def by simp
        qed
      qed
      moreover have "t \<in> set (snd ?W)" using m by (meson list.set_intros(1) subsetD)
      ultimately show ?thesis unfolding eq by blast
    qed
  qed
qed

lemma closed_not_reach:
  assumes "ses_reach r t" "closed_new r {} S" "t \<in> S"
  shows False
  using assms
proof (induction rule: ses_reach.induct)
  case ses_here
  then show ?case unfolding closed_new_def refs_in_def by blast
next
  case (ses_step t txts s)
  then have "s \<noteq> amazonses" "s \<noteq> [] \<longrightarrow> s \<in> S" unfolding closed_new_def refs_in_def by blast+
  moreover have "s \<noteq> []" using \<open>ses_reach r s\<close> ses_reach_nonempty by blast
  ultimately show ?case using ses_step by blast
qed

lemma walk_exact:
  assumes "finite R" "t \<in> R" "card R \<le> 11"
    "\<forall>x \<in> R. \<forall>txts. r x = Some txts \<longrightarrow> set (chain_targets txts) \<subseteq> R"
  shows "fst (walkForSES r 11 t []) \<longleftrightarrow> ses_reach r t"
proof
  assume "ses_reach r t"
  moreover from this have "t \<noteq> []" using ses_reach_nonempty by blast
  ultimately show "fst (walkForSES r 11 t [])"
    using walk_closed [OF assms(1,4,2), of "[]" 11] assms(3) closed_not_reach by auto
qed (rule walk_sound)

subsection \<open>Facts on merging\<close>

definition first_nonempty :: "string list \<Rightarrow> string" where
  "first_nonempty xs = (case find (\<lambda>x. x \<noteq> []) xs of Some x \<Rightarrow> x | None \<Rightarrow> [])"

lemma first_nonempty_simps [simp]:
  "first_nonempty [] = []"
  "first_nonempty (x # xs) = (if x \<noteq> [] then x else first_nonempty xs)"
  by (auto simp: first_nonempty_def)

lemma first_nonempty_snoc:
  "first_nonempty (xs @ [x]) = (if first_nonempty xs \<noteq> [] then first_nonempty xs else x)"
  by (induction xs) auto

lemma merge_into_sel [simp]:
  "scName (merge_into e c) = scName e" "scInfrastructure (merge_into e c) = scInfrastructure e"
  "scSPFSource (merge_into e c) = (if scSPFSource e \<noteq> [] then scSPFSource e else scSPFSource c)"
  "scDKIMSelector (merge_into e c) = (if scDKIMSelector e \<noteq> [] then scDKIMSelector e else scDKIMSelector c)"
  "merge_key (merge_into e c) = merge_key e"
  by (auto simp: merge_into_def merge_key_def Let_def)

lemma merge_add_keys: "map fst (merge_add ix c) =
    (if merge_key c \<in> fst ` set ix then map fst ix else map fst ix @ [merge_key c])"
proof (induction ix)
  case (Cons p ix)
  then show ?case by (cases p) simp
qed simp

lemma merge_add_get: "map_of (merge_add ix c) k =
    (if k = merge_key c then Some (case map_of ix k of Some e \<Rightarrow> merge_into e c | None \<Rightarrow> c) else map_of ix k)"
  by (induction ix) auto

text \<open>What the index holds after a list of senders.\<close>

definition merged_ok :: "((string \<times> string) \<times> SenderClassification) list \<Rightarrow> SenderClassification list \<Rightarrow> bool" where
  "merged_ok ix cs \<longleftrightarrow> distinct (map fst ix) \<and> fst ` set ix = merge_key ` set cs \<and>
     (\<forall>k e. map_of ix k = Some e \<longrightarrow> merge_key e = k \<and>
        scSPFSource e = first_nonempty (map scSPFSource (filter (\<lambda>c. merge_key c = k) cs)) \<and>
        scDKIMSelector e = first_nonempty (map scDKIMSelector (filter (\<lambda>c. merge_key c = k) cs)))"

lemma merged_ok_foldl: "merged_ok (foldl merge_add [] cs) cs"
proof (induction cs rule: rev_induct)
  case (snoc c cs)
  let ?ix = "foldl merge_add [] cs"
  have none: "filter (\<lambda>x. merge_key x = k) cs = []" if "map_of ?ix k = None" for k
    using snoc that by (auto simp: merged_ok_def map_of_eq_None_iff filter_empty_conv)
  have keys: "set (map fst (merge_add ?ix c)) = insert (merge_key c) (fst ` set ?ix)"
    by (simp add: merge_add_keys insert_absorb)
  have get: "merge_key e = k \<and>
        scSPFSource e = first_nonempty (map scSPFSource (filter (\<lambda>c. merge_key c = k) (cs @ [c]))) \<and>
        scDKIMSelector e = first_nonempty (map scDKIMSelector (filter (\<lambda>c. merge_key c = k) (cs @ [c])))"
    if e: "map_of (merge_add ?ix c) k = Some e" for k e
  proof (cases "k = merge_key c")
    case True
    show ?thesis
    proof (cases "map_of ?ix k")
      case None
      with True e none [OF None] show ?thesis by (simp add: merge_add_get)
    next
      case (Some e0)
      with True e have "e = merge_into e0 c" by (simp add: merge_add_get)
      moreover from snoc Some have "merge_key e0 = k"
          "scSPFSource e0 = first_nonempty (map scSPFSource (filter (\<lambda>c. merge_key c = k) cs))"
          "scDKIMSelector e0 = first_nonempty (map scDKIMSelector (filter (\<lambda>c. merge_key c = k) cs))"
        unfolding merged_ok_def by blast+
      moreover have "filter (\<lambda>c. merge_key c = k) (cs @ [c]) = filter (\<lambda>c. merge_key c = k) cs @ [c]"
        using True by simp
      ultimately show ?thesis by (simp only: map_append list.map first_nonempty_snoc merge_into_sel)
    qed
  next
    case False
    with e have "map_of ?ix k = Some e" by (simp add: merge_add_get)
    moreover have "filter (\<lambda>c. merge_key c = k) (cs @ [c]) = filter (\<lambda>c. merge_key c = k) cs"
      using False by auto
    ultimately show ?thesis using snoc unfolding merged_ok_def by metis
  qed
  have "distinct (map fst (merge_add ?ix c))"
    using snoc by (simp add: merge_add_keys merged_ok_def)
  moreover have "fst ` set (merge_add ?ix c) = merge_key ` set (cs @ [c])"
    using snoc keys by (simp add: merged_ok_def)
  ultimately show ?case
    unfolding merged_ok_def foldl_append foldl_Cons foldl_Nil using get by blast
qed (simp add: merged_ok_def)

subsection \<open>Properties\<close>

text \<open>The walk of the include chain is exact on every finite part of the DNS that it can explore:
  where at most eleven hosts can be reached, it answers yes exactly when amazonses.com is reachable
  by includes and redirects of published SPF policies.\<close>

theorem isSESInChain_exact:
  assumes "finite R" "card R \<le> 11" "TrimSuffix (ToLower (TrimSpace target)) ''.'' \<in> R"
    "\<forall>x \<in> R. \<forall>txts. r x = Some txts \<longrightarrow> set (chain_targets txts) \<subseteq> R"
  shows "isSESInChain r target \<longleftrightarrow> ses_reach r (TrimSuffix (ToLower (TrimSpace target)) ''.'')"
  using walk_exact [OF assms(1,3,2,4)] ses_here [of r]
  by (cases "TrimSuffix (ToLower (TrimSpace target)) ''.'' = amazonses") (simp_all add: isSESInChain_def)

lemma isSESInChain_exact_witness:
  "isSESInChain (\<lambda>h. if h = ''a.com'' then Some [''v=spf1 include:amazonses.com -all''] else None) ''A.com.''
    \<longleftrightarrow> ses_reach (\<lambda>h. if h = ''a.com'' then Some [''v=spf1 include:amazonses.com -all''] else None) ''a.com''"
proof -
  have t: "TrimSuffix (ToLower (TrimSpace ''A.com.'')) ''.'' = ''a.com''" by code_simp
  have c: "chain_targets [''v=spf1 include:amazonses.com -all''] = [''amazonses.com'']" by code_simp
  show ?thesis
    using isSESInChain_exact [of "{''a.com'', ''amazonses.com''}" "''A.com.''"
        "\<lambda>h. if h = ''a.com'' then Some [''v=spf1 include:amazonses.com -all''] else None"]
    unfolding t by (simp add: c)
qed

text \<open>A zone in which one include leads to SES in three steps, and another include takes ten steps to the same host.\<close>

definition hop :: "nat \<Rightarrow> string" where
  "hop n = ''h'' @ nat_digits n"

definition shared_host_dns :: "string \<Rightarrow> string list option" where
  "shared_host_dns h =
     (if h = ''t'' then Some [''v=spf1 include:h1 include:b -all'']
      else if h = ''b'' then Some [''v=spf1 include:c -all'']
      else if h = ''c'' then Some [''v=spf1 include:amazonses.com -all'']
      else if h = ''h9'' then Some [''v=spf1 include:b -all'']
      else case find (\<lambda>n. h = hop n) [1,2,3,4,5,6,7,8] of
          Some n \<Rightarrow> Some [''v=spf1 include:'' @ hop (Suc n) @ '' -all''] | None \<Rightarrow> None)"

text \<open>The walk misses chains well under its depth bound: the host b is three steps from
  amazonses.com, but it was first met at depth ten on another branch, where its own include was cut
  off, and the shared set of visited hosts keeps it from being walked again at depth one.\<close>

theorem isSESInChain_misses_short_chain:
  "\<not> isSESInChain shared_host_dns ''t'' \<and> isSESInChain shared_host_dns ''b'' \<and> ses_reach shared_host_dns ''t''"
proof -
  have d: "\<not> isSESInChain shared_host_dns ''t''" "isSESInChain shared_host_dns ''b''" by code_simp+
  have "fst (walkForSES shared_host_dns 11 ''b'' [])" by code_simp
  then have "ses_reach shared_host_dns ''b''" by (rule walk_sound)
  moreover have "shared_host_dns ''t'' = Some [''v=spf1 include:h1 include:b -all'']"
    "''b'' \<in> set (chain_targets [''v=spf1 include:h1 include:b -all''])" by code_simp+
  ultimately have "ses_reach shared_host_dns ''t''" by (blast intro: ses_step)
  with d show ?thesis by blast
qed

text \<open>The merge of the SPF and the DKIM evidence lists every sender once, under its lower-cased name
  and infrastructure, and each listed sender carries the first SPF source and the first DKIM
  selector that any of the merged entries has.\<close>

theorem MergeSenders_complete:
  "distinct (map merge_key (MergeSenders spf dkim)) \<and>
   merge_key ` set (MergeSenders spf dkim) = merge_key ` set (spf @ dkim) \<and>
   list_all (\<lambda>e. scSPFSource e = first_nonempty (map scSPFSource (filter (\<lambda>c. merge_key c = merge_key e) (spf @ dkim))) \<and>
     scDKIMSelector e = first_nonempty (map scDKIMSelector (filter (\<lambda>c. merge_key c = merge_key e) (spf @ dkim))))
     (MergeSenders spf dkim)"
proof -
  let ?ix = "foldl merge_add [] (spf @ dkim)"
  have ok: "merged_ok ?ix (spf @ dkim)" by (rule merged_ok_foldl)
  then have d: "distinct (map fst ?ix)" by (simp add: merged_ok_def)
  have mem: "(k, e) \<in> set ?ix \<longleftrightarrow> map_of ?ix k = Some e" for k e
    using d by (simp add: map_of_eq_Some_iff)
  have key: "(k, e) \<in> set ?ix \<Longrightarrow> merge_key e = k" for k e
    using ok mem unfolding merged_ok_def by blast
  have ks: "map merge_key (MergeSenders spf dkim) = map fst ?ix"
    using key by (auto simp: MergeSenders_def)
  have "merge_key ` set (MergeSenders spf dkim) = fst ` set ?ix"
    using arg_cong [OF ks, of set] by simp
  moreover have "fst ` set ?ix = merge_key ` set (spf @ dkim)"
    using ok unfolding merged_ok_def by blast
  moreover have "scSPFSource e = first_nonempty (map scSPFSource (filter (\<lambda>c. merge_key c = merge_key e) (spf @ dkim))) \<and>
     scDKIMSelector e = first_nonempty (map scDKIMSelector (filter (\<lambda>c. merge_key c = merge_key e) (spf @ dkim)))"
    if "e \<in> set (MergeSenders spf dkim)" for e
  proof -
    from that obtain k where "(k, e) \<in> set ?ix" by (auto simp: MergeSenders_def)
    with ok mem key show ?thesis unfolding merged_ok_def by blast
  qed
  ultimately show ?thesis using d ks by (simp add: list_all_iff)
qed

end
