(* ===== verification/Domain_Connect.thy ===== *)
theory Domain_Connect
  imports Net_URL Template_Sig "HOL-Library.List_Lexorder"
begin

text \<open>
  The Domain Connect client (package \<open>domainconnect\<close>): discovery with its screening of addresses
  (\<open>discovery.go\<close>), and signed apply URLs (\<open>signing.go\<close>, \<open>apply_url.go\<close>). The resolvers and the
  HTTP transport are parameters; the redirect loop of \<open>net/http\<close> with the \<open>CheckRedirect\<close> hook
  is written out, and every request it sends is recorded. RSA, SHA-256, base64 and the DER
  encoding of the public key are the fields of \<open>signer\<close>.
\<close>

subsection \<open>Screening of addresses\<close>

definition ip_v4 :: "nat list \<Rightarrow> nat list option" where
  "ip_v4 ip = (if length ip = 4 then Some ip else To4 ip)"

definition IsUnspecified :: "nat list \<Rightarrow> bool" where
  "IsUnspecified ip = (ip_v4 ip = Some [0, 0, 0, 0] \<or> ip = replicate 16 0)"

definition IsLoopback :: "nat list \<Rightarrow> bool" where
  "IsLoopback ip = (case ip_v4 ip of Some v \<Rightarrow> v ! 0 = 127 | None \<Rightarrow> ip = replicate 15 0 @ [1])"

definition IsPrivate :: "nat list \<Rightarrow> bool" where
  "IsPrivate ip = (case ip_v4 ip of
       Some v \<Rightarrow> v ! 0 = 10 \<or> (v ! 0 = 172 \<and> v ! 1 div 16 = 1) \<or> (v ! 0 = 192 \<and> v ! 1 = 168)
     | None \<Rightarrow> length ip = 16 \<and> ip ! 0 div 2 = 0xfc div 2)"

definition IsMulticast :: "nat list \<Rightarrow> bool" where
  "IsMulticast ip = (case ip_v4 ip of
       Some v \<Rightarrow> v ! 0 div 16 = 0xe0 div 16
     | None \<Rightarrow> length ip = 16 \<and> ip ! 0 = 0xff)"

definition IsLinkLocalMulticast :: "nat list \<Rightarrow> bool" where
  "IsLinkLocalMulticast ip = (case ip_v4 ip of
       Some v \<Rightarrow> v ! 0 = 224 \<and> v ! 1 = 0 \<and> v ! 2 = 0
     | None \<Rightarrow> length ip = 16 \<and> ip ! 0 = 0xff \<and> ip ! 1 mod 16 = 2)"

definition IsLinkLocalUnicast :: "nat list \<Rightarrow> bool" where
  "IsLinkLocalUnicast ip = (case ip_v4 ip of
       Some v \<Rightarrow> v ! 0 = 169 \<and> v ! 1 = 254
     | None \<Rightarrow> length ip = 16 \<and> ip ! 0 = 0xfe \<and> ip ! 1 div 64 = 2)"

definition ipBlocked :: "nat list \<Rightarrow> bool" where
  "ipBlocked ip \<longleftrightarrow> IsLoopback ip \<or> IsPrivate ip \<or> IsLinkLocalUnicast ip
     \<or> IsLinkLocalMulticast ip \<or> IsUnspecified ip \<or> IsMulticast ip"

definition anyIPBlocked :: "nat list list \<Rightarrow> bool" where
  "anyIPBlocked ips \<longleftrightarrow> ips = [] \<or> list_ex ipBlocked ips"

subsection \<open>Discovery\<close>

record DiscoveryResult =
  dcSupported :: bool
  dcProviderID :: string
  dcProviderName :: string
  dcURLSyncUX :: string
  dcURLAsyncUX :: string
  dcURLAPI :: string
  dcWidth :: int
  dcHeight :: int
  dcNameservers :: "string list"

definition unsupported :: DiscoveryResult where
  "unsupported = \<lparr>dcSupported = False, dcProviderID = [], dcProviderName = [], dcURLSyncUX = [],
     dcURLAsyncUX = [], dcURLAPI = [], dcWidth = 0, dcHeight = 0, dcNameservers = []\<rparr>"

text \<open>A redirect is its parsed target: scheme, host name and the URL itself. A settings document that
  does not decode is \<open>None\<close>.\<close>

datatype http_reply =
    ReplyError
  | ReplyRedirect string string string
  | Reply nat "DiscoveryResult option"

record discoverOptions =
  doIP :: "string \<Rightarrow> nat list list option"
  doTXT :: "string \<Rightarrow> string list option"
  doHTTP :: "string \<Rightarrow> http_reply"
  doIPText :: "nat list \<Rightarrow> string"

definition validateDomain :: "string \<Rightarrow> string option" where
  "validateDomain domain =
     (let d = TrimSuffix domain ''.'' in
      if d = [] then Some ''domainconnect: empty domain''
      else if 253 < length d then Some ''domainconnect: domain exceeds 253 characters''
      else if Contains d ''..'' then Some ''domainconnect: domain contains consecutive dots''
      else if ContainsAny d ('' /?#[]@!$&()+,;='' @ map char_of [0x09, 0x0d, 0x0a, 0x27::nat])
        then Some ''domainconnect: domain contains invalid characters''
      else if \<not> Contains d ''.'' then Some ''domainconnect: domain has no TLD''
      else None)"

definition check_redirect :: "discoverOptions \<Rightarrow> nat \<Rightarrow> string \<Rightarrow> string \<Rightarrow> string option" where
  "check_redirect o' via scheme hostname =
     (if 5 \<le> via then Some ''domainconnect: too many redirects''
      else if scheme \<noteq> ''https'' then Some ''domainconnect: non-https redirect''
      else case doIP o' hostname of
          None \<Rightarrow> Some ''domainconnect: redirect host blocked''
        | Some ips \<Rightarrow> if anyIPBlocked ips then Some ''domainconnect: redirect host blocked'' else None)"

text \<open>The client's loop: the hosts that the requests so far were screened for, with their URLs.\<close>

function follow :: "discoverOptions \<Rightarrow> (string \<times> string) list \<Rightarrow> string \<Rightarrow> string \<Rightarrow> (nat \<times> DiscoveryResult option) option \<times> (string \<times> string) list" where
  "follow o' via host url =
     (case doHTTP o' url of
        ReplyError \<Rightarrow> (None, via @ [(host, url)])
      | Reply code body \<Rightarrow> (Some (code, body), via @ [(host, url)])
      | ReplyRedirect scheme hostname loc \<Rightarrow>
          (if check_redirect o' (Suc (length via)) scheme hostname \<noteq> None then (None, via @ [(host, url)])
           else follow o' (via @ [(host, url)]) hostname loc))"
  by pat_completeness auto
termination
  by (relation "measure (\<lambda>(o', via, host, url). 5 - length via)") (auto simp: check_redirect_def split: if_splits)

declare follow.simps [simp del]

definition dc_txt :: "discoverOptions \<Rightarrow> string \<Rightarrow> string list" where
  "dc_txt o' domain =
     (let first = doTXT o' (''_domainconnect.'' @ domain);
          txt = (if (case first of None \<Rightarrow> True | Some t \<Rightarrow> t = []) \<and> 1 < CountChar domain CHR ''.''
                 then (let parts = Split domain CHR ''.'' in
                       doTXT o' (''_domainconnect.'' @ Join (drop (length parts - 2) parts) ''.''))
                 else first) in
      case txt of None \<Rightarrow> [] | Some t \<Rightarrow> t)"

definition dc_host :: "string \<Rightarrow> string" where
  "dc_host target = ToLower (takeWhile ((\<noteq>) CHR ''/'') target)"

definition Discover :: "discoverOptions \<Rightarrow> string \<Rightarrow> (string + DiscoveryResult) \<times> (string \<times> string) list" where
  "Discover o' domain =
     (if domain = [] then (Inl ''domainconnect: empty domain'', [])
      else case validateDomain domain of
        Some e \<Rightarrow> (Inl e, [])
      | None \<Rightarrow>
          (case dc_txt o' domain of
             [] \<Rightarrow> (Inr unsupported, [])
           | t # _ \<Rightarrow>
               (let target = TrimSpace t; host = dc_host target in
                if target = [] then (Inr unsupported, [])
                else case doIP o' host of
                    None \<Rightarrow> (Inr unsupported, [])
                  | Some ips \<Rightarrow>
                      if anyIPBlocked ips then (Inr unsupported, [])
                      else
                        (case follow o' [] host (''https://'' @ target @ ''/v2/'' @ domain @ ''/settings'') of
                           (Some (code, Some s), reqs) \<Rightarrow>
                             (if code = 200 then
                                (Inr (s\<lparr>dcSupported := True, dcNameservers := map (doIPText o') ips\<rparr>), reqs)
                              else (Inr unsupported, reqs))
                         | (_, reqs) \<Rightarrow> (Inr unsupported, reqs)))))"

subsection \<open>Signing\<close>

record 'k signer =
  sgSign :: "'k \<Rightarrow> string \<Rightarrow> string option"
  sgPublicDER :: "'k \<Rightarrow> string option"
  sgSHA256 :: "string \<Rightarrow> string"
  sgB64 :: "string \<Rightarrow> string"

definition SignQueryString :: "'k signer \<Rightarrow> string \<Rightarrow> 'k option \<Rightarrow> string + string \<times> string" where
  "SignQueryString sg query key =
     (case key of
        None \<Rightarrow> Inl ''domainconnect: nil private key''
      | Some k \<Rightarrow>
          (case sgSign sg k query of
             None \<Rightarrow> Inl ''domainconnect: sign''
           | Some raw \<Rightarrow>
               (case sgPublicDER sg k of
                  None \<Rightarrow> Inl ''domainconnect: marshal public key''
                | Some der \<Rightarrow> Inr (sgB64 sg raw, sgB64 sg (sgSHA256 sg der)))))"

text \<open>\<open>url.Values\<close> as an association list in the order in which the map is iterated.\<close>

type_synonym url_values = "(string \<times> string list) list"

definition Values_Get :: "url_values \<Rightarrow> string \<Rightarrow> string" where
  "Values_Get v k = (case map_of v k of Some (x # xs) \<Rightarrow> x | _ \<Rightarrow> [])"

fun Values_Set :: "url_values \<Rightarrow> string \<Rightarrow> string \<Rightarrow> url_values" where
  "Values_Set [] k x = [(k, [x])]"
| "Values_Set ((k', ys) # v) k x = (if k' = k then (k, [x]) # v else (k', ys) # Values_Set v k x)"

definition dc_escape :: "string \<Rightarrow> string" where
  "dc_escape s = concat (map (\<lambda>c. if c = CHR ''+'' then ''%20'' else [c]) (QueryEscape s))"

definition sorted_query :: "url_values \<Rightarrow> string" where
  "sorted_query params =
     Join (map (\<lambda>k. k @ ''='' @ dc_escape (Values_Get params k)) (sort (map fst params))) ''&''"

definition SortAndSignParams :: "'k signer \<Rightarrow> url_values \<Rightarrow> 'k option \<Rightarrow> string + string \<times> string \<times> string" where
  "SortAndSignParams sg params key =
     bindE (SignQueryString sg (sorted_query params) key) (\<lambda>(sig, h). Inr (sorted_query params, sig, h))"

record 'k ApplyURLOpts =
  auURLAsyncUX :: string
  auProviderID :: string
  auServiceID :: string
  auDomain :: string
  auHost :: string
  auParams :: "(string \<times> string) list"
  auPrivateKey :: "'k option"
  auKeyHost :: string
  auRedirectURI :: string
  auState :: string

definition apply_values :: "'k ApplyURLOpts \<Rightarrow> url_values" where
  "apply_values o' =
     (let v1 = Values_Set [] ''domain'' (auDomain o');
          v2 = (if auHost o' \<noteq> [] then Values_Set v1 ''host'' (auHost o') else v1);
          v3 = (if auRedirectURI o' \<noteq> [] then Values_Set v2 ''redirect_uri'' (auRedirectURI o') else v2);
          v4 = (if auState o' \<noteq> [] then Values_Set v3 ''state'' (auState o') else v3) in
      foldl (\<lambda>v (k, x). Values_Set v k x) v4 (auParams o'))"

definition apply_path :: "'k ApplyURLOpts \<Rightarrow> string" where
  "apply_path o' = auURLAsyncUX o' @ ''/v2/domainTemplates/providers/'' @ auProviderID o' @ ''/services/''
     @ auServiceID o' @ ''/apply''"

definition BuildApplyURL :: "'k signer \<Rightarrow> 'k ApplyURLOpts \<Rightarrow> string + string" where
  "BuildApplyURL sg o' =
     (if auURLAsyncUX o' = [] then Inl ''domainconnect: BuildApplyURL: URLAsyncUX required''
      else if auProviderID o' = [] then Inl ''domainconnect: BuildApplyURL: ProviderID required''
      else if auServiceID o' = [] then Inl ''domainconnect: BuildApplyURL: ServiceID required''
      else if auDomain o' = [] then Inl ''domainconnect: BuildApplyURL: Domain required''
      else if auPrivateKey o' = None then Inl ''domainconnect: BuildApplyURL: PrivateKey required''
      else bindE (SortAndSignParams sg (apply_values o') (auPrivateKey o'))
        (\<lambda>(query, sig, _). Inr (apply_path o' @ ''?'' @ query @ ''&key='' @ QueryEscape (auKeyHost o')
           @ ''&sig='' @ QueryEscape sig)))"


subsection \<open>Facts on the screening\<close>

definition screened :: "discoverOptions \<Rightarrow> string \<Rightarrow> bool" where
  "screened o' host = (case doIP o' host of None \<Rightarrow> False | Some ips \<Rightarrow> \<not> anyIPBlocked ips)"

lemma check_redirect_screened:
  "check_redirect o' n scheme h = None \<Longrightarrow> n < 5 \<and> scheme = ''https'' \<and> screened o' h"
  by (auto simp: check_redirect_def screened_def split: if_splits option.splits)

lemma follow_screened:
  "screened o' host \<Longrightarrow> list_all (\<lambda>p. screened o' (fst p)) via \<Longrightarrow> length via \<le> 4 \<Longrightarrow>
    list_all (\<lambda>p. screened o' (fst p)) (snd (follow o' via host url)) \<and> length (snd (follow o' via host url)) \<le> 5"
proof (induction o' via host url rule: follow.induct)
  case (1 o' via host url)
  show ?case
  proof (cases "doHTTP o' url")
    case (ReplyRedirect scheme hostname loc)
    show ?thesis
    proof (cases "check_redirect o' (Suc (length via)) scheme hostname")
      case None
      note ok = check_redirect_screened [OF None]
      have "list_all (\<lambda>p. screened o' (fst p)) (snd (follow o' (via @ [(host, url)]) hostname loc))
          \<and> length (snd (follow o' (via @ [(host, url)]) hostname loc)) \<le> 5"
        by (rule "1.IH" [OF ReplyRedirect]) (use None ok 1 in auto)
      then show ?thesis by (simp add: follow.simps [of o' via] ReplyRedirect None)
    qed (use 1 ReplyRedirect in \<open>simp add: follow.simps [of o' via]\<close>)
  qed (use 1 in \<open>simp_all add: follow.simps [of o' via]\<close>)
qed

lemma Discover_screened:
  "list_all (\<lambda>p. screened o' (fst p)) (snd (Discover o' d)) \<and> length (snd (Discover o' d)) \<le> 5"
proof -
  have f: "list_all (\<lambda>p. screened o' (fst p)) reqs \<and> length reqs \<le> 5"
    if "follow o' [] h u = (r, reqs)" "doIP o' h = Some ips" "\<not> anyIPBlocked ips" for r reqs h u ips
    using follow_screened [of o' h "[]" u] that by (simp add: screened_def)
  show ?thesis
    by (auto simp: Discover_def Let_def split: option.split list.split prod.split dest: f)
qed

text \<open>IPv4 blocks as numbers.\<close>

definition v4_number :: "nat list \<Rightarrow> nat" where
  "v4_number v = foldl (\<lambda>n b. 256 * n + b) 0 v"

definition in_block :: "nat \<Rightarrow> nat list \<times> nat \<Rightarrow> bool" where
  "in_block n b = (case b of (base, bits) \<Rightarrow> n div 2 ^ (32 - bits) = v4_number base div 2 ^ (32 - bits))"

definition blocked_blocks :: "(nat list \<times> nat) list" where
  "blocked_blocks = [([0, 0, 0, 0], 32), ([10, 0, 0, 0], 8), ([127, 0, 0, 0], 8), ([169, 254, 0, 0], 16),
     ([172, 16, 0, 0], 12), ([192, 168, 0, 0], 16), ([224, 0, 0, 0], 4)]"

lemma ip_v4_mapped: "length v = 4 \<Longrightarrow> ip_v4 (v4_mapped @ v) = Some v \<and> ip_v4 v = Some v"
  by (simp add: ip_v4_def To4_def v4_mapped_def)

lemma v4_blocks:
  assumes "a < 256" "b < 256" "c < 256" "d < (256::nat)"
  shows "v4_number [a, b, c, d] div 2 ^ 24 = a" "v4_number [a, b, c, d] div 2 ^ 16 = 256 * a + b"
    "v4_number [a, b, c, d] div 2 ^ 20 = 16 * a + b div 16" "v4_number [a, b, c, d] div 2 ^ 28 = a div 16"
    "v4_number [a, b, c, d] = 0 \<longleftrightarrow> a = 0 \<and> b = 0 \<and> c = 0 \<and> d = 0"
  using assms by (auto simp: v4_number_def)

lemma radix_eq: "b < m \<Longrightarrow> b' < (m::nat) \<Longrightarrow> m * a + b = m * a' + b' \<longleftrightarrow> a = a' \<and> b = b'"
  by (metis add_left_cancel div_mult_self4 div_less add_0_right neq0_conv not_less0)

lemma ipBlocked_v4:
  assumes "a < 256" "b < 256" "c < 256" "d < (256::nat)" "ip \<in> {[a, b, c, d], v4_mapped @ [a, b, c, d]}"
  shows "ipBlocked ip \<longleftrightarrow> list_ex (in_block (v4_number [a, b, c, d])) blocked_blocks"
proof -
  have v: "ip_v4 ip = Some [a, b, c, d]" using assms(5) ip_v4_mapped by auto
  have z: "ip \<noteq> replicate 16 0" using assms(5) by (auto simp: v4_mapped_def eval_nat_numeral)
  have 1: "ipBlocked ip \<longleftrightarrow> a = 127 \<or> a = 10 \<or> (a = 172 \<and> b div 16 = 1) \<or> (a = 192 \<and> b = 168)
      \<or> (a = 169 \<and> b = 254) \<or> (a = 0 \<and> b = 0 \<and> c = 0 \<and> d = 0) \<or> a div 16 = 14"
    by (auto simp: ipBlocked_def IsLoopback_def IsPrivate_def IsLinkLocalUnicast_def
        IsLinkLocalMulticast_def IsUnspecified_def IsMulticast_def v z)
  note n = v4_blocks [OF assms(1-4)]
  have 2: "list_ex (in_block (v4_number [a, b, c, d])) blocked_blocks \<longleftrightarrow>
      (a = 0 \<and> b = 0 \<and> c = 0 \<and> d = 0) \<or> a = 10 \<or> a = 127 \<or> 256 * a + b = 256 * 169 + 254
      \<or> 16 * a + b div 16 = 16 * 172 + 1 \<or> 256 * a + b = 256 * 192 + 168 \<or> a div 16 = 14"
    using n by (simp add: in_block_def blocked_blocks_def) (simp add: v4_number_def)
  have "256 * a + b = 256 * 169 + 254 \<longleftrightarrow> a = 169 \<and> b = 254"
    "256 * a + b = 256 * 192 + 168 \<longleftrightarrow> a = 192 \<and> b = 168"
    "16 * a + b div 16 = 16 * 172 + 1 \<longleftrightarrow> a = 172 \<and> b div 16 = 1"
    using radix_eq [of b 256 254 a 169] radix_eq [of b 256 168 a 192] radix_eq [of "b div 16" 16 1 a 172] assms(1-4)
    by simp_all
  with 1 2 show ?thesis by metis
qed

subsection \<open>Facts on queries\<close>

definition dc_pair :: "string \<Rightarrow> string \<times> string" where
  "dc_pair w = (takeWhile ((\<noteq>) CHR ''='') w, percent_decode (drop 1 (dropWhile ((\<noteq>) CHR ''='') w)))"

lemma dc_escape_Cons: "dc_escape (c # s) =
    (if query_unreserved c then [c] else if c = CHR '' '' then ''%20''
     else [CHR ''%'', hex_char (byte c div 16), hex_char (byte c mod 16)]) @ dc_escape s"
proof -
  have "byte c div 16 < 16" using byte_less [of c] by linarith
  then have "hex_char (byte c div 16) \<noteq> CHR ''+''" "hex_char (byte c mod 16) \<noteq> CHR ''+''"
    using hex_char_not by simp_all
  then show ?thesis
    by (auto simp: dc_escape_def QueryEscape_def escape_char_def dest: query_unreserved_not)
qed

lemma percent_decode_dc_escape: "percent_decode (dc_escape s) = s"
proof (induction s)
  case (Cons c s)
  have sp: "char_of (escape_value CHR ''2'' CHR ''0'') = CHR '' ''" by code_simp
  from Cons sp show ?case
    by (auto simp: dc_escape_Cons escape_value_char dest: query_unreserved_not)
qed (simp add: dc_escape_def QueryEscape_def)

lemma dc_escape_clean: "c \<in> set (dc_escape s) \<Longrightarrow> c \<noteq> CHR ''&''"
proof (induction s)
  case (Cons d s)
  have "byte d div 16 < 16" using byte_less [of d] by linarith
  then have "hex_char (byte d div 16) \<noteq> CHR ''&''" "hex_char (byte d mod 16) \<noteq> CHR ''&''"
    using hex_char_not by simp_all
  with Cons show ?case
    by (auto simp: dc_escape_Cons split: if_splits dest: query_unreserved_not)
qed (simp add: dc_escape_def QueryEscape_def)

lemma dc_pair_built: "CHR ''='' \<notin> set k \<Longrightarrow> dc_pair (k @ ''='' @ dc_escape s) = (k, s)"
proof -
  assume k: "CHR ''='' \<notin> set k"
  have "takeWhile ((\<noteq>) CHR ''='') (k @ CHR ''='' # t) = k" "dropWhile ((\<noteq>) CHR ''='') (k @ CHR ''='' # t) = CHR ''='' # t" for t
    using k by (induction k) auto
  then show ?thesis by (simp add: dc_pair_def percent_decode_dc_escape)
qed

lemma sorted_query_decodes:
  assumes "params \<noteq> []" "\<forall>k \<in> fst ` set params. CHR ''&'' \<notin> set k \<and> CHR ''='' \<notin> set k"
  shows "map dc_pair (Split (sorted_query params) CHR ''&'') = map (\<lambda>k. (k, Values_Get params k)) (sort (map fst params))"
proof -
  let ?ws = "map (\<lambda>k. k @ ''='' @ dc_escape (Values_Get params k)) (sort (map fst params))"
  have clean: "\<forall>w \<in> set ?ws. CHR ''&'' \<notin> set w"
  proof
    fix w
    assume "w \<in> set ?ws"
    then obtain k where k: "k \<in> fst ` set params" "w = k @ ''='' @ dc_escape (Values_Get params k)" by auto
    have "CHR ''&'' \<notin> set (dc_escape (Values_Get params k))" using dc_escape_clean by blast
    moreover have "CHR ''&'' \<notin> set k" using assms(2) k by blast
    ultimately show "CHR ''&'' \<notin> set w" using k by simp
  qed
  have "set (sort (map fst params)) \<noteq> {}" using assms(1) by simp
  then have "sort (map fst params) \<noteq> []" by fastforce
  then have "?ws \<noteq> []" by simp
  then have "Split (sorted_query params) CHR ''&'' = ?ws"
    unfolding sorted_query_def by (rule Split_Join [OF _ clean])
  then show ?thesis
    using assms(2) by (auto simp: dc_pair_built [simplified])
qed

lemma sorted_query_order_free:
  assumes "distinct (map fst params)" "mset params' = mset params"
  shows "sorted_query params' = sorted_query params"
proof -
  have d': "distinct (map fst params')"
    using assms by (metis mset_map mset_eq_imp_distinct_iff)
  have "mset (map fst params') = mset (map fst params)" using assms(2) by simp
  then have "sort (map fst params') = sort (map fst params)"
    by (intro properties_for_sort) simp_all
  moreover have "map_of params' = map_of params"
    using assms d' by (metis map_of_inject_set mset_eq_setD)
  ultimately show ?thesis by (simp add: sorted_query_def Values_Get_def)
qed

subsection \<open>The host of the settings request\<close>

definition plain_host :: "string \<Rightarrow> bool" where
  "plain_host h \<longleftrightarrow> list_all (\<lambda>c. is_upper c \<or> is_lower c \<or> is_digit c \<or> c = CHR ''-'' \<or> c = CHR ''.'' \<or> c = CHR ''_'') h"

lemma plain_char:
  "is_upper c \<or> is_lower c \<or> is_digit c \<or> c = CHR ''-'' \<or> c = CHR ''.'' \<or> c = CHR ''_'' \<Longrightarrow>
    host_char_ok c \<and> c \<noteq> CHR ''%'' \<and> c \<noteq> CHR ''#'' \<and> c \<noteq> CHR ''?'' \<and> c \<noteq> CHR ''@''
    \<and> c \<noteq> CHR '':'' \<and> c \<noteq> CHR ''['' \<and> c \<noteq> CHR '']'' \<and> c \<noteq> CHR ''/''"
  by (auto simp: host_char_ok_def is_upper_def is_lower_def is_digit_def byte_def)

lemma plain_host_unescape: "plain_host h \<Longrightarrow> unescape_host h = Some h"
proof (induction h)
  case (Cons c h)
  then have "host_char_ok c" "c \<noteq> CHR ''%''" using plain_char [of c] by (auto simp: plain_host_def)
  with Cons show ?case by (simp add: plain_host_def)
qed simp

lemma plain_host_parse:
  assumes "plain_host h"
  shows "parse_authority h = Some h"
proof -
  have c: "\<forall>c \<in> set h. c \<noteq> CHR ''@'' \<and> c \<noteq> CHR '':'' \<and> c \<noteq> CHR ''['' \<and> c \<noteq> CHR '']''"
    using assms plain_char unfolding plain_host_def list_all_iff by blast
  then have "CHR ''@'' \<notin> set h" "CHR ''['' \<notin> set h" "CHR '']'' \<notin> set h" by blast+
  moreover have "dropWhile ((\<noteq>) CHR '':'') h = []" using c by (auto simp: dropWhile_eq_Nil_conv)
  ultimately show ?thesis
    by (simp add: parse_authority_def last_at_def parse_host_def valid_optional_port_def plain_host_unescape [OF assms])
qed

lemma cut_at_plain: "c \<notin> set a \<Longrightarrow> fst (cut_at (a @ b) c) = a @ fst (cut_at b c)"
  by (induction a) (auto simp: cut_at_def)

lemma cut_at_Cons: "x \<noteq> c \<Longrightarrow> fst (cut_at (x # b) c) = x # fst (cut_at b c)"
  by (simp add: cut_at_def)

lemma get_scheme_https: "get_scheme (''https:'' @ t) = Some (''https'', t)"
  by (simp add: get_scheme_def scheme_char_def is_lower_def is_upper_def is_digit_def byte_def)

lemma settings_url_host:
  assumes "plain_host (takeWhile ((\<noteq>) CHR ''/'') target)"
    and "url_parse (''https://'' @ target @ ''/v2/'' @ domain @ ''/settings'') = Some (scheme, h)"
  shows "scheme = ''https'' \<and> h = takeWhile ((\<noteq>) CHR ''/'') target"
proof -
  define h0 where "h0 = takeWhile ((\<noteq>) CHR ''/'') target"
  define raw where "raw = ''https://'' @ target @ ''/v2/'' @ domain @ ''/settings''"
  have ok: "plain_host h0" using assms(1) by (simp add: h0_def)
  have slash: "CHR ''/'' \<notin> set h0" unfolding h0_def by (auto dest: set_takeWhileD)
  have hash: "CHR ''#'' \<notin> set h0" "CHR ''?'' \<notin> set h0"
    using ok plain_char unfolding plain_host_def list_all_iff by blast+
  obtain tl0 where tl0: "target @ ''/v2/'' @ domain @ ''/settings'' = h0 @ CHR ''/'' # tl0"
  proof (cases "dropWhile ((\<noteq>) CHR ''/'') target")
    case Nil
    then have "target = h0" unfolding h0_def by (metis append_Nil2 takeWhile_dropWhile_id)
    with that show ?thesis by simp
  next
    case (Cons c u)
    then have "c = CHR ''/''" using hd_dropWhile [of "(\<noteq>) CHR ''/''" target] by simp
    with Cons have "target = h0 @ CHR ''/'' # u" unfolding h0_def by (metis takeWhile_dropWhile_id)
    with that show ?thesis by simp
  qed
  let ?t = "fst (cut_at tl0 CHR ''#'')"
  let ?q = "fst (cut_at ?t CHR ''?'')"
  have raw: "raw = ''https://'' @ h0 @ CHR ''/'' # tl0" unfolding raw_def tl0 ..
  have u: "fst (cut_at raw CHR ''#'') = ''https:'' @ ''//'' @ h0 @ CHR ''/'' # ?t"
    unfolding raw by (simp add: cut_at_Cons cut_at_plain hash)
  have q: "fst (cut_at (''//'' @ h0 @ CHR ''/'' # ?t) CHR ''?'') = ''//'' @ h0 @ CHR ''/'' # ?q"
    by (simp add: cut_at_Cons cut_at_plain hash)
  have auth: "takeWhile ((\<noteq>) CHR ''/'') (h0 @ CHR ''/'' # ?q) = h0"
    using slash by (induction h0) auto
  have g: "get_scheme (fst (cut_at raw CHR ''#'')) = Some (''https'', ''//'' @ h0 @ CHR ''/'' # ?t)"
    unfolding u get_scheme_https ..
  have star: "fst (cut_at raw CHR ''#'') \<noteq> ''*''" by (simp add: u)
  from assms(2) [folded raw_def] have "(case parse_authority (takeWhile ((\<noteq>) CHR ''/'') (h0 @ CHR ''/'' # ?q)) of
      None \<Rightarrow> None | Some h \<Rightarrow> if escapes_ok (dropWhile ((\<noteq>) CHR ''/'') (h0 @ CHR ''/'' # ?q)) then Some (''https'', h) else None)
    = Some (scheme, h)"
    unfolding url_parse_def case_prod_unfold
    by (simp add: Let_def star g q [simplified] lower_char_id is_upper_def byte_def split: if_splits)
  then show ?thesis
    unfolding auth plain_host_parse [OF ok] h0_def [symmetric] by (simp split: if_splits)
qed

subsection \<open>Properties\<close>


text \<open>The settings request goes to the host that was screened: where the name in the TXT record has
  only host name characters, the URL built from it parses to the scheme https and that very host.\<close>

theorem settings_request_host:
  assumes "plain_host (takeWhile ((\<noteq>) CHR ''/'') target)"
    and "url_parse (''https://'' @ target @ ''/v2/'' @ domain @ ''/settings'') = Some (scheme, h)"
  shows "scheme = ''https'' \<and> ToLower h = dc_host target"
  using settings_url_host [OF assms] by (simp add: dc_host_def)

lemma settings_request_host_witness:
  "ToLower ''Dc.example.net'' = dc_host ''Dc.example.net/api''"
proof -
  have "url_parse (''https://'' @ ''Dc.example.net/api'' @ ''/v2/'' @ ''a.com'' @ ''/settings'') = Some (''https'', ''Dc.example.net'')"
    by code_simp
  moreover have "plain_host (takeWhile ((\<noteq>) CHR ''/'') ''Dc.example.net/api'')" by code_simp
  ultimately show ?thesis using settings_request_host by blast
qed

text \<open>The screening of IPv4 addresses, in either of Go's two representations, blocks exactly 0.0.0.0 and the
  ranges 10/8, 127/8, 169.254/16, 172.16/12, 192.168/16 and 224/4.\<close>

theorem ipBlocked_v4_ranges:
  assumes "a < 256" "b < 256" "c < 256" "d < (256::nat)" "ip = [a, b, c, d] \<or> ip = v4_mapped @ [a, b, c, d]"
  shows "ipBlocked ip \<longleftrightarrow> list_ex (in_block (v4_number [a, b, c, d])) blocked_blocks"
  using ipBlocked_v4 [OF assms(1-4)] assms(5) by blast

lemma ipBlocked_v4_ranges_witness:
  "ipBlocked [172, 31, 0, 9] \<longleftrightarrow> list_ex (in_block (v4_number [172, 31, 0, 9])) blocked_blocks"
  by (rule ipBlocked_v4_ranges) simp_all

text \<open>The signed query does not depend on the order in which Go iterates over the parameter map, and
  a receiver that splits it at the ampersands and decodes the values reads back every parameter, in
  alphabetical order, when no name holds an ampersand or an equals sign.\<close>

theorem sorted_query_canonical:
  assumes "distinct (map fst params)" "mset params' = mset params" "params \<noteq> []"
    "\<forall>k \<in> fst ` set params. CHR ''&'' \<notin> set k \<and> CHR ''='' \<notin> set k"
  shows "sorted_query params' = sorted_query params \<and>
    map dc_pair (Split (sorted_query params) CHR ''&'') = map (\<lambda>k. (k, Values_Get params k)) (sort (map fst params))"
  using sorted_query_order_free [OF assms(1,2)] sorted_query_decodes [OF assms(3,4)] by blast

lemma sorted_query_canonical_witness:
  "sorted_query [(''b'', [''2 & 3'']), (''a'', [''x+y''])] = sorted_query [(''a'', [''x+y'']), (''b'', [''2 & 3''])]"
  using sorted_query_canonical [of "[(''a'', [''x+y'']), (''b'', [''2 & 3''])]" "[(''b'', [''2 & 3'']), (''a'', [''x+y''])]"]
  by simp

text \<open>Property C13. A request that the client side signs is accepted by the receiving side: where the published key
  belongs to the private key, the signature in a built apply URL passes the signature check of the
  template engine on the signed part of its query.\<close>

theorem BuildApplyURL_verifies:
  assumes built: "BuildApplyURL sg o' = Inr url"
    and key: "auPrivateKey o' = Some k" and host: "auKeyHost o' \<noteq> []" "spk \<noteq> []"
    and pair: "\<forall>q raw. sgSign sg k q = Some raw \<longrightarrow> cryVerify cry pub q raw"
    and b64: "\<forall>raw. cryB64 cry (sgB64 sg raw) = Some raw" "\<forall>raw. raw \<noteq> [] \<longrightarrow> sgB64 sg raw \<noteq> []"
    and nonempty: "\<forall>q. sgSign sg k q \<noteq> Some []"
    and dns: "lookup (auKeyHost o' @ ''.'' @ spk) = Some txts" "parseDCPubKeyTXT txts \<noteq> []"
      "cryB64 cry (parseDCPubKeyTXT txts) = Some der" "cryParsePKIX cry der = Some (Some pub)"
  shows "\<exists>sig. url = apply_path o' @ ''?'' @ sorted_query (apply_values o') @ ''&key='' @ QueryEscape (auKeyHost o') @ ''&sig='' @ QueryEscape sig
    \<and> VerifySignature cry lookup (sorted_query (apply_values o')) sig (auKeyHost o') spk = None"
proof -
  let ?q = "sorted_query (apply_values o')"
  from built key obtain raw where raw: "sgSign sg k ?q = Some raw"
    "url = apply_path o' @ ''?'' @ ?q @ ''&key='' @ QueryEscape (auKeyHost o') @ ''&sig='' @ QueryEscape (sgB64 sg raw)"
    by (auto simp: BuildApplyURL_def SortAndSignParams_def SignQueryString_def split: if_splits option.splits)
  then have "VerifySignature cry lookup ?q (sgB64 sg raw) (auKeyHost o') spk = None"
    using pair b64 nonempty dns host unfolding VerifySignature_accepts by metis
  with raw show ?thesis by blast
qed

lemma BuildApplyURL_verifies_witness:
  "\<exists>sig. ''https://dc.example/v2/domainTemplates/providers/p/services/s/apply?domain=a.com&key=_k&sig=''  @ QueryEscape sig
     = ''https://dc.example/v2/domainTemplates/providers/p/services/s/apply?domain=a.com&key=_k&sig=domain%3Da.com%21''"
proof -
  let ?sg = "\<lparr>sgSign = \<lambda>_ q. Some (q @ ''!''), sgPublicDER = \<lambda>_. Some ''der'', sgSHA256 = \<lambda>x. x, sgB64 = \<lambda>x. x\<rparr> :: unit signer"
  let ?o = "\<lparr>auURLAsyncUX = ''https://dc.example'', auProviderID = ''p'', auServiceID = ''s'', auDomain = ''a.com'',
     auHost = [], auParams = [], auPrivateKey = Some (), auKeyHost = ''_k'', auRedirectURI = [], auState = []\<rparr>"
  let ?cry = "\<lparr>cryB64 = Some, cryParsePKIX = \<lambda>_. Some (Some ()), cryVerify = \<lambda>_ q s. s = q @ ''!''\<rparr>"
  let ?url = "''https://dc.example/v2/domainTemplates/providers/p/services/s/apply?domain=a.com&key=_k&sig=domain%3Da.com%21''"
  have b: "BuildApplyURL ?sg ?o = Inr ?url" by code_simp
  have p: "parseDCPubKeyTXT [''p=1,a=RS256,d=aa''] = ''aa''" by code_simp
  have e: "apply_path ?o @ ''?'' @ sorted_query (apply_values ?o) @ ''&key='' @ QueryEscape (auKeyHost ?o) @ ''&sig=''
     = ''https://dc.example/v2/domainTemplates/providers/p/services/s/apply?domain=a.com&key=_k&sig=''" by code_simp
  have "\<exists>sig. ?url = apply_path ?o @ ''?'' @ sorted_query (apply_values ?o) @ ''&key='' @ QueryEscape (auKeyHost ?o) @ ''&sig='' @ QueryEscape sig
    \<and> VerifySignature ?cry (\<lambda>_. Some [''p=1,a=RS256,d=aa'']) (sorted_query (apply_values ?o)) sig (auKeyHost ?o) ''example.org'' = None"
    by (rule BuildApplyURL_verifies [OF b, where k = "()" and txts = "[''p=1,a=RS256,d=aa'']" and der = "''aa''" and pub = "()"])
      (simp_all add: p)
  then obtain sig where "?url = (apply_path ?o @ ''?'' @ sorted_query (apply_values ?o) @ ''&key='' @ QueryEscape (auKeyHost ?o) @ ''&sig='') @ QueryEscape sig"
    by auto
  then show ?thesis unfolding e by metis
qed

end
