(* ===== verification/Inspect.thy ===== *)
theory Inspect
  imports Detect Esp Domain_Connect
begin

text \<open>
  The consolidated inspection of a domain (\<open>inspect/inspect.go\<close>). The lookups of the standard
  resolver are the fields of \<open>net_env\<close>, \<open>None\<close> where they fail. The goroutines of the code share
  nothing but channels and, in the DKIM probe, a slice of which each writes one index: the probe is
  a sequence of writes in any order of completion.
\<close>

record DKIMSelectorState =
  dkSelector :: string
  dkFound :: bool
  dkTarget :: string
  dkHasTXT :: bool

record DomainState =
  dsDomain :: string
  dsNameservers :: "string list"
  dsDNSProvider :: string
  dsDNSProviderLabel :: string
  dsDNSProviderSupported :: bool
  dsDNSProviderMethod :: string
  dsDomainConnectSupported :: bool
  dsDomainConnectProviderID :: string
  dsDomainConnectProviderName :: string
  dsDomainConnectSyncURL :: string
  dsMXHosts :: "string list"
  dsMailboxProvider :: string
  dsSPFRecord :: string
  dsSPFIncludes :: "string list"
  dsSPFLookupCount :: nat
  dsDKIMSelectors :: "DKIMSelectorState list"
  dsDMARCRecord :: string
  dsDMARCPolicy :: string
  dsDMARCRuas :: "string list"
  dsDMARCRufs :: "string list"
  dsReportsToCanonical :: bool
  dsLegacyRuaDetected :: bool
  dsSenders :: "SenderClassification list"

definition new_state :: "string \<Rightarrow> DomainState" where
  "new_state d = \<lparr>dsDomain = d, dsNameservers = [], dsDNSProvider = [], dsDNSProviderLabel = [],
     dsDNSProviderSupported = False, dsDNSProviderMethod = [], dsDomainConnectSupported = False,
     dsDomainConnectProviderID = [], dsDomainConnectProviderName = [], dsDomainConnectSyncURL = [],
     dsMXHosts = [], dsMailboxProvider = [], dsSPFRecord = [], dsSPFIncludes = [], dsSPFLookupCount = 0,
     dsDKIMSelectors = [], dsDMARCRecord = [], dsDMARCPolicy = [], dsDMARCRuas = [], dsDMARCRufs = [],
     dsReportsToCanonical = False, dsLegacyRuaDetected = False, dsSenders = []\<rparr>"

record InspectOpts =
  ioDKIMSelectors :: "string list option"
  ioCanonicalRuaHost :: string
  ioLegacyRuaHost :: string

record net_env =
  neNS :: "string \<Rightarrow> string list option"
  neMX :: "string \<Rightarrow> string list option"
  neTXT :: "string \<Rightarrow> string list option"
  neCNAME :: "string \<Rightarrow> string option"
  neDiscover :: discoverOptions

subsection \<open>Parsing\<close>

definition mailboxPatterns :: "(string list \<times> string) list" where
  "mailboxPatterns = [([''google.com'', ''googlemail.com''], ''Google Workspace''),
     ([''outlook.com'', ''protection.outlook.com''], ''Microsoft 365''),
     ([''zoho.com''], ''Zoho Mail''),
     ([''messagingengine.com'', ''fastmail''], ''Fastmail''),
     ([''icloud.com'', ''mail.me.com''], ''iCloud Mail''),
     ([''yahoodns.net'', ''yahoo.com''], ''Yahoo Mail''),
     ([''mimecast''], ''Mimecast''),
     ([''barracuda''], ''Barracuda'')]"

fun inferMailbox :: "string list \<Rightarrow> string" where
  "inferMailbox [] = []"
| "inferMailbox (h # hs) =
     (case find (\<lambda>(pats, name). list_ex (Contains (ToLower h)) pats) mailboxPatterns of
        Some (pats, name) \<Rightarrow> name | None \<Rightarrow> inferMailbox hs)"

definition extractSPFIncludesPublic :: "string \<Rightarrow> string list" where
  "extractSPFIncludesPublic spf =
     List.map_filter (\<lambda>tok. let low = ToLower tok in
       if HasPrefix low ''include:'' then Some (TrimSuffix (TrimPrefix low ''include:'') ''.'') else None) (Fields spf)"

fun policy_of_tags :: "string list \<Rightarrow> string" where
  "policy_of_tags [] = []"
| "policy_of_tags (tag # tags) =
     (case SplitN2 (TrimSpace tag) CHR ''='' of
        [k, v] \<Rightarrow> (if EqualFold (TrimSpace k) ''p'' then ToLower (TrimSpace v) else policy_of_tags tags)
      | _ \<Rightarrow> policy_of_tags tags)"

definition parseDMARCPolicy :: "string \<Rightarrow> string" where
  "parseDMARCPolicy rec' = policy_of_tags (Split rec' CHR '';'')"

definition dmarc_addrs :: "string \<Rightarrow> string list" where
  "dmarc_addrs v = filter (\<lambda>p. p \<noteq> [])
     (map (\<lambda>p. TrimPrefix (TrimSpace p) ''mailto:'') (Split v CHR '',''))"

definition parseDMARCAddrs :: "string \<Rightarrow> string \<Rightarrow> string list" where
  "parseDMARCAddrs rec' tagName =
     (let tagLower = ToLower tagName @ ''='' in
      case find (\<lambda>t. HasPrefix (ToLower t) tagLower) (map TrimSpace (Split rec' CHR '';'')) of
        None \<Rightarrow> []
      | Some t \<Rightarrow> dmarc_addrs (TrimPrefix t (take (length tagLower) t)))"

definition ruaContainsHost :: "string list \<Rightarrow> string \<Rightarrow> bool" where
  "ruaContainsHost addrs host = list_ex (\<lambda>a. Contains (ToLower a) (CHR ''@'' # ToLower host)) addrs"

subsection \<open>The DKIM probe\<close>

definition probe_selector :: "net_env \<Rightarrow> string \<Rightarrow> string \<Rightarrow> DKIMSelectorState" where
  "probe_selector env domain sel =
     (let host = sel @ ''._domainkey.'' @ domain;
          s = \<lparr>dkSelector = sel, dkFound = False, dkTarget = [], dkHasTXT = False\<rparr>;
          txt = (case neTXT env host of
              None \<Rightarrow> s
            | Some txts \<Rightarrow>
                if list_ex (\<lambda>t. Contains t ''v=DKIM1'' \<or> Contains (ToLower t) ''k=rsa'') txts
                then s\<lparr>dkFound := True, dkHasTXT := True\<rparr> else s) in
      case neCNAME env host of
        None \<Rightarrow> txt
      | Some target \<Rightarrow>
          (if target \<noteq> [] \<and> TrimSuffix (ToLower target) ''.'' \<noteq> TrimSuffix (ToLower host) ''.''
           then s\<lparr>dkFound := True, dkTarget := TrimSuffix target ''.''\<rparr> else txt))"

text \<open>The slice after the goroutines have finished in the given order.\<close>

definition probe_run :: "net_env \<Rightarrow> string \<Rightarrow> string list \<Rightarrow> nat list \<Rightarrow> DKIMSelectorState list" where
  "probe_run env domain sels order =
     foldl (\<lambda>out i. out[i := probe_selector env domain (sels ! i)])
       (replicate (length sels) \<lparr>dkSelector = [], dkFound = False, dkTarget = [], dkHasTXT = False\<rparr>) order"

definition probeDKIM :: "net_env \<Rightarrow> string \<Rightarrow> string list \<Rightarrow> DKIMSelectorState list" where
  "probeDKIM env domain sels = probe_run env domain sels [0..<length sels]"

subsection \<open>The pass over the domain\<close>

definition ns_part :: "net_env \<Rightarrow> DomainState \<Rightarrow> DomainState" where
  "ns_part env s =
     (case neNS env (dsDomain s) of
        None \<Rightarrow> s
      | Some recs \<Rightarrow>
          (let hosts = map (\<lambda>h. TrimSuffix h ''.'') recs; det = DetectFromNS hosts in
           if hosts = [] then s
           else s\<lparr>dsNameservers := hosts, dsDNSProvider := drProvider det, dsDNSProviderLabel := drLabel det,
                dsDNSProviderSupported := drSupported det, dsDNSProviderMethod := drMethod det\<rparr>))"

definition connect_part :: "net_env \<Rightarrow> DomainState \<Rightarrow> DomainState" where
  "connect_part env s =
     (case fst (Discover (neDiscover env) (dsDomain s)) of
        Inl e \<Rightarrow> s
      | Inr dc \<Rightarrow>
          (if dcSupported dc
           then s\<lparr>dsDomainConnectSupported := True, dsDomainConnectProviderID := dcProviderID dc,
                dsDomainConnectProviderName := dcProviderName dc, dsDomainConnectSyncURL := dcURLSyncUX dc\<rparr>
           else s))"

definition mx_part :: "net_env \<Rightarrow> DomainState \<Rightarrow> DomainState" where
  "mx_part env s =
     (case neMX env (dsDomain s) of
        None \<Rightarrow> s
      | Some recs \<Rightarrow>
          (let hosts = map (\<lambda>h. TrimSuffix h ''.'') recs in
           s\<lparr>dsMXHosts := hosts, dsMailboxProvider := inferMailbox hosts\<rparr>))"

definition spf_part :: "net_env \<Rightarrow> DomainState \<Rightarrow> DomainState" where
  "spf_part env s =
     (case neTXT env (dsDomain s) of
        None \<Rightarrow> s
      | Some txts \<Rightarrow>
          (case find (\<lambda>t. HasPrefix (ToLower (TrimSpace t)) ''v=spf1'') txts of
             None \<Rightarrow> s
           | Some t \<Rightarrow> s\<lparr>dsSPFRecord := t, dsSPFIncludes := extractSPFIncludesPublic t,
               dsSPFLookupCount := CountSPFLookups t\<rparr>))"

definition dmarc_part :: "net_env \<Rightarrow> InspectOpts \<Rightarrow> DomainState \<Rightarrow> DomainState" where
  "dmarc_part env opts s =
     (case neTXT env (''_dmarc.'' @ dsDomain s) of
        None \<Rightarrow> s
      | Some txts \<Rightarrow>
          (case find (\<lambda>t. HasPrefix (ToLower (TrimSpace t)) ''v=dmarc1'') txts of
             None \<Rightarrow> s
           | Some t \<Rightarrow>
               (let ruas = parseDMARCAddrs t ''rua''; rufs = parseDMARCAddrs t ''ruf''; addrs = ruas @ rufs in
                s\<lparr>dsDMARCRecord := t, dsDMARCPolicy := parseDMARCPolicy t, dsDMARCRuas := ruas, dsDMARCRufs := rufs,
                  dsReportsToCanonical := ioCanonicalRuaHost opts \<noteq> [] \<and> ruaContainsHost addrs (ioCanonicalRuaHost opts),
                  dsLegacyRuaDetected := ioLegacyRuaHost opts \<noteq> [] \<and> ruaContainsHost addrs (ioLegacyRuaHost opts)\<rparr>)))"

definition Inspect :: "net_env \<Rightarrow> string \<Rightarrow> InspectOpts \<Rightarrow> string + DomainState" where
  "Inspect env domain0 opts =
     (let domain = TrimSuffix (ToLower (TrimSpace domain0)) ''.'' in
      if domain = [] then Inl ''invalid domain''
      else
        (let selectors = (case ioDKIMSelectors opts of None \<Rightarrow> DefaultDKIMSelectors | Some s \<Rightarrow> s);
             s5 = dmarc_part env opts (spf_part env (mx_part env (connect_part env (ns_part env (new_state domain)))));
             s6 = (if selectors \<noteq> [] then s5\<lparr>dsDKIMSelectors := probeDKIM env domain selectors\<rparr> else s5) in
         Inr (s6\<lparr>dsSenders := ClassifyDomainWithResolvers domain (dsSPFRecord s6) (Some selectors)
               (Some (neTXT env)) (Some (neCNAME env))\<rparr>)))"

subsection \<open>Facts\<close>

lemma length_foldl_update: "length (foldl (\<lambda>out i. out[i := f i]) xs order) = length xs"
  by (induction order arbitrary: xs) auto

lemma length_probe_run [simp]: "length (probe_run env d sels order) = length sels"
  by (simp add: probe_run_def length_foldl_update)

lemma foldl_updates:
  "i < length xs \<Longrightarrow> foldl (\<lambda>out j. out[j := f j]) xs order ! i = (if i \<in> set order then f i else xs ! i)"
proof (induction order arbitrary: xs)
  case (Cons j order)
  then show ?case by (cases "i = j") auto
qed simp

lemma probe_run_any_order:
  assumes "{0..<length sels} \<subseteq> set order"
  shows "probe_run env d sels order = map (probe_selector env d) sels"
proof (rule nth_equalityI)
  fix i
  assume "i < length (probe_run env d sels order)"
  then have "i < length sels" "i \<in> set order" using assms by auto
  then show "probe_run env d sels order ! i = map (probe_selector env d) sels ! i"
    unfolding probe_run_def by (subst foldl_updates) auto
qed simp

lemma parts_domain [simp]:
  "dsDomain (ns_part env s) = dsDomain s" "dsDomain (connect_part env s) = dsDomain s"
  "dsDomain (mx_part env s) = dsDomain s" "dsDomain (spf_part env s) = dsDomain s"
  "dsDomain (dmarc_part env opts s) = dsDomain s"
  by (simp_all add: ns_part_def connect_part_def mx_part_def spf_part_def dmarc_part_def Let_def
      split: option.split sum.split)

subsection \<open>Properties\<close>

text \<open>The DKIM probe is deterministic although its goroutines finish in any order: every complete
  order of the writes leaves one entry per selector, in the order of the selectors, as the
  sequential probe does.\<close>

theorem probe_order_free:
  assumes "mset order = mset [0..<length sels]"
  shows "probe_run env domain sels order = probeDKIM env domain sels
    \<and> probeDKIM env domain sels = map (probe_selector env domain) sels"
proof -
  have "set order = {0..<length sels}" using mset_eq_setD [OF assms] by simp
  then show ?thesis by (simp add: probe_run_any_order probeDKIM_def)
qed

lemma probe_order_free_witness:
  "probe_run \<lparr>neNS = \<lambda>_. None, neMX = \<lambda>_. None, neTXT = \<lambda>_. None, neCNAME = \<lambda>h. Some ''k.sendgrid.net.'',
      neDiscover = \<lparr>doIP = \<lambda>_. None, doTXT = \<lambda>_. None, doHTTP = \<lambda>_. ReplyError, doIPText = \<lambda>_. []\<rparr>\<rparr> ''a.com'' [''s1'', ''s2''] [1, 0]
    = [\<lparr>dkSelector = ''s1'', dkFound = True, dkTarget = ''k.sendgrid.net'', dkHasTXT = False\<rparr>,
       \<lparr>dkSelector = ''s2'', dkFound = True, dkTarget = ''k.sendgrid.net'', dkHasTXT = False\<rparr>]"
proof -
  have m: "mset [1, 0] = mset [0..<length [''s1'', ''s2'']]" by (simp add: upt_rec)
  show ?thesis unfolding conjunct1 [OF probe_order_free [OF m]] by code_simp
qed

text \<open>The report address check accepts every address at the given host, but also addresses at other
  domains: it looks for the host after an at sign anywhere in the address and does not compare the
  domain part, so reports sent to example.com.attacker.net count as reports to example.com.\<close>

theorem ruaContainsHost_substring:
  "ruaContainsHost [a @ CHR ''@'' # host] host \<and> ruaContainsHost [a @ CHR ''@'' # host @ ''.attacker.net''] host"
proof -
  have "ToLower (a @ CHR ''@'' # host @ t) = ToLower a @ (CHR ''@'' # ToLower host) @ ToLower t" for t
    by (simp add: ToLower_def lower_char_def is_upper_def byte_def)
  then have "sublist (CHR ''@'' # ToLower host) (ToLower (a @ CHR ''@'' # host @ t))" for t
    by (metis sublist_appendI)
  from this [of "[]"] this [of "''.attacker.net''"] show ?thesis
    by (simp add: ruaContainsHost_def Contains_sublist)
qed

end
