(* ===== verification/Migrate_Zone.thy ===== *)
theory Migrate_Zone
  imports Dns_Types
begin

text \<open>
  Acquisition of the source zone of a migration: conversion of resource records (\<open>convert.go\<close>), BIND
  import (\<open>bind.go\<close>), zone transfer and the iterated label walk (\<open>scrape.go\<close>). The DNS library and the
  resolver are the fields of \<open>scrape_env\<close>: a transfer is the list of its envelopes, a query has an
  answer section and a response code. \<open>seDone n\<close> says whether the context is found cancelled before
  the \<open>n\<close>-th query. The rate limit only delays and is left out.
\<close>

datatype rr_body =
    BSOA | BDNSKEY | BDS
  | BA string | BAAAA string | BCNAME string | BTXT "string list" | BMX nat string | BNS string
  | BSRV nat nat nat string | BCAA nat string string | BTLSA nat nat nat string | BSSHFP nat nat string
  | BOther

record dns_rr =
  rhName :: string
  rhTtl :: nat
  rhRrtype :: nat
  rhBody :: rr_body

record MZone =
  zDomain :: string
  zRecords :: "Record list"
  zSource :: string
  zNameservers :: "string list"
  zWarnings :: "string list"

definition new_zone :: "string \<Rightarrow> string \<Rightarrow> MZone" where
  "new_zone d src = \<lparr>zDomain = d, zRecords = [], zSource = src, zNameservers = [], zWarnings = []\<rparr>"

subsection \<open>Conversion\<close>

text \<open>Go's \<open>%q\<close> on ASCII text.\<close>

definition hex_lower :: "nat \<Rightarrow> char" where
  "hex_lower n = char_of (if n < 10 then 48 + n else 87 + n)"

definition quote_char :: "char \<Rightarrow> string" where
  "quote_char c =
     (let b = byte c in
      if b = 0x22 \<or> b = 0x5c then [char_of (0x5c :: nat), c]
      else if b = 0x07 then [char_of (0x5c :: nat), CHR ''a'']
      else if b = 0x08 then [char_of (0x5c :: nat), CHR ''b'']
      else if b = 0x0c then [char_of (0x5c :: nat), CHR ''f'']
      else if b = 0x0a then [char_of (0x5c :: nat), CHR ''n'']
      else if b = 0x0d then [char_of (0x5c :: nat), CHR ''r'']
      else if b = 0x09 then [char_of (0x5c :: nat), CHR ''t'']
      else if b = 0x0b then [char_of (0x5c :: nat), CHR ''v'']
      else if b < 0x20 \<or> b = 0x7f then [char_of (0x5c :: nat), CHR ''x'', hex_lower (b div 16), hex_lower (b mod 16)]
      else [c])"

definition go_quote :: "string \<Rightarrow> string" where
  "go_quote s = char_of (0x22 :: nat) # concat (map quote_char s) @ [char_of (0x22 :: nat)]"

abbreviation digits :: "nat \<Rightarrow> string" where
  "digits n \<equiv> nat_digits n"

text \<open>The record, if it is kept, and a warning, empty if there is none.\<close>

definition rrToRecord :: "(nat \<Rightarrow> string) \<Rightarrow> dns_rr \<Rightarrow> Record option \<times> string" where
  "rrToRecord typeName rr =
     (let name = TrimSuffix (rhName rr) ''.''; ttl = int (rhTtl rr) in
      case rhBody rr of
        BSOA \<Rightarrow> (None, [])
      | BDNSKEY \<Rightarrow> (None, ''DNSKEY at '' @ name @ '' skipped (target provider manages DNSSEC)'')
      | BDS \<Rightarrow> (None, ''DS at '' @ name @ '' skipped (target provider manages DNSSEC)'')
      | BA ip \<Rightarrow> (Some (mk_record ''A'' name ip ttl), [])
      | BAAAA ip \<Rightarrow> (Some (mk_record ''AAAA'' name ip ttl), [])
      | BCNAME t \<Rightarrow> (Some (mk_record ''CNAME'' name (TrimSuffix t ''.'') ttl), [])
      | BTXT ts \<Rightarrow> (Some (mk_record ''TXT'' name (concat ts) ttl), [])
      | BMX p m \<Rightarrow> (Some ((mk_record ''MX'' name (TrimSuffix m ''.'') ttl)\<lparr>recPriority := int p\<rparr>), [])
      | BNS n \<Rightarrow> (Some (mk_record ''NS'' name (TrimSuffix n ''.'') ttl), [])
      | BSRV p w po t \<Rightarrow> (Some ((mk_record ''SRV'' name (TrimSuffix t ''.'') ttl)
            \<lparr>recPriority := int p, recWeight := int w, recPort := int po\<rparr>), [])
      | BCAA f t v \<Rightarrow> (Some (mk_record ''CAA'' name (digits f @ '' '' @ t @ '' '' @ go_quote v) ttl), [])
      | BTLSA u s m c \<Rightarrow> (Some (mk_record ''TLSA'' name (digits u @ '' '' @ digits s @ '' '' @ digits m @ '' '' @ c) ttl), [])
      | BSSHFP a t f \<Rightarrow> (Some (mk_record ''SSHFP'' name (digits a @ '' '' @ digits t @ '' '' @ f) ttl), [])
      | BOther \<Rightarrow> (None, ''unsupported rrtype '' @ typeName (rhRrtype rr) @ '' at '' @ name @ '' skipped''))"

definition inZone :: "string \<Rightarrow> string \<Rightarrow> bool" where
  "inZone name zone =
     (let n = ToLower (TrimSuffix name ''.''); z = ToLower (TrimSuffix zone ''.'') in
      n = z \<or> HasSuffix n (CHR ''.'' # z))"

definition warn :: "string \<Rightarrow> string list \<Rightarrow> string list" where
  "warn w ws = (if w \<noteq> [] then ws @ [w] else ws)"

subsection \<open>BIND import\<close>

fun import_rr :: "(nat \<Rightarrow> string) \<Rightarrow> MZone \<Rightarrow> dns_rr \<Rightarrow> MZone" where
  "import_rr tn z rr =
     (case rrToRecord tn rr of
        (None, w) \<Rightarrow> z\<lparr>zWarnings := warn w (zWarnings z)\<rparr>
      | (Some r, w) \<Rightarrow>
          (let z1 = z\<lparr>zWarnings := warn w (zWarnings z)\<rparr> in
           if \<not> inZone (recName r) (zDomain z)
           then z1\<lparr>zWarnings := zWarnings z1 @ [''dropped out-of-zone record '' @ recType r @ '' '' @ recName r]\<rparr>
           else z1\<lparr>zRecords := zRecords z1 @ [r]\<rparr>))"

text \<open>The zone parser yields its records and then possibly an error.\<close>

definition ImportBIND :: "(nat \<Rightarrow> string) \<Rightarrow> dns_rr list \<times> string option \<Rightarrow> string \<Rightarrow> string + MZone" where
  "ImportBIND tn parsed domain =
     (case parsed of (rrs, err) \<Rightarrow>
        (let z = foldl (import_rr tn) (new_zone (TrimSuffix domain ''.'') ''bind'') rrs in
         case err of Some e \<Rightarrow> Inl (''bind parse: '' @ e) | None \<Rightarrow> Inr z))"

subsection \<open>Zone transfer\<close>

datatype exchange = ExchErr string | ExchNil | ExchResp "dns_rr list" nat

record scrape_env =
  seLookupNS :: "string \<Rightarrow> string + string list"
  seLookupHost :: "string \<Rightarrow> string list option"
  seAxfr :: "string \<Rightarrow> string \<Rightarrow> string + (dns_rr list \<times> string option) list"
  seExchange :: "string \<Rightarrow> string \<Rightarrow> nat \<Rightarrow> exchange"
  seTypeName :: "nat \<Rightarrow> string"
  seRcodeName :: "nat \<Rightarrow> string"
  seDone :: "nat \<Rightarrow> bool"

definition "rrtype_SOA = (6 :: nat)"

fun axfr_rr :: "scrape_env \<Rightarrow> string \<Rightarrow> MZone \<times> nat \<Rightarrow> dns_rr \<Rightarrow> MZone \<times> nat" where
  "axfr_rr env domain (z, soa) rr =
     (if rhRrtype rr = rrtype_SOA then (z, Suc soa)
      else if \<not> inZone (rhName rr) domain
      then (z\<lparr>zWarnings := zWarnings z @ [''dropped out-of-zone AXFR record '' @ seTypeName env (rhRrtype rr)
              @ '' '' @ TrimSuffix (rhName rr) ''.'']\<rparr>, soa)
      else case rrToRecord (seTypeName env) rr of
        (None, w) \<Rightarrow> (z\<lparr>zWarnings := warn w (zWarnings z)\<rparr>, soa)
      | (Some r, w) \<Rightarrow> (z\<lparr>zWarnings := warn w (zWarnings z), zRecords := zRecords z @ [r]\<rparr>, soa))"

definition axfrTransfer :: "scrape_env \<Rightarrow> string \<Rightarrow> string \<Rightarrow> string + MZone" where
  "axfrTransfer env domain nsAddr =
     (case seAxfr env domain nsAddr of
        Inl e \<Rightarrow> Inl e
      | Inr envs \<Rightarrow>
          (let rrs = concat (map fst envs); errs = List.map_filter snd envs in
           if errs \<noteq> [] \<and> rrs = [] then Inl (last errs)
           else if rrs = [] then Inl ''axfr returned no records''
           else (case foldl (axfr_rr env domain) (new_zone domain ''axfr'', 0) rrs of
               (z, soa) \<Rightarrow> if soa < 2 then Inl ''axfr incomplete: expected opening and closing SOA'' else Inr z)))"

subsection \<open>The label walk\<close>

definition DefaultLabels :: "string list" where
  "DefaultLabels = [
     ''@'', ''*'', ''www'', ''mail'', ''webmail'', ''autodiscover'', ''autoconfig'',
     ''ftp'', ''sftp'', ''vpn'',
     ''ns1'', ''ns2'', ''ns3'', ''ns4'',
     ''api'', ''app'', ''admin'', ''dev'', ''staging'', ''beta'', ''blog'', ''shop'',
     ''cdn'', ''static'', ''assets'', ''files'', ''docs'', ''status'', ''support'', ''help'',
     ''_dmarc'', ''_domainkey'', ''_mta-sts'', ''_smtp._tls'', ''_acme-challenge'',
     ''selector1._domainkey'', ''selector2._domainkey'', ''google._domainkey'',
     ''k1._domainkey'', ''k2._domainkey'', ''s1._domainkey'', ''s2._domainkey'',
     ''default._domainkey'', ''smtp._domainkey'', ''mandrill._domainkey'',
     ''_github-challenge'', ''_globalsign-domain-verification'', ''_atproto'',
     ''_spf'', ''_psl'', ''_domainconnect'']"

record ScrapeOptions =
  soNameservers :: "string list"
  soExtraLabels :: "string list"
  soOnlyLabels :: "string list"
  soSkipAXFR :: bool

definition labels :: "ScrapeOptions \<Rightarrow> string list" where
  "labels opts = (if soOnlyLabels opts \<noteq> [] then soOnlyLabels opts else DefaultLabels @ soExtraLabels opts)"

definition iteratedQueryTypes :: "nat list" where
  "iteratedQueryTypes = [1, 28, 5, 16, 15, 2, 33, 257, 52, 44]"

record walk_state =
  wkRecords :: "Record list"
  wkWarnings :: "string list"
  wkQueue :: "(string \<times> nat) list"
  wkSeen :: "string list"
  wkAddedNS :: "string list"
  wkQueries :: nat

definition enqueue :: "string \<Rightarrow> nat \<Rightarrow> walk_state \<Rightarrow> walk_state" where
  "enqueue name depth st =
     (let key = ToLower (TrimSuffix name ''.'') in
      if key \<in> set (wkSeen st) then st
      else st\<lparr>wkSeen := key # wkSeen st, wkQueue := wkQueue st @ [(key, depth)]\<rparr>)"

text \<open>The first name server that answers.\<close>

fun queryAuthoritative :: "scrape_env \<Rightarrow> string list \<Rightarrow> string \<Rightarrow> nat \<Rightarrow> string option \<Rightarrow> string + dns_rr list \<times> nat" where
  "queryAuthoritative env [] name qtype lastErr =
     Inl (case lastErr of None \<Rightarrow> ''no nameservers available'' | Some e \<Rightarrow> e)"
| "queryAuthoritative env (ns # nss) name qtype lastErr =
     (case seExchange env ns name qtype of
        ExchErr e \<Rightarrow> queryAuthoritative env nss name qtype (Some e)
      | ExchNil \<Rightarrow> queryAuthoritative env nss name qtype (Some ''nil response'')
      | ExchResp rrs rcode \<Rightarrow> Inr (rrs, rcode))"

definition follow_cname :: "string \<Rightarrow> nat \<Rightarrow> rr_body \<Rightarrow> walk_state \<Rightarrow> walk_state" where
  "follow_cname domain depth body st =
     (case body of
        BCNAME t \<Rightarrow> (let tgt = TrimSuffix t ''.'' in
          if depth < 4 \<and> inZone tgt domain then enqueue tgt (Suc depth) st else st)
      | _ \<Rightarrow> st)"

definition note_delegation :: "string \<Rightarrow> dns_rr \<Rightarrow> walk_state \<Rightarrow> walk_state" where
  "note_delegation domain rr st =
     (case rhBody rr of
        BNS n \<Rightarrow> (let nm = TrimSuffix (rhName rr) ''.'' in
          if \<not> EqualFold nm domain \<and> nm \<notin> set (wkAddedNS st)
          then st\<lparr>wkAddedNS := nm # wkAddedNS st,
                 wkWarnings := wkWarnings st @ [''child zone delegation at '' @ nm @ '' -> '' @ TrimSuffix n ''.'' @ '' (not followed)'']\<rparr>
          else st)
      | _ \<Rightarrow> st)"

fun walk_rr :: "scrape_env \<Rightarrow> string \<Rightarrow> nat \<Rightarrow> walk_state \<Rightarrow> dns_rr \<Rightarrow> walk_state" where
  "walk_rr env domain depth st rr =
     (if \<not> inZone (rhName rr) domain then st
      else case rrToRecord (seTypeName env) rr of
        (None, w) \<Rightarrow> st\<lparr>wkWarnings := warn w (wkWarnings st)\<rparr>
      | (Some r, w) \<Rightarrow>
          note_delegation domain rr (follow_cname domain depth (rhBody rr)
            (st\<lparr>wkWarnings := warn w (wkWarnings st), wkRecords := wkRecords st @ [r]\<rparr>)))"

definition walk_type :: "scrape_env \<Rightarrow> string \<Rightarrow> string list \<Rightarrow> string \<Rightarrow> nat \<Rightarrow> nat \<Rightarrow> walk_state \<Rightarrow> walk_state" where
  "walk_type env domain nss name depth qtype st =
     (let st = st\<lparr>wkQueries := Suc (wkQueries st)\<rparr> in
      case queryAuthoritative env nss name qtype None of
        Inl e \<Rightarrow> st\<lparr>wkWarnings := wkWarnings st @ [''query '' @ seTypeName env qtype @ '' '' @ name @ '' failed: '' @ e]\<rparr>
      | Inr (rrs, rcode) \<Rightarrow>
          (if rcode \<noteq> 0 \<and> rcode \<noteq> 3
           then st\<lparr>wkWarnings := wkWarnings st @ [''query '' @ seTypeName env qtype @ '' '' @ name @ '' rcode='' @ seRcodeName env rcode]\<rparr>
           else foldl (walk_rr env domain depth) st rrs))"

text \<open>The types of one name; \<open>True\<close> when the context was cancelled.\<close>

fun walk_name :: "scrape_env \<Rightarrow> string \<Rightarrow> string list \<Rightarrow> string \<Rightarrow> nat \<Rightarrow> nat list \<Rightarrow> walk_state \<Rightarrow> bool \<times> walk_state" where
  "walk_name env domain nss name depth [] st = (False, st)"
| "walk_name env domain nss name depth (q # qs) st =
     (if seDone env (wkQueries st) then (True, st)
      else walk_name env domain nss name depth qs (walk_type env domain nss name depth q st))"

text \<open>Every new queue entry lies one level deeper, at most at depth four: the multiset of the levels
  left decreases with every name taken from the queue.\<close>

definition levels :: "walk_state \<Rightarrow> nat multiset" where
  "levels st = mset (map (\<lambda>(n, d). 5 - d) (wkQueue st))"

definition grows :: "nat \<Rightarrow> walk_state \<Rightarrow> walk_state \<Rightarrow> bool" where
  "grows depth st st' \<longleftrightarrow> (\<exists>new. wkQueue st' = wkQueue st @ new \<and> set (wkSeen st') = set (wkSeen st) \<union> fst ` set new
     \<and> distinct (map fst new) \<and> fst ` set new \<inter> set (wkSeen st) = {}
     \<and> (\<forall>(n, d) \<in> set new. d = Suc depth \<and> depth < 4))"

lemma grows_refl [simp]: "wkQueue st' = wkQueue st \<Longrightarrow> wkSeen st' = wkSeen st \<Longrightarrow> grows d st st'"
  by (simp add: grows_def)

lemma grows_trans:
  assumes "grows d a b" "grows d b c"
  shows "grows d a c"
proof -
  from assms(1) obtain n1 where n1: "wkQueue b = wkQueue a @ n1" "set (wkSeen b) = set (wkSeen a) \<union> fst ` set n1"
    "distinct (map fst n1)" "fst ` set n1 \<inter> set (wkSeen a) = {}" "\<forall>(n, e) \<in> set n1. e = Suc d \<and> d < 4"
    by (auto simp: grows_def)
  from assms(2) obtain n2 where n2: "wkQueue c = wkQueue b @ n2" "set (wkSeen c) = set (wkSeen b) \<union> fst ` set n2"
    "distinct (map fst n2)" "fst ` set n2 \<inter> set (wkSeen b) = {}" "\<forall>(n, e) \<in> set n2. e = Suc d \<and> d < 4"
    by (auto simp: grows_def)
  have "fst ` set n1 \<inter> fst ` set n2 = {}" "fst ` set n2 \<inter> set (wkSeen a) = {}"
    using n1(2) n2(4) by blast+
  with n1 n2 show ?thesis
    unfolding grows_def by (intro exI [of _ "n1 @ n2"]) (auto simp: Int_Un_distrib2)
qed

lemma grows_walk_rr: "grows depth st (walk_rr env domain depth st rr)"
proof (cases "\<not> inZone (rhName rr) domain \<or> fst (rrToRecord (seTypeName env) rr) = None")
  case True
  then show ?thesis by (auto split: prod.split option.split)
next
  case False
  then obtain r w where r: "rrToRecord (seTypeName env) rr = (Some r, w)" "inZone (rhName rr) domain"
    by (cases "rrToRecord (seTypeName env) rr") auto
  define s1 where "s1 = st\<lparr>wkWarnings := warn w (wkWarnings st), wkRecords := wkRecords st @ [r]\<rparr>"
  have "grows depth st s1" by (rule grows_refl) (simp_all add: s1_def)
  moreover have "grows depth s1 (follow_cname domain depth (rhBody rr) s1)"
    by (auto simp: follow_cname_def enqueue_def grows_def Let_def split: rr_body.split)
  moreover have "grows depth s (note_delegation domain rr s)" for s
    by (rule grows_refl) (auto simp: note_delegation_def Let_def split: rr_body.split)
  ultimately have "grows depth st (note_delegation domain rr (follow_cname domain depth (rhBody rr) s1))"
    by (blast intro: grows_trans)
  with r show ?thesis by (simp add: s1_def)
qed

lemma grows_foldl: "(\<And>s x. grows d s (f s x)) \<Longrightarrow> grows d st (foldl f st xs)"
  by (induction xs arbitrary: st) (auto intro: grows_trans)

lemma grows_walk_type: "grows depth st (walk_type env domain nss name depth q st)"
proof -
  let ?s = "st\<lparr>wkQueries := Suc (wkQueries st)\<rparr>"
  have "grows depth st (foldl (walk_rr env domain depth) ?s rrs)" for rrs
    by (rule grows_trans [OF grows_refl grows_foldl]) (simp_all add: grows_walk_rr del: walk_rr.simps)
  then show ?thesis by (auto simp: walk_type_def Let_def split: sum.split)
qed

lemma grows_walk_name: "grows depth st (snd (walk_name env domain nss name depth qs st))"
proof (induction qs arbitrary: st)
  case (Cons q qs)
  show ?case
    using grows_trans [OF grows_walk_type Cons.IH [of "walk_type env domain nss name depth q st"]] by simp
qed simp

lemma levels_decrease:
  assumes "wkQueue st = (name, depth) # q" "grows depth (st\<lparr>wkQueue := q\<rparr>) st'"
  shows "(levels st', levels st) \<in> mult less_than"
proof -
  from assms(2) obtain new where new: "wkQueue st' = q @ new" "\<forall>(n, d) \<in> set new. d = Suc depth \<and> depth < 4"
    unfolding grows_def by auto
  have st: "levels st = add_mset (5 - depth) (mset (map (\<lambda>(n, d). 5 - d) q))"
    using assms(1) by (simp add: levels_def)
  have st': "levels st' = mset (map (\<lambda>(n, d). 5 - d) q) + mset (map (\<lambda>(n, d). 5 - d) new)"
    by (simp add: levels_def new(1))
  have "k < 5 - depth" if "k \<in># mset (map (\<lambda>(n, d). 5 - d) new)" for k
    using that new(2) by fastforce
  then have "(mset (map (\<lambda>(n, d). 5 - d) q) + mset (map (\<lambda>(n, d). 5 - d) new), mset (map (\<lambda>(n, d). 5 - d) q) + {#5 - depth#}) \<in> mult less_than"
    by (intro one_step_implies_mult) auto
  then show ?thesis by (simp add: st st')
qed

function walk_loop :: "scrape_env \<Rightarrow> string \<Rightarrow> string list \<Rightarrow> walk_state \<Rightarrow> bool \<times> walk_state" where
  "walk_loop env domain nss st =
     (case wkQueue st of
        [] \<Rightarrow> (False, st)
      | (name, depth) # q \<Rightarrow>
          (case walk_name env domain nss name depth iteratedQueryTypes (st\<lparr>wkQueue := q\<rparr>) of
             (True, st') \<Rightarrow> (True, st')
           | (False, st') \<Rightarrow> walk_loop env domain nss st'))"
  by pat_completeness auto
termination
proof (relation "inv_image (mult less_than) (\<lambda>(env, domain, nss, st). levels st)", goal_cases)
  case 1
  show ?case by (intro wf_inv_image wf_mult) simp
next
  case (2 env domain nss st p q name depth r st')
  then have "snd (walk_name env domain nss name depth iteratedQueryTypes (st\<lparr>wkQueue := q\<rparr>)) = st'"
    by (metis snd_conv)
  with 2 show ?case
    using levels_decrease [of st name depth q st'] grows_walk_name [of depth "st\<lparr>wkQueue := q\<rparr>" env domain nss name iteratedQueryTypes]
    by simp
qed

declare walk_loop.simps [simp del]

definition dedup_key :: "Record \<Rightarrow> string" where
  "dedup_key r = recType r @ ''|'' @ ToLower (recName r) @ ''|'' @ recContent r @ ''|'' @ Itoa (recPriority r)"

fun dedupRecords :: "Record list \<Rightarrow> string list \<Rightarrow> Record list" where
  "dedupRecords [] seen = []"
| "dedupRecords (r # rs) seen =
     (if dedup_key r \<in> set seen then dedupRecords rs seen
      else r # dedupRecords rs (dedup_key r # seen))"

definition walk_start :: "string \<Rightarrow> ScrapeOptions \<Rightarrow> walk_state" where
  "walk_start domain opts =
     foldl (\<lambda>st lbl. enqueue (if lbl = ''@'' then domain else lbl @ ''.'' @ domain) 0 st)
       \<lparr>wkRecords = [], wkWarnings = [], wkQueue = [], wkSeen = [], wkAddedNS = [], wkQueries = 0\<rparr> (labels opts)"

definition iteratedScrape :: "scrape_env \<Rightarrow> string \<Rightarrow> string list \<Rightarrow> ScrapeOptions \<Rightarrow> string + MZone" where
  "iteratedScrape env domain nss opts =
     (case walk_loop env domain nss (walk_start domain opts) of
        (True, st) \<Rightarrow> Inl ''context done''
      | (False, st) \<Rightarrow> Inr ((new_zone domain ''iterated'')
          \<lparr>zRecords := dedupRecords (wkRecords st) [], zWarnings := wkWarnings st\<rparr>))"

subsection \<open>Acquisition\<close>

definition JoinHostPort53 :: "string \<Rightarrow> string" where
  "JoinHostPort53 h = (if CHR '':'' \<in> set h then ''['' @ h @ '']:53'' else h @ '':53'')"

definition resolve_ns :: "scrape_env \<Rightarrow> string list \<Rightarrow> string list" where
  "resolve_ns env nss = List.map_filter (\<lambda>ns.
     case seLookupHost env (TrimSuffix ns ''.'') of Some (ip # ips) \<Rightarrow> Some (JoinHostPort53 ip) | _ \<Rightarrow> None) nss"

definition scrape_servers :: "scrape_env \<Rightarrow> string \<Rightarrow> ScrapeOptions \<Rightarrow> string + string list" where
  "scrape_servers env domain opts =
     (if soNameservers opts \<noteq> [] then Inr (soNameservers opts)
      else case seLookupNS env domain of
        Inl e \<Rightarrow> Inl (''lookup NS for '' @ domain @ '': '' @ e)
      | Inr nss \<Rightarrow> (if resolve_ns env nss = [] then Inl (''no usable nameservers for '' @ domain) else Inr (resolve_ns env nss)))"

fun first_axfr :: "scrape_env \<Rightarrow> string \<Rightarrow> string list \<Rightarrow> MZone option" where
  "first_axfr env domain [] = None"
| "first_axfr env domain (ns # nss) =
     (case axfrTransfer env domain ns of Inr z \<Rightarrow> Some z | Inl e \<Rightarrow> first_axfr env domain nss)"

definition ScrapeZone :: "scrape_env \<Rightarrow> string \<Rightarrow> ScrapeOptions \<Rightarrow> string + MZone" where
  "ScrapeZone env domain0 opts =
     (let domain = TrimSuffix domain0 ''.'' in
      bindE (scrape_servers env domain opts) (\<lambda>nss.
        case (if soSkipAXFR opts then None else first_axfr env domain nss) of
          Some z \<Rightarrow> Inr (z\<lparr>zNameservers := nss\<rparr>)
        | None \<Rightarrow> bindE (iteratedScrape env domain nss opts) (\<lambda>z. Inr (z\<lparr>zNameservers := nss\<rparr>))))"

subsection \<open>What the walk collects\<close>

definition kept :: "scrape_env \<Rightarrow> string \<Rightarrow> dns_rr list \<Rightarrow> Record list" where
  "kept env domain rrs =
     List.map_filter (\<lambda>rr. if inZone (rhName rr) domain then fst (rrToRecord (seTypeName env) rr) else None) rrs"

definition type_answers :: "scrape_env \<Rightarrow> string \<Rightarrow> string list \<Rightarrow> string \<Rightarrow> nat \<Rightarrow> Record list" where
  "type_answers env domain nss name q =
     (case queryAuthoritative env nss name q None of
        Inl e \<Rightarrow> []
      | Inr (rrs, rcode) \<Rightarrow> if rcode = 0 \<or> rcode = 3 then kept env domain rrs else [])"

definition name_answers :: "scrape_env \<Rightarrow> string \<Rightarrow> string list \<Rightarrow> string \<Rightarrow> Record list" where
  "name_answers env domain nss name = concat (map (type_answers env domain nss name) iteratedQueryTypes)"

lemma wkRecords_follow [simp]:
  "wkRecords (follow_cname domain depth b st) = wkRecords st"
  "wkRecords (note_delegation domain rr st) = wkRecords st"
  by (auto simp: follow_cname_def note_delegation_def enqueue_def Let_def split: rr_body.split)

lemma wkRecords_walk_rr: "wkRecords (walk_rr env domain depth st rr) = wkRecords st @ kept env domain [rr]"
  by (auto simp: kept_def List.map_filter_def split: prod.split option.split)

lemma wkRecords_foldl: "wkRecords (foldl (walk_rr env domain depth) st rrs) = wkRecords st @ kept env domain rrs"
proof (induction rrs arbitrary: st)
  case (Cons rr rrs)
  have "kept env domain (rr # rrs) = kept env domain [rr] @ kept env domain rrs"
    by (simp add: kept_def List.map_filter_def)
  with Cons show ?case by (simp add: wkRecords_walk_rr del: walk_rr.simps)
qed (simp add: kept_def List.map_filter_def)

lemma wkRecords_walk_type:
  "wkRecords (walk_type env domain nss name depth q st) = wkRecords st @ type_answers env domain nss name q"
  by (auto simp: walk_type_def type_answers_def Let_def wkRecords_foldl simp del: walk_rr.simps split: sum.split prod.split)

lemma wkRecords_walk_name:
  "walk_name env domain nss name depth qs st = (False, st') \<Longrightarrow>
    wkRecords st' = wkRecords st @ concat (map (type_answers env domain nss name) qs)"
  by (induction qs arbitrary: st) (auto simp: wkRecords_walk_type split: if_splits)

lemma walk_loop_exact:
  "walk_loop env domain nss st = (False, st') \<Longrightarrow> distinct (vis @ map fst (wkQueue st)) \<Longrightarrow>
    set (vis @ map fst (wkQueue st)) = set (wkSeen st) \<Longrightarrow>
    \<exists>names. fst ` set (wkQueue st) \<subseteq> set names \<and> distinct (vis @ names)
      \<and> wkRecords st' = wkRecords st @ concat (map (name_answers env domain nss) names)"
proof (induction env domain nss st arbitrary: vis rule: walk_loop.induct)
  case (1 env domain nss st)
  show ?case
  proof (cases "wkQueue st")
    case Nil
    with 1 show ?thesis by (auto simp: walk_loop.simps [of env domain nss st] intro!: exI [of _ "[]"])
  next
    case (Cons p q)
    obtain name depth where p: "p = (name, depth)" by (cases p)
    let ?s = "st\<lparr>wkQueue := q\<rparr>"
    obtain c s1 where w: "walk_name env domain nss name depth iteratedQueryTypes ?s = (c, s1)" by fastforce
    from "1.prems"(1) Cons p w have c: "\<not> c" and l: "walk_loop env domain nss s1 = (False, st')"
      by (auto simp: walk_loop.simps [of env domain nss st] split: bool.splits)
    have r1: "wkRecords s1 = wkRecords st @ name_answers env domain nss name"
      using wkRecords_walk_name [of env domain nss name depth iteratedQueryTypes ?s s1] w c by (simp add: name_answers_def)
    from grows_walk_name [of depth ?s env domain nss name iteratedQueryTypes] w
    obtain new where new: "wkQueue s1 = q @ new" "set (wkSeen s1) = set (wkSeen st) \<union> fst ` set new"
      "distinct (map fst new)" "fst ` set new \<inter> set (wkSeen st) = {}"
      by (auto simp: grows_def)
    have seen: "insert name (set vis \<union> fst ` set q) = set (wkSeen st)"
      using "1.prems"(3) Cons p by auto
    have d: "distinct ((vis @ [name]) @ map fst (wkQueue s1))"
      using "1.prems"(2) Cons p new(1,3,4) seen by auto
    have s: "set ((vis @ [name]) @ map fst (wkQueue s1)) = set (wkSeen s1)"
      using new(1,2) seen by auto
    from "1.IH" [OF Cons p [symmetric] w [symmetric] _ l d s] c
    obtain names where "fst ` set (wkQueue s1) \<subseteq> set names" "distinct ((vis @ [name]) @ names)"
      "wkRecords st' = wkRecords s1 @ concat (map (name_answers env domain nss) names)" by auto
    with Cons p new(1) r1 show ?thesis by (intro exI [of _ "name # names"]) auto
  qed
qed

lemma walk_start_queue:
  defines "norm \<equiv> \<lambda>domain lbl. ToLower (TrimSuffix (if lbl = ''@'' then domain else lbl @ ''.'' @ domain) ''.'')"
  shows "distinct (map fst (wkQueue (walk_start domain opts)))"
    "fst ` set (wkQueue (walk_start domain opts)) = set (wkSeen (walk_start domain opts))"
    "norm domain ` set (labels opts) = set (wkSeen (walk_start domain opts))"
    "wkRecords (walk_start domain opts) = []"
proof -
  let ?f = "\<lambda>st lbl. enqueue (if lbl = ''@'' then domain else lbl @ ''.'' @ domain) 0 st"
  have gen: "distinct (map fst (wkQueue (foldl ?f st ls))) \<and> fst ` set (wkQueue (foldl ?f st ls)) = set (wkSeen (foldl ?f st ls))
      \<and> set (wkSeen (foldl ?f st ls)) = set (wkSeen st) \<union> norm domain ` set ls \<and> wkRecords (foldl ?f st ls) = wkRecords st"
    if "distinct (map fst (wkQueue st))" "fst ` set (wkQueue st) = set (wkSeen st)" for st ls
    using that
  proof (induction ls arbitrary: st)
    case (Cons l ls)
    have "distinct (map fst (wkQueue (?f st l)))" "fst ` set (wkQueue (?f st l)) = set (wkSeen (?f st l))"
      using Cons.prems by (auto simp: enqueue_def Let_def)
    moreover have "set (wkSeen (?f st l)) = insert (norm domain l) (set (wkSeen st))" "wkRecords (?f st l) = wkRecords st"
      by (auto simp: enqueue_def Let_def norm_def)
    ultimately show ?case using Cons.IH [of "?f st l"] by auto
  qed simp
  let ?st = "\<lparr>wkRecords = [], wkWarnings = [], wkQueue = [], wkSeen = [], wkAddedNS = [], wkQueries = 0\<rparr>"
  from gen [of ?st "labels opts"]
  show "distinct (map fst (wkQueue (walk_start domain opts)))"
    "fst ` set (wkQueue (walk_start domain opts)) = set (wkSeen (walk_start domain opts))"
    "norm domain ` set (labels opts) = set (wkSeen (walk_start domain opts))"
    "wkRecords (walk_start domain opts) = []"
    unfolding walk_start_def by auto
qed

lemma dedup_ok:
  "distinct (map dedup_key (dedupRecords rs seen)) \<and>
   dedup_key ` set (dedupRecords rs seen) = dedup_key ` set rs - set seen \<and> set (dedupRecords rs seen) \<subseteq> set rs"
proof (induction rs arbitrary: seen)
  case (Cons r rs)
  show ?case
  proof (cases "dedup_key r \<in> set seen")
    case True
    with Cons.IH [of seen] show ?thesis by auto
  next
    case False
    with Cons.IH [of "dedup_key r # seen"] show ?thesis by auto
  qed
qed simp

subsection \<open>Zone membership\<close>

lemma rrToRecord_name: "fst (rrToRecord tn rr) = Some r \<Longrightarrow> recName r = TrimSuffix (rhName rr) ''.''"
  by (auto simp: rrToRecord_def Let_def split: rr_body.splits)

definition bare_domain :: "string \<Rightarrow> bool" where
  "bare_domain d \<longleftrightarrow> d \<noteq> [] \<and> \<not> HasSuffix d ''.''"

lemma inZone_trim:
  assumes "inZone name d" "bare_domain d"
  shows "inZone (TrimSuffix name ''.'') d"
proof -
  let ?n = "TrimSuffix name ''.''"
  have d: "TrimSuffix d ''.'' = d" using assms(2) by (simp add: bare_domain_def TrimSuffix_def)
  have "\<not> HasSuffix ?n ''.''"
  proof
    assume "HasSuffix ?n ''.''"
    then obtain u where u: "?n = u @ ''.''" by (auto simp: suffix_def)
    have l: "last (ToLower ?n) = CHR ''.''" unfolding u by (simp add: ToLower_def lower_char_def is_upper_def byte_def)
    have "ToLower d \<noteq> []" using assms(2) by (simp add: bare_domain_def ToLower_def)
    moreover from assms(1) d have "ToLower ?n = ToLower d \<or> HasSuffix (ToLower ?n) (CHR ''.'' # ToLower d)"
      by (simp add: inZone_def Let_def)
    ultimately have "last (ToLower d) = CHR ''.''" using l by (auto simp: suffix_def)
    then have "lower_char (last d) = CHR ''.''"
      using assms(2) by (simp add: bare_domain_def ToLower_def last_map)
    then have "last d = CHR ''.''" by (simp add: lower_char_eq_dot_iff)
    then have "d = butlast d @ ''.''" using assms(2) by (metis append_butlast_last_id bare_domain_def)
    then have "HasSuffix d ''.''" unfolding suffix_def by blast
    with assms(2) show False by (simp add: bare_domain_def)
  qed
  then have "TrimSuffix ?n ''.'' = ?n" by (simp add: TrimSuffix_def)
  with assms(1) show ?thesis by (simp add: inZone_def)
qed

lemma kept_in_zone: "bare_domain d \<Longrightarrow> r \<in> set (kept env d rrs) \<Longrightarrow> inZone (recName r) d"
  using inZone_trim rrToRecord_name unfolding kept_def map_filter_def by (auto split: if_splits)

lemma axfr_foldl:
  "zRecords (fst (foldl (axfr_rr env d) (z, n) rrs)) = zRecords z @ kept env d (filter (\<lambda>rr. rhRrtype rr \<noteq> rrtype_SOA) rrs)
   \<and> snd (foldl (axfr_rr env d) (z, n) rrs) = n + length (filter (\<lambda>rr. rhRrtype rr = rrtype_SOA) rrs)"
proof (induction rrs arbitrary: z n)
  case (Cons rr rrs)
  obtain z1 n1 where s: "axfr_rr env d (z, n) rr = (z1, n1)" by fastforce
  have "zRecords z1 = zRecords z @ (if rhRrtype rr \<noteq> rrtype_SOA then kept env d [rr] else []) \<and>
      n1 = (if rhRrtype rr = rrtype_SOA then Suc n else n)"
  proof -
    obtain o' w where r: "rrToRecord (seTypeName env) rr = (o', w)" by fastforce
    have k: "kept env d [rr] = (if inZone (rhName rr) d then (case o' of None \<Rightarrow> [] | Some r \<Rightarrow> [r]) else [])"
      by (simp add: kept_def List.map_filter_def r split: option.split)
    show ?thesis
    proof (cases "rhRrtype rr = rrtype_SOA")
      case False
      with s r show ?thesis unfolding k by (cases "inZone (rhName rr) d"; cases o') auto
    qed (use s in auto)
  qed
  moreover define ys where "ys = filter (\<lambda>rr. rhRrtype rr \<noteq> rrtype_SOA) rrs"
  moreover have "kept env d (rr # ys) = kept env d [rr] @ kept env d ys"
    by (simp add: kept_def List.map_filter_def)
  ultimately show ?case using Cons.IH [of z1 n1] s by (simp del: axfr_rr.simps)
qed (simp add: kept_def List.map_filter_def)

lemma axfrTransfer_exact:
  assumes "axfrTransfer env d ns = Inr z"
  obtains envs where "seAxfr env d ns = Inr envs"
    "2 \<le> length (filter (\<lambda>rr. rhRrtype rr = rrtype_SOA) (concat (map fst envs)))"
    "zRecords z = kept env d (filter (\<lambda>rr. rhRrtype rr \<noteq> rrtype_SOA) (concat (map fst envs)))"
proof -
  from assms obtain envs soa where e: "seAxfr env d ns = Inr envs"
    "foldl (axfr_rr env d) (new_zone d ''axfr'', 0) (concat (map fst envs)) = (z, soa)" "2 \<le> soa"
    by (auto simp: axfrTransfer_def Let_def split: sum.splits if_splits prod.splits)
  with axfr_foldl [of env d "new_zone d ''axfr''" 0 "concat (map fst envs)"] that show ?thesis
    by (simp add: new_zone_def del: axfr_rr.simps)
qed

lemma ScrapeZone_records_in_zone:
  assumes "ScrapeZone env d opts = Inr z" "bare_domain d"
  shows "list_all (\<lambda>r. inZone (recName r) d) (zRecords z)"
proof -
  have d: "TrimSuffix d ''.'' = d" using assms(2) by (simp add: bare_domain_def TrimSuffix_def)
  have ax: "list_all (\<lambda>r. inZone (recName r) d) (zRecords z')" if "axfrTransfer env d ns = Inr z'" for ns z'
    using axfrTransfer_exact [OF that] kept_in_zone [OF assms(2)] unfolding list_all_iff by metis
  have first: "first_axfr env d nss = Some z' \<Longrightarrow> list_all (\<lambda>r. inZone (recName r) d) (zRecords z')" for nss z'
    by (induction nss) (auto dest: ax split: sum.splits)
  have it: "list_all (\<lambda>r. inZone (recName r) d) (zRecords z')" if i: "iteratedScrape env d nss opts = Inr z'" for nss z'
  proof -
    from i obtain st where st: "walk_loop env d nss (walk_start d opts) = (False, st)"
      "zRecords z' = dedupRecords (wkRecords st) []"
      by (auto simp: iteratedScrape_def split: prod.splits bool.splits)
    from walk_loop_exact [OF st(1), of "[]"] walk_start_queue [where domain = d and opts = opts]
    obtain names where "wkRecords st = concat (map (name_answers env d nss) names)" by auto
    then have "\<forall>r \<in> set (wkRecords st). inZone (recName r) d"
      using kept_in_zone [OF assms(2)]
      by (auto simp: name_answers_def type_answers_def split: sum.splits if_splits)
    with dedup_ok [of "wkRecords st" "[]"] st(2) show ?thesis unfolding list_all_iff by auto
  qed
  have "\<exists>nss z'. zRecords z = zRecords z' \<and> (first_axfr env d nss = Some z' \<or> iteratedScrape env d nss opts = Inr z')"
    using assms(1) unfolding ScrapeZone_def Let_def d
    by (auto simp del: first_axfr.simps split: option.splits if_splits) (force+)?
  with first it show ?thesis by metis
qed

lemma ImportBIND_records_in_zone:
  assumes "ImportBIND tn parsed d = Inr z"
  shows "list_all (\<lambda>r. inZone (recName r) (TrimSuffix d ''.'')) (zRecords z)"
proof -
  have "zDomain (foldl (import_rr tn) z0 rrs) = zDomain z0
      \<and> (list_all (\<lambda>r. inZone (recName r) (zDomain z0)) (zRecords z0) \<longrightarrow>
         list_all (\<lambda>r. inZone (recName r) (zDomain z0)) (zRecords (foldl (import_rr tn) z0 rrs)))" for z0 rrs
  proof (induction rrs arbitrary: z0)
    case (Cons rr rrs)
    have "zDomain (import_rr tn z0 rr) = zDomain z0
        \<and> (list_all (\<lambda>r. inZone (recName r) (zDomain z0)) (zRecords z0) \<longrightarrow>
           list_all (\<lambda>r. inZone (recName r) (zDomain z0)) (zRecords (import_rr tn z0 rr)))"
      by (simp add: Let_def split: prod.split option.split)
    with Cons.IH [of "import_rr tn z0 rr"] show ?case by (simp del: import_rr.simps)
  qed simp
  from this [of "new_zone (TrimSuffix d ''.'') ''bind''" "fst parsed"] assms show ?thesis
    by (auto simp: ImportBIND_def new_zone_def Let_def simp del: import_rr.simps split: prod.splits option.splits)
qed

subsection \<open>Properties\<close>

text \<open>No record of another zone gets into a scraped zone: whether the zone was transferred or walked, and
  whatever the name servers answer, the name of every record is the domain or lies below it.\<close>

theorem ScrapeZone_in_zone:
  assumes "ScrapeZone env d opts = Inr z" "bare_domain d"
  shows "list_all (\<lambda>r. inZone (recName r) d) (zRecords z)"
  by (rule ScrapeZone_records_in_zone [OF assms])

definition demo_env :: scrape_env where
  "demo_env = \<lparr>seLookupNS = \<lambda>d. Inr [''ns1.x.net.''], seLookupHost = \<lambda>h. Some [''10.0.0.1''],
     seAxfr = \<lambda>d ns. Inl ''refused'',
     seExchange = (\<lambda>ns name q. if name = ''a.com'' \<and> q = 1
        then ExchResp [\<lparr>rhName = ''a.com.'', rhTtl = 300, rhRrtype = 1, rhBody = BA ''192.0.2.7''\<rparr>,
                       \<lparr>rhName = ''evil.org.'', rhTtl = 300, rhRrtype = 1, rhBody = BA ''192.0.2.8''\<rparr>] 0
        else ExchResp [] 3),
     seTypeName = \<lambda>_. ''TYPE'', seRcodeName = \<lambda>_. ''RCODE'', seDone = \<lambda>_. False\<rparr>"

definition demo_opts :: ScrapeOptions where
  "demo_opts = \<lparr>soNameservers = [], soExtraLabels = [], soOnlyLabels = [''@'', ''www''], soSkipAXFR = False\<rparr>"

lemma demo_scrape:
  "ScrapeZone demo_env ''a.com'' demo_opts = Inr \<lparr>zDomain = ''a.com'', zRecords = [mk_record ''A'' ''a.com'' ''192.0.2.7'' 300],
     zSource = ''iterated'', zNameservers = [''10.0.0.1:53''], zWarnings = []\<rparr>"
  by code_simp

lemma ScrapeZone_in_zone_witness: "inZone (recName (mk_record ''A'' ''a.com'' ''192.0.2.7'' 300)) ''a.com''"
proof -
  have "bare_domain ''a.com''" by code_simp
  from ScrapeZone_in_zone [OF demo_scrape this] show ?thesis by simp
qed

text \<open>The label walk is complete and asks nothing twice: it queries a list of distinct names that contains
  every label of the domain, and the zone it returns has exactly the record keys that the name
  servers gave for these names and the ten types, each key once.\<close>

theorem iteratedScrape_exact:
  assumes "iteratedScrape env domain nss opts = Inr z"
  shows "\<exists>names. distinct names
    \<and> list_all (\<lambda>lbl. ToLower (TrimSuffix (if lbl = ''@'' then domain else lbl @ ''.'' @ domain) ''.'') \<in> set names) (labels opts)
    \<and> dedup_key ` set (zRecords z) = dedup_key ` set (concat (map (name_answers env domain nss) names))
    \<and> distinct (map dedup_key (zRecords z))"
proof -
  from assms obtain st where st: "walk_loop env domain nss (walk_start domain opts) = (False, st)"
    "zRecords z = dedupRecords (wkRecords st) []"
    by (auto simp: iteratedScrape_def split: prod.splits bool.splits)
  note w = walk_start_queue [where domain = domain and opts = opts]
  from walk_loop_exact [OF st(1), of "[]"] w
  obtain names where n: "fst ` set (wkQueue (walk_start domain opts)) \<subseteq> set names" "distinct names"
    "wkRecords st = concat (map (name_answers env domain nss) names)" by auto
  have "list_all (\<lambda>lbl. ToLower (TrimSuffix (if lbl = ''@'' then domain else lbl @ ''.'' @ domain) ''.'') \<in> set names) (labels opts)"
    using n(1) w(2,3) unfolding list_all_iff by blast
  moreover have "dedup_key ` set (zRecords z) = dedup_key ` set (concat (map (name_answers env domain nss) names))"
    "distinct (map dedup_key (zRecords z))"
    using dedup_ok [of "wkRecords st" "[]"] st(2) n(3) by auto
  ultimately show ?thesis using n(2) by blast
qed

lemma iteratedScrape_exact_witness:
  "distinct (map dedup_key [mk_record ''A'' ''a.com'' ''192.0.2.7'' 300])"
proof -
  have "iteratedScrape demo_env ''a.com'' [''10.0.0.1:53''] demo_opts
    = Inr \<lparr>zDomain = ''a.com'', zRecords = [mk_record ''A'' ''a.com'' ''192.0.2.7'' 300],
       zSource = ''iterated'', zNameservers = [], zWarnings = []\<rparr>"
    by code_simp
  from iteratedScrape_exact [OF this] show ?thesis by auto
qed

end
