(* ===== verification/Migrate_Verify.thy ===== *)
theory Migrate_Verify
  imports Migrate_Zone
begin

text \<open>
  The check of migrated records against the new name servers (\<open>verify_target.go\<close>) and the result
  types of a migration (\<open>report.go\<close>). The resolver and the DNS client are the fields of \<open>vt_env\<close>.
\<close>

datatype mig_status = StatusMatched | StatusMismatch | StatusNotYetPropagated | StatusApplyFailed

fun mig_status_String :: "mig_status \<Rightarrow> string" where
  "mig_status_String StatusMatched = ''matched''"
| "mig_status_String StatusMismatch = ''mismatch''"
| "mig_status_String StatusNotYetPropagated = ''not_yet_propagated''"
| "mig_status_String StatusApplyFailed = ''apply_failed''"

record RecordResult =
  rsRecord :: Record
  rsStatus :: mig_status
  rsDetail :: string

definition mk_result :: "Record \<Rightarrow> mig_status \<Rightarrow> string \<Rightarrow> RecordResult" where
  "mk_result r st d = \<lparr>rsRecord = r, rsStatus = st, rsDetail = d\<rparr>"

lemma mk_result_sel [simp]:
  "rsRecord (mk_result r st d) = r" "rsStatus (mk_result r st d) = st" "rsDetail (mk_result r st d) = d"
  by (simp_all add: mk_result_def)

record vt_env =
  vtLookupHost :: "string \<Rightarrow> string + string list"
  vtExchange :: "string \<Rightarrow> string \<Rightarrow> nat \<Rightarrow> exchange"
  vtTypeName :: "nat \<Rightarrow> string"

text \<open>Whether \<open>net.SplitHostPort\<close> accepts its argument.\<close>

definition splits_host_port :: "string \<Rightarrow> bool" where
  "splits_host_port hp =
     (let host = rev (drop 1 (dropWhile ((\<noteq>) CHR '':'') (rev hp)));
          rest = dropWhile ((\<noteq>) CHR '']'') hp in
      CHR '':'' \<in> set hp \<and>
      (if HasPrefix hp ''['' then
         rest \<noteq> [] \<and> HasPrefix rest '']:'' \<and> CHR '':'' \<notin> set (drop 2 rest)
         \<and> CHR ''['' \<notin> set (drop 1 hp) \<and> CHR '']'' \<notin> set (drop 1 rest)
       else CHR '':'' \<notin> set host \<and> CHR ''['' \<notin> set hp \<and> CHR '']'' \<notin> set hp))"

definition nsResolver :: "vt_env \<Rightarrow> string \<Rightarrow> string + string" where
  "nsResolver env host =
     (let h = TrimSuffix host ''.'' in
      if splits_host_port h then Inr h
      else case vtLookupHost env h of
        Inl e \<Rightarrow> Inl e
      | Inr [] \<Rightarrow> Inl (''no IPs for '' @ h)
      | Inr (ip # ips) \<Rightarrow> Inr (JoinHostPort53 ip))"

definition typeStringToCode :: "string \<Rightarrow> nat option" where
  "typeStringToCode t = map_of [(''A'', 1), (''AAAA'', 28), (''CNAME'', 5), (''TXT'', 16), (''MX'', 15),
     (''NS'', 2), (''SRV'', 33), (''CAA'', 257)] (ToUpper t)"

definition recordsMatch :: "Record \<Rightarrow> Record \<Rightarrow> bool" where
  "recordsMatch want got =
     (if \<not> EqualFold (recType want) (recType got) then False
      else if \<not> EqualFold (TrimSuffix (recName want) ''.'') (TrimSuffix (recName got) ''.'') then False
      else if recContent want \<noteq> recContent got \<and> \<not> EqualFold (recContent want) (recContent got) then False
      else if recType want = ''MX'' \<and> recPriority want \<noteq> recPriority got then False
      else True)"

text \<open>The scan of one answer: \<open>None\<close> when a record matches, else the detail so far.\<close>

fun scan_answer :: "vt_env \<Rightarrow> Record \<Rightarrow> dns_rr list \<Rightarrow> string \<Rightarrow> string option" where
  "scan_answer env rec' [] detail = Some detail"
| "scan_answer env rec' (rr # rrs) detail =
     (case fst (rrToRecord (vtTypeName env) rr) of
        None \<Rightarrow> scan_answer env rec' rrs detail
      | Some got \<Rightarrow>
          (if recordsMatch rec' got then None
           else scan_answer env rec' rrs (''got '' @ recType got @ ''='' @ go_quote (recContent got)
             @ '' want '' @ go_quote (recContent rec'))))"

fun verify_servers :: "vt_env \<Rightarrow> Record \<Rightarrow> nat \<Rightarrow> string list \<Rightarrow> bool \<Rightarrow> string \<Rightarrow> bool \<times> bool \<times> string" where
  "verify_servers env rec' qtype [] gotAny detail = (False, gotAny, detail)"
| "verify_servers env rec' qtype (ns # nss) gotAny detail =
     (case nsResolver env ns of
        Inl e \<Rightarrow> verify_servers env rec' qtype nss gotAny (''resolve NS: '' @ e)
      | Inr addr \<Rightarrow>
          (case vtExchange env addr (recName rec') qtype of
             ExchErr e \<Rightarrow> verify_servers env rec' qtype nss gotAny e
           | ExchNil \<Rightarrow> verify_servers env rec' qtype nss gotAny detail
           | ExchResp rrs rcode \<Rightarrow>
               (case scan_answer env rec' rrs detail of
                  None \<Rightarrow> (True, True, ''matched on '' @ ns)
                | Some d \<Rightarrow> verify_servers env rec' qtype nss (gotAny \<or> rrs \<noteq> []) d)))"

definition verifyRecordAgainstNS :: "vt_env \<Rightarrow> string list \<Rightarrow> Record \<Rightarrow> bool \<times> bool \<times> string" where
  "verifyRecordAgainstNS env nss rec' =
     (case typeStringToCode (recType rec') of
        None \<Rightarrow> (False, True, ''unverifiable type '' @ recType rec')
      | Some qtype \<Rightarrow> verify_servers env rec' qtype nss False [])"

record VerifyTargetResult =
  vtrRecord :: Record
  vtrStatus :: string
  vtrDetail :: string

record VerifyTargetSummary =
  vtsMatched :: nat
  vtsTotal :: nat
  vtsResults :: "VerifyTargetResult list"

definition verify_one :: "vt_env \<Rightarrow> string list \<Rightarrow> Record \<Rightarrow> VerifyTargetResult" where
  "verify_one env nss rec' =
     (case verifyRecordAgainstNS env nss rec' of (matched, gotAny, detail) \<Rightarrow>
        \<lparr>vtrRecord = rec',
         vtrStatus = (if matched then ''matched'' else if gotAny then ''mismatch''
                      else if detail \<noteq> [] then ''not_yet_propagated'' else ''error''),
         vtrDetail = detail\<rparr>)"

definition VerifyAgainstNS :: "vt_env \<Rightarrow> string list \<Rightarrow> Record list \<Rightarrow> VerifyTargetSummary" where
  "VerifyAgainstNS env nss recs =
     \<lparr>vtsMatched = length (filter (\<lambda>r. fst (verifyRecordAgainstNS env nss r)) recs),
      vtsTotal = length recs, vtsResults = map (verify_one env nss) recs\<rparr>"

subsection \<open>Facts\<close>

text \<open>A record counts as matched only on an answer that holds a matching record.\<close>

definition served :: "vt_env \<Rightarrow> string list \<Rightarrow> Record \<Rightarrow> bool" where
  "served env nss rec' \<longleftrightarrow> (\<exists>ns \<in> set nss. \<exists>addr q rrs rcode rr got. nsResolver env ns = Inr addr
     \<and> typeStringToCode (recType rec') = Some q \<and> vtExchange env addr (recName rec') q = ExchResp rrs rcode
     \<and> rr \<in> set rrs \<and> fst (rrToRecord (vtTypeName env) rr) = Some got \<and> recordsMatch rec' got)"

definition answer_matches :: "vt_env \<Rightarrow> Record \<Rightarrow> dns_rr list \<Rightarrow> bool" where
  "answer_matches env r rrs \<longleftrightarrow> (\<exists>rr \<in> set rrs. \<exists>got. fst (rrToRecord (vtTypeName env) rr) = Some got \<and> recordsMatch r got)"

lemma scan_answer_None: "scan_answer env r rrs d = None \<longleftrightarrow> answer_matches env r rrs"
  by (induction rrs arbitrary: d) (auto simp: answer_matches_def split: option.splits)

lemma scan_answer_Some: "scan_answer env r rrs d = Some d' \<Longrightarrow> \<not> answer_matches env r rrs"
  by (metis option.distinct(1) scan_answer_None)

lemma verify_servers_matched:
  "fst (verify_servers env r q nss gotAny d) \<longleftrightarrow> (\<exists>ns \<in> set nss. \<exists>addr rrs rcode. nsResolver env ns = Inr addr
     \<and> vtExchange env addr (recName r) q = ExchResp rrs rcode \<and> answer_matches env r rrs)"
proof (induction nss arbitrary: gotAny d)
  case (Cons ns nss)
  then show ?case
    by (auto simp: scan_answer_None dest: scan_answer_Some split: sum.splits exchange.splits option.splits) blast
qed simp

lemma verify_matched_iff: "fst (verifyRecordAgainstNS env nss r) \<longleftrightarrow> served env nss r"
proof (cases "typeStringToCode (recType r)")
  case (Some q)
  then have "fst (verifyRecordAgainstNS env nss r) \<longleftrightarrow> (\<exists>ns \<in> set nss. \<exists>addr rrs rcode. nsResolver env ns = Inr addr
     \<and> vtExchange env addr (recName r) q = ExchResp rrs rcode \<and> answer_matches env r rrs)"
    by (simp add: verifyRecordAgainstNS_def verify_servers_matched)
  also have "\<dots> \<longleftrightarrow> served env nss r"
    unfolding served_def answer_matches_def Some option.inject by blast
  finally show ?thesis .
qed (simp add: verifyRecordAgainstNS_def served_def)

lemma verify_servers_unreachable:
  assumes "list_all (\<lambda>ns. \<exists>addr e. nsResolver env ns = Inr addr \<and> vtExchange env addr (recName r) q = ExchErr e \<and> e \<noteq> []) nss"
  shows "verify_servers env r q nss gotAny d = (False, gotAny, snd (snd (verify_servers env r q nss gotAny d)))
    \<and> (nss \<noteq> [] \<longrightarrow> snd (snd (verify_servers env r q nss gotAny d)) \<noteq> [])"
  using assms
proof (induction nss arbitrary: d)
  case (Cons ns nss)
  then obtain addr e where e: "nsResolver env ns = Inr addr" "vtExchange env addr (recName r) q = ExchErr e" "e \<noteq> []"
    by auto
  with Cons.IH [of e] Cons.prems show ?case by (cases nss) auto
qed simp

lemma verify_servers_empty:
  assumes "list_all (\<lambda>ns. \<exists>addr rcode. nsResolver env ns = Inr addr \<and> vtExchange env addr (recName r) q = ExchResp [] rcode) nss"
  shows "verify_servers env r q nss gotAny d = (False, gotAny, d)"
  using assms by (induction nss) auto

text \<open>The walk collects TLSA and SSHFP records, but the check can never confirm them: each is a mismatch.\<close>

lemma tlsa_never_matched:
  "verifyRecordAgainstNS env nss (mk_record ''TLSA'' n c ttl) = (False, True, ''unverifiable type TLSA'')"
  "verifyRecordAgainstNS env nss (mk_record ''SSHFP'' n c ttl) = (False, True, ''unverifiable type SSHFP'')"
proof -
  have "typeStringToCode ''TLSA'' = None" "typeStringToCode ''SSHFP'' = None" by code_simp+
  then show "verifyRecordAgainstNS env nss (mk_record ''TLSA'' n c ttl) = (False, True, ''unverifiable type TLSA'')"
    "verifyRecordAgainstNS env nss (mk_record ''SSHFP'' n c ttl) = (False, True, ''unverifiable type SSHFP'')"
    by (simp_all add: verifyRecordAgainstNS_def)
qed

subsection \<open>Properties\<close>

text \<open>A record is reported as matched exactly when one of the target name servers answers the query for it
  with a record that agrees with it, and the summary counts exactly these records.\<close>

theorem VerifyAgainstNS_matched:
  "vtsMatched (VerifyAgainstNS env nss recs) = length (filter (served env nss) recs)
   \<and> map vtrRecord (vtsResults (VerifyAgainstNS env nss recs)) = recs
   \<and> list_all (\<lambda>v. (vtrStatus v = ''matched'') = served env nss (vtrRecord v)) (vtsResults (VerifyAgainstNS env nss recs))"
proof -
  have f: "(\<lambda>r. fst (verifyRecordAgainstNS env nss r)) = served env nss"
    by (rule ext) (rule verify_matched_iff)
  have v: "(vtrStatus (verify_one env nss r) = ''matched'') = served env nss r"
    "vtrRecord (verify_one env nss r) = r" for r
    using verify_matched_iff [of env nss r] by (auto simp: verify_one_def split: prod.splits)
  then show ?thesis by (simp add: VerifyAgainstNS_def f list_all_iff comp_def)
qed

text \<open>The statuses of an unanswered record are the reverse of their documentation: when every name server
  is reachable and answers with an empty section the status is error, and when every exchange with
  a name server fails the status is not_yet_propagated.\<close>

theorem VerifyAgainstNS_statuses_swapped:
  assumes "typeStringToCode (recType r) = Some q" "nss \<noteq> []"
  shows "(list_all (\<lambda>ns. \<exists>addr rcode. nsResolver env ns = Inr addr \<and> vtExchange env addr (recName r) q = ExchResp [] rcode) nss
      \<longrightarrow> vtrStatus (verify_one env nss r) = ''error'')
    \<and> (list_all (\<lambda>ns. \<exists>addr e. nsResolver env ns = Inr addr \<and> vtExchange env addr (recName r) q = ExchErr e \<and> e \<noteq> []) nss
      \<longrightarrow> vtrStatus (verify_one env nss r) = ''not_yet_propagated'')"
proof (intro conjI impI)
  assume a: "list_all (\<lambda>ns. \<exists>addr rcode. nsResolver env ns = Inr addr \<and> vtExchange env addr (recName r) q = ExchResp [] rcode) nss"
  show "vtrStatus (verify_one env nss r) = ''error''"
    by (simp add: verify_one_def verifyRecordAgainstNS_def assms(1) verify_servers_empty [OF a])
next
  assume a: "list_all (\<lambda>ns. \<exists>addr e. nsResolver env ns = Inr addr \<and> vtExchange env addr (recName r) q = ExchErr e \<and> e \<noteq> []) nss"
  obtain d where "verify_servers env r q nss False [] = (False, False, d)" "d \<noteq> []"
    using verify_servers_unreachable [OF a, of False "[]"] assms(2) by (metis snd_conv)
  then show "vtrStatus (verify_one env nss r) = ''not_yet_propagated''"
    by (simp add: verify_one_def verifyRecordAgainstNS_def assms(1))
qed

lemma VerifyAgainstNS_statuses_swapped_witness:
  "vtrStatus (verify_one \<lparr>vtLookupHost = \<lambda>_. Inr [''10.0.0.1''], vtExchange = \<lambda>_ _ _. ExchResp [] 0, vtTypeName = \<lambda>_. []\<rparr>
      [''ns1.x.net''] (mk_record ''A'' ''a.com'' ''192.0.2.1'' 300)) = ''error''"
proof -
  have q: "typeStringToCode (recType (mk_record ''A'' ''a.com'' ''192.0.2.1'' 300)) = Some 1" by code_simp
  have r: "nsResolver \<lparr>vtLookupHost = \<lambda>_. Inr [''10.0.0.1''], vtExchange = \<lambda>_ _ _. ExchResp [] 0, vtTypeName = \<lambda>_. []\<rparr> ''ns1.x.net''
      = Inr ''10.0.0.1:53''" by code_simp
  show ?thesis
    by (rule mp [OF conjunct1 [OF VerifyAgainstNS_statuses_swapped [OF q]]]) (simp_all add: r)
qed

text \<open>The match ignores the case of the content for every type, so a TXT record whose letters were
  changed in case, a DKIM key for instance, is reported as migrated correctly.\<close>

theorem recordsMatch_ignores_case:
  "recordsMatch (mk_record ''TXT'' n c ttl) (mk_record ''TXT'' n (ToUpper c) ttl')
   \<and> recordsMatch (mk_record ''TXT'' n c ttl) (mk_record ''TXT'' n (ToLower c) ttl')"
proof -
  have l: "lower_char (upper_char x) = lower_char x" for x
  proof (cases "is_lower x")
    case True
    then have b: "byte (upper_char x) = byte x - 32" "97 \<le> byte x" "byte x \<le> 122"
      by (auto simp: upper_char_def is_lower_def byte_char_of less_imp_diff_less)
    then have "is_upper (upper_char x)" "\<not> is_upper x" by (auto simp: is_upper_def)
    with b show ?thesis by (simp add: lower_char_def byte_def)
  qed (simp add: upper_char_def)
  have "EqualFold c (ToUpper c)" "EqualFold c (ToLower c)"
    by (simp_all add: EqualFold_def ToLower_def ToUpper_def l comp_def)
  then show ?thesis by (simp add: recordsMatch_def)
qed

end
