(* ===== verification/Migrate_Run.thy ===== *)
theory Migrate_Run
  imports Migrate_Verify Push Detect
begin

text \<open>
  The migration orchestrator (\<open>migrate.go\<close>), its adapters' interface (\<open>adapter.go\<close>) and the
  instructions for the registrar (\<open>nschange.go\<close>). A run works on the state of the target provider.
  What is outside the repository is in \<open>migrate_env\<close>: the file system, the network, the creation
  of zones, and time: \<open>meAfter n\<close> says that the deadline has passed after round \<open>n\<close> of the
  verification, \<open>meCancelled n\<close> that the context ends the pause after it.
\<close>

record ZoneInfo =
  ziZoneID :: string
  ziNameservers :: "string list"
  ziCreated :: bool

record MigrationReport =
  rpDomain :: string
  rpSource :: string
  rpSourceNameservers :: "string list"
  rpSourceProvider :: string
  rpTargetZone :: ZoneInfo
  rpTargetZoneStatus :: string
  rpPreview :: "Record list"
  rpResults :: "RecordResult list"
  rpWarnings :: "string list"
  rpErrors :: "string list"
  rpNSChange :: string

definition empty_report :: "string \<Rightarrow> MigrationReport" where
  "empty_report d = \<lparr>rpDomain = d, rpSource = [], rpSourceNameservers = [], rpSourceProvider = [],
     rpTargetZone = \<lparr>ziZoneID = [], ziNameservers = [], ziCreated = False\<rparr>, rpTargetZoneStatus = [],
     rpPreview = [], rpResults = [], rpWarnings = [], rpErrors = [], rpNSChange = []\<rparr>"

subsection \<open>Validation and instructions\<close>

definition migrate_validateDomain :: "string \<Rightarrow> string option" where
  "migrate_validateDomain domain =
     (if domain = [] then Some ''migrate: domain required''
      else if ContainsAny domain ('' /?#'' @ map char_of [0x09, 0x0d, 0x0a :: nat])
        then Some ''migrate: domain contains invalid characters''
      else if Contains domain ''..'' \<or> HasPrefix domain ''.'' \<or> HasSuffix domain ''.''
        then Some (''migrate: malformed domain '' @ go_quote domain)
      else if \<not> Contains domain ''.'' then Some (''migrate: domain '' @ go_quote domain @ '' has no TLD'')
      else None)"

definition validateEndpoint :: "string \<Rightarrow> string option" where
  "validateEndpoint endpoint =
     (if endpoint = [] then None
      else if \<not> HasPrefix endpoint ''http://'' \<and> \<not> HasPrefix endpoint ''https://''
        then Some ''migrate: endpoint must be http(s)''
      else None)"

definition sanitize_needles :: "string list" where
  "sanitize_needles = [''Authorization:'', ''Bearer '', ''api_key'', ''apikey'', ''X-Api-Key'']"

fun cut_needles :: "string list \<Rightarrow> string \<Rightarrow> string" where
  "cut_needles [] s = s"
| "cut_needles (n # ns) s =
     (case Index (ToLower s) (ToLower n) of
        Some i \<Rightarrow> take i s @ ''[redacted]''
      | None \<Rightarrow> cut_needles ns s)"

definition sanitizeErr :: "string option \<Rightarrow> string" where
  "sanitizeErr err = (case err of None \<Rightarrow> [] | Some s \<Rightarrow> cut_needles sanitize_needles s)"

definition apos :: string where "apos = [char_of (39 :: nat)]"

definition text_lines :: "string list \<Rightarrow> string" where
  "text_lines ls = concat (map (\<lambda>l. l @ [char_of (10 :: nat)]) ls)"

definition registrar_lines :: "string \<Rightarrow> string list" where
  "registrar_lines slug =
     (let q = (\<lambda>s. apos @ s @ apos); l = ToLower slug in
      if l = ''godaddy'' then
        [''Source registrar: GoDaddy'',
         ''1. Sign in at https://dcc.godaddy.com/control/portfolio'',
         ''2. Select the domain and click '' @ q ''Manage DNS'',
         ''3. Under '' @ q ''Nameservers'' @ '' click '' @ q ''Change'' @ '' and choose '' @ q (''I'' @ apos @ ''ll use my own nameservers''),
         ''4. Paste the nameservers below and save'']
      else if l = ''cloudflare'' then
        [''Source registrar: Cloudflare'',
         ''1. Sign in at https://dash.cloudflare.com'',
         ''2. Select the domain, then go to DNS > Records'',
         ''3. Under '' @ q ''Nameservers'' @ '' click '' @ q ''Change'' @ '' and set custom nameservers'']
      else if l \<in> {''route53'', ''amazon'', ''aws''} then
        [''Source registrar: Route 53 / Amazon Registrar'',
         ''1. Sign in at https://console.aws.amazon.com/route53/domains'',
         ''2. Select the domain and click '' @ q ''Add or edit name servers'',
         ''3. Replace with the nameservers below and save'']
      else if l \<in> {''google_cloud_dns'', ''google''} then
        [''Source registrar: Google Domains / Squarespace'',
         ''1. Sign in at https://domains.squarespace.com'',
         ''2. Select the domain and open '' @ q ''DNS'',
         ''3. Switch to custom nameservers and paste the list below'']
      else if l = ''namecheap'' then
        [''Source registrar: Namecheap'',
         ''1. Sign in at https://ap.www.namecheap.com/Domains/DomainControlPanel'',
         ''2. Select the domain and set '' @ q ''Nameservers'' @ '' to '' @ q ''Custom DNS'',
         ''3. Paste the nameservers below and save'']
      else
        [''Source registrar: '' @ (if slug = [] then ''unknown'' else slug),
         ''At your registrar'' @ apos @ ''s control panel, replace the current nameservers'',
         ''with the list below. The change may take up to 48 hours to propagate.''])"

definition FormatNSChangeInstructions :: "string \<Rightarrow> string list \<Rightarrow> string" where
  "FormatNSChangeInstructions slug newNS =
     text_lines
       ([''Nameserver change required'', ''=========================='', []]
        @ registrar_lines slug
        @ [[], ''New nameservers:'']
        @ (if newNS = [] then [''  (no nameservers returned by the target provider)'']
           else map (\<lambda>ns. ''  '' @ TrimSuffix ns ''.'') newNS)
        @ [[], ''Verification: run '' @ apos @ ''dig NS <domain>'' @ apos @ '' and confirm the new nameservers appear.''])"

subsection \<open>The run\<close>

record 's migrate_env =
  meBindFile :: "string \<Rightarrow> string + (dns_rr list \<times> string option)"
  meScrape :: scrape_env
  meEnsure :: "string \<Rightarrow> ('s \<Rightarrow> string \<Rightarrow> (string + ZoneInfo) \<times> 's) option"
  meLookupNS :: "string \<Rightarrow> string list option"
  meRdap :: "string \<Rightarrow> rdap_entity list option"
  meLimiter :: "nat \<Rightarrow> string option"
  meNet :: "nat \<Rightarrow> vt_env"
  meAfter :: "nat \<Rightarrow> bool"
  meCancelled :: "nat \<Rightarrow> bool"

record 's MigrateOptions =
  moDomain :: string
  moTargetSlug :: string
  moTarget :: "'s provider option"
  moScrapeOpts :: ScrapeOptions
  moSourceBindFile :: string
  moPreloaded :: "MZone option"
  moApply :: bool
  moSourceProviderSlug :: string
  moSkipSourceDetect :: bool

definition acquire_zone :: "'s migrate_env \<Rightarrow> 's MigrateOptions \<Rightarrow> string + MZone" where
  "acquire_zone env o' =
     (case moPreloaded o' of
        Some z \<Rightarrow> Inr z
      | None \<Rightarrow>
          (if moSourceBindFile o' \<noteq> [] then
             (case meBindFile env (moSourceBindFile o') of
                Inl e \<Rightarrow> Inl (''open bind file: '' @ e)
              | Inr parsed \<Rightarrow> ImportBIND (seTypeName (meScrape env)) parsed (moDomain o'))
           else ScrapeZone (meScrape env) (moDomain o') (moScrapeOpts o')))"

definition source_slug :: "'s migrate_env \<Rightarrow> 's MigrateOptions \<Rightarrow> string" where
  "source_slug env o' =
     (if moSourceProviderSlug o' = [] \<and> \<not> moSkipSourceDetect o' then
        (case DetectProvider (meLookupNS env) (meRdap env) (moDomain o') of
           Inl e \<Rightarrow> [] | Inr det \<Rightarrow> drProvider det)
      else moSourceProviderSlug o')"

text \<open>The apply loop: the error of the limiter if it ends the loop, the results and errors of failed
  records, and the records that were applied.\<close>

fun apply_records ::
  "'s provider \<Rightarrow> (nat \<Rightarrow> string option) \<Rightarrow> string \<Rightarrow> nat \<Rightarrow> Record list \<Rightarrow> 's
     \<Rightarrow> (string option \<times> RecordResult list \<times> string list \<times> Record list) \<times> 's" where
  "apply_records P lim domain n [] s = ((None, [], [], []), s)"
| "apply_records P lim domain n (r # rs) s =
     (case lim n of
        Some e \<Rightarrow> ((Some (''rate limit wait: '' @ e), [], [], []), s)
      | None \<Rightarrow>
          (case pvSet P s domain r of
             (Some e, s1) \<Rightarrow>
               (case apply_records P lim domain (Suc n) rs s1 of
                  ((w, res, errs, ok), s2) \<Rightarrow>
                    ((w, mk_result r StatusApplyFailed (sanitizeErr (Some e)) # res,
                      (''apply '' @ recType r @ '' '' @ recName r @ '': '' @ e) # errs, ok), s2))
           | (None, s1) \<Rightarrow>
               (case apply_records P lim domain (Suc n) rs s1 of
                  ((w, res, errs, ok), s2) \<Rightarrow> ((w, res, errs, r # ok), s2))))"

text \<open>One round over the pending records: the final results and the records still without an answer.\<close>

fun verify_round :: "vt_env \<Rightarrow> string list \<Rightarrow> Record list \<Rightarrow> RecordResult list \<times> Record list" where
  "verify_round net nss [] = ([], [])"
| "verify_round net nss (r # rs) =
     (case verify_round net nss rs of (fin, still) \<Rightarrow>
        (case verifyRecordAgainstNS net nss r of (matched, gotAny, detail) \<Rightarrow>
           if matched then (mk_result r StatusMatched detail # fin, still)
           else if \<not> gotAny then (fin, r # still)
           else (mk_result r StatusMismatch detail # fin, still)))"

partial_function (option) verify_rounds ::
  "'s migrate_env \<Rightarrow> string list \<Rightarrow> nat \<Rightarrow> Record list \<Rightarrow> (RecordResult list \<times> string option) option" where
  "verify_rounds env nss n pending =
     (case verify_round (meNet env n) nss pending of (fin, still) \<Rightarrow>
        if still = [] \<or> meAfter env n then
          Some (fin @ map (\<lambda>r. mk_result r StatusNotYetPropagated ''no answer from target nameservers within timeout'') still, None)
        else if meCancelled env n then
          Some (fin @ map (\<lambda>r. mk_result r StatusNotYetPropagated ''context cancelled'') still, Some ''context canceled'')
        else Option.bind (verify_rounds env nss (Suc n) still) (\<lambda>(rest, err). Some (fin @ rest, err)))"

definition mismatch_errors :: "RecordResult list \<Rightarrow> string list" where
  "mismatch_errors rs = map (\<lambda>r. ''mismatch: '' @ recType (rsRecord r) @ '' '' @ recName (rsRecord r) @ '': '' @ rsDetail r)
     (filter (\<lambda>r. rsStatus r = StatusMismatch) rs)"

text \<open>A report with the returned error: nil, or the errors joined.\<close>

type_synonym mig_outcome = "MigrationReport \<times> string list option"

definition finish :: "MigrationReport \<Rightarrow> mig_outcome" where
  "finish rep = (rep, if rpErrors rep \<noteq> [] then Some (rpErrors rep) else None)"

definition phase_b ::
  "'s migrate_env \<Rightarrow> 's provider \<Rightarrow> string \<Rightarrow> MZone \<Rightarrow> ZoneInfo \<Rightarrow> MigrationReport \<Rightarrow> 's \<Rightarrow> (mig_outcome \<times> 's) option" where
  "phase_b env P domain zone zi rep s =
     (case apply_records P (meLimiter env) domain 0 (zRecords zone) s of
        ((w, res, errs, applied), s1) \<Rightarrow>
          (let rep1 = rep\<lparr>rpResults := rpResults rep @ res, rpErrors := rpErrors rep @ errs\<rparr> in
           case w of
             Some e \<Rightarrow> Some (finish (rep1\<lparr>rpErrors := rpErrors rep1 @ [e]\<rparr>), s1)
           | None \<Rightarrow>
               (case verify_rounds env (ziNameservers zi) 0 applied of
                  None \<Rightarrow> None
                | Some (fin, Some cerr) \<Rightarrow>
                    Some (finish (rep1\<lparr>rpResults := rpResults rep1 @ fin, rpErrors := rpErrors rep1 @ [cerr]\<rparr>), s1)
                | Some (fin, None) \<Rightarrow>
                    (let rep2 = rep1\<lparr>rpResults := rpResults rep1 @ fin\<rparr> in
                     Some (finish (rep2\<lparr>rpErrors := rpErrors rep2 @ mismatch_errors (rpResults rep2)\<rparr>), s1)))))"

definition Migrate :: "'s migrate_env \<Rightarrow> 's MigrateOptions \<Rightarrow> 's \<Rightarrow> (mig_outcome \<times> 's) option" where
  "Migrate env o' s =
     (let rep0 = empty_report (moDomain o') in
      case migrate_validateDomain (moDomain o') of
        Some e \<Rightarrow> Some ((rep0, Some [e]), s)
      | None \<Rightarrow>
        if moTargetSlug o' = [] then Some ((rep0, Some [''migrate: TargetSlug required'']), s)
        else case moTarget o' of
          None \<Rightarrow> Some ((rep0, Some [''migrate: TargetProvider required'']), s)
        | Some P \<Rightarrow>
          (case acquire_zone env o' of
             Inl e \<Rightarrow> Some (finish (rep0\<lparr>rpErrors := [''scrape: '' @ e]\<rparr>), s)
           | Inr zone \<Rightarrow>
             (let rep1 = rep0\<lparr>rpSource := zSource zone, rpSourceNameservers := zNameservers zone,
                    rpPreview := zRecords zone, rpWarnings := zWarnings zone\<rparr> in
              case meEnsure env (moTargetSlug o') of
                None \<Rightarrow> Some (finish (rep1\<lparr>rpTargetZoneStatus := ''error'',
                    rpErrors := [''migrate: no adapter for provider '' @ go_quote (moTargetSlug o')]\<rparr>), s)
              | Some ensure \<Rightarrow>
                (case ensure s (moDomain o') of
                   (Inl e, s1) \<Rightarrow> Some (finish (rep1\<lparr>rpTargetZoneStatus := ''error'', rpErrors := [''ensure zone: '' @ e]\<rparr>), s1)
                 | (Inr zi, s1) \<Rightarrow>
                   (let src = source_slug env o';
                        rep2 = rep1\<lparr>rpTargetZone := zi, rpTargetZoneStatus := (if ziCreated zi then ''will_create'' else ''exists''),
                          rpSourceProvider := src, rpNSChange := FormatNSChangeInstructions src (ziNameservers zi)\<rparr> in
                    if \<not> moApply o' then Some ((rep2, None), s1)
                    else phase_b env P (moDomain o') zone zi rep2 s1)))))"

subsection \<open>Facts\<close>

lemma verify_rounds_returns:
  "meAfter env (n + k) \<Longrightarrow> \<exists>x. verify_rounds env nss n pending = Some x"
proof (induction k arbitrary: n pending)
  case 0
  then show ?case by (subst verify_rounds.simps) (simp split: prod.split)
next
  case (Suc k)
  obtain fin still where r: "verify_round (meNet env n) nss pending = (fin, still)" by fastforce
  from Suc.IH [of "Suc n" still] Suc.prems obtain x where "verify_rounds env nss (Suc n) still = Some x" by auto
  then show ?case by (subst verify_rounds.simps) (simp add: r split: prod.split)
qed

lemma verify_round_accounts:
  "verify_round net nss rs = (fin, still) \<Longrightarrow> mset (map rsRecord fin) + mset still = mset rs
    \<and> list_all (\<lambda>r. rsStatus r = StatusMatched \<longleftrightarrow> served net nss (rsRecord r)) fin
    \<and> list_all (\<lambda>r. rsStatus r \<in> {StatusMatched, StatusMismatch}) fin"
proof (induction rs arbitrary: fin still)
  case (Cons r rs)
  obtain fin' still' where v: "verify_round net nss rs = (fin', still')" by fastforce
  obtain m g d where m: "verifyRecordAgainstNS net nss r = (m, g, d)" by (metis prod_cases3)
  have "m \<longleftrightarrow> served net nss r" using verify_matched_iff [of net nss r] m by simp
  with Cons.IH [OF v] Cons.prems v m show ?case by (auto split: if_splits)
qed simp

definition rounds_ok :: "'s migrate_env \<Rightarrow> string list \<Rightarrow> Record list \<Rightarrow> RecordResult list \<Rightarrow> bool" where
  "rounds_ok env nss pending fin \<longleftrightarrow> mset (map rsRecord fin) = mset pending
    \<and> (\<forall>r \<in> set fin. rsStatus r = StatusMatched \<longrightarrow> (\<exists>k. served (meNet env k) nss (rsRecord r)))
    \<and> (\<forall>r \<in> set fin. rsStatus r \<noteq> StatusApplyFailed)"

lemma verify_rounds_ok:
  assumes "verify_rounds env nss n pending = Some y"
  shows "rounds_ok env nss pending (fst y)"
proof (rule verify_rounds.raw_induct [where P = "\<lambda>env nss n pending y. rounds_ok env nss pending (fst y)", OF _ assms], goal_cases)
  case (1 rec env nss n pending y)
  obtain f st where r: "verify_round (meNet env n) nss pending = (f, st)" by fastforce
  note acc = verify_round_accounts [OF r]
  have f: "\<forall>r \<in> set f. rsStatus r = StatusMatched \<longrightarrow> (\<exists>k. served (meNet env k) nss (rsRecord r))"
    "\<forall>r \<in> set f. rsStatus r \<noteq> StatusApplyFailed"
    using acc unfolding list_all_iff by auto
  show ?case
  proof (cases "st = [] \<or> meAfter env n \<or> meCancelled env n")
    case True
    with 1(2) r have "\<exists>d. fst y = f @ map (\<lambda>r. mk_result r StatusNotYetPropagated d) st"
      by (auto split: if_splits)
    with acc f show ?thesis by (auto simp: rounds_ok_def comp_def simp del: mset_map)
  next
    case False
    with 1(2) r obtain rest err where rest: "rec env nss (Suc n) st = Some (rest, err)" "fst y = f @ rest"
      by (auto split: Option.bind_splits)
    from 1(1) [OF rest(1)] acc f rest(2) show ?thesis by (auto simp: rounds_ok_def)
  qed
qed

lemma verify_rounds_accounts:
  "verify_rounds env nss n pending = Some (fin, err) \<Longrightarrow> mset (map rsRecord fin) = mset pending
    \<and> (\<forall>r \<in> set fin. rsStatus r = StatusMatched \<longrightarrow> (\<exists>k. served (meNet env k) nss (rsRecord r)))
    \<and> (\<forall>r \<in> set fin. rsStatus r \<noteq> StatusApplyFailed)"
  using verify_rounds_ok unfolding rounds_ok_def by fastforce

lemma apply_records_accounts:
  "apply_records P lim d n rs s = ((None, res, errs, ok), s') \<Longrightarrow>
    mset (map rsRecord res) + mset ok = mset rs \<and> list_all (\<lambda>r. rsStatus r = StatusApplyFailed) res
    \<and> length errs = length res"
  by (induction rs arbitrary: n s res errs ok s')
     (auto split: option.splits prod.splits if_splits)

lemma phase_b_accounts:
  assumes "phase_b env P d zone zi rep s = Some ((rep', err), s')" and "\<forall>n. meLimiter env n = None"
    and "rpResults rep = []" "rpErrors rep = []"
  shows "mset (map rsRecord (rpResults rep')) = mset (zRecords zone)
    \<and> (\<forall>r \<in> set (rpResults rep'). rsStatus r = StatusMatched \<longrightarrow> (\<exists>k. served (meNet env k) (ziNameservers zi) (rsRecord r)))
    \<and> (err = None \<longrightarrow> (\<forall>r \<in> set (rpResults rep'). rsStatus r \<in> {StatusMatched, StatusNotYetPropagated}))"
proof -
  obtain w res errs ok s1 where a: "apply_records P (meLimiter env) d 0 (zRecords zone) s = ((w, res, errs, ok), s1)"
    by (metis prod_cases4 prod.exhaust)
  have w: "w = None"
  proof -
    have "apply_records P (meLimiter env) d n rs s = ((w, res, errs, ok), s1) \<Longrightarrow> w = None" for n rs s res errs ok
      by (induction rs arbitrary: n s res errs ok) (auto simp: assms(2) split: option.splits prod.splits)
    with a show ?thesis by blast
  qed
  from assms(1) a w obtain fin cerr where v: "verify_rounds env (ziNameservers zi) 0 ok = Some (fin, cerr)"
    by (auto simp: phase_b_def Let_def split: option.splits)
  have res: "rpResults rep' = res @ fin"
    using assms a w v by (auto simp: phase_b_def finish_def Let_def split: option.splits)
  have err: "err = None \<Longrightarrow> errs = [] \<and> mismatch_errors (res @ fin) = []"
    using assms a w v by (auto simp: phase_b_def finish_def Let_def split: option.splits if_splits)
  note A = apply_records_accounts [OF a [unfolded w]] and V = verify_rounds_accounts [OF v]
  have "mset (map rsRecord (rpResults rep')) = mset (zRecords zone)" using A V res by auto
  moreover have "\<forall>r \<in> set (rpResults rep'). rsStatus r = StatusMatched \<longrightarrow> (\<exists>k. served (meNet env k) (ziNameservers zi) (rsRecord r))"
    using A V unfolding res list_all_iff by auto
  moreover have "\<forall>r \<in> set (rpResults rep'). rsStatus r \<in> {StatusMatched, StatusNotYetPropagated}" if "err = None"
  proof
    fix r
    assume r: "r \<in> set (rpResults rep')"
    from err [OF that] A have "res = []" by auto
    with r res have "r \<in> set fin" by simp
    moreover from err [OF that] \<open>res = []\<close> have "\<forall>r \<in> set fin. rsStatus r \<noteq> StatusMismatch"
      by (auto simp: mismatch_errors_def filter_empty_conv)
    ultimately show "rsStatus r \<in> {StatusMatched, StatusNotYetPropagated}"
      using V by (cases "rsStatus r") auto
  qed
  ultimately show ?thesis by blast
qed

subsection \<open>Properties\<close>

text \<open>Property C23. A migration returns: the verification loop ends once the deadline has passed after some round,
  whatever the name servers answer.\<close>

theorem Migrate_returns:
  assumes "meAfter env n"
  shows "\<exists>outcome. Migrate env o' s = Some outcome"
proof -
  have "\<exists>x. phase_b env P d zone zi rep s1 = Some x" for P d zone zi rep s1
  proof -
    obtain w res errs ok s2 where a: "apply_records P (meLimiter env) d 0 (zRecords zone) s1 = ((w, res, errs, ok), s2)"
      by (metis prod_cases4 prod.exhaust)
    have "\<exists>x. verify_rounds env (ziNameservers zi) 0 ok = Some x"
      by (rule verify_rounds_returns [where k = n]) (simp add: assms)
    with a show ?thesis by (auto simp: phase_b_def Let_def split: option.split prod.split)
  qed
  then show ?thesis by (auto simp: Migrate_def Let_def split: option.split sum.split prod.split)
qed

definition demo_migrate_env :: "(string \<Rightarrow> Record list) migrate_env" where
  "demo_migrate_env = \<lparr>meBindFile = \<lambda>_. Inl ''no file'', meScrape = demo_env,
     meEnsure = (\<lambda>slug. Some (\<lambda>s d. (Inr \<lparr>ziZoneID = ''z1'', ziNameservers = [''ns1.x.net''], ziCreated = True\<rparr>, s))),
     meLookupNS = \<lambda>_. None, meRdap = \<lambda>_. None, meLimiter = \<lambda>_. None,
     meNet = \<lambda>_. \<lparr>vtLookupHost = \<lambda>_. Inr [''10.0.0.1''],
        vtExchange = \<lambda>_ _ _. ExchResp [\<lparr>rhName = ''a.com.'', rhTtl = 300, rhRrtype = 1, rhBody = BA ''192.0.2.7''\<rparr>] 0, vtTypeName = \<lambda>_. []\<rparr>,
     meAfter = \<lambda>n. n = 3, meCancelled = \<lambda>_. False\<rparr>"

definition demo_migrate_opts :: "(string \<Rightarrow> Record list) MigrateOptions" where
  "demo_migrate_opts = \<lparr>moDomain = ''a.com'', moTargetSlug = ''fake'',
     moTarget = Some \<lparr>pvGet = \<lambda>s d t. Inr (s t), pvSet = \<lambda>s d r. (None, s(recType r := s (recType r) @ [r])), pvDelete = \<lambda>s d i. (None, s)\<rparr>,
     moScrapeOpts = demo_opts, moSourceBindFile = [], moPreloaded = None, moApply = True,
     moSourceProviderSlug = ''godaddy'', moSkipSourceDetect = True\<rparr>"

lemma Migrate_returns_witness: "\<exists>outcome. Migrate demo_migrate_env demo_migrate_opts (\<lambda>_. []) = Some outcome"
  by (rule Migrate_returns [of _ 3]) (simp add: demo_migrate_env_def)

text \<open>Property C7. An applied migration accounts for every record of the acquired zone: each has exactly one result, a
  result says matched only for a record that the new name servers served in some round, and when no
  error is returned every record is matched or not yet propagated.\<close>

theorem Migrate_accounts:
  assumes "Migrate env o' s = Some ((rep, err), s')" "moApply o'" "\<forall>n. meLimiter env n = None"
    and "rpTargetZoneStatus rep \<in> {''will_create'', ''exists''}"
  shows "mset (map rsRecord (rpResults rep)) = mset (rpPreview rep)
    \<and> list_all (\<lambda>r. rsStatus r \<noteq> StatusMatched \<or> (\<exists>k. served (meNet env k) (ziNameservers (rpTargetZone rep)) (rsRecord r))) (rpResults rep)
    \<and> (err \<noteq> None \<or> list_all (\<lambda>r. rsStatus r \<in> {StatusMatched, StatusNotYetPropagated}) (rpResults rep))"
proof -
  from assms obtain P zone zi rep2 s1 where b: "phase_b env P (moDomain o') zone zi rep2 s1 = Some ((rep, err), s')"
    "rpResults rep2 = []" "rpErrors rep2 = []" "rpPreview rep2 = zRecords zone" "rpTargetZone rep2 = zi"
    by (auto simp: Migrate_def Let_def finish_def empty_report_def split: option.splits sum.splits prod.splits if_splits)
  have "rpPreview rep = zRecords zone" "rpTargetZone rep = zi"
    using b(1,4,5) by (auto simp: phase_b_def finish_def Let_def split: option.splits prod.splits)
  with phase_b_accounts [OF b(1) assms(3) b(2,3)] show ?thesis unfolding list_all_iff by auto
qed

lemma demo_migrate:
  "map_option (\<lambda>((rep, err), s). (rpResults rep, rpTargetZoneStatus rep, rpPreview rep, err, s ''A''))
     (Migrate demo_migrate_env demo_migrate_opts (\<lambda>_. []))
   = Some ([mk_result (mk_record ''A'' ''a.com'' ''192.0.2.7'' 300) StatusMatched ''matched on ns1.x.net''], ''will_create'',
       [mk_record ''A'' ''a.com'' ''192.0.2.7'' 300], None, [mk_record ''A'' ''a.com'' ''192.0.2.7'' 300])"
proof -
  have z: "acquire_zone demo_migrate_env demo_migrate_opts = Inr \<lparr>zDomain = ''a.com'', zRecords = [mk_record ''A'' ''a.com'' ''192.0.2.7'' 300],
     zSource = ''iterated'', zNameservers = [''10.0.0.1:53''], zWarnings = []\<rparr>"
    using demo_scrape by (simp add: acquire_zone_def demo_migrate_env_def demo_migrate_opts_def)
  have d: "migrate_validateDomain ''a.com'' = None" by code_simp
  have r: "verify_round (meNet demo_migrate_env 0) [''ns1.x.net''] [mk_record ''A'' ''a.com'' ''192.0.2.7'' 300]
      = ([mk_result (mk_record ''A'' ''a.com'' ''192.0.2.7'' 300) StatusMatched ''matched on ns1.x.net''], [])"
    by code_simp
  have v: "verify_rounds demo_migrate_env [''ns1.x.net''] 0 [mk_record ''A'' ''a.com'' ''192.0.2.7'' 300]
      = Some ([mk_result (mk_record ''A'' ''a.com'' ''192.0.2.7'' 300) StatusMatched ''matched on ns1.x.net''], None)"
    by (subst verify_rounds.simps) (simp only: r prod.case refl simp_thms if_True list.map append_Nil2)
  have e: "meEnsure demo_migrate_env slug = Some (\<lambda>s d. (Inr \<lparr>ziZoneID = ''z1'', ziNameservers = [''ns1.x.net''], ziCreated = True\<rparr>, s))"
    "meLimiter demo_migrate_env n = None" for slug n by (simp_all add: demo_migrate_env_def)
  have o': "moDomain demo_migrate_opts = ''a.com''" "moTargetSlug demo_migrate_opts = ''fake''" "moApply demo_migrate_opts"
    "moTarget demo_migrate_opts = Some \<lparr>pvGet = \<lambda>s d t. Inr (s t), pvSet = \<lambda>s d r. (None, s(recType r := s (recType r) @ [r])), pvDelete = \<lambda>s d i. (None, s)\<rparr>"
    by (simp_all add: demo_migrate_opts_def)
  show ?thesis
    by (simp add: Migrate_def phase_b_def Let_def finish_def empty_report_def mismatch_errors_def z d v e o')
qed

lemma Migrate_accounts_witness:
  "\<exists>rep err s'. Migrate demo_migrate_env demo_migrate_opts (\<lambda>_. []) = Some ((rep, err), s')
    \<and> mset (map rsRecord (rpResults rep)) = mset (rpPreview rep) \<and> length (rpPreview rep) = 1"
proof -
  from demo_migrate obtain rep err s' where m: "Migrate demo_migrate_env demo_migrate_opts (\<lambda>_. []) = Some ((rep, err), s')"
    "rpTargetZoneStatus rep = ''will_create''" "length (rpPreview rep) = 1"
    by (auto simp: map_option_case split: option.splits prod.splits)
  have "moApply demo_migrate_opts" "\<forall>n. meLimiter demo_migrate_env n = None"
    by (simp_all add: demo_migrate_opts_def demo_migrate_env_def)
  from Migrate_accounts [OF m(1) this] m show ?thesis by auto
qed

text \<open>A dry run never writes to the target provider: without the apply flag the provider's state is the one
  that the creation of the zone has left, or the initial one.\<close>

theorem Migrate_dry_run:
  assumes "Migrate env o' s = Some (outcome, s')" "\<not> moApply o'"
  shows "s' = s \<or> (\<exists>ensure. meEnsure env (moTargetSlug o') = Some ensure \<and> s' = snd (ensure s (moDomain o')))"
  using assms by (auto simp: Migrate_def Let_def finish_def split: option.splits sum.splits prod.splits if_splits)

lemma Migrate_dry_run_witness:
  "(\<lambda>_. []) = (\<lambda>_. [] :: Record list) \<or> (\<exists>ensure. meEnsure demo_migrate_env [] = Some ensure \<and> (\<lambda>_. []) = snd (ensure (\<lambda>_. []) ''a.com''))"
proof -
  let ?o = "demo_migrate_opts\<lparr>moTargetSlug := [], moApply := False\<rparr>"
  have d: "migrate_validateDomain ''a.com'' = None" by code_simp
  have "Migrate demo_migrate_env ?o (\<lambda>_. []) = Some ((empty_report ''a.com'', Some [''migrate: TargetSlug required'']), \<lambda>_. [])"
    by (simp add: Migrate_def Let_def demo_migrate_opts_def d)
  from Migrate_dry_run [OF this] show ?thesis by (simp add: demo_migrate_opts_def)
qed

text \<open>The redaction of error texts can leave a credential behind: the needles are tried in a fixed order and
  only the text after the first needle that occurs at all is cut, so a bearer token in front of the
  word Authorization survives. The joined error of the migration holds the unredacted text anyway.\<close>

theorem sanitizeErr_leaks_earlier_needle:
  "Contains (sanitizeErr (Some ''sent Bearer s3cret, Authorization: refused'')) ''Bearer s3cret''
   \<and> apply_records \<lparr>pvGet = \<lambda>s d t. Inr [], pvSet = \<lambda>s d r. (Some ''Bearer s3cret'', s), pvDelete = \<lambda>s d i. (None, s)\<rparr>
       (\<lambda>_. None) d 0 [r] s
     = ((None, [mk_result r StatusApplyFailed ''[redacted]''], [''apply '' @ recType r @ '' '' @ recName r @ '': Bearer s3cret''], []), s)"
proof -
  have "sanitizeErr (Some ''Bearer s3cret'') = ''[redacted]''" by code_simp
  moreover have "Contains (sanitizeErr (Some ''sent Bearer s3cret, Authorization: refused'')) ''Bearer s3cret''" by code_simp
  ultimately show ?thesis by simp
qed

end
