(* ===== verification/Json.thy ===== *)
theory Json
  imports Migrate_Zone Push
begin

text \<open>
  JSON values and the conversions that \<open>encoding/json\<close> makes for the types the stores persist and
  the API returns: \<open>Record\<close> (\<open>entree.go\<close>), \<open>Zone\<close> (\<open>migrate/zone.go\<close>) and \<open>PushResult\<close> (\<open>push.go\<close>), by the fields and tags
  of their declarations. A value stands for its text; the base64 text of bytes and the RFC 3339
  text of a time keep their contents in constructors of their own. Strings are written as valid
  UTF-8, an invalid byte as the replacement character. A field is read from the first key with its
  exact name, the only form the writers produce; null leaves the zero value. A nil slice is the
  empty list.

  The locale \<open>json_codec\<close> states what the stores rely on: a well-formed value is read back as written.
\<close>

subsection \<open>Text\<close>

definition cont_in :: "nat \<Rightarrow> nat \<Rightarrow> char \<Rightarrow> bool" where
  "cont_in lo hi c \<longleftrightarrow> lo \<le> byte c \<and> byte c \<le> hi"

text \<open>The length of the valid UTF-8 sequence at the head of a text.\<close>

fun utf8_len :: "string \<Rightarrow> nat option" where
  "utf8_len [] = None"
| "utf8_len (a # s) =
     (let b = byte a; c = cont_in 0x80 0xBF in
      if b < 0x80 then Some 1
      else if 0xC2 \<le> b \<and> b \<le> 0xDF then (case s of x # _ \<Rightarrow> if c x then Some 2 else None | [] \<Rightarrow> None)
      else if 0xE0 \<le> b \<and> b \<le> 0xEF then
        (case s of
           x # y # _ \<Rightarrow>
             if cont_in (if b = 0xE0 then 0xA0 else 0x80) (if b = 0xED then 0x9F else 0xBF) x \<and> c y then Some 3 else None
         | _ \<Rightarrow> None)
      else if 0xF0 \<le> b \<and> b \<le> 0xF4 then
        (case s of
           x # y # z # _ \<Rightarrow>
             if cont_in (if b = 0xF0 then 0x90 else 0x80) (if b = 0xF4 then 0x8F else 0xBF) x \<and> c y \<and> c z then Some 4 else None
         | _ \<Rightarrow> None)
      else None)"

definition replacement :: string where
  "replacement = map char_of [0xEF, 0xBF, 0xBD :: nat]"

fun utf8_go :: "nat \<Rightarrow> string \<Rightarrow> string" where
  "utf8_go 0 [] = []"
| "utf8_go (Suc k) (a # s) = a # utf8_go k s"
| "utf8_go (Suc k) [] = []"
| "utf8_go 0 (a # s) =
     (case utf8_len (a # s) of
        Some n \<Rightarrow> a # utf8_go (n - 1) s
      | None \<Rightarrow> replacement @ utf8_go 0 s)"

definition utf8_fix :: "string \<Rightarrow> string" where
  "utf8_fix s = utf8_go 0 s"

definition utf8_ok :: "string \<Rightarrow> bool" where
  "utf8_ok s \<longleftrightarrow> utf8_fix s = s"

lemma utf8_ascii: "list_all (\<lambda>c. byte c < 128) s \<Longrightarrow> utf8_ok s"
proof (induction s)
  case (Cons a s)
  then have "utf8_go 0 s = s" by (simp add: utf8_ok_def utf8_fix_def)
  with Cons.prems show ?case by (simp add: utf8_ok_def utf8_fix_def)
qed (simp add: utf8_ok_def utf8_fix_def)

subsection \<open>Values\<close>

datatype json =
    JNull | JBool bool | JNum int | JStr string | JBytes string | JTime int
  | JArr "json list" | JObj "(string \<times> json) list"

definition json_mismatch :: "string + 'a" where
  "json_mismatch = Inl ''json: cannot unmarshal value''"

definition enc_str :: "string \<Rightarrow> json" where
  "enc_str s = JStr (utf8_fix s)"

fun dec_str :: "json \<Rightarrow> string + string" where
  "dec_str (JStr s) = Inr s"
| "dec_str JNull = Inr []"
| "dec_str _ = json_mismatch"

fun dec_num :: "json \<Rightarrow> string + int" where
  "dec_num (JNum n) = Inr n"
| "dec_num JNull = Inr 0"
| "dec_num _ = json_mismatch"

fun dec_bool :: "json \<Rightarrow> string + bool" where
  "dec_bool (JBool b) = Inr b"
| "dec_bool JNull = Inr False"
| "dec_bool _ = json_mismatch"

fun dec_bytes :: "json \<Rightarrow> string + string" where
  "dec_bytes (JBytes s) = Inr s"
| "dec_bytes JNull = Inr []"
| "dec_bytes _ = json_mismatch"

definition zero_time :: int where
  "zero_time = - 62135596800 * 10 ^ 9"

fun dec_time :: "json \<Rightarrow> string + int" where
  "dec_time (JTime t) = Inr t"
| "dec_time JNull = Inr zero_time"
| "dec_time _ = json_mismatch"

fun dec_list :: "(json \<Rightarrow> string + 'a) \<Rightarrow> json \<Rightarrow> string + 'a list" where
  "dec_list f (JArr js) = mapE f js"
| "dec_list f JNull = Inr []"
| "dec_list f _ = json_mismatch"

definition enc_ptr :: "('a \<Rightarrow> json) \<Rightarrow> 'a option \<Rightarrow> json" where
  "enc_ptr f p = (case p of None \<Rightarrow> JNull | Some x \<Rightarrow> f x)"

definition dec_ptr :: "(json \<Rightarrow> string + 'a) \<Rightarrow> json \<Rightarrow> string + 'a option" where
  "dec_ptr f j = (if j = JNull then Inr None else bindE (f j) (\<lambda>x. Inr (Some x)))"

text \<open>An error has no exported field, so it is written as an empty object; no object can be read
  into an interface with methods.\<close>

definition enc_error :: "string option \<Rightarrow> json" where
  "enc_error e = (case e of None \<Rightarrow> JNull | Some _ \<Rightarrow> JObj [])"

fun dec_error :: "json \<Rightarrow> string + string option" where
  "dec_error JNull = Inr None"
| "dec_error _ = json_mismatch"

fun dec_fields :: "json \<Rightarrow> string + (string \<times> json) list" where
  "dec_fields (JObj kvs) = Inr kvs"
| "dec_fields JNull = Inr []"
| "dec_fields _ = json_mismatch"

definition jfield :: "(string \<times> json) list \<Rightarrow> string \<Rightarrow> json" where
  "jfield kvs k = (case map_of kvs k of Some j \<Rightarrow> j | None \<Rightarrow> JNull)"

subsection \<open>Codecs\<close>

locale json_codec =
  fixes enc :: "'a \<Rightarrow> json"
    and dec :: "json \<Rightarrow> string + 'a"
    and wf :: "'a \<Rightarrow> bool"
  assumes dec_enc: "wf x \<Longrightarrow> dec (enc x) = Inr x"
begin

lemma mapE_dec_enc: "list_all wf xs \<Longrightarrow> mapE dec (map enc xs) = Inr xs"
  by (induction xs) (auto simp: dec_enc)

lemma dec_enc_list: "list_all wf xs \<Longrightarrow> dec_list dec (JArr (map enc xs)) = Inr xs"
  by (simp add: mapE_dec_enc)

lemma dec_enc_ptr: "pred_option wf p \<Longrightarrow> (\<And>x. enc x \<noteq> JNull) \<Longrightarrow> dec_ptr dec (enc_ptr enc p) = Inr p"
  by (cases p) (auto simp: dec_ptr_def enc_ptr_def dec_enc)

end

interpretation jstr: json_codec enc_str dec_str utf8_ok
  by unfold_locales (simp add: enc_str_def utf8_ok_def)

interpretation jnum: json_codec JNum dec_num "\<lambda>_. True"
  by unfold_locales simp

interpretation jerror: json_codec enc_error dec_error "\<lambda>e. e = None"
  by unfold_locales (simp add: enc_error_def)

subsection \<open>Records\<close>

fun dec_dc :: "json \<Rightarrow> dc_value" where
  "dec_dc (JStr s) = DCStr s"
| "dec_dc _ = DCOther"

definition enc_dc :: "dc_value \<Rightarrow> json" where
  "enc_dc v = (case v of DCStr s \<Rightarrow> enc_str s | DCOther \<Rightarrow> JNull)"

definition dec_dc_map :: "json \<Rightarrow> string + (string \<times> dc_value) list option" where
  "dec_dc_map j = (if j = JNull then Inr None
     else bindE (dec_fields j) (\<lambda>kvs. Inr (Some (map (\<lambda>(k, v). (k, dec_dc v)) kvs))))"

definition enc_dc_map :: "(string \<times> dc_value) list option \<Rightarrow> (string \<times> json) list" where
  "enc_dc_map m = (case m of Some (kv # kvs) \<Rightarrow>
       [(''_dc'', JObj (map (\<lambda>(k, v). (utf8_fix k, enc_dc v)) (kv # kvs)))] | _ \<Rightarrow> [])"

definition enc_record :: "Record \<Rightarrow> json" where
  "enc_record r = JObj ([(''ID'', enc_str (recID r)), (''Type'', enc_str (recType r)), (''Name'', enc_str (recName r)),
     (''Content'', enc_str (recContent r)), (''TTL'', JNum (recTTL r)), (''Priority'', JNum (recPriority r)),
     (''Weight'', JNum (recWeight r)), (''Port'', JNum (recPort r)), (''Service'', enc_str (recService r)),
     (''Protocol'', enc_str (recProtocol r))] @ enc_dc_map (recDC r))"

definition dec_record :: "json \<Rightarrow> string + Record" where
  "dec_record j =
     bindE (dec_fields j) (\<lambda>kvs.
     bindE (dec_str (jfield kvs ''ID'')) (\<lambda>rid.
     bindE (dec_str (jfield kvs ''Type'')) (\<lambda>ty.
     bindE (dec_str (jfield kvs ''Name'')) (\<lambda>name.
     bindE (dec_str (jfield kvs ''Content'')) (\<lambda>content.
     bindE (dec_num (jfield kvs ''TTL'')) (\<lambda>ttl.
     bindE (dec_num (jfield kvs ''Priority'')) (\<lambda>prio.
     bindE (dec_num (jfield kvs ''Weight'')) (\<lambda>weight.
     bindE (dec_num (jfield kvs ''Port'')) (\<lambda>port.
     bindE (dec_str (jfield kvs ''Service'')) (\<lambda>service.
     bindE (dec_str (jfield kvs ''Protocol'')) (\<lambda>protocol.
     bindE (dec_dc_map (jfield kvs ''_dc'')) (\<lambda>dc.
     Inr \<lparr>recID = rid, recType = ty, recName = name, recContent = content, recTTL = ttl, recPriority = prio,
       recWeight = weight, recPort = port, recService = service, recProtocol = protocol, recDC = dc\<rparr>))))))))))))"

definition dc_wf :: "string \<times> dc_value \<Rightarrow> bool" where
  "dc_wf kv \<longleftrightarrow> utf8_ok (fst kv) \<and> (case snd kv of DCStr s \<Rightarrow> utf8_ok s | DCOther \<Rightarrow> True)"

definition record_wf :: "Record \<Rightarrow> bool" where
  "record_wf r \<longleftrightarrow> list_all utf8_ok [recID r, recType r, recName r, recContent r, recService r, recProtocol r]
     \<and> recDC r \<noteq> Some [] \<and> pred_option (list_all dc_wf) (recDC r)"

lemma dec_enc_dc: "list_all dc_wf kvs \<Longrightarrow> map (\<lambda>(k, v). (k, dec_dc v)) (map (\<lambda>(k, v). (utf8_fix k, enc_dc v)) kvs) = kvs"
  by (induction kvs) (auto simp: dc_wf_def enc_dc_def enc_str_def utf8_ok_def split: dc_value.splits)

lemma dec_enc_dc_map:
  assumes "m \<noteq> Some []" and "pred_option (list_all dc_wf) m"
  shows "dec_dc_map (jfield (enc_dc_map m) ''_dc'') = Inr m"
proof (cases m)
  case (Some kvs)
  with assms obtain kv kvs' where "kvs = kv # kvs'" by (cases kvs) auto
  with Some assms dec_enc_dc [of kvs] show ?thesis
    by (simp add: dec_dc_map_def enc_dc_map_def jfield_def)
qed (simp add: dec_dc_map_def enc_dc_map_def jfield_def)

lemma jfield_Cons: "jfield ((k, v) # kvs) k' = (if k = k' then v else jfield kvs k')"
  by (simp add: jfield_def)

lemma dec_fields_JObj: "dec_fields (JObj kvs) = Inr kvs"
  by simp

lemma dec_enc_str: "utf8_ok s \<Longrightarrow> dec_str (enc_str s) = Inr s"
  by (rule jstr.dec_enc)

lemma dec_enc_record: "record_wf r \<Longrightarrow> dec_record (enc_record r) = Inr r"
  by (simp add: dec_record_def enc_record_def record_wf_def jfield_Cons dec_enc_str dec_enc_dc_map)

interpretation jrecord: json_codec enc_record dec_record record_wf
  by unfold_locales (rule dec_enc_record)

subsection \<open>Zones and push results\<close>

definition enc_zone :: "MZone \<Rightarrow> json" where
  "enc_zone z = JObj [(''Domain'', enc_str (zDomain z)), (''Records'', JArr (map enc_record (zRecords z))),
     (''Source'', enc_str (zSource z)), (''Nameservers'', JArr (map enc_str (zNameservers z))),
     (''Warnings'', JArr (map enc_str (zWarnings z)))]"

definition dec_zone :: "json \<Rightarrow> string + MZone" where
  "dec_zone j =
     bindE (dec_fields j) (\<lambda>kvs.
     bindE (dec_str (jfield kvs ''Domain'')) (\<lambda>d.
     bindE (dec_list dec_record (jfield kvs ''Records'')) (\<lambda>rs.
     bindE (dec_str (jfield kvs ''Source'')) (\<lambda>src.
     bindE (dec_list dec_str (jfield kvs ''Nameservers'')) (\<lambda>nss.
     bindE (dec_list dec_str (jfield kvs ''Warnings'')) (\<lambda>ws.
     Inr \<lparr>zDomain = d, zRecords = rs, zSource = src, zNameservers = nss, zWarnings = ws\<rparr>))))))"

definition zone_wf :: "MZone \<Rightarrow> bool" where
  "zone_wf z \<longleftrightarrow> utf8_ok (zDomain z) \<and> list_all record_wf (zRecords z) \<and> utf8_ok (zSource z)
     \<and> list_all utf8_ok (zNameservers z) \<and> list_all utf8_ok (zWarnings z)"

lemma dec_enc_zone: "zone_wf z \<Longrightarrow> dec_zone (enc_zone z) = Inr z"
  by (simp add: dec_zone_def enc_zone_def zone_wf_def jfield_Cons dec_enc_str jstr.mapE_dec_enc jrecord.mapE_dec_enc)

interpretation jzone: json_codec enc_zone dec_zone zone_wf
  by unfold_locales (rule dec_enc_zone)

lemma enc_zone_not_null: "enc_zone z \<noteq> JNull"
  by (simp add: enc_zone_def)

text \<open>The status is a string type; the texts of its constants. No writer produces another text.\<close>

fun push_status_text :: "PushStatus \<Rightarrow> string" where
  "push_status_text StatusCreated = ''created''"
| "push_status_text StatusUpdated = ''updated''"
| "push_status_text StatusAlreadyConfigured = ''already_configured''"
| "push_status_text StatusFailed = ''failed''"

definition push_statuses :: "(string \<times> PushStatus) list" where
  "push_statuses = map (\<lambda>st. (push_status_text st, st)) [StatusCreated, StatusUpdated, StatusAlreadyConfigured, StatusFailed]"

definition dec_push_status :: "json \<Rightarrow> string + PushStatus" where
  "dec_push_status j = bindE (dec_str j) (\<lambda>s.
     case map_of push_statuses s of Some st \<Rightarrow> Inr st | None \<Rightarrow> json_mismatch)"

definition enc_push :: "PushResult \<Rightarrow> json" where
  "enc_push p = JObj [(''Status'', JStr (push_status_text (psStatus p))), (''RecordName'', enc_str (psRecordName p)),
     (''RecordValue'', enc_str (psRecordValue p)), (''PreviousValue'', enc_str (psPreviousValue p)),
     (''Verified'', JBool (psVerified p)), (''VerifyError'', enc_error (psVerifyError p))]"

definition dec_push :: "json \<Rightarrow> string + PushResult" where
  "dec_push j =
     bindE (dec_fields j) (\<lambda>kvs.
     bindE (dec_push_status (jfield kvs ''Status'')) (\<lambda>st.
     bindE (dec_str (jfield kvs ''RecordName'')) (\<lambda>name.
     bindE (dec_str (jfield kvs ''RecordValue'')) (\<lambda>val.
     bindE (dec_str (jfield kvs ''PreviousValue'')) (\<lambda>prev.
     bindE (dec_bool (jfield kvs ''Verified'')) (\<lambda>ver.
     bindE (dec_error (jfield kvs ''VerifyError'')) (\<lambda>err.
     Inr \<lparr>psStatus = st, psRecordName = name, psRecordValue = val, psPreviousValue = prev,
       psVerified = ver, psVerifyError = err\<rparr>)))))))"

definition push_wf :: "PushResult \<Rightarrow> bool" where
  "push_wf p \<longleftrightarrow> list_all utf8_ok [psRecordName p, psRecordValue p, psPreviousValue p] \<and> psVerifyError p = None"

lemma dec_push_status_text: "dec_push_status (JStr (push_status_text st)) = Inr st"
  by (cases st) (simp_all add: dec_push_status_def push_statuses_def)

lemma dec_enc_push: "push_wf p \<Longrightarrow> dec_push (enc_push p) = Inr p"
  by (simp add: dec_push_def enc_push_def push_wf_def jfield_Cons dec_enc_str dec_push_status_text jerror.dec_enc)

interpretation jpush: json_codec enc_push dec_push push_wf
  by unfold_locales (rule dec_enc_push)

text \<open>A result that carries an error cannot be read back: the list that holds it has no decoding.\<close>

lemma dec_push_error: "psVerifyError p \<noteq> None \<Longrightarrow> \<exists>e. dec_push (enc_push p) = Inl e"
  by (auto simp: dec_push_def enc_push_def jfield_Cons dec_push_status_text enc_str_def enc_error_def json_mismatch_def)

lemma dec_push_list_error:
  assumes "p \<in> set ps" and "psVerifyError p \<noteq> None"
  shows "\<exists>e. dec_list dec_push (JArr (map enc_push ps)) = Inl e"
  using assms
proof (induction ps)
  case (Cons q qs)
  show ?case
  proof (cases "q = p")
    case True
    with dec_push_error [of p] Cons.prems show ?thesis by auto
  next
    case False
    with Cons obtain e where "mapE dec_push (map enc_push qs) = Inl e" by auto
    then show ?thesis by (cases "dec_push (enc_push q)") auto
  qed
qed simp

end
