(* ===== verification/Api_Http.thy ===== *)
theory Api_Http
  imports Json Fake_Provider
begin

text \<open>
  The HTTP layer of the API: envelopes (\<open>api/errors.go\<close>), the middleware (\<open>api/middleware.go\<close>), credentials in
  headers (\<open>api/credentials.go\<close>) and the guards of the handlers (\<open>api/handlers_core.go\<close>). A handler is a
  function from a request to a response; a header map is an association list from canonical names to
  values, as \<open>net/http\<close> keeps it. A body arrives decoded, or as one of the two ways decoding fails.
\<close>

subsection \<open>Requests and responses\<close>

type_synonym header = "(string \<times> string list) list"

record request =
  rqMethod :: string
  rqPath :: string
  rqHeader :: header
  rqCreds :: "header option"
  rqRequestID :: string

record response =
  rpStatus :: nat
  rpHeader :: header
  rpBody :: "json option"

definition token_char :: "char \<Rightarrow> bool" where
  "token_char c \<longleftrightarrow> is_upper c \<or> is_lower c \<or> is_digit c \<or> c \<in> set ''!#$%&*+-.^_|~'' \<or> byte c = 0x27 \<or> byte c = 0x60"

fun canon_from :: "bool \<Rightarrow> string \<Rightarrow> string" where
  "canon_from up [] = []"
| "canon_from up (c # s) = (if up then upper_char c else lower_char c) # canon_from (c = CHR ''-'') s"

definition CanonicalHeaderKey :: "string \<Rightarrow> string" where
  "CanonicalHeaderKey s = (if list_all token_char s then canon_from True s else s)"

definition header_first :: "header \<Rightarrow> string \<Rightarrow> string" where
  "header_first h key = (case map_of h key of Some (v # vs) \<Rightarrow> v | _ \<Rightarrow> [])"

definition Header_Get :: "header \<Rightarrow> string \<Rightarrow> string" where
  "Header_Get h name = header_first h (CanonicalHeaderKey name)"

subsection \<open>Envelopes\<close>

abbreviation "CodeMissingCredentials \<equiv> ''MISSING_CREDENTIALS''"
abbreviation "CodeBadRequest \<equiv> ''BAD_REQUEST''"
abbreviation "CodeProviderError \<equiv> ''PROVIDER_ERROR''"
abbreviation "CodeVerifyMismatch \<equiv> ''VERIFY_MISMATCH''"
abbreviation "CodeTemplateNotFound \<equiv> ''TEMPLATE_NOT_FOUND''"
abbreviation "CodeInternal \<equiv> ''INTERNAL''"

definition sensitiveDetailKeys :: "string list" where
  "sensitiveDetailKeys = [''value'', ''token'', ''secret'', ''password'', ''key'']"

definition scrubDetails :: "(string \<times> json) list option \<Rightarrow> (string \<times> json) list option" where
  "scrubDetails ds =
     (case ds of
        None \<Rightarrow> None
      | Some kvs \<Rightarrow>
          (let out = filter (\<lambda>(k, v). k \<notin> set sensitiveDetailKeys) kvs in
           if out = [] then None else Some out))"

definition json_headers :: header where
  "json_headers = [(''Content-Type'', [''application/json'']), (''Cache-Control'', [''no-store''])]"

definition writeJSON :: "json \<Rightarrow> response" where
  "writeJSON d = \<lparr>rpStatus = 200, rpHeader = json_headers,
     rpBody = Some (JObj [(''ok'', JBool True), (''schema_version'', JNum 1), (''data'', d)])\<rparr>"

text \<open>An encoder that fails after the status has been written leaves the body empty.\<close>

definition writeJSON_enc :: "string + json \<Rightarrow> response" where
  "writeJSON_enc r = (case r of Inr d \<Rightarrow> writeJSON d | Inl e \<Rightarrow> (writeJSON JNull)\<lparr>rpBody := None\<rparr>)"

definition writeError :: "nat \<Rightarrow> string \<Rightarrow> string \<Rightarrow> (string \<times> json) list option \<Rightarrow> response" where
  "writeError status code message details = \<lparr>rpStatus = status, rpHeader = json_headers,
     rpBody = Some (JObj [(''ok'', JBool False), (''schema_version'', JNum 1),
       (''error'', JObj ([(''code'', JStr code), (''message'', enc_str message)]
          @ (case scrubDetails details of None \<Rightarrow> [] | Some ds \<Rightarrow> [(''details'', JObj ds)])))])\<rparr>"

subsection \<open>Middleware\<close>

definition credentialHeaderNames :: "string list" where
  "credentialHeaderNames = map CanonicalHeaderKey [''X-Entree-Provider'', ''X-Entree-Cloudflare-Token'',
     ''X-Entree-AWS-Access-Key-Id'', ''X-Entree-AWS-Secret-Access-Key'', ''X-Entree-AWS-Region'',
     ''X-Entree-GoDaddy-Key'', ''X-Entree-GoDaddy-Secret'', ''X-Entree-GCDNS-Service-Account-JSON'',
     ''X-Entree-GCDNS-Project-Id'']"

definition credentialRedactMW :: "(request \<Rightarrow> 'r) \<Rightarrow> request \<Rightarrow> 'r" where
  "credentialRedactMW next' r =
     (let secret = (\<lambda>(k, v). k \<in> set credentialHeaderNames) in
      next' (r\<lparr>rqHeader := filter (Not \<circ> secret) (rqHeader r), rqCreds := Some (filter secret (rqHeader r))\<rparr>))"

definition originalCredentialHeader :: "request \<Rightarrow> string \<Rightarrow> string" where
  "originalCredentialHeader r name =
     (case rqCreds r of None \<Rightarrow> [] | Some h \<Rightarrow> header_first h (CanonicalHeaderKey name))"

text \<open>A handler responds, or it panics; the headers set so far stay on the response writer.\<close>

datatype outcome = Panicked header | Responded response

definition set_headers :: "header \<Rightarrow> outcome \<Rightarrow> outcome" where
  "set_headers hs out =
     (case out of
        Panicked h \<Rightarrow> Panicked (hs @ h)
      | Responded res \<Rightarrow> Responded (res\<lparr>rpHeader := hs @ rpHeader res\<rparr>))"

type_synonym handler = "request \<Rightarrow> outcome"

definition requestIDMW :: "string \<Rightarrow> (request \<Rightarrow> outcome \<times> 'l) \<Rightarrow> request \<Rightarrow> outcome \<times> 'l" where
  "requestIDMW gen next' r =
     (let h = Header_Get (rqHeader r) ''X-Request-ID''; i = (if h = [] then gen else h) in
      case next' (r\<lparr>rqRequestID := i\<rparr>) of (out, l) \<Rightarrow> (set_headers [(''X-Request-Id'', [i])] out, l))"

definition recoverMW :: "(request \<Rightarrow> outcome \<times> 'l) \<Rightarrow> request \<Rightarrow> response \<times> 'l" where
  "recoverMW next' r =
     (case next' r of
        (Responded res, l) \<Rightarrow> (res, l)
      | (Panicked h, l) \<Rightarrow>
          (let e = writeError 500 CodeInternal ''internal server error'' None in (e\<lparr>rpHeader := h @ rpHeader e\<rparr>, l)))"

definition cors_headers :: "string list \<Rightarrow> string \<Rightarrow> header" where
  "cors_headers origins origin =
     (if origin = [] then []
      else (if ''*'' \<in> set origins then [(''Access-Control-Allow-Origin'', [''*''])]
            else if origin \<in> set origins then [(''Access-Control-Allow-Origin'', [origin]), (''Vary'', [''Origin''])]
            else [])
        @ [(''Access-Control-Allow-Methods'', [''GET, POST, OPTIONS'']),
           (''Access-Control-Allow-Headers'', [''Content-Type, X-Request-ID, X-Entree-Provider, ''
              @ ''X-Entree-Cloudflare-Token, X-Entree-AWS-Access-Key-Id, ''
              @ ''X-Entree-AWS-Secret-Access-Key, X-Entree-AWS-Region, ''
              @ ''X-Entree-GoDaddy-Key, X-Entree-GoDaddy-Secret, ''
              @ ''X-Entree-GCDNS-Service-Account-JSON, X-Entree-GCDNS-Project-Id''])])"

definition corsMW :: "string list \<Rightarrow> handler \<Rightarrow> handler" where
  "corsMW origins next' r =
     (if origins = [] then next' r
      else set_headers (cors_headers origins (Header_Get (rqHeader r) ''Origin''))
        (if rqMethod r = ''OPTIONS'' then Responded \<lparr>rpStatus = 204, rpHeader = [], rpBody = None\<rparr> else next' r))"

record log_entry =
  leMethod :: string
  lePath :: string
  leRoute :: string
  leStatus :: nat
  leRequestID :: string

text \<open>The log line of a request, written when it does not panic; durations and the remote address are
  left out. The route is the pattern the mux matches, for the metrics.\<close>

definition slogMW :: "(request \<Rightarrow> string) \<Rightarrow> handler \<Rightarrow> request \<Rightarrow> outcome \<times> log_entry list" where
  "slogMW route next' r =
     (case next' r of
        Panicked h \<Rightarrow> (Panicked h, [])
      | Responded res \<Rightarrow>
          (Responded res, [\<lparr>leMethod = rqMethod r, lePath = rqPath r,
             leRoute = (if route r = [] then ''unmatched'' else route r),
             leStatus = rpStatus res, leRequestID = rqRequestID r\<rparr>]))"

text \<open>\<open>Server.Handler\<close>: the chain, outermost first.\<close>

definition serve :: "string list \<Rightarrow> string \<Rightarrow> (request \<Rightarrow> string) \<Rightarrow> handler \<Rightarrow> request \<Rightarrow> response \<times> log_entry list" where
  "serve origins gen route mux =
     recoverMW (requestIDMW gen (credentialRedactMW (slogMW route (corsMW origins mux))))"

subsection \<open>Credentials in headers\<close>

definition b64_val :: "char \<Rightarrow> nat option" where
  "b64_val c = (if is_upper c then Some (byte c - 65) else if is_lower c then Some (byte c - 71)
     else if is_digit c then Some (byte c + 4) else if c = CHR ''+'' then Some 62
     else if c = CHR ''/'' then Some 63 else None)"

fun b64_groups :: "string \<Rightarrow> string option" where
  "b64_groups [] = Some []"
| "b64_groups (a # b # c # d # s) =
     (case (b64_val a, b64_val b) of
        (Some x, Some y) \<Rightarrow>
          (let o1 = char_of (x * 4 + y div 16) in
           if c = CHR ''='' then (if d = CHR ''='' \<and> s = [] then Some [o1] else None)
           else case b64_val c of
             None \<Rightarrow> None
           | Some z \<Rightarrow>
               (let o2 = char_of (y mod 16 * 16 + z div 4) in
                if d = CHR ''='' then (if s = [] then Some [o1, o2] else None)
                else case (b64_val d, b64_groups s) of
                  (Some w, Some rest) \<Rightarrow> Some (o1 # o2 # char_of (z mod 4 * 64 + w) # rest)
                | _ \<Rightarrow> None))
      | _ \<Rightarrow> None)"
| "b64_groups _ = None"

definition b64_DecodeString :: "string \<Rightarrow> string option" where
  "b64_DecodeString s = b64_groups (filter (\<lambda>c. byte c \<noteq> 0x0a \<and> byte c \<noteq> 0x0d) s)"

definition providerHeaderSpecs :: "(string \<times> string list) list" where
  "providerHeaderSpecs =
     [(''cloudflare'', [''X-Entree-Cloudflare-Token'']),
      (''route53'', [''X-Entree-AWS-Access-Key-Id'', ''X-Entree-AWS-Secret-Access-Key'']),
      (''godaddy'', [''X-Entree-GoDaddy-Key'', ''X-Entree-GoDaddy-Secret'']),
      (''google_cloud_dns'', [''X-Entree-GCDNS-Service-Account-JSON'']),
      (''fake'', [])]"

record credentialError =
  ceStatus :: nat
  ceCode :: string
  ceMessage :: string
  ceDetails :: "(string \<times> json) list"

definition writeTo :: "credentialError \<Rightarrow> response" where
  "writeTo e = writeError (ceStatus e) (ceCode e) (ceMessage e) (Some (ceDetails e))"

definition cred_header :: "request \<Rightarrow> string \<Rightarrow> string" where
  "cred_header r name =
     (let v = originalCredentialHeader r name in if v \<noteq> [] then v else Header_Get (rqHeader r) name)"

definition parseCredentialHeaders :: "request \<Rightarrow> credentialError + string \<times> Credentials" where
  "parseCredentialHeaders r =
     (let get = cred_header r; slug = get ''X-Entree-Provider'' in
      if slug = [] then
        Inl \<lparr>ceStatus = 400, ceCode = CodeMissingCredentials, ceMessage = ''missing X-Entree-Provider header'',
          ceDetails = [(''expected_header'', JStr ''X-Entree-Provider'')]\<rparr>
      else case map_of providerHeaderSpecs slug of
        None \<Rightarrow> Inl \<lparr>ceStatus = 400, ceCode = CodeBadRequest, ceMessage = ''unknown provider '' @ go_quote slug,
          ceDetails = [(''provider'', enc_str slug)]\<rparr>
      | Some expected \<Rightarrow>
          (let missing = filter (\<lambda>h. get h = []) expected in
           if missing \<noteq> [] then
             Inl \<lparr>ceStatus = 400, ceCode = CodeMissingCredentials, ceMessage = ''missing credential headers'',
               ceDetails = [(''provider'', enc_str slug), (''expected_headers'', JArr (map enc_str expected)),
                 (''missing_headers'', JArr (map enc_str missing))]\<rparr>
           else if slug = ''cloudflare'' then
             Inr (slug, empty_credentials\<lparr>crAPIToken := get ''X-Entree-Cloudflare-Token''\<rparr>)
           else if slug = ''route53'' then
             Inr (slug, empty_credentials\<lparr>crAccessKey := get ''X-Entree-AWS-Access-Key-Id'',
               crSecretKey := get ''X-Entree-AWS-Secret-Access-Key'', crRegion := get ''X-Entree-AWS-Region''\<rparr>)
           else if slug = ''godaddy'' then
             Inr (slug, empty_credentials\<lparr>crAPIKey := get ''X-Entree-GoDaddy-Key'', crAPISecret := get ''X-Entree-GoDaddy-Secret''\<rparr>)
           else if slug = ''google_cloud_dns'' then
             (case b64_DecodeString (get ''X-Entree-GCDNS-Service-Account-JSON'') of
                None \<Rightarrow> Inl \<lparr>ceStatus = 400, ceCode = CodeMissingCredentials,
                  ceMessage = ''X-Entree-GCDNS-Service-Account-JSON is not valid base64'', ceDetails = [(''provider'', enc_str slug)]\<rparr>
              | Some decoded \<Rightarrow>
                  Inr (slug, empty_credentials\<lparr>crToken := decoded, crProjectID := get ''X-Entree-GCDNS-Project-Id''\<rparr>))
           else Inr (slug, empty_credentials)))"

subsection \<open>Guards\<close>

definition requireMethod :: "request \<Rightarrow> string \<Rightarrow> response option" where
  "requireMethod r method =
     (if rqMethod r \<noteq> method then
        Some ((writeError 405 CodeBadRequest ''method not allowed'' None)\<lparr>rpHeader := (''Allow'', [method]) # json_headers\<rparr>)
      else None)"

definition requireJSON :: "request \<Rightarrow> response option" where
  "requireJSON r =
     (let ct = Header_Get (rqHeader r) ''Content-Type'' in
      if ct = [] then Some (writeError 415 CodeBadRequest ''content-type required'' None)
      else let ct' = (case Index ct '';'' of Some i \<Rightarrow> TrimSpace (take i ct) | None \<Rightarrow> ct) in
        if \<not> EqualFold ct' ''application/json''
          then Some (writeError 415 CodeBadRequest ''content-type must be application/json'' None)
        else None)"

datatype 'a body = BodyTooLarge | BodyBad | Body 'a

definition decodeJSON :: "'a body \<Rightarrow> response + 'a" where
  "decodeJSON b =
     (case b of
        BodyTooLarge \<Rightarrow> Inl (writeError 413 CodeBadRequest ''request body too large'' None)
      | BodyBad \<Rightarrow> Inl (writeError 400 CodeBadRequest ''invalid JSON body'' None)
      | Body x \<Rightarrow> Inr x)"

definition guardE :: "'e option \<Rightarrow> 'e + 'a \<Rightarrow> 'e + 'a" where
  "guardE g k = (case g of Some e \<Rightarrow> Inl e | None \<Rightarrow> k)"

lemma guardE_simps [simp]: "guardE None k = k" "guardE (Some e) k = Inl e"
  by (simp_all add: guardE_def)

definition joinE :: "'a + 'a \<Rightarrow> 'a" where
  "joinE r = (case r of Inl x \<Rightarrow> x | Inr x \<Rightarrow> x)"

lemma joinE_simps [simp]: "joinE (Inl x) = x" "joinE (Inr x) = x"
  by (simp_all add: joinE_def)

subsection \<open>Facts\<close>

lemma map_of_filter_key: "map_of (filter (\<lambda>(k, v). P k) h) k = (if P k then map_of h k else None)"
  by (induction h) auto

lemma cred_header_redact:
  assumes "rqCreds r = None" and "CanonicalHeaderKey name \<in> set credentialHeaderNames"
  shows "credentialRedactMW (\<lambda>r. cred_header r name) r = cred_header r name"
proof -
  have c: "(Not \<circ> (\<lambda>(k, v :: string list). k \<in> set credentialHeaderNames)) = (\<lambda>(k, v). k \<notin> set credentialHeaderNames)"
    by auto
  show ?thesis
    using assms by (simp add: credentialRedactMW_def cred_header_def originalCredentialHeader_def Header_Get_def
      header_first_def Let_def c map_of_filter_key)
qed

end
