(* ===== verification/Store.thy ===== *)
theory Store
  imports Json "HOL-Library.AList" "HOL-Library.Word" "HOL-Library.List_Lexorder"
begin

text \<open>
  Stored migrations (\<open>migrate/store.go\<close>): the row, the filter, the errors and the interface of a store, and
  the contract that every backend keeps. Times are nanoseconds since 1970; a version is a 64-bit
  integer that wraps. An operation that fills in fields of the row it is given returns the row.

  The locale \<open>migration_store\<close> is the contract, over an abstract view of the state: \<open>rows\<close> is what can be
  read, \<open>ver\<close> the version of every row, readable or not, and \<open>img\<close> what a backend reads back of a row
  it has written. \<open>Store_Json\<close> and \<open>Store_Sql\<close> interpret it; the handlers of the API are its clients.
\<close>

record StoredMigration =
  smID :: string
  smTenantID :: string
  smStatus :: string
  smDomain :: string
  smSourceSlug :: string
  smTargetSlug :: string
  smPreview :: "MZone option"
  smPreviewRecords :: "Record list"
  smTargetZoneID :: string
  smTargetNameservers :: "string list"
  smApplyResults :: "PushResult list"
  smNSChangeInstructions :: string
  smErrorMessage :: string
  smCredentialBlob :: string
  smAccessToken :: string
  smExpiresAt :: int
  smVersion :: "64 word"
  smCreatedAt :: int
  smUpdatedAt :: int

abbreviation "StatusPreview \<equiv> ''preview''"
abbreviation "StatusApplying \<equiv> ''applying''"
abbreviation "StatusAwaitingNSChange \<equiv> ''awaiting_ns_change''"
abbreviation "StatusVerifying \<equiv> ''verifying''"
abbreviation "StatusComplete \<equiv> ''complete''"
abbreviation "StatusFailedRow \<equiv> ''failed''"
abbreviation "StatusExpired \<equiv> ''expired''"

record ListFilter =
  lfTenantID :: string
  lfStatus :: string
  lfLimit :: int
  lfOffset :: int

datatype store_error = ErrNotFound | ErrVersionMismatch | ErrExpired | StoreErr string

record ('e, 's) store_ops =
  stCreate :: "'e \<Rightarrow> StoredMigration \<Rightarrow> 's \<Rightarrow> (store_error option \<times> StoredMigration) \<times> 's"
  stGet :: "'e \<Rightarrow> string \<Rightarrow> 's \<Rightarrow> store_error + StoredMigration"
  stUpdate :: "'e \<Rightarrow> StoredMigration \<Rightarrow> 's \<Rightarrow> (store_error option \<times> StoredMigration) \<times> 's"
  stList :: "'e \<Rightarrow> ListFilter \<Rightarrow> 's \<Rightarrow> store_error + StoredMigration list"
  stDelete :: "'e \<Rightarrow> string \<Rightarrow> 's \<Rightarrow> store_error option \<times> 's"
  stSweep :: "'e \<Rightarrow> int \<Rightarrow> 's \<Rightarrow> (store_error option \<times> nat) \<times> 's"

text \<open>The row as \<open>Create\<close> completes it before it is written.\<close>

definition stamp_new :: "int \<Rightarrow> StoredMigration \<Rightarrow> StoredMigration" where
  "stamp_new now m = m\<lparr>smCreatedAt := (if smCreatedAt m = zero_time then now else smCreatedAt m),
     smUpdatedAt := now, smVersion := (if smVersion m = 0 then 1 else smVersion m)\<rparr>"

definition row_expired :: "int \<Rightarrow> StoredMigration \<Rightarrow> bool" where
  "row_expired now m \<longleftrightarrow> smExpiresAt m \<noteq> zero_time \<and> smExpiresAt m < now"

definition page :: "int \<Rightarrow> int \<Rightarrow> 'a list \<Rightarrow> 'a list" where
  "page off lim xs =
     (let ys = (if off > 0 then drop (nat off) xs else xs) in
      if lim > 0 then take (nat lim) ys else ys)"

lemma set_page: "set (page off lim xs) \<subseteq> set xs"
  by (auto simp: page_def Let_def dest: in_set_takeD in_set_dropD)

lemma stamp_new_sel [row_simps]:
  "smID (stamp_new now m) = smID m"
  "smStatus (stamp_new now m) = smStatus m"
  "smAccessToken (stamp_new now m) = smAccessToken m"
  "smCredentialBlob (stamp_new now m) = smCredentialBlob m"
  "smExpiresAt (stamp_new now m) = smExpiresAt m"
  "smVersion m \<noteq> 0 \<Longrightarrow> smVersion (stamp_new now m) = smVersion m"
  by (simp_all add: stamp_new_def)

subsection \<open>Documents\<close>

text \<open>\<open>time.Time\<close> is written only for the years 0 to 9999.\<close>

definition time_json_ok :: "int \<Rightarrow> bool" where
  "time_json_ok t \<longleftrightarrow> - 62167219200 * 10 ^ 9 \<le> t \<and> t < 253402300800 * 10 ^ 9"

definition dec_int64 :: "json \<Rightarrow> string + 64 word" where
  "dec_int64 j = bindE (dec_num j) (\<lambda>n. case in_int64 n of Some k \<Rightarrow> Inr (word_of_int k) | None \<Rightarrow> json_mismatch)"

definition row_fields :: "StoredMigration \<Rightarrow> (string \<times> json) list" where
  "row_fields m =
     [(''id'', enc_str (smID m)), (''tenant_id'', enc_str (smTenantID m)), (''status'', enc_str (smStatus m)),
      (''domain'', enc_str (smDomain m)), (''source_slug'', enc_str (smSourceSlug m)), (''target_slug'', enc_str (smTargetSlug m)),
      (''preview'', enc_ptr enc_zone (smPreview m)), (''preview_records'', JArr (map enc_record (smPreviewRecords m))),
      (''target_zone_id'', enc_str (smTargetZoneID m)), (''target_nameservers'', JArr (map enc_str (smTargetNameservers m))),
      (''apply_results'', JArr (map enc_push (smApplyResults m))), (''ns_change_instructions'', enc_str (smNSChangeInstructions m)),
      (''error_message'', enc_str (smErrorMessage m)), (''credential_blob'', JBytes (smCredentialBlob m)),
      (''access_token'', enc_str (smAccessToken m)), (''expires_at'', JTime (smExpiresAt m)),
      (''version'', JNum (sint (smVersion m))), (''created_at'', JTime (smCreatedAt m)), (''updated_at'', JTime (smUpdatedAt m))]"

definition enc_row :: "StoredMigration \<Rightarrow> string + json" where
  "enc_row m =
     (if list_all time_json_ok [smExpiresAt m, smCreatedAt m, smUpdatedAt m] then Inr (JObj (row_fields m))
      else Inl ''Time.MarshalJSON: year outside of range [0,9999]'')"

definition dec_row :: "json \<Rightarrow> string + StoredMigration" where
  "dec_row j =
     bindE (dec_fields j) (\<lambda>kvs.
     bindE (dec_str (jfield kvs ''id'')) (\<lambda>i.
     bindE (dec_str (jfield kvs ''tenant_id'')) (\<lambda>tenant.
     bindE (dec_str (jfield kvs ''status'')) (\<lambda>status.
     bindE (dec_str (jfield kvs ''domain'')) (\<lambda>domain.
     bindE (dec_str (jfield kvs ''source_slug'')) (\<lambda>source.
     bindE (dec_str (jfield kvs ''target_slug'')) (\<lambda>target.
     bindE (dec_ptr dec_zone (jfield kvs ''preview'')) (\<lambda>preview.
     bindE (dec_list dec_record (jfield kvs ''preview_records'')) (\<lambda>records.
     bindE (dec_str (jfield kvs ''target_zone_id'')) (\<lambda>zid.
     bindE (dec_list dec_str (jfield kvs ''target_nameservers'')) (\<lambda>nss.
     bindE (dec_list dec_push (jfield kvs ''apply_results'')) (\<lambda>results.
     bindE (dec_str (jfield kvs ''ns_change_instructions'')) (\<lambda>instr.
     bindE (dec_str (jfield kvs ''error_message'')) (\<lambda>msg.
     bindE (dec_bytes (jfield kvs ''credential_blob'')) (\<lambda>blob.
     bindE (dec_str (jfield kvs ''access_token'')) (\<lambda>token.
     bindE (dec_time (jfield kvs ''expires_at'')) (\<lambda>expires.
     bindE (dec_int64 (jfield kvs ''version'')) (\<lambda>v.
     bindE (dec_time (jfield kvs ''created_at'')) (\<lambda>created.
     bindE (dec_time (jfield kvs ''updated_at'')) (\<lambda>updated.
     Inr \<lparr>smID = i, smTenantID = tenant, smStatus = status, smDomain = domain, smSourceSlug = source,
       smTargetSlug = target, smPreview = preview, smPreviewRecords = records, smTargetZoneID = zid,
       smTargetNameservers = nss, smApplyResults = results, smNSChangeInstructions = instr, smErrorMessage = msg,
       smCredentialBlob = blob, smAccessToken = token, smExpiresAt = expires, smVersion = v,
       smCreatedAt = created, smUpdatedAt = updated\<rparr>))))))))))))))))))))"

definition row_wf :: "StoredMigration \<Rightarrow> bool" where
  "row_wf m \<longleftrightarrow> list_all utf8_ok [smID m, smTenantID m, smStatus m, smDomain m, smSourceSlug m, smTargetSlug m,
        smTargetZoneID m, smNSChangeInstructions m, smErrorMessage m, smAccessToken m]
     \<and> pred_option zone_wf (smPreview m) \<and> list_all record_wf (smPreviewRecords m)
     \<and> list_all utf8_ok (smTargetNameservers m) \<and> list_all push_wf (smApplyResults m)"

lemma sint64_range: "in_int64 (sint (w :: 64 word)) = Some (sint w)"
proof -
  have "- (2 ^ 63) \<le> sint w" using sint_ge [of w] by simp
  moreover have "sint w < 2 ^ 63" using sint_lt [of w] by simp
  ultimately show ?thesis by (simp add: in_int64_def int64_min_def int64_max_def)
qed

lemma dec_enc_int64 [simp]: "dec_int64 (JNum (sint w)) = Inr w"
  by (simp add: dec_int64_def sint64_range)

lemma dec_row_fields:
  "dec_row (JObj (row_fields m)) =
     bindE (dec_ptr dec_zone (enc_ptr enc_zone (smPreview m))) (\<lambda>preview.
     bindE (mapE dec_record (map enc_record (smPreviewRecords m))) (\<lambda>records.
     bindE (mapE dec_str (map enc_str (smTargetNameservers m))) (\<lambda>nss.
     bindE (mapE dec_push (map enc_push (smApplyResults m))) (\<lambda>results.
     Inr \<lparr>smID = utf8_fix (smID m), smTenantID = utf8_fix (smTenantID m), smStatus = utf8_fix (smStatus m),
       smDomain = utf8_fix (smDomain m), smSourceSlug = utf8_fix (smSourceSlug m),
       smTargetSlug = utf8_fix (smTargetSlug m), smPreview = preview, smPreviewRecords = records,
       smTargetZoneID = utf8_fix (smTargetZoneID m), smTargetNameservers = nss, smApplyResults = results,
       smNSChangeInstructions = utf8_fix (smNSChangeInstructions m), smErrorMessage = utf8_fix (smErrorMessage m),
       smCredentialBlob = smCredentialBlob m, smAccessToken = utf8_fix (smAccessToken m),
       smExpiresAt = smExpiresAt m, smVersion = smVersion m, smCreatedAt = smCreatedAt m, smUpdatedAt = smUpdatedAt m\<rparr>))))"
  by (simp add: dec_row_def row_fields_def jfield_Cons enc_str_def)

lemma dec_enc_row: "row_wf m \<Longrightarrow> dec_row (JObj (row_fields m)) = Inr m"
  unfolding row_wf_def dec_row_fields
  by (simp add: jzone.dec_enc_ptr enc_zone_not_null jrecord.mapE_dec_enc jstr.mapE_dec_enc jpush.mapE_dec_enc utf8_ok_def)

lemma dec_row_error:
  assumes "p \<in> set (smApplyResults m)" and "psVerifyError p \<noteq> None"
  shows "\<exists>e. dec_row (JObj (row_fields m)) = Inl e"
proof -
  from dec_push_list_error [OF assms] obtain e where "mapE dec_push (map enc_push (smApplyResults m)) = Inl e" by auto
  then show ?thesis
    by (cases "dec_ptr dec_zone (enc_ptr enc_zone (smPreview m))"; cases "mapE dec_record (map enc_record (smPreviewRecords m))";
        cases "mapE dec_str (map enc_str (smTargetNameservers m))"; simp add: dec_row_fields)
qed

subsection \<open>The contract\<close>

text \<open>Two rows that agree on all but the time stamps the store sets.\<close>

definition same_content :: "StoredMigration \<Rightarrow> StoredMigration \<Rightarrow> bool" where
  "same_content a b \<longleftrightarrow> a\<lparr>smCreatedAt := 0, smUpdatedAt := 0\<rparr> = b\<lparr>smCreatedAt := 0, smUpdatedAt := 0\<rparr>"

lemma same_contentD:
  assumes "same_content a b"
  shows "smID a = smID b" "smStatus a = smStatus b" "smVersion a = smVersion b" "smExpiresAt a = smExpiresAt b"
    "smAccessToken a = smAccessToken b" "smTargetSlug a = smTargetSlug b"
  using assms by (cases a; cases b; simp add: same_content_def)+

lemma same_content_refl [simp]: "same_content m m"
  by (simp add: same_content_def)

lemma same_content_stamps [simp]: "same_content (m\<lparr>smUpdatedAt := t\<rparr>) m" "same_content (m\<lparr>smCreatedAt := c\<rparr>) m" "same_content (m\<lparr>smCreatedAt := c, smUpdatedAt := t\<rparr>) m"
  by (cases m; simp add: same_content_def)+

locale migration_store =
  fixes S :: "('e, 's) store_ops"
    and rows :: "'s \<Rightarrow> string \<Rightarrow> StoredMigration option"
    and ver :: "'s \<Rightarrow> string \<Rightarrow> 64 word option"
    and img :: "StoredMigration \<Rightarrow> StoredMigration option"
  assumes row_ver: "rows s i = Some r \<Longrightarrow> ver s i = Some (smVersion r)"
    and img_keeps: "img m = Some r \<Longrightarrow> smVersion r = smVersion m
      \<and> (utf8_ok (smID m) \<longrightarrow> smID r = smID m) \<and> (utf8_ok (smStatus m) \<longrightarrow> smStatus r = smStatus m)
      \<and> (utf8_ok (smAccessToken m) \<longrightarrow> smAccessToken r = smAccessToken m)"
    and create_ok: "stCreate S e m s = ((None, m'), s') \<Longrightarrow>
      smID m \<noteq> [] \<and> ver s (smID m) = None \<and> (\<exists>now. m' = stamp_new now m)
      \<and> rows s' = (rows s)(smID m := img m') \<and> ver s' = (ver s)(smID m \<mapsto> smVersion m')"
    and create_err: "stCreate S e m s = ((Some x, m'), s') \<Longrightarrow> rows s' = rows s \<and> ver s' = ver s"
    and get_ok: "stGet S e i s = Inr m \<Longrightarrow> rows s i = Some m"
    and get_missing: "stGet S e i s = Inl ErrNotFound \<Longrightarrow> ver s i = None"
    and update_ok: "stUpdate S e m s = ((None, m'), s') \<Longrightarrow>
      ver s (smID m) = Some (smVersion m - 1) \<and> same_content m' m
      \<and> (\<exists>w. same_content w m \<and> rows s' = (rows s)(smID m := img w)) \<and> ver s' = (ver s)(smID m \<mapsto> smVersion m)"
    and update_err: "stUpdate S e m s = ((Some x, m'), s') \<Longrightarrow> (rows s' = rows s \<and> ver s' = ver s)
      \<or> (ver s (smID m) = Some (smVersion m - 1) \<and> same_content m' m
          \<and> (\<exists>w. same_content w m \<and> rows s' = (rows s)(smID m := img w)) \<and> ver s' = (ver s)(smID m \<mapsto> smVersion m))"
    and update_mismatch: "stUpdate S e m s = ((Some ErrVersionMismatch, m'), s') \<Longrightarrow> ver s (smID m) \<noteq> Some (smVersion m - 1)"
    and delete_ok: "stDelete S e i s = (None, s') \<Longrightarrow> rows s' = (rows s)(i := None) \<and> ver s' = (ver s)(i := None)"
    and delete_err: "stDelete S e i s = (Some x, s') \<Longrightarrow>
      (rows s' = rows s \<and> ver s' = ver s) \<or> (rows s' = (rows s)(i := None) \<and> ver s' = (ver s)(i := None))"
    and list_ok: "stList S e f s = Inr rs \<Longrightarrow> r \<in> set rs \<Longrightarrow> \<exists>i. rows s i = Some r"
    and sweep_ver: "int64_min \<le> t \<Longrightarrow> t \<le> int64_max \<Longrightarrow> stSweep S e t s = ((z, n), s') \<Longrightarrow>
      (rows s' i = rows s i \<and> ver s' i = ver s i) \<or> (rows s' i = None \<and> ver s' i = None \<and> (\<forall>r. rows s i = Some r \<longrightarrow> smExpiresAt r < t))"
begin

text \<open>Every row lies under its own id.\<close>

definition keyed :: "'s \<Rightarrow> bool" where
  "keyed s \<longleftrightarrow> (\<forall>i r. rows s i = Some r \<longrightarrow> smID r = i)"

lemma keyed_upd:
  assumes "keyed s" and "rows s' = (rows s)(smID m := img m')" and "smID m' = smID m" and "utf8_ok (smID m)"
  shows "keyed s'"
  unfolding keyed_def
proof (intro allI impI)
  fix i r assume r: "rows s' i = Some r"
  show "smID r = i"
  proof (cases "i = smID m")
    case True
    with r assms(2) have "img m' = Some r" by simp
    with img_keeps [of m' r] assms(3,4) True show ?thesis by simp
  next
    case False
    with r assms(1,2) show ?thesis by (simp add: keyed_def)
  qed
qed

lemma keyed_create:
  assumes "keyed s" and "stCreate S e m s = ((y, m'), s')" and "utf8_ok (smID m)"
  shows "keyed s'"
proof (cases y)
  case None
  from create_ok [OF assms(2) [unfolded None]] obtain now
    where "m' = stamp_new now m" "rows s' = (rows s)(smID m := img m')" by (elim conjE exE)
  with assms(1,3) show ?thesis by (intro keyed_upd [of s s' m m']) (simp_all add: row_simps)
next
  case (Some x)
  from create_err [OF assms(2) [unfolded Some]] assms(1) show ?thesis by (simp add: keyed_def)
qed

lemma update_cases:
  assumes "stUpdate S e m s = ((y, m'), s')"
  obtains (same) "y \<noteq> None" "rows s' = rows s" "ver s' = ver s"
  | (updated) w where "ver s (smID m) = Some (smVersion m - 1)" "same_content m' m" "same_content w m"
      "rows s' = (rows s)(smID m := img w)" "ver s' = (ver s)(smID m \<mapsto> smVersion m)"
proof (cases y)
  case None
  from update_ok [OF assms [unfolded None]] show thesis by (elim conjE exE) (rule updated)
next
  case (Some x)
  from update_err [OF assms [unfolded Some]] show thesis
  proof (elim disjE conjE exE)
    assume "rows s' = rows s" "ver s' = ver s"
    with Some show thesis by (intro same) simp_all
  qed (rule updated)
qed

lemma keyed_update:
  assumes "keyed s" and "stUpdate S e m s = ((y, m'), s')" and "utf8_ok (smID m)"
  shows "keyed s'"
  using assms(2)
proof (cases rule: update_cases)
  case same
  with assms(1) show ?thesis by (simp add: keyed_def)
next
  case (updated w)
  then have "smID w = smID m" by (elim same_contentD)
  with updated assms(1,3) show ?thesis by (intro keyed_upd [of s s' m w]) simp_all
qed

lemma keyed_delete: "keyed s \<Longrightarrow> stDelete S e i s = (y, s') \<Longrightarrow> keyed s'"
  by (cases y) (auto simp: keyed_def dest!: delete_ok delete_err split: if_splits)

lemma keyed_sweep: "keyed s \<Longrightarrow> int64_min \<le> t \<Longrightarrow> t \<le> int64_max \<Longrightarrow> stSweep S e t s = ((z, n), s') \<Longrightarrow> keyed s'"
  unfolding keyed_def by (metis sweep_ver option.distinct(1))

text \<open>Optimistic locking: after a successful update no update with the same version succeeds, until
  the row is updated again or created anew.\<close>

lemma update_excludes:
  assumes "stUpdate S e m s = ((None, m'), s')" and "smID n = smID m" and "smVersion n = smVersion m"
  shows "fst (fst (stUpdate S e' n s')) \<noteq> None"
proof
  assume "fst (fst (stUpdate S e' n s')) = None"
  then obtain n' s'' where "stUpdate S e' n s' = ((None, n'), s'')" by (metis prod.collapse)
  from update_ok [OF this] update_ok [OF assms(1)] assms show False by simp
qed

text \<open>What was created or updated is read back, where the backend represents the row.\<close>

lemma create_get:
  assumes "stCreate S e m s = ((None, m'), s')" and "img m' = Some m'" and "stGet S e' (smID m) s' = Inr r"
  shows "r = m'"
  using create_ok [OF assms(1)] assms get_ok [OF assms(3)] by simp

lemma update_get:
  assumes "stUpdate S e m s = ((None, m'), s')" and "stGet S e' (smID m) s' = Inr r"
  shows "\<exists>w. same_content w m \<and> img w = Some r"
  using update_ok [OF assms(1)] get_ok [OF assms(2)] by auto

lemma delete_get:
  assumes "stDelete S e i s = (None, s')"
  shows "stGet S e' i s' \<noteq> Inr r"
  using delete_ok [OF assms] get_ok by fastforce

end

subsection \<open>The store as a map\<close>

text \<open>What a store promises when nothing outside fails: a finite map of rows with optimistic locking.\<close>

type_synonym row_map = "string \<rightharpoonup> StoredMigration"

definition spec_create :: "int \<Rightarrow> StoredMigration \<Rightarrow> row_map \<Rightarrow> bool \<times> row_map" where
  "spec_create now m M = (if M (smID m) = None then (True, M(smID m \<mapsto> stamp_new now m)) else (False, M))"

definition spec_get :: "int \<Rightarrow> string \<Rightarrow> row_map \<Rightarrow> store_error + StoredMigration" where
  "spec_get now i M = (case M i of None \<Rightarrow> Inl ErrNotFound | Some m \<Rightarrow> if row_expired now m then Inl ErrExpired else Inr m)"

definition spec_update :: "int \<Rightarrow> StoredMigration \<Rightarrow> row_map \<Rightarrow> store_error option \<times> row_map" where
  "spec_update now m M =
     (case M (smID m) of
        None \<Rightarrow> (Some ErrNotFound, M)
      | Some r \<Rightarrow>
          if smVersion r + 1 \<noteq> smVersion m then (Some ErrVersionMismatch, M)
          else (None, M(smID m \<mapsto> m\<lparr>smCreatedAt := smCreatedAt r, smUpdatedAt := now\<rparr>)))"

definition spec_delete :: "string \<Rightarrow> row_map \<Rightarrow> row_map" where
  "spec_delete i M = M(i := None)"

subsection \<open>A sample row\<close>

definition sample_row :: StoredMigration where
  "sample_row = \<lparr>smID = ''m1'', smTenantID = ''t'', smStatus = StatusPreview, smDomain = ''example.com'',
     smSourceSlug = [], smTargetSlug = ''fake'', smPreview = None, smPreviewRecords = [mk_record ''A'' ''www.example.com'' ''192.0.2.1'' 300],
     smTargetZoneID = [], smTargetNameservers = [], smApplyResults = [], smNSChangeInstructions = [], smErrorMessage = [],
     smCredentialBlob = ''blob'', smAccessToken = ''secret'', smExpiresAt = 3600000000000, smVersion = 1, smCreatedAt = 0, smUpdatedAt = 0\<rparr>"

lemma utf8_ok_Nil [simp]: "utf8_ok []"
  by (simp add: utf8_ok_def utf8_fix_def)

lemma sample_utf8:
  "utf8_ok (smID sample_row)" "utf8_ok (smTenantID sample_row)" "utf8_ok (smStatus sample_row)"
  "utf8_ok (smDomain sample_row)" "utf8_ok (smTargetSlug sample_row)" "utf8_ok (smAccessToken sample_row)"
  "list_all record_wf (smPreviewRecords sample_row)"
  by (simp_all add: sample_row_def record_wf_def utf8_ascii byte_def)

end
