(* ===== verification/Crypt.thy ===== *)
theory Crypt
  imports Go_Strings
begin

text \<open>
  The key and the sealing of stored credentials (\<open>migrate/crypt.go\<close>). AES-256-GCM and SHA-256 are
  parameters: \<open>aeSeal\<close> and \<open>aeOpen\<close> take the key, the nonce and the text, \<open>ksHash\<close> hashes a text. The plaintext
  is any type: the API seals a JSON document. The salt file is explicit state.
\<close>

subsection \<open>Hexadecimal keys\<close>

definition hex_val :: "char \<Rightarrow> nat option" where
  "hex_val c = (let b = byte c in
     if is_digit c then Some (b - 48)
     else if 97 \<le> b \<and> b \<le> 102 then Some (b - 87)
     else if 65 \<le> b \<and> b \<le> 70 then Some (b - 55) else None)"

fun hex_DecodeString :: "string \<Rightarrow> string option" where
  "hex_DecodeString [] = Some []"
| "hex_DecodeString [a] = None"
| "hex_DecodeString (a # b # s) =
     (case (hex_val a, hex_val b, hex_DecodeString s) of
        (Some x, Some y, Some r) \<Rightarrow> Some (char_of (16 * x + y) # r)
      | _ \<Rightarrow> None)"

text \<open>The key, whether one was configured, and the error.\<close>

definition LoadStateKey :: "(string \<Rightarrow> string) \<Rightarrow> string option \<times> bool \<times> string option" where
  "LoadStateKey env =
     (let raw = env ''ENTREE_STATE_KEY'' in
      if raw = [] then (None, False, None)
      else case hex_DecodeString raw of
        None \<Rightarrow> (None, False, Some ''migrate: ENTREE_STATE_KEY not valid hex'')
      | Some key \<Rightarrow>
          if length key \<noteq> 32
            then (None, False, Some (''migrate: ENTREE_STATE_KEY must decode to 32 bytes, got '' @ nat_digits (length key)))
          else (Some key, True, None))"

subsection \<open>Derived keys\<close>

text \<open>The outside of one call: errors of the file system (a failed write with the number of bytes
  written), fresh random bytes, and the salt another process writes between the read and the exclusive create.\<close>

record key_env =
  keMkdir :: "string option"
  keRead :: "string option"
  keRandom :: "string + string"
  keRace :: "string option"
  keCreate :: "string option"
  keReread :: "string option"
  keWrite :: "(string \<times> nat) option"
  keClose :: "string option"
  keHostname :: string
  keHash :: "string \<Rightarrow> string"

definition derive_from :: "key_env \<Rightarrow> string \<Rightarrow> string" where
  "derive_from E salt = keHash E (keHostname E @ [char_of (0 :: nat)] @ salt)"

definition DeriveStateKey :: "key_env \<Rightarrow> string \<Rightarrow> string option \<Rightarrow> (string + string) \<times> string option" where
  "DeriveStateKey E stateDir saltFile =
     (if stateDir = [] then (Inl ''migrate: state dir required'', saltFile)
      else case keMkdir E of
        Some e \<Rightarrow> (Inl (''migrate: mkdir state dir: '' @ e), saltFile)
      | None \<Rightarrow>
        (case keRead E of
           Some e \<Rightarrow> (Inl (''migrate: read salt: '' @ e), saltFile)
         | None \<Rightarrow>
           (case saltFile of
              Some salt \<Rightarrow> (Inr (derive_from E salt), saltFile)
            | None \<Rightarrow>
              (case keRandom E of
                 Inl e \<Rightarrow> (Inl (''migrate: generate salt: '' @ e), saltFile)
               | Inr fresh \<Rightarrow>
                 (case keRace E of
                    Some other \<Rightarrow>
                      (case keReread E of
                         Some e \<Rightarrow> (Inl (''migrate: re-read salt: '' @ e), Some other)
                       | None \<Rightarrow> (Inr (derive_from E other), Some other))
                  | None \<Rightarrow>
                    (case keCreate E of
                       Some e \<Rightarrow> (Inl (''migrate: create salt: '' @ e), saltFile)
                     | None \<Rightarrow>
                       (case keWrite E of
                          Some (e, n) \<Rightarrow> (Inl (''migrate: write salt: '' @ e), Some (take n fresh))
                        | None \<Rightarrow>
                          (case keClose E of
                             Some e \<Rightarrow> (Inl (''migrate: close salt: '' @ e), Some fresh)
                           | None \<Rightarrow> (Inr (derive_from E fresh), Some fresh)))))))))"

subsection \<open>Sealing\<close>

record 'p aead =
  aeSeal :: "string \<Rightarrow> string \<Rightarrow> 'p \<Rightarrow> string"
  aeOpen :: "string \<Rightarrow> string \<Rightarrow> string \<Rightarrow> 'p option"

definition nonce_size :: nat where
  "nonce_size = 12"

definition EncryptCreds :: "'p aead \<Rightarrow> string + string \<Rightarrow> string \<Rightarrow> 'p \<Rightarrow> string + string" where
  "EncryptCreds A rand key plaintext =
     (if length key \<noteq> 32 then Inl (''migrate: key must be 32 bytes, got '' @ nat_digits (length key))
      else case rand of
        Inl e \<Rightarrow> Inl (''migrate: nonce: '' @ e)
      | Inr nonce \<Rightarrow> Inr (nonce @ aeSeal A key nonce plaintext))"

definition DecryptCreds :: "'p aead \<Rightarrow> string \<Rightarrow> string \<Rightarrow> string + 'p" where
  "DecryptCreds A key blob =
     (if length key \<noteq> 32 then Inl (''migrate: key must be 32 bytes, got '' @ nat_digits (length key))
      else if length blob < nonce_size then Inl ''migrate: ciphertext too short''
      else case aeOpen A key (take nonce_size blob) (drop nonce_size blob) of
        None \<Rightarrow> Inl ''migrate: decrypt: cipher: message authentication failed''
      | Some pt \<Rightarrow> Inr pt)"

text \<open>What AES-GCM promises: opening a sealed text with its key and nonce gives the text.\<close>

definition aead_ok :: "'p aead \<Rightarrow> 'p \<Rightarrow> bool" where
  "aead_ok A p \<longleftrightarrow> (\<forall>key nonce. length nonce = nonce_size \<longrightarrow> aeOpen A key nonce (aeSeal A key nonce p) = Some p)"

lemma decrypt_encrypt:
  assumes "aead_ok A p" and "EncryptCreds A (Inr nonce) key p = Inr blob" and "length nonce = nonce_size"
  shows "DecryptCreds A key blob = Inr p"
  using assms by (auto simp: EncryptCreds_def DecryptCreds_def aead_ok_def split: if_splits)

lemma hex_DecodeString_length: "hex_DecodeString s = Some r \<Longrightarrow> length s = 2 * length r"
  by (induction s arbitrary: r rule: hex_DecodeString.induct) (auto split: option.splits)

lemma LoadStateKey_length:
  "LoadStateKey env = (k, b, e) \<Longrightarrow> (b \<longleftrightarrow> k \<noteq> None) \<and> (\<forall>key. k = Some key \<longrightarrow> length key = 32 \<and> length (env ''ENTREE_STATE_KEY'') = 64)"
proof -
  assume a: "LoadStateKey env = (k, b, e)"
  show ?thesis
  proof (cases "hex_DecodeString (env ''ENTREE_STATE_KEY'')")
    case (Some key)
    have l: "length (env ''ENTREE_STATE_KEY'') = 2 * length key" by (rule hex_DecodeString_length [OF Some])
    from a have "(k, b, e) = LoadStateKey env" ..
    with Some l show ?thesis by (simp add: LoadStateKey_def Let_def split: if_splits)
  qed (use a in \<open>auto simp: LoadStateKey_def Let_def split: if_splits\<close>)
qed

text \<open>The derived key is stable: once a call has returned a key, every later call on the same host
  returns it again, whatever random bytes it would draw, and leaves the salt alone.\<close>

theorem DeriveStateKey_stable:
  assumes "DeriveStateKey E dir salt = (Inr key, salt')" and "keHostname E' = keHostname E" and "keHash E' = keHash E"
    and "keMkdir E' = None" and "keRead E' = None" and "dir' \<noteq> []"
  shows "DeriveStateKey E' dir' salt' = (Inr key, salt')"
proof -
  from assms(1) obtain s where "salt' = Some s" "key = derive_from E s"
    by (auto simp: DeriveStateKey_def split: if_splits option.splits sum.splits dest!: sym [of "Some _"])
  with assms(2-) show ?thesis by (simp add: DeriveStateKey_def derive_from_def)
qed

text \<open>A write of the salt that fails half way is never repaired: the call reports the error, but the
  next one takes what was written, down to the empty text, for the salt.\<close>

lemma DeriveStateKey_short_salt:
  assumes "keWrite E = Some (e, n)" and "dir \<noteq> []" and "keMkdir E = None" and "keRead E = None" and "keRandom E = Inr fresh"
    and "keRace E = None" and "keCreate E = None" and "keMkdir E' = None" and "keRead E' = None"
  shows "DeriveStateKey E dir None = (Inl (''migrate: write salt: '' @ e), Some (take n fresh))
    \<and> fst (DeriveStateKey E' dir (Some (take n fresh))) = Inr (derive_from E' (take n fresh))"
  using assms by (simp add: DeriveStateKey_def)

definition quiet_key_env :: "string \<Rightarrow> key_env" where
  "quiet_key_env r = \<lparr>keMkdir = None, keRead = None, keRandom = Inr r, keRace = None, keCreate = None, keReread = None,
     keWrite = None, keClose = None, keHostname = ''host'', keHash = (\<lambda>s. take 32 (rev s))\<rparr>"

lemma DeriveStateKey_stable_witness:
  "DeriveStateKey (quiet_key_env ''second'') ''/state'' (Some ''first'')
    = (Inr (rev (''host'' @ [char_of (0 :: nat)] @ ''first'')), Some ''first'')"
proof -
  have "DeriveStateKey (quiet_key_env ''first'') ''/state'' None
    = (Inr (rev (''host'' @ [char_of (0 :: nat)] @ ''first'')), Some ''first'')"
    by (simp add: DeriveStateKey_def quiet_key_env_def derive_from_def)
  from DeriveStateKey_stable [OF this, of "quiet_key_env ''second''" "''/state''"] show ?thesis
    by (simp add: quiet_key_env_def)
qed

end
