(* ===== verification/Migrate_Adapters.thy ===== *)
theory Migrate_Adapters
  imports Migrate_Run Json
begin

text \<open>
  Zone creation at the target provider: the adapters of \<open>migrate/cloudflare.go\<close>, \<open>route53.go\<close>, \<open>gcdns.go\<close> and
  \<open>godaddy.go\<close> behind the interface of \<open>adapter.go\<close>, and its registry. Cloudflare's and AWS's client libraries are
  records of calls on the service's state, made for the options they are configured with; the other
  two adapters send HTTP requests through a transport, with JSON bodies as values.
\<close>

record ProviderOpts =
  paAPIToken :: string
  paAPIKey :: string
  paAPISecret :: string
  paAccessKey :: string
  paSecretKey :: string
  paRegion :: string
  paToken :: string
  paProjectID :: string
  paAccountID :: string
  paEndpoint :: string

type_synonym 's adapter = "string \<Rightarrow> ProviderOpts \<Rightarrow> 's \<Rightarrow> (string + ZoneInfo) \<times> 's"

type_synonym 's adapters = "string \<rightharpoonup> 's adapter"

definition RegisterAdapter :: "string \<Rightarrow> 's adapter \<Rightarrow> 's adapters \<Rightarrow> 's adapters" where
  "RegisterAdapter slug a reg = reg(slug \<mapsto> a)"

definition GetAdapter :: "'s adapters \<Rightarrow> string \<Rightarrow> string + 's adapter" where
  "GetAdapter reg slug = (case reg slug of
     None \<Rightarrow> Inl (''migrate: no adapter for provider '' @ go_quote slug) | Some a \<Rightarrow> Inr a)"

definition check_opts :: "string \<Rightarrow> ProviderOpts \<Rightarrow> string option" where
  "check_opts domain opts =
     (case migrate_validateDomain domain of Some e \<Rightarrow> Some e | None \<Rightarrow> validateEndpoint (paEndpoint opts))"

subsection \<open>Cloudflare\<close>

record cf_zone =
  czID :: string
  czName :: string
  czNameServers :: "string list"

record 's cf_zones =
  czList :: "'s \<Rightarrow> string \<Rightarrow> string + cf_zone list"
  czCreate :: "'s \<Rightarrow> string \<Rightarrow> string \<Rightarrow> (string + cf_zone) \<times> 's"

definition cf_EnsureZone :: "(ProviderOpts \<Rightarrow> string + 's cf_zones) \<Rightarrow> 's adapter" where
  "cf_EnsureZone newClient domain opts s =
     (case check_opts domain opts of
        Some e \<Rightarrow> (Inl e, s)
      | None \<Rightarrow>
        if paAPIToken opts = [] then (Inl ''cloudflare: APIToken required'', s)
        else if paAccountID opts = [] then (Inl ''cloudflare: AccountID required'', s)
        else case newClient opts of
          Inl e \<Rightarrow> (Inl (''cloudflare: client: '' @ e), s)
        | Inr C \<Rightarrow>
          (case czList C s domain of
             Inl e \<Rightarrow> (Inl (''cloudflare: list zones: '' @ e), s)
           | Inr existing \<Rightarrow>
             (case find (\<lambda>z. czName z = domain) existing of
                Some z \<Rightarrow> (Inr \<lparr>ziZoneID = czID z, ziNameservers = czNameServers z, ziCreated = False\<rparr>, s)
              | None \<Rightarrow>
                (case czCreate C s domain (paAccountID opts) of
                   (Inl e, s') \<Rightarrow> (Inl (''cloudflare: create zone: '' @ e), s')
                 | (Inr z, s') \<Rightarrow> (Inr \<lparr>ziZoneID = czID z, ziNameservers = czNameServers z, ziCreated = True\<rparr>, s')))))"

subsection \<open>Route 53\<close>

record 's r53_zones =
  rzList :: "'s \<Rightarrow> string \<Rightarrow> string + (string \<times> string) list"
  rzGet :: "'s \<Rightarrow> string \<Rightarrow> string + string list"
  rzCreate :: "'s \<Rightarrow> string \<Rightarrow> (string + string \<times> string list) \<times> 's"

definition hosted_id :: "string \<Rightarrow> string" where
  "hosted_id i = TrimPrefix i ''/hostedzone/''"

text \<open>The client is configured with the region, \<open>us-east-1\<close> unless one is given.\<close>

definition r53_EnsureZone :: "(string \<Rightarrow> ProviderOpts \<Rightarrow> string + 's r53_zones) \<Rightarrow> 's adapter" where
  "r53_EnsureZone newClient domain opts s =
     (case check_opts domain opts of
        Some e \<Rightarrow> (Inl e, s)
      | None \<Rightarrow>
        if paAccessKey opts = [] \<or> paSecretKey opts = [] then (Inl ''route53: AccessKey and SecretKey required'', s)
        else case newClient (if paRegion opts = [] then ''us-east-1'' else paRegion opts) opts of
          Inl e \<Rightarrow> (Inl (''route53: aws config: '' @ e), s)
        | Inr C \<Rightarrow>
          (case rzList C s domain of
             Inl e \<Rightarrow> (Inl (''route53: list zones: '' @ e), s)
           | Inr zones \<Rightarrow>
             (case find (\<lambda>(i, name). TrimSuffix name ''.'' = domain) zones of
                Some (i, name) \<Rightarrow>
                  (case rzGet C s (hosted_id i) of
                     Inl e \<Rightarrow> (Inl (''route53: get zone: '' @ e), s)
                   | Inr ns \<Rightarrow> (Inr \<lparr>ziZoneID = hosted_id i, ziNameservers = ns, ziCreated = False\<rparr>, s))
              | None \<Rightarrow>
                (case rzCreate C s domain of
                   (Inl e, s') \<Rightarrow> (Inl (''route53: create zone: '' @ e), s')
                 | (Inr (i, ns), s') \<Rightarrow> (Inr \<lparr>ziZoneID = hosted_id i, ziNameservers = ns, ziCreated = True\<rparr>, s')))))"

subsection \<open>HTTP\<close>

record http_request =
  hqMethod :: string
  hqURL :: string
  hqAuth :: string
  hqBody :: "json option"

record http_reply =
  hrStatus :: nat
  hrBody :: json

type_synonym 's transport = "'s \<Rightarrow> http_request \<Rightarrow> (string + http_reply) \<times> 's"

definition gcdnsDefaultBaseURL :: string where
  "gcdnsDefaultBaseURL = ''https://dns.googleapis.com/dns/v1''"

definition gcdnsDo :: "'s transport \<Rightarrow> string \<Rightarrow> string \<Rightarrow> string \<Rightarrow> json option \<Rightarrow> 's \<Rightarrow> (string + json) \<times> 's" where
  "gcdnsDo send method url token body s =
     (case send s \<lparr>hqMethod = method, hqURL = url, hqAuth = ''Bearer '' @ token, hqBody = body\<rparr> of
        (Inl e, s') \<Rightarrow> (Inl e, s')
      | (Inr r, s') \<Rightarrow> (if 400 \<le> hrStatus r then Inl (''status '' @ nat_digits (hrStatus r)) else Inr (hrBody r), s'))"

record managed_zone =
  gzName :: string
  gzDNSName :: string
  gzNameServers :: "string list"

definition dec_managed_zone :: "json \<Rightarrow> string + managed_zone" where
  "dec_managed_zone j =
     bindE (dec_fields j) (\<lambda>kvs.
     bindE (dec_str (jfield kvs ''name'')) (\<lambda>n.
     bindE (dec_str (jfield kvs ''dnsName'')) (\<lambda>d.
     bindE (dec_list dec_str (jfield kvs ''nameServers'')) (\<lambda>ns.
     Inr \<lparr>gzName = n, gzDNSName = d, gzNameServers = ns\<rparr>))))"

definition dec_zone_list :: "json \<Rightarrow> string + managed_zone list" where
  "dec_zone_list j = bindE (dec_fields j) (\<lambda>kvs. dec_list dec_managed_zone (jfield kvs ''managedZones''))"

definition gc_EnsureZone :: "'s transport \<Rightarrow> int \<Rightarrow> 's adapter" where
  "gc_EnsureZone send now domain opts s =
     (case check_opts domain opts of
        Some e \<Rightarrow> (Inl e, s)
      | None \<Rightarrow>
        if paToken opts = [] then (Inl ''gcdns: Token required'', s)
        else if paProjectID opts = [] then (Inl ''gcdns: ProjectID required'', s)
        else
          (let base = (if paEndpoint opts = [] then gcdnsDefaultBaseURL else paEndpoint opts);
               zones = base @ ''/projects/'' @ paProjectID opts @ ''/managedZones'' in
           case gcdnsDo send ''GET'' (zones @ ''?dnsName='' @ domain @ ''.'') (paToken opts) None s of
             (Inl e, s1) \<Rightarrow> (Inl (''gcdns: list zones: '' @ e), s1)
           | (Inr body, s1) \<Rightarrow>
             (case dec_zone_list body of
                Inl e \<Rightarrow> (Inl (''gcdns: parse list: '' @ e), s1)
              | Inr listed \<Rightarrow>
                (case find (\<lambda>z. TrimSuffix (gzDNSName z) ''.'' = domain) listed of
                   Some z \<Rightarrow> (Inr \<lparr>ziZoneID = gzName z, ziNameservers = gzNameServers z, ziCreated = False\<rparr>, s1)
                 | None \<Rightarrow>
                   (case gcdnsDo send ''POST'' zones (paToken opts)
                      (Some (JObj [(''name'', JStr (''entree-'' @ Itoa now)), (''dnsName'', enc_str (domain @ ''.'')),
                        (''description'', JStr ''Created by dns-entree migrate'')])) s1 of
                      (Inl e, s2) \<Rightarrow> (Inl (''gcdns: create zone: '' @ e), s2)
                    | (Inr reply, s2) \<Rightarrow>
                      (case dec_managed_zone reply of
                         Inl e \<Rightarrow> (Inl (''gcdns: parse create: '' @ e), s2)
                       | Inr z \<Rightarrow> (Inr \<lparr>ziZoneID = gzName z, ziNameservers = gzNameServers z, ziCreated = True\<rparr>, s2)))))))"

subsection \<open>GoDaddy\<close>

definition godaddyDefaultBaseURL :: string where
  "godaddyDefaultBaseURL = ''https://api.godaddy.com/v1''"

definition gd_EnsureZone :: "'s transport \<Rightarrow> 's adapter" where
  "gd_EnsureZone send domain opts s =
     (case check_opts domain opts of
        Some e \<Rightarrow> (Inl e, s)
      | None \<Rightarrow>
        if paAPIKey opts = [] \<or> paAPISecret opts = [] then (Inl ''godaddy: APIKey and APISecret required'', s)
        else
          (let base = (if paEndpoint opts = [] then godaddyDefaultBaseURL else paEndpoint opts) in
           case send s \<lparr>hqMethod = ''GET'', hqURL = base @ ''/domains/'' @ domain,
               hqAuth = ''sso-key '' @ paAPIKey opts @ '':'' @ paAPISecret opts, hqBody = None\<rparr> of
             (Inl e, s') \<Rightarrow> (Inl (''godaddy: get domain: '' @ e), s')
           | (Inr r, s') \<Rightarrow>
             if hrStatus r = 404 then
               (Inl (''godaddy: domain '' @ domain @ '' not registered to this account; GoDaddy does not support API zone creation (zones are tied to registration)''), s')
             else if 400 \<le> hrStatus r then (Inl (''godaddy: get domain status '' @ nat_digits (hrStatus r)), s')
             else
               (case bindE (dec_fields (hrBody r)) (\<lambda>kvs.
                     bindE (dec_str (jfield kvs ''domain'')) (\<lambda>d.
                     bindE (dec_str (jfield kvs ''status'')) (\<lambda>_.
                     bindE (dec_list dec_str (jfield kvs ''nameServers'')) (\<lambda>ns. Inr (d, ns))))) of
                  Inl e \<Rightarrow> (Inl (''godaddy: decode: '' @ e), s')
                | Inr (d, ns) \<Rightarrow> (Inr \<lparr>ziZoneID = ToLower d, ziNameservers = ns, ziCreated = False\<rparr>, s'))))"

subsection \<open>The adapters of the program\<close>

record 's vendor =
  vnCloudflare :: "ProviderOpts \<Rightarrow> string + 's cf_zones"
  vnRoute53 :: "string \<Rightarrow> ProviderOpts \<Rightarrow> string + 's r53_zones"
  vnSend :: "'s transport"
  vnNow :: int

definition init_adapters :: "'s vendor \<Rightarrow> 's adapters" where
  "init_adapters V =
     RegisterAdapter ''route53'' (r53_EnsureZone (vnRoute53 V))
    (RegisterAdapter ''godaddy'' (gd_EnsureZone (vnSend V))
    (RegisterAdapter ''google_cloud_dns'' (gc_EnsureZone (vnSend V) (vnNow V))
    (RegisterAdapter ''gcdns'' (gc_EnsureZone (vnSend V) (vnNow V))
    (RegisterAdapter ''cloudflare'' (cf_EnsureZone (vnCloudflare V)) Map.empty))))"

text \<open>An adapter that rejects its input has not used the network.\<close>

theorem adapters_reject_first:
  assumes "GetAdapter (init_adapters V) slug = Inr a" and "check_opts domain opts = Some e"
  shows "a domain opts s = (Inl e, s)"
  using assms
  by (auto simp: GetAdapter_def init_adapters_def RegisterAdapter_def cf_EnsureZone_def r53_EnsureZone_def
      gd_EnsureZone_def gc_EnsureZone_def split: option.splits if_splits)

text \<open>Ensuring a zone twice creates it once, when the service lists a zone that it has created.\<close>

definition cf_lists_created :: "'s cf_zones \<Rightarrow> bool" where
  "cf_lists_created C \<longleftrightarrow> (\<forall>s domain acc z s'. czCreate C s domain acc = (Inr z, s') \<longrightarrow>
     (\<exists>zs. czList C s' domain = Inr zs \<and> find (\<lambda>y. czName y = domain) zs = Some z))"

theorem cf_EnsureZone_creates_once:
  assumes "newClient opts = Inr C" and "cf_lists_created C"
    and "cf_EnsureZone newClient domain opts s = (Inr zi, s')"
  shows "cf_EnsureZone newClient domain opts s' = (Inr (zi\<lparr>ziCreated := False\<rparr>), s')"
proof -
  note c = assms(3) [unfolded cf_EnsureZone_def]
  from c assms(1) have k: "check_opts domain opts = None" "paAPIToken opts \<noteq> []" "paAccountID opts \<noteq> []"
    by (auto split: option.splits if_splits)
  obtain zs where zs: "czList C s domain = Inr zs"
    using c assms(1) k by (auto split: sum.splits)
  show ?thesis
  proof (cases "find (\<lambda>z. czName z = domain) zs")
    case (Some z)
    with c assms(1) k zs have "zi = \<lparr>ziZoneID = czID z, ziNameservers = czNameServers z, ziCreated = False\<rparr>" "s' = s"
      by auto
    with Some k zs assms(1) show ?thesis by (simp add: cf_EnsureZone_def)
  next
    case None
    then obtain z where z: "czCreate C s domain (paAccountID opts) = (Inr z, s')"
      and zi: "zi = \<lparr>ziZoneID = czID z, ziNameservers = czNameServers z, ziCreated = True\<rparr>"
      using c assms(1) k zs by (auto split: prod.splits sum.splits)
    from assms(2) z obtain zs' where "czList C s' domain = Inr zs'" "find (\<lambda>y. czName y = domain) zs' = Some z"
      unfolding cf_lists_created_def by blast
    with k assms(1) zi show ?thesis by (simp add: cf_EnsureZone_def)
  qed
qed

definition shop :: "cf_zone list cf_zones" where
  "shop = \<lparr>czList = (\<lambda>s d. Inr (filter (\<lambda>z. czName z = d) s)),
     czCreate = (\<lambda>s d acc. let z = \<lparr>czID = ''z1'', czName = d, czNameServers = [''ns1.example.net'']\<rparr> in (Inr z, z # s))\<rparr>"

definition shop_opts :: ProviderOpts where
  "shop_opts = \<lparr>paAPIToken = ''t'', paAPIKey = [], paAPISecret = [], paAccessKey = [], paSecretKey = [], paRegion = [],
     paToken = [], paProjectID = [], paAccountID = ''a'', paEndpoint = []\<rparr>"

lemma cf_EnsureZone_creates_once_witness:
  "\<exists>zi s'. cf_EnsureZone (\<lambda>_. Inr shop) ''example.com'' shop_opts [] = (Inr zi, s') \<and> ziCreated zi
    \<and> cf_EnsureZone (\<lambda>_. Inr shop) ''example.com'' shop_opts s' = (Inr (zi\<lparr>ziCreated := False\<rparr>), s')"
proof -
  have l: "cf_lists_created shop" by (auto simp: cf_lists_created_def shop_def Let_def)
  have v: "check_opts ''example.com'' shop_opts = None"
    by (simp add: check_opts_def shop_opts_def validateEndpoint_def) code_simp
  have e: "cf_EnsureZone (\<lambda>_. Inr shop) ''example.com'' shop_opts []
      = (Inr \<lparr>ziZoneID = ''z1'', ziNameservers = [''ns1.example.net''], ziCreated = True\<rparr>,
         [\<lparr>czID = ''z1'', czName = ''example.com'', czNameServers = [''ns1.example.net'']\<rparr>])"
    using v by (simp add: cf_EnsureZone_def) (simp add: shop_def shop_opts_def Let_def)
  from cf_EnsureZone_creates_once [OF refl l e] e show ?thesis by fastforce
qed

text \<open>Names are compared by their bytes. Where the service stores names in lower case, as Route 53
  does, a domain with a capital letter is never found, and every call creates another zone.\<close>

lemma r53_mixed_case_creates:
  assumes "newClient region opts = Inr C" and "region = (if paRegion opts = [] then ''us-east-1'' else paRegion opts)"
    and "check_opts domain opts = None" and "paAccessKey opts \<noteq> []" and "paSecretKey opts \<noteq> []"
    and "rzList C s domain = Inr zones" and "\<forall>(i, n) \<in> set zones. ToLower n = n" and "ToLower domain \<noteq> domain"
  shows "snd (r53_EnsureZone newClient domain opts s) = snd (rzCreate C s domain)"
proof -
  have "ToLower (TrimSuffix n ''.'') = TrimSuffix n ''.''" if "ToLower n = n" for n
  proof -
    have "ToLower (TrimSuffix n ''.'') = take (length (TrimSuffix n ''.'')) (ToLower n)"
      by (auto simp: TrimSuffix_def)
    with that show ?thesis by (auto simp: TrimSuffix_def)
  qed
  with assms(7,8) have "find (\<lambda>(i, n). TrimSuffix n ''.'' = domain) zones = None"
    by (fastforce simp: find_None_iff)
  with assms(1-6) show ?thesis by (auto simp: r53_EnsureZone_def split: prod.split sum.split)
qed

end
