(* ===== verification/Api_Migrate.thy ===== *)
theory Api_Migrate
  imports Api_Http Store Crypt Migrate_Adapters Validate
begin

text \<open>
  The stateful migration endpoints (\<open>api/handlers_migrate_stateful.go\<close>) over an abstract store: preview,
  apply, verify, get, list and delete. A handler is cut at its store operations, because those are
  where requests interleave: \<open>apply_load\<close>, \<open>apply_claim\<close>, \<open>apply_work\<close> and \<open>apply_finish\<close> compose to
  \<open>handleMigrateApply\<close>, \<open>verify_load\<close> and \<open>verify_finish\<close> to \<open>handleMigrateVerify\<close>. The server is its store, its
  key and its registries; \<open>req_env\<close> is the outside of one request: what each store operation meets
  (\<open>qeGet\<close>, \<open>qeClaim\<close>, \<open>qeFinish\<close>), the clock, random values and the network.
\<close>

subsection \<open>Credentials in bodies\<close>

record bodyCredentials =
  bcAPIToken :: string
  bcAPIKey :: string
  bcAPISecret :: string
  bcAccessKey :: string
  bcSecretKey :: string
  bcRegion :: string
  bcToken :: string
  bcProjectID :: string
  bcAccountID :: string

definition toEntreeCredentials :: "bodyCredentials \<Rightarrow> Credentials" where
  "toEntreeCredentials b = empty_credentials\<lparr>crAPIToken := bcAPIToken b, crAPIKey := bcAPIKey b, crAPISecret := bcAPISecret b,
     crAccessKey := bcAccessKey b, crSecretKey := bcSecretKey b, crRegion := bcRegion b, crToken := bcToken b,
     crProjectID := bcProjectID b\<rparr>"

definition toProviderOpts :: "bodyCredentials \<Rightarrow> ProviderOpts" where
  "toProviderOpts b = \<lparr>paAPIToken = bcAPIToken b, paAPIKey = bcAPIKey b, paAPISecret = bcAPISecret b,
     paAccessKey = bcAccessKey b, paSecretKey = bcSecretKey b, paRegion = bcRegion b, paToken = bcToken b,
     paProjectID = bcProjectID b, paAccountID = bcAccountID b, paEndpoint = []\<rparr>"

definition omit_empty :: "string \<Rightarrow> string \<Rightarrow> (string \<times> json) list" where
  "omit_empty k v = (if v = [] then [] else [(k, enc_str v)])"

definition enc_creds :: "bodyCredentials \<Rightarrow> json" where
  "enc_creds b = JObj (omit_empty ''api_token'' (bcAPIToken b) @ omit_empty ''api_key'' (bcAPIKey b)
     @ omit_empty ''api_secret'' (bcAPISecret b) @ omit_empty ''access_key'' (bcAccessKey b)
     @ omit_empty ''secret_key'' (bcSecretKey b) @ omit_empty ''region'' (bcRegion b) @ omit_empty ''token'' (bcToken b)
     @ omit_empty ''project_id'' (bcProjectID b) @ omit_empty ''account_id'' (bcAccountID b))"

definition dec_creds :: "json \<Rightarrow> string + bodyCredentials" where
  "dec_creds j =
     bindE (dec_fields j) (\<lambda>kvs.
     bindE (dec_str (jfield kvs ''api_token'')) (\<lambda>f1. bindE (dec_str (jfield kvs ''api_key'')) (\<lambda>f2.
     bindE (dec_str (jfield kvs ''api_secret'')) (\<lambda>f3. bindE (dec_str (jfield kvs ''access_key'')) (\<lambda>f4.
     bindE (dec_str (jfield kvs ''secret_key'')) (\<lambda>f5. bindE (dec_str (jfield kvs ''region'')) (\<lambda>f6.
     bindE (dec_str (jfield kvs ''token'')) (\<lambda>f7. bindE (dec_str (jfield kvs ''project_id'')) (\<lambda>f8.
     bindE (dec_str (jfield kvs ''account_id'')) (\<lambda>f9.
     Inr \<lparr>bcAPIToken = f1, bcAPIKey = f2, bcAPISecret = f3, bcAccessKey = f4, bcSecretKey = f5, bcRegion = f6,
       bcToken = f7, bcProjectID = f8, bcAccountID = f9\<rparr>))))))))))"

definition creds_wf :: "bodyCredentials \<Rightarrow> bool" where
  "creds_wf b \<longleftrightarrow> list_all utf8_ok [bcAPIToken b, bcAPIKey b, bcAPISecret b, bcAccessKey b, bcSecretKey b, bcRegion b,
     bcToken b, bcProjectID b, bcAccountID b]"

lemma jfield_skip:
  "k \<noteq> k' \<Longrightarrow> jfield (omit_empty k v @ kvs) k' = jfield kvs k'"
  "k \<noteq> k' \<Longrightarrow> jfield (omit_empty k v) k' = JNull"
  by (auto simp: omit_empty_def jfield_def)

lemma dec_omit:
  "utf8_ok v \<Longrightarrow> jfield kvs k = JNull \<Longrightarrow> dec_str (jfield (omit_empty k v @ kvs) k) = Inr v"
  "utf8_ok v \<Longrightarrow> dec_str (jfield (omit_empty k v) k) = Inr v"
  by (auto simp: omit_empty_def jfield_Cons dec_enc_str) (simp add: jfield_def)

lemma dec_enc_creds: "creds_wf b \<Longrightarrow> dec_creds (enc_creds b) = Inr b"
  by (simp add: dec_creds_def enc_creds_def creds_wf_def jfield_skip dec_omit)

interpretation jcreds: json_codec enc_creds dec_creds creds_wf
  by unfold_locales (rule dec_enc_creds)

subsection \<open>Tokens and paths\<close>

definition extractBearer :: "request \<Rightarrow> string" where
  "extractBearer r =
     (let h = Header_Get (rqHeader r) ''Authorization'' in
      if \<not> HasPrefix h ''Bearer '' then [] else TrimPrefix h ''Bearer '')"

definition checkAccessToken :: "string \<Rightarrow> string \<Rightarrow> bool" where
  "checkAccessToken got want \<longleftrightarrow> got = want"

definition redactCreds :: "StoredMigration \<Rightarrow> StoredMigration" where
  "redactCreds m = m\<lparr>smCredentialBlob := [], smAccessToken := []\<rparr>"

definition extractPathID :: "string \<Rightarrow> string" where
  "extractPathID path =
     (let p = TrimPrefix path ''/v1/migrate/'' in
      if p = path then []
      else case Index p ''/'' of Some i \<Rightarrow> take i p | None \<Rightarrow> p)"

subsection \<open>The server\<close>

record ('e, 't, 's) server =
  svStore :: "('e, 't) store_ops option"
  svKey :: string
  svTTL :: int
  svAead :: "json aead"
  svAdapters :: "'s adapters"
  svProviders :: "string \<rightharpoonup> 's provider factory"

record 'e req_env =
  qeGet :: 'e
  qeNow :: int
  qeClaim :: 'e
  qeFinish :: 'e
  qeNonce :: "string + string"
  qeNewID :: string
  qeToken :: string
  qeWall :: int
  qeScrape :: scrape_env
  qeLookupNS :: "string \<Rightarrow> string list option"
  qeRdap :: "string \<Rightarrow> rdap_entity list option"
  qeLimiter :: "nat \<Rightarrow> string option"
  qeNet :: vt_env

abbreviation "codeConflict \<equiv> ''CONFLICT''"
abbreviation "codeUnauthorized \<equiv> ''UNAUTHORIZED''"
abbreviation "codeNotFound \<equiv> ''NOT_FOUND''"
abbreviation "codeGone \<equiv> ''GONE''"

definition internal :: "string \<Rightarrow> response" where
  "internal msg = writeError 500 CodeInternal msg None"

definition loadAndAuth ::
  "('e, 't, 's) server \<Rightarrow> 'e req_env \<Rightarrow> request \<Rightarrow> string \<Rightarrow> 't \<Rightarrow> response + (('e, 't) store_ops \<times> StoredMigration)" where
  "loadAndAuth srv E r i st =
     (if i = [] then Inl (writeError 400 CodeBadRequest ''id required'' None)
      else case svStore srv of
        None \<Rightarrow> Inl (internal ''migration store not configured'')
      | Some S \<Rightarrow>
        (case stGet S (qeGet E) i st of
           Inl ErrNotFound \<Rightarrow> Inl (writeError 404 codeNotFound ''migration not found'' None)
         | Inl ErrExpired \<Rightarrow> Inl (writeError 410 codeGone ''migration expired'' None)
         | Inl e \<Rightarrow> Inl (internal ''load failed'')
         | Inr row \<Rightarrow>
             if row_expired (qeNow E) row then Inl (writeError 410 codeGone ''migration expired'' None)
             else let tok = extractBearer r in
               if tok = [] then Inl (writeError 401 codeUnauthorized ''missing bearer token'' None)
               else if \<not> checkAccessToken tok (smAccessToken row)
                 then Inl (writeError 401 codeUnauthorized ''invalid bearer token'' None)
               else Inr (S, row)))"

subsection \<open>Preview\<close>

record previewRequest =
  pqDomain :: string
  pqTarget :: string
  pqTenantID :: string
  pqCredentials :: bodyCredentials
  pqNameservers :: "string list"
  pqLabels :: "string list"
  pqLabelsOnly :: "string list"
  pqNoAXFR :: bool
  pqPreloadedZone :: "MZone option"

definition preview_zone :: "'e req_env \<Rightarrow> previewRequest \<Rightarrow> string + MZone" where
  "preview_zone E q =
     (case pqPreloadedZone q of
        Some z \<Rightarrow> Inr z
      | None \<Rightarrow> ScrapeZone (qeScrape E) (pqDomain q)
          \<lparr>soNameservers = pqNameservers q, soExtraLabels = pqLabels q, soOnlyLabels = pqLabelsOnly q, soSkipAXFR = pqNoAXFR q\<rparr>)"

definition detected_slug :: "'e req_env \<Rightarrow> string \<Rightarrow> string" where
  "detected_slug E domain =
     (case DetectProvider (qeLookupNS E) (qeRdap E) domain of Inl e \<Rightarrow> [] | Inr det \<Rightarrow> drProvider det)"

definition preview_row :: "('e, 't, 's) server \<Rightarrow> 'e req_env \<Rightarrow> previewRequest \<Rightarrow> MZone \<Rightarrow> string \<Rightarrow> string \<Rightarrow> StoredMigration" where
  "preview_row srv E q zone src blob =
     (let ttl = (if svTTL srv \<le> 0 then 3600 * 10 ^ 9 else svTTL srv) in
      \<lparr>smID = qeNewID E, smTenantID = pqTenantID q, smStatus = StatusPreview, smDomain = pqDomain q,
       smSourceSlug = src, smTargetSlug = pqTarget q, smPreview = Some zone, smPreviewRecords = zRecords zone,
       smTargetZoneID = [], smTargetNameservers = [], smApplyResults = [], smNSChangeInstructions = [],
       smErrorMessage = [], smCredentialBlob = blob, smAccessToken = qeToken E, smExpiresAt = qeWall E + ttl,
       smVersion = 1, smCreatedAt = qeWall E, smUpdatedAt = qeWall E\<rparr>)"

definition preview_data :: "StoredMigration \<Rightarrow> string \<Rightarrow> MZone \<Rightarrow> json" where
  "preview_data row src zone = JObj [(''id'', enc_str (smID row)), (''access_token'', enc_str (smAccessToken row)),
     (''status'', enc_str (smStatus row)), (''domain'', enc_str (smDomain row)), (''target'', enc_str (smTargetSlug row)),
     (''detected_source'', enc_str src), (''preview'', enc_zone zone), (''expires_at'', JTime (smExpiresAt row))]"

text \<open>What is checked before anything is stored, and the row to store.\<close>

definition preview_prepare :: "('e, 't, 's) server \<Rightarrow> 'e req_env \<Rightarrow> previewRequest body \<Rightarrow>
    response + (('e, 't) store_ops \<times> StoredMigration \<times> string \<times> MZone)" where
  "preview_prepare srv E b =
     bindE (decodeJSON b) (\<lambda>q.
     if pqDomain q = [] then Inl (writeError 400 CodeBadRequest ''domain required'' None)
     else case ValidateDNSName (pqDomain q) of
       Some e \<Rightarrow> Inl (writeError 400 CodeBadRequest (''invalid domain: '' @ e) None)
     | None \<Rightarrow>
       if pqTarget q = [] then Inl (writeError 400 CodeBadRequest ''target required'' None)
       else case GetAdapter (svAdapters srv) (pqTarget q) of
         Inl e \<Rightarrow> Inl (writeError 400 CodeBadRequest ''unknown target provider'' (Some [(''target'', enc_str (pqTarget q))]))
       | Inr _ \<Rightarrow>
         (case svStore srv of
            None \<Rightarrow> Inl (internal ''migration store not configured'')
          | Some S \<Rightarrow>
            if length (svKey srv) \<noteq> 32 then Inl (internal ''state key not configured'')
            else
              bindE (mapErr (\<lambda>_. internal ''scrape failed'') (preview_zone E q)) (\<lambda>zone.
              bindE (mapErr (\<lambda>_. internal ''encrypt credentials'')
                 (EncryptCreds (svAead srv) (qeNonce E) (svKey srv) (enc_creds (pqCredentials q)))) (\<lambda>blob.
              let src = detected_slug E (pqDomain q) in
              Inr (S, preview_row srv E q zone src blob, src, zone)))))"

definition handleMigratePreview ::
  "('e, 't, 's) server \<Rightarrow> 'e req_env \<Rightarrow> previewRequest body \<Rightarrow> 't \<Rightarrow> response \<times> 't" where
  "handleMigratePreview srv E b st =
     (case preview_prepare srv E b of
        Inl res \<Rightarrow> (res, st)
      | Inr (S, row, src, zone) \<Rightarrow>
          (case stCreate S (qeClaim E) row st of
             ((Some e, _), st') \<Rightarrow> (internal ''persist migration'', st')
           | ((None, row'), st') \<Rightarrow> (writeJSON (preview_data row' src zone), st')))"

subsection \<open>Apply\<close>

record ('e, 't, 's) apply_job =
  ajStore :: "('e, 't) store_ops"
  ajRow :: StoredMigration
  ajCreds :: bodyCredentials
  ajAdapter :: "'s adapter"

definition apply_load ::
  "('e, 't, 's) server \<Rightarrow> 'e req_env \<Rightarrow> request \<Rightarrow> 't \<Rightarrow> response + ('e, 't, 's) apply_job" where
  "apply_load srv E r st =
     bindE (loadAndAuth srv E r (extractPathID (rqPath r)) st) (\<lambda>(S, row).
     if smStatus row \<noteq> StatusPreview
       then Inl (writeError 409 codeConflict ''migration not in preview state'' (Some [(''status'', enc_str (smStatus row))]))
     else
       bindE (mapErr (\<lambda>_. internal ''decrypt credentials'') (DecryptCreds (svAead srv) (svKey srv) (smCredentialBlob row))) (\<lambda>j.
       bindE (mapErr (\<lambda>_. internal ''credentials corrupt'') (dec_creds j)) (\<lambda>creds.
       bindE (mapErr (\<lambda>_. internal ''adapter lookup failed'') (GetAdapter (svAdapters srv) (smTargetSlug row))) (\<lambda>a.
       Inr \<lparr>ajStore = S, ajRow = row, ajCreds = creds, ajAdapter = a\<rparr>))))"

definition conflict_or :: "store_error \<Rightarrow> response" where
  "conflict_or e = (if e = ErrVersionMismatch then writeError 409 codeConflict ''concurrent modification'' None
     else internal ''persist state'')"

text \<open>preview to applying, before any work at the provider.\<close>

definition apply_claim ::
  "'e req_env \<Rightarrow> ('e, 't, 's) apply_job \<Rightarrow> 't \<Rightarrow> (response + ('e, 't, 's) apply_job) \<times> 't" where
  "apply_claim E job st =
     (let row = (ajRow job)\<lparr>smStatus := StatusApplying, smVersion := smVersion (ajRow job) + 1\<rparr> in
      case stUpdate (ajStore job) (qeClaim E) row st of
        ((Some e, _), st') \<Rightarrow> (Inl (conflict_or e), st')
      | ((None, row'), st') \<Rightarrow> (Inr (job\<lparr>ajRow := row'\<rparr>), st'))"

text \<open>The results and the text of the first error; an error of the limiter ends the loop and replaces it.\<close>

fun apply_loop ::
  "'s provider \<Rightarrow> (nat \<Rightarrow> string option) \<Rightarrow> string \<Rightarrow> nat \<Rightarrow> string \<Rightarrow> Record list \<Rightarrow> 's \<Rightarrow> (PushResult list \<times> string) \<times> 's" where
  "apply_loop P lim domain n first [] s = (([], first), s)"
| "apply_loop P lim domain n first (rec # recs) s =
     (case lim n of
        Some e \<Rightarrow> (([], e), s)
      | None \<Rightarrow>
          (case pvSet P s domain rec of
             (Some e, s1) \<Rightarrow>
               (case apply_loop P lim domain (Suc n) (if first = [] then e else first) recs s1 of
                  ((rs, err), s2) \<Rightarrow>
                    (((push_result StatusFailed (recName rec) (recContent rec) [])\<lparr>psVerifyError := Some e\<rparr> # rs, err), s2))
           | (None, s1) \<Rightarrow>
               (case apply_loop P lim domain (Suc n) first recs s1 of
                  ((rs, err), s2) \<Rightarrow> ((push_result StatusUpdated (recName rec) (recContent rec) [] # rs, err), s2))))"

definition fail_row :: "string \<Rightarrow> StoredMigration \<Rightarrow> StoredMigration" where
  "fail_row e row = row\<lparr>smStatus := StatusFailedRow, smErrorMessage := e\<rparr>"

text \<open>The work at the provider: the row to store afterwards, and the answer if the work cannot begin.\<close>

definition apply_work ::
  "('e, 't, 's) server \<Rightarrow> 'e req_env \<Rightarrow> ('e, 't, 's) apply_job \<Rightarrow> 's \<Rightarrow> (response option \<times> StoredMigration) \<times> 's" where
  "apply_work srv E job ps =
     (let row = ajRow job in
      case ajAdapter job (smDomain row) (toProviderOpts (ajCreds job)) ps of
        (Inl e, ps1) \<Rightarrow> ((Some (internal ''ensure zone failed''), fail_row e row), ps1)
      | (Inr zi, ps1) \<Rightarrow>
          (let row1 = row\<lparr>smTargetZoneID := ziZoneID zi, smTargetNameservers := ziNameservers zi,
                 smNSChangeInstructions := FormatNSChangeInstructions (smSourceSlug row) (ziNameservers zi)\<rparr> in
           case NewProvider (svProviders srv) (smTargetSlug row) (toEntreeCredentials (ajCreds job)) of
             Inl e \<Rightarrow> ((Some (internal ''provider init failed''), fail_row e row1), ps1)
           | Inr P \<Rightarrow>
               (case apply_loop P (qeLimiter E) (smDomain row) 0 [] (smPreviewRecords row) ps1 of
                  ((results, firstErr), ps2) \<Rightarrow>
                    (let row2 = row1\<lparr>smApplyResults := results\<rparr> in
                     ((None, if firstErr \<noteq> [] then fail_row firstErr row2
                             else row2\<lparr>smStatus := StatusAwaitingNSChange\<rparr>), ps2)))))"

definition apply_data :: "StoredMigration \<Rightarrow> json" where
  "apply_data row = JObj [(''status'', enc_str (smStatus row)), (''target_nameservers'', JArr (map enc_str (smTargetNameservers row))),
     (''ns_instructions'', enc_str (smNSChangeInstructions row)), (''apply_results'', JArr (map enc_push (smApplyResults row))),
     (''applied_record_count'', JNum (int (length (smApplyResults row))))]"

definition apply_finish ::
  "'e req_env \<Rightarrow> ('e, 't) store_ops \<Rightarrow> response option \<Rightarrow> StoredMigration \<Rightarrow> 't \<Rightarrow> response \<times> 't" where
  "apply_finish E S early row st =
     (case stUpdate S (qeFinish E) (row\<lparr>smVersion := smVersion row + 1\<rparr>) st of
        ((err, row'), st') \<Rightarrow>
          (case early of
             Some res \<Rightarrow> (res, st')
           | None \<Rightarrow>
               (case err of
                  Some e \<Rightarrow> (conflict_or e, st')
                | None \<Rightarrow> (writeJSON (apply_data row'), st'))))"

definition handleMigrateApply ::
  "('e, 't, 's) server \<Rightarrow> 'e req_env \<Rightarrow> request \<Rightarrow> 't \<times> 's \<Rightarrow> response \<times> 't \<times> 's" where
  "handleMigrateApply srv E r sp =
     (case sp of (st, ps) \<Rightarrow>
        case apply_load srv E r st of
          Inl res \<Rightarrow> (res, st, ps)
        | Inr job \<Rightarrow>
            (case apply_claim E job st of
               (Inl res, st1) \<Rightarrow> (res, st1, ps)
             | (Inr job1, st1) \<Rightarrow>
                 (case apply_work srv E job1 ps of
                    ((early, row), ps1) \<Rightarrow>
                      (case apply_finish E (ajStore job1) early row st1 of (res, st2) \<Rightarrow> (res, st2, ps1)))))"

subsection \<open>Verify\<close>

definition verify_statuses :: "string list" where
  "verify_statuses = [StatusApplying, StatusAwaitingNSChange, StatusVerifying, StatusComplete]"

definition verify_load ::
  "('e, 't, 's) server \<Rightarrow> 'e req_env \<Rightarrow> request \<Rightarrow> 't \<Rightarrow> response + (('e, 't) store_ops \<times> StoredMigration \<times> VerifyTargetSummary)" where
  "verify_load srv E r st =
     bindE (loadAndAuth srv E r (extractPathID (rqPath r)) st) (\<lambda>(S, row).
     if smStatus row \<notin> set verify_statuses
       then Inl (writeError 409 codeConflict ''migration not in verifiable state'' (Some [(''status'', enc_str (smStatus row))]))
     else
       (let summary = VerifyAgainstNS (qeNet E) (smTargetNameservers row) (smPreviewRecords row);
            status = (if 0 < vtsTotal summary \<and> vtsMatched summary = vtsTotal summary then StatusComplete else StatusVerifying) in
        Inr (S, row\<lparr>smStatus := status, smVersion := smVersion row + 1\<rparr>, summary)))"

definition enc_verify_result :: "VerifyTargetResult \<Rightarrow> json" where
  "enc_verify_result v = JObj [(''Record'', enc_record (vtrRecord v)), (''Status'', enc_str (vtrStatus v)), (''Detail'', enc_str (vtrDetail v))]"

definition verify_finish ::
  "'e req_env \<Rightarrow> ('e, 't) store_ops \<Rightarrow> StoredMigration \<Rightarrow> VerifyTargetSummary \<Rightarrow> 't \<Rightarrow> response \<times> 't" where
  "verify_finish E S row summary st =
     (case stUpdate S (qeFinish E) row st of
        ((Some e, _), st') \<Rightarrow> (conflict_or e, st')
      | ((None, row'), st') \<Rightarrow>
          (writeJSON (JObj [(''status'', enc_str (smStatus row')), (''matched'', JNum (int (vtsMatched summary))),
             (''total'', JNum (int (vtsTotal summary))), (''details'', JArr (map enc_verify_result (vtsResults summary)))]), st'))"

definition handleMigrateVerify :: "('e, 't, 's) server \<Rightarrow> 'e req_env \<Rightarrow> request \<Rightarrow> 't \<Rightarrow> response \<times> 't" where
  "handleMigrateVerify srv E r st =
     (case verify_load srv E r st of
        Inl res \<Rightarrow> (res, st)
      | Inr (S, row, summary) \<Rightarrow> verify_finish E S row summary st)"

subsection \<open>Get, list, delete and the sweeper\<close>

definition handleMigrateGet :: "('e, 't, 's) server \<Rightarrow> 'e req_env \<Rightarrow> request \<Rightarrow> 't \<Rightarrow> response" where
  "handleMigrateGet srv E r st =
     (case loadAndAuth srv E r (extractPathID (rqPath r)) st of
        Inl res \<Rightarrow> res
      | Inr (S, row) \<Rightarrow> writeJSON_enc (enc_row (redactCreds row)))"

text \<open>The list has no check of a token.\<close>

definition handleMigrateList :: "('e, 't, 's) server \<Rightarrow> 'e req_env \<Rightarrow> string \<Rightarrow> string \<Rightarrow> 't \<Rightarrow> response" where
  "handleMigrateList srv E tenant status st =
     (case svStore srv of
        None \<Rightarrow> internal ''migration store not configured''
      | Some S \<Rightarrow>
          (case stList S (qeGet E) \<lparr>lfTenantID = tenant, lfStatus = status, lfLimit = 0, lfOffset = 0\<rparr> st of
             Inl e \<Rightarrow> internal ''list failed''
           | Inr rows \<Rightarrow> writeJSON_enc (bindE (mapE enc_row (map redactCreds rows)) (\<lambda>js. Inr (JArr js)))))"

definition handleMigrateDelete :: "('e, 't, 's) server \<Rightarrow> 'e req_env \<Rightarrow> request \<Rightarrow> 't \<Rightarrow> response \<times> 't" where
  "handleMigrateDelete srv E r st =
     (case loadAndAuth srv E r (extractPathID (rqPath r)) st of
        Inl res \<Rightarrow> (res, st)
      | Inr (S, row) \<Rightarrow>
          (case stDelete S (qeFinish E) (smID row) st of
             (Some e, st') \<Rightarrow> (internal ''delete failed'', st')
           | (None, st') \<Rightarrow> (writeJSON (JObj [(''deleted'', JBool True)]), st')))"

definition sweep_tick :: "('e, 't, 's) server \<Rightarrow> 'e \<Rightarrow> int \<Rightarrow> 't \<Rightarrow> 't" where
  "sweep_tick srv e now st = (case svStore srv of None \<Rightarrow> st | Some S \<Rightarrow> snd (stSweep S e now st))"

subsection \<open>Access\<close>

lemma extractPathID_no_slash: "CHR ''/'' \<notin> set (extractPathID path)"
proof -
  have "CHR ''/'' \<notin> set (take i p)" if "Index p ''/'' = Some i" for p i
    using that by (induction p arbitrary: i) (auto split: if_splits option.splits)
  moreover have "CHR ''/'' \<notin> set p" if "Index p ''/'' = None" for p
    using that Index_None_iff [of p "''/''"] by (metis Contains_single Contains_sublist)
  ultimately show ?thesis by (auto simp: extractPathID_def Let_def split: option.split)
qed

lemma loadAndAuth_ok:
  assumes "loadAndAuth srv E r i st = Inr (S, row)"
  shows "svStore srv = Some S" "stGet S (qeGet E) i st = Inr row" "\<not> row_expired (qeNow E) row"
    "extractBearer r = smAccessToken row" "smAccessToken row \<noteq> []" "i \<noteq> []"
  using assms
  by (auto simp: loadAndAuth_def checkAccessToken_def Let_def split: if_splits option.splits sum.splits store_error.splits)

end
