(* ===== verification/Store_Json.thy ===== *)
theory Store_Json
  imports Store
begin

text \<open>
  The default store (\<open>migrate/store_json.go\<close>): one JSON document per row, in a directory. The state is the
  directory, from file names to documents (a malformed file is a document that has no fields). Lock
  and temporary files hold no data: an operation is one step here, which \<open>Store_Lock\<close> derives from the lock; the
  rename makes a write atomic for readers. \<open>js_env\<close> is the outside at one call: the clock, a cancelled
  context and the errors of the file system; \<open>jeTie\<close> is the order of rows created at the same time,
  which \<open>sort.Slice\<close> leaves open.
\<close>

subsection \<open>Operations\<close>

type_synonym json_dir = "(string \<times> json) list"

record js_env =
  jeNow :: int
  jeCtx :: "string option"
  jeLock :: "string option"
  jeStat :: "string option"
  jeRead :: "string \<Rightarrow> string option"
  jeWrite :: "string option"
  jeRemove :: "string option"
  jeRemoveLock :: "string option"
  jeReadDir :: "string option"
  jeTie :: "StoredMigration \<Rightarrow> nat"

definition pathFor :: "string \<Rightarrow> string" where
  "pathFor i = i @ ''.json''"

definition readRow :: "js_env \<Rightarrow> json_dir \<Rightarrow> string \<Rightarrow> store_error + StoredMigration" where
  "readRow E d i =
     (case jeRead E i of
        Some e \<Rightarrow> Inl (StoreErr (''migrate: read row '' @ i @ '': '' @ e))
      | None \<Rightarrow>
          (case map_of d (pathFor i) of
             None \<Rightarrow> Inl ErrNotFound
           | Some j \<Rightarrow> mapErr (\<lambda>e. StoreErr (''migrate: decode row '' @ i @ '': '' @ e)) (dec_row j)))"

definition writeRow :: "js_env \<Rightarrow> json_dir \<Rightarrow> StoredMigration \<Rightarrow> store_error option \<times> json_dir" where
  "writeRow E d m =
     (case enc_row m of
        Inl e \<Rightarrow> (Some (StoreErr (''migrate: encode row: '' @ e)), d)
      | Inr j \<Rightarrow>
          (case jeWrite E of
             Some e \<Rightarrow> (Some (StoreErr e), d)
           | None \<Rightarrow> (None, AList.update (pathFor (smID m)) j d)))"

definition js_Create :: "js_env \<Rightarrow> StoredMigration \<Rightarrow> json_dir \<Rightarrow> (store_error option \<times> StoredMigration) \<times> json_dir" where
  "js_Create E m d =
     (case jeCtx E of
        Some e \<Rightarrow> ((Some (StoreErr e), m), d)
      | None \<Rightarrow>
        if smID m = [] then ((Some (StoreErr ''migrate: Create: missing ID''), m), d)
        else case jeLock E of
          Some e \<Rightarrow> ((Some (StoreErr (''migrate: lock: '' @ e)), m), d)
        | None \<Rightarrow>
          (case jeStat E of
            Some e \<Rightarrow> ((Some (StoreErr (''migrate: stat: '' @ e)), m), d)
          | None \<Rightarrow>
            if map_of d (pathFor (smID m)) \<noteq> None
              then ((Some (StoreErr (''migrate: row '' @ smID m @ '' already exists'')), m), d)
            else let m' = stamp_new (jeNow E) m in
             case writeRow E d m' of (err, d') \<Rightarrow> ((err, m'), d')))"

definition js_Get :: "js_env \<Rightarrow> string \<Rightarrow> json_dir \<Rightarrow> store_error + StoredMigration" where
  "js_Get E i d =
     (case jeCtx E of
        Some e \<Rightarrow> Inl (StoreErr e)
      | None \<Rightarrow> bindE (readRow E d i) (\<lambda>m. if row_expired (jeNow E) m then Inl ErrExpired else Inr m))"

definition js_Update :: "js_env \<Rightarrow> StoredMigration \<Rightarrow> json_dir \<Rightarrow> (store_error option \<times> StoredMigration) \<times> json_dir" where
  "js_Update E m d =
     (case jeCtx E of
        Some e \<Rightarrow> ((Some (StoreErr e), m), d)
      | None \<Rightarrow>
        if smID m = [] then ((Some (StoreErr ''migrate: Update: missing ID''), m), d)
        else case jeLock E of
          Some e \<Rightarrow> ((Some (StoreErr (''migrate: lock: '' @ e)), m), d)
        | None \<Rightarrow>
          (case readRow E d (smID m) of
             Inl err \<Rightarrow> ((Some err, m), d)
           | Inr existing \<Rightarrow>
               if smVersion existing + 1 \<noteq> smVersion m then ((Some ErrVersionMismatch, m), d)
               else
                 (let m' = m\<lparr>smCreatedAt := smCreatedAt existing, smUpdatedAt := jeNow E\<rparr> in
                  case writeRow E d m' of (err, d') \<Rightarrow> ((err, m'), d'))))"

definition js_Delete :: "js_env \<Rightarrow> string \<Rightarrow> json_dir \<Rightarrow> store_error option \<times> json_dir" where
  "js_Delete E i d =
     (case jeCtx E of
        Some e \<Rightarrow> (Some (StoreErr e), d)
      | None \<Rightarrow>
        (case jeLock E of
           Some e \<Rightarrow> (Some (StoreErr (''migrate: lock: '' @ e)), d)
         | None \<Rightarrow>
           (case jeRemove E of
              Some e \<Rightarrow> (Some (StoreErr (''migrate: remove row: '' @ e)), d)
            | None \<Rightarrow>
              (let d' = AList.delete (pathFor i) d in
               case jeRemoveLock E of
                 Some e \<Rightarrow> (Some (StoreErr (''migrate: remove lock: '' @ e)), d')
               | None \<Rightarrow> (None, d')))))"

definition row_names :: "json_dir \<Rightarrow> string list" where
  "row_names d = filter (\<lambda>name. HasSuffix name ''.json'' \<and> \<not> HasPrefix name ''.'') (sort (map fst d))"

definition list_keep :: "int \<Rightarrow> ListFilter \<Rightarrow> StoredMigration \<Rightarrow> bool" where
  "list_keep now f m \<longleftrightarrow> \<not> row_expired now m
     \<and> (lfTenantID f = [] \<or> smTenantID m = lfTenantID f) \<and> (lfStatus f = [] \<or> smStatus m = lfStatus f)"

fun collect_rows :: "js_env \<Rightarrow> json_dir \<Rightarrow> string list \<Rightarrow> store_error + StoredMigration list" where
  "collect_rows E d [] = Inr []"
| "collect_rows E d (name # names) =
     (case readRow E d (TrimSuffix name ''.json'') of
        Inl ErrNotFound \<Rightarrow> collect_rows E d names
      | Inl e \<Rightarrow> Inl e
      | Inr m \<Rightarrow> bindE (collect_rows E d names) (\<lambda>ms. Inr (m # ms)))"

definition js_List :: "js_env \<Rightarrow> ListFilter \<Rightarrow> json_dir \<Rightarrow> store_error + StoredMigration list" where
  "js_List E f d =
     (case jeCtx E of
        Some e \<Rightarrow> Inl (StoreErr e)
      | None \<Rightarrow>
        (case jeReadDir E of
           Some e \<Rightarrow> Inl (StoreErr (''migrate: readdir: '' @ e))
         | None \<Rightarrow>
             bindE (collect_rows E d (row_names d)) (\<lambda>ms.
             Inr (page (lfOffset f) (lfLimit f)
               (sort_key smCreatedAt (sort_key (jeTie E) (filter (list_keep (jeNow E) f) ms)))))))"

fun sweep_rows :: "js_env \<Rightarrow> int \<Rightarrow> string list \<Rightarrow> nat \<Rightarrow> json_dir \<Rightarrow> (store_error option \<times> nat) \<times> json_dir" where
  "sweep_rows E before [] cnt d = ((None, cnt), d)"
| "sweep_rows E before (name # names) cnt d =
     (let i = TrimSuffix name ''.json'' in
      case readRow E d i of
        Inl ErrNotFound \<Rightarrow> sweep_rows E before names cnt d
      | Inl e \<Rightarrow> ((Some e, cnt), d)
      | Inr m \<Rightarrow>
          if smExpiresAt m = zero_time \<or> \<not> smExpiresAt m < before then sweep_rows E before names cnt d
          else case js_Delete E i d of
            (Some e, d') \<Rightarrow> ((Some e, cnt), d')
          | (None, d') \<Rightarrow> sweep_rows E before names (Suc cnt) d')"

definition js_SweepExpired :: "js_env \<Rightarrow> int \<Rightarrow> json_dir \<Rightarrow> (store_error option \<times> nat) \<times> json_dir" where
  "js_SweepExpired E before d =
     (case jeCtx E of
        Some e \<Rightarrow> ((Some (StoreErr e), 0), d)
      | None \<Rightarrow>
        (case jeReadDir E of
           Some e \<Rightarrow> ((Some (StoreErr (''migrate: readdir: '' @ e)), 0), d)
         | None \<Rightarrow> sweep_rows E before (row_names d) 0 d))"

definition json_store :: "(js_env, json_dir) store_ops" where
  "json_store = \<lparr>stCreate = js_Create, stGet = js_Get, stUpdate = js_Update, stList = js_List,
     stDelete = js_Delete, stSweep = js_SweepExpired\<rparr>"

subsection \<open>The contract\<close>

definition js_rows :: "json_dir \<Rightarrow> string \<Rightarrow> StoredMigration option" where
  "js_rows d i = (case map_of d (pathFor i) of
     None \<Rightarrow> None | Some j \<Rightarrow> (case dec_row j of Inl e \<Rightarrow> None | Inr m \<Rightarrow> Some m))"

definition doc_version :: "json \<Rightarrow> 64 word" where
  "doc_version j = (case bindE (dec_fields j) (\<lambda>kvs. dec_int64 (jfield kvs ''version'')) of Inl e \<Rightarrow> 0 | Inr v \<Rightarrow> v)"

definition js_ver :: "json_dir \<Rightarrow> string \<Rightarrow> 64 word option" where
  "js_ver d i = map_option doc_version (map_of d (pathFor i))"

definition js_img :: "StoredMigration \<Rightarrow> StoredMigration option" where
  "js_img m = (case dec_row (JObj (row_fields m)) of Inl e \<Rightarrow> None | Inr m' \<Rightarrow> Some m')"

lemma pathFor_inj [simp]: "pathFor i = pathFor j \<longleftrightarrow> i = j"
  by (simp add: pathFor_def)

lemma dec_row_version: "dec_row j = Inr m \<Longrightarrow> doc_version j = smVersion m"
  by (auto simp: dec_row_def doc_version_def)

lemma doc_version_row_fields: "doc_version (JObj (row_fields m)) = smVersion m"
  by (simp add: doc_version_def row_fields_def jfield_Cons)

lemma js_img_keeps:
  assumes "js_img m = Some r"
  shows "smVersion r = smVersion m" "smID r = utf8_fix (smID m)" "smStatus r = utf8_fix (smStatus m)"
    "smAccessToken r = utf8_fix (smAccessToken m)"
  using assms by (auto simp: js_img_def dec_row_fields split: sum.splits)

lemma readRow_Inr: "readRow E d i = Inr m \<Longrightarrow> js_rows d i = Some m \<and> js_ver d i = Some (smVersion m)"
  by (auto simp: readRow_def js_rows_def js_ver_def dec_row_version split: option.splits)

lemma readRow_missing: "readRow E d i = Inl ErrNotFound \<Longrightarrow> js_ver d i = None"
  by (auto simp: readRow_def js_ver_def mapErr_Inl_iff split: option.splits)

lemma js_rows_update:
  "js_rows (AList.update (pathFor i) (JObj (row_fields m)) d) = (js_rows d)(i := js_img m)"
  "js_ver (AList.update (pathFor i) (JObj (row_fields m)) d) = (js_ver d)(i \<mapsto> smVersion m)"
  by (auto simp: js_rows_def js_ver_def js_img_def update_conv' doc_version_row_fields fun_eq_iff split: sum.splits)

lemma js_rows_delete:
  "js_rows (AList.delete (pathFor i) d) = (js_rows d)(i := None)"
  "js_ver (AList.delete (pathFor i) d) = (js_ver d)(i := None)"
  by (auto simp: js_rows_def js_ver_def delete_conv' fun_eq_iff)

lemma writeRow_ok:
  "writeRow E d m = (None, d') \<Longrightarrow> js_rows d' = (js_rows d)(smID m := js_img m) \<and> js_ver d' = (js_ver d)(smID m \<mapsto> smVersion m)"
  by (auto simp: writeRow_def enc_row_def js_rows_update split: sum.splits option.splits if_splits)

lemma writeRow_err: "writeRow E d m = (Some x, d') \<Longrightarrow> d' = d"
  by (auto simp: writeRow_def split: sum.splits option.splits)

lemma writeRow_not_mismatch: "writeRow E d m = (Some x, d') \<Longrightarrow> x \<noteq> ErrVersionMismatch"
  by (auto simp: writeRow_def split: sum.splits option.splits)

lemma js_Create_cases:
  assumes "js_Create E m d = ((y, m'), d')"
  obtains (failed) x where "y = Some x" "d' = d"
  | (stored) "smID m \<noteq> []" "map_of d (pathFor (smID m)) = None" "m' = stamp_new (jeNow E) m" "writeRow E d m' = (y, d')"
proof (cases "jeCtx E = None \<and> smID m \<noteq> [] \<and> jeLock E = None \<and> jeStat E = None \<and> map_of d (pathFor (smID m)) = None")
  case True
  obtain err e where w: "writeRow E d (stamp_new (jeNow E) m) = (err, e)" by fastforce
  with True have "js_Create E m d = ((err, stamp_new (jeNow E) m), e)" by (simp add: js_Create_def Let_def)
  with assms w True stored show thesis by simp
next
  case False
  then have "\<exists>x. js_Create E m d = ((Some x, m), d)" by (auto simp: js_Create_def split: option.split)
  with assms failed show thesis by auto
qed

lemma js_Update_cases:
  assumes "js_Update E m d = ((y, m'), d')"
  obtains (failed) x where "y = Some x" "d' = d" "x = ErrVersionMismatch \<longrightarrow> (\<exists>r. js_rows d (smID m) = Some r \<and> smVersion r + 1 \<noteq> smVersion m)"
  | (stored) r where "js_rows d (smID m) = Some r" "smVersion r + 1 = smVersion m"
      "m' = m\<lparr>smCreatedAt := smCreatedAt r, smUpdatedAt := jeNow E\<rparr>" "writeRow E d m' = (y, d')" "smID m \<noteq> []"
proof (cases "jeCtx E = None \<and> smID m \<noteq> [] \<and> jeLock E = None")
  case True
  show thesis
  proof (cases "readRow E d (smID m)")
    case (Inl e)
    have "e \<noteq> ErrVersionMismatch"
      using Inl by (auto simp: readRow_def mapErr_Inl_iff split: option.splits)
    with assms True Inl that(1) show thesis by (auto simp: js_Update_def)
  next
    case (Inr r)
    with readRow_Inr [OF Inr] assms True that show thesis
      by (auto simp: js_Update_def Let_def split: if_splits prod.splits)
  qed
next
  case False
  with assms that(1) show thesis by (auto simp: js_Update_def split: option.splits if_splits)
qed

lemma js_Delete_cases: "js_Delete E i d = (y, d') \<Longrightarrow> d' = AList.delete (pathFor i) d \<or> (d' = d \<and> y \<noteq> None)"
  by (auto simp: js_Delete_def Let_def split: option.splits)

lemma collect_rows_rows: "collect_rows E d names = Inr ms \<Longrightarrow> m \<in> set ms \<Longrightarrow> \<exists>i. js_rows d i = Some m"
proof (induction names arbitrary: ms)
  case (Cons name names)
  then show ?case
    by (auto split: sum.splits store_error.splits dest!: readRow_Inr)
qed simp

text \<open>A sweep removes only rows that had expired; every other row is as before.\<close>

definition swept :: "int \<Rightarrow> json_dir \<Rightarrow> json_dir \<Rightarrow> string \<Rightarrow> bool" where
  "swept t d d' i \<longleftrightarrow> (js_rows d' i = js_rows d i \<and> js_ver d' i = js_ver d i)
     \<or> (js_rows d' i = None \<and> js_ver d' i = None \<and> (\<forall>r. js_rows d i = Some r \<longrightarrow> smExpiresAt r < t))"

lemma swept_refl [simp]: "swept t d d i"
  by (simp add: swept_def)

lemma swept_trans: "swept t d d' i \<Longrightarrow> swept t d' d'' i \<Longrightarrow> swept t d d'' i"
  unfolding swept_def by auto

lemma swept_delete:
  assumes "js_rows d k = Some r" and "smExpiresAt r < t"
  shows "swept t d (AList.delete (pathFor k) d) i"
  using assms by (auto simp: swept_def js_rows_delete)

lemma sweep_rows_swept: "sweep_rows E t names cnt d = ((z, n), d') \<Longrightarrow> swept t d d' i"
proof (induction names arbitrary: cnt d)
  case (Cons name names)
  define k where "k = TrimSuffix name ''.json''"
  show ?case
  proof (cases "readRow E d k")
    case (Inl e)
    with Cons show ?thesis by (cases e) (auto simp: k_def [symmetric])
  next
    case (Inr r)
    note row = conjunct1 [OF readRow_Inr [OF Inr]]
    obtain y d1 where del: "js_Delete E k d = (y, d1)" by fastforce
    show ?thesis
    proof (cases "smExpiresAt r = zero_time \<or> \<not> smExpiresAt r < t")
      case True
      with Cons Inr show ?thesis by (auto simp: k_def [symmetric])
    next
      case False
      then have d1: "swept t d d1 i" using js_Delete_cases [OF del] swept_delete [OF row] by auto
      show ?thesis
      proof (cases y)
        case None
        with Cons.prems Inr False del have "sweep_rows E t names (Suc cnt) d1 = ((z, n), d')" by (simp add: k_def [symmetric])
        from swept_trans [OF d1 Cons.IH [OF this]] show ?thesis .
      next
        case (Some x)
        with Cons.prems Inr False del d1 show ?thesis by (simp add: k_def [symmetric])
      qed
    qed
  qed
qed simp

lemma js_sweep_swept: "js_SweepExpired E t d = ((z, n), d') \<Longrightarrow> swept t d d' i"
  by (auto simp: js_SweepExpired_def dest: sweep_rows_swept split: option.splits)

lemma js_List_rows:
  assumes "js_List E f d = Inr rs" and "r \<in> set rs"
  shows "\<exists>i. js_rows d i = Some r"
proof -
  from assms(1) obtain ms where ms: "collect_rows E d (row_names d) = Inr ms"
    and rs: "rs = page (lfOffset f) (lfLimit f) (sort_key smCreatedAt (sort_key (jeTie E) (filter (list_keep (jeNow E) f) ms)))"
    by (auto simp: js_List_def bindE_Inr_iff split: option.splits)
  have "r \<in> set ms" using assms(2) set_page unfolding rs by fastforce
  from collect_rows_rows [OF ms this] show ?thesis .
qed

lemma js_Create_ok:
  assumes "js_Create E m d = ((None, m'), d')"
  shows "smID m \<noteq> [] \<and> js_ver d (smID m) = None \<and> (\<exists>now. m' = stamp_new now m)
    \<and> js_rows d' = (js_rows d)(smID m := js_img m') \<and> js_ver d' = (js_ver d)(smID m \<mapsto> smVersion m')"
  using assms
proof (cases rule: js_Create_cases)
  case stored
  then have "smID m' = smID m" by (simp add: row_simps)
  with stored writeRow_ok [OF stored(4)] show ?thesis by (auto simp: js_ver_def)
qed simp

lemma js_Create_err: "js_Create E m d = ((Some x, m'), d') \<Longrightarrow> d' = d"
  by (erule js_Create_cases) (auto dest: writeRow_err)

lemma js_Update_ok:
  assumes "js_Update E m d = ((None, m'), d')"
  shows "js_ver d (smID m) = Some (smVersion m - 1) \<and> same_content m' m
    \<and> js_rows d' = (js_rows d)(smID m := js_img m') \<and> js_ver d' = (js_ver d)(smID m \<mapsto> smVersion m)"
  using assms
proof (cases rule: js_Update_cases)
  case (stored r)
  have "js_ver d (smID m) = Some (smVersion r)"
    using stored(1) by (auto simp: js_rows_def js_ver_def dec_row_version split: option.splits sum.splits)
  moreover have "smVersion r = smVersion m - 1" using stored(2) by (simp add: eq_diff_eq)
  ultimately show ?thesis using writeRow_ok [OF stored(4)] stored(3) by simp
qed simp

lemma js_Update_err: "js_Update E m d = ((Some x, m'), d') \<Longrightarrow> d' = d"
  by (erule js_Update_cases) (auto dest: writeRow_err)

lemma js_Update_mismatch:
  assumes "js_Update E m d = ((Some ErrVersionMismatch, m'), d')"
  shows "js_ver d (smID m) \<noteq> Some (smVersion m - 1)"
  using assms
proof (cases rule: js_Update_cases)
  case (failed x)
  then obtain r where r: "js_rows d (smID m) = Some r" "smVersion r + 1 \<noteq> smVersion m" by auto
  then have "js_ver d (smID m) = Some (smVersion r)"
    by (auto simp: js_rows_def js_ver_def dec_row_version split: option.splits sum.splits)
  with r(2) show ?thesis by (auto simp: eq_diff_eq)
next
  case (stored r)
  with writeRow_not_mismatch show ?thesis by blast
qed

lemma js_Get_ok: "js_Get E i d = Inr m \<Longrightarrow> js_rows d i = Some m"
  by (auto simp: js_Get_def bindE_Inr_iff dest!: readRow_Inr split: option.splits if_splits)

lemma js_Get_missing:
  assumes "js_Get E i d = Inl ErrNotFound"
  shows "js_ver d i = None"
proof (cases "readRow E d i")
  case (Inl e)
  with assms have "e = ErrNotFound" by (auto simp: js_Get_def split: option.splits)
  with Inl readRow_missing show ?thesis by blast
next
  case (Inr m)
  with assms show ?thesis by (auto simp: js_Get_def split: option.splits if_splits)
qed

lemma js_row_ver: "js_rows d i = Some r \<Longrightarrow> js_ver d i = Some (smVersion r)"
  by (auto simp: js_rows_def js_ver_def dec_row_version split: option.splits sum.splits)

interpretation json: migration_store json_store js_rows js_ver js_img
proof (unfold_locales, unfold json_store_def store_ops.simps, goal_cases)
  case (1 s i r) then show ?case by (rule js_row_ver)
next
  case (2 m r) then show ?case by (auto simp: utf8_ok_def dest: js_img_keeps)
next
  case (3 E m s m' s') then show ?case by (rule js_Create_ok)
next
  case (4 E m s x m' s') then show ?case by (auto dest: js_Create_err)
next
  case (5 E i s m) then show ?case by (rule js_Get_ok)
next
  case (6 E i s) then show ?case by (rule js_Get_missing)
next
  case (7 E m s m' s')
  from js_Update_ok [OF this] show ?case by (intro conjI exI [of _ m']) (elim conjE, assumption)+
next
  case (8 E m s x m' s')
  from js_Update_err [OF this] show ?case by simp
next
  case (9 E m s m' s') then show ?case by (rule js_Update_mismatch)
next
  case (10 E i s s') then show ?case by (auto simp: js_rows_delete dest: js_Delete_cases)
next
  case (11 E i s x s') then show ?case by (auto simp: js_rows_delete dest: js_Delete_cases)
next
  case (12 E f s rs r) then show ?case by (rule js_List_rows)
next
  case (13 t E s z n s' i) then show ?case using js_sweep_swept [of E t s z n s' i] by (simp add: swept_def)
qed

subsection \<open>Refinement\<close>

definition fault_free :: "js_env \<Rightarrow> bool" where
  "fault_free E \<longleftrightarrow> jeCtx E = None \<and> jeLock E = None \<and> jeStat E = None \<and> jeWrite E = None
     \<and> jeRemove E = None \<and> jeRemoveLock E = None \<and> jeReadDir E = None \<and> (\<forall>i. jeRead E i = None)"

definition readable :: "json_dir \<Rightarrow> bool" where
  "readable d \<longleftrightarrow> list_all (\<lambda>(name, j). case dec_row j of Inl e \<Rightarrow> False | Inr m \<Rightarrow> True) d"

definition storable :: "int \<Rightarrow> StoredMigration \<Rightarrow> bool" where
  "storable now m \<longleftrightarrow> row_wf m \<and> smID m \<noteq> [] \<and> list_all time_json_ok [now, smExpiresAt m, smCreatedAt m]"

lemma readableD:
  assumes "readable d" and "map_of d (pathFor i) = Some j"
  shows "\<exists>m. dec_row j = Inr m"
  using assms(1) map_of_SomeD [OF assms(2)] by (cases "dec_row j") (auto simp: readable_def list_all_iff)

lemma readRow_spec:
  assumes "readable d" and "jeRead E i = None"
  shows "readRow E d i = (case js_rows d i of None \<Rightarrow> Inl ErrNotFound | Some m \<Rightarrow> Inr m)"
proof (cases "map_of d (pathFor i)")
  case (Some j)
  with readableD [OF assms(1) Some] assms(2) show ?thesis by (auto simp: readRow_def js_rows_def)
qed (simp add: readRow_def js_rows_def assms(2))

lemma js_rows_None: "readable d \<Longrightarrow> js_rows d i = None \<longleftrightarrow> map_of d (pathFor i) = None"
  using readableD [of d i] by (auto simp: js_rows_def split: option.splits sum.splits)

lemma js_img_wf: "row_wf m \<Longrightarrow> js_img m = Some m"
  by (simp add: js_img_def dec_enc_row)

lemma writeRow_fault_free:
  "fault_free E \<Longrightarrow> list_all time_json_ok [smExpiresAt m, smCreatedAt m, smUpdatedAt m] \<Longrightarrow>
    writeRow E d m = (None, AList.update (pathFor (smID m)) (JObj (row_fields m)) d)"
  by (simp add: writeRow_def enc_row_def fault_free_def)

lemma row_wf_stamps:
  "row_wf m \<Longrightarrow> row_wf (stamp_new now m)"
  "row_wf m \<Longrightarrow> row_wf (m\<lparr>smCreatedAt := c, smUpdatedAt := t\<rparr>)"
  by (simp_all add: row_wf_def stamp_new_def)

definition js_valid :: "json_dir \<Rightarrow> bool" where
  "js_valid d \<longleftrightarrow> readable d \<and> (\<forall>i m. js_rows d i = Some m \<longrightarrow> time_json_ok (smCreatedAt m))"

lemma js_create_refines:
  assumes "fault_free E" and "readable d" and "storable (jeNow E) m"
  shows "(case js_Create E m d of ((err, m'), d') \<Rightarrow> (err = None, js_rows d')) = spec_create (jeNow E) m (js_rows d)"
proof (cases "js_rows d (smID m)")
  case None
  let ?m = "stamp_new (jeNow E) m"
  have "list_all time_json_ok [smExpiresAt ?m, smCreatedAt ?m, smUpdatedAt ?m]"
    using assms(3) by (auto simp: storable_def stamp_new_def)
  from writeRow_fault_free [OF assms(1) this] assms None js_rows_None [OF assms(2)] show ?thesis
    by (simp add: js_Create_def fault_free_def storable_def spec_create_def Let_def js_rows_update js_img_wf row_wf_stamps row_simps)
next
  case (Some r)
  with js_rows_None [OF assms(2), of "smID m"] assms show ?thesis
    by (auto simp: js_Create_def fault_free_def storable_def spec_create_def)
qed

lemma js_update_refines:
  assumes "fault_free E" and "js_valid d" and "storable (jeNow E) m"
  shows "(case js_Update E m d of ((err, m'), d') \<Rightarrow> (err, js_rows d')) = spec_update (jeNow E) m (js_rows d)"
proof (cases "js_rows d (smID m)")
  case None
  with assms readRow_spec [of d E "smID m"] show ?thesis
    by (simp add: js_Update_def fault_free_def storable_def spec_update_def js_valid_def)
next
  case (Some r)
  let ?m = "m\<lparr>smCreatedAt := smCreatedAt r, smUpdatedAt := jeNow E\<rparr>"
  have "list_all time_json_ok [smExpiresAt ?m, smCreatedAt ?m, smUpdatedAt ?m]"
    using assms Some by (auto simp: storable_def js_valid_def)
  from writeRow_fault_free [OF assms(1) this] assms Some readRow_spec [of d E "smID m"] show ?thesis
    by (simp add: js_Update_def fault_free_def storable_def spec_update_def js_valid_def Let_def js_rows_update js_img_wf row_wf_stamps)
qed

text \<open>Property C6. The JSON store is the map of its readable rows: when nothing outside fails, \<open>Create\<close>, \<open>Get\<close>,
  \<open>Update\<close> and \<open>Delete\<close> of well-formed rows are the operations of the abstract store, errors included.\<close>

theorem json_store_refines_map:
  assumes "fault_free E" and "js_valid d" and "storable (jeNow E) m"
  shows "(case js_Create E m d of ((err, m'), d') \<Rightarrow> (err = None, js_rows d')) = spec_create (jeNow E) m (js_rows d)
    \<and> js_Get E i d = spec_get (jeNow E) i (js_rows d)
    \<and> (case js_Update E m d of ((err, m'), d') \<Rightarrow> (err, js_rows d')) = spec_update (jeNow E) m (js_rows d)
    \<and> (case js_Delete E i d of (err, d') \<Rightarrow> (err, js_rows d')) = (None, spec_delete i (js_rows d))"
proof (intro conjI)
  have r: "readable d" using assms(2) by (simp add: js_valid_def)
  show "js_Get E i d = spec_get (jeNow E) i (js_rows d)"
    using assms(1) readRow_spec [OF r, of E i]
    by (auto simp: js_Get_def spec_get_def fault_free_def split: option.split)
  show "(case js_Delete E i d of (err, d') \<Rightarrow> (err, js_rows d')) = (None, spec_delete i (js_rows d))"
    using assms(1) by (simp add: js_Delete_def fault_free_def spec_delete_def js_rows_delete Let_def)
  show "(case js_Create E m d of ((err, m'), d') \<Rightarrow> (err = None, js_rows d')) = spec_create (jeNow E) m (js_rows d)"
    by (rule js_create_refines [OF assms(1) r assms(3)])
  show "(case js_Update E m d of ((err, m'), d') \<Rightarrow> (err, js_rows d')) = spec_update (jeNow E) m (js_rows d)"
    by (rule js_update_refines [OF assms])
qed

definition quiet :: "int \<Rightarrow> js_env" where
  "quiet now = \<lparr>jeNow = now, jeCtx = None, jeLock = None, jeStat = None, jeRead = (\<lambda>_. None), jeWrite = None,
     jeRemove = None, jeRemoveLock = None, jeReadDir = None, jeTie = (\<lambda>_. 0)\<rparr>"

lemma fault_free_quiet [simp]: "fault_free (quiet now)" and jeNow_quiet [simp]: "jeNow (quiet now) = now"
  by (simp_all add: fault_free_def quiet_def)

definition sample_dir :: json_dir where
  "sample_dir = [(pathFor ''m1'', JObj (row_fields sample_row))]"

lemma sample_row_wf: "row_wf sample_row"
  using sample_utf8 by (simp add: row_wf_def) (simp add: sample_row_def)

lemma sample_dir_valid: "js_valid sample_dir"
proof -
  have "time_json_ok (smCreatedAt sample_row)" by (simp add: sample_row_def time_json_ok_def)
  then show ?thesis
    by (auto simp: js_valid_def readable_def sample_dir_def dec_enc_row sample_row_wf js_rows_def split: if_splits)
qed

lemma sample_storable: "storable 5 (sample_row\<lparr>smVersion := v\<rparr>)"
proof -
  have "row_wf (sample_row\<lparr>smVersion := v\<rparr>)" using sample_row_wf by (simp add: row_wf_def)
  then show ?thesis by (simp add: storable_def time_json_ok_def sample_row_def)
qed

lemma json_store_refines_map_witness:
  "(case js_Update (quiet 5) (sample_row\<lparr>smVersion := 2\<rparr>) sample_dir of ((err, m'), d') \<Rightarrow> (err, js_rows d'))
    = spec_update 5 (sample_row\<lparr>smVersion := 2\<rparr>) (js_rows sample_dir)"
  using json_store_refines_map [of "quiet 5" sample_dir "sample_row\<lparr>smVersion := 2\<rparr>" "''m1''"]
    sample_dir_valid sample_storable by simp

subsection \<open>Rows that cannot be read back\<close>

lemma collect_rows_error:
  assumes "readRow E d (TrimSuffix name ''.json'') = Inl (StoreErr e)" and "name \<in> set names"
  shows "\<exists>x. collect_rows E d names = Inl x"
  using assms(2)
proof (induction names)
  case (Cons n names)
  show ?case
  proof (cases "n = name")
    case True
    with assms(1) show ?thesis by simp
  next
    case False
    with Cons obtain x where "collect_rows E d names = Inl x" by auto
    then show ?thesis by (cases "readRow E d (TrimSuffix n ''.json'')") (auto split: store_error.split)
  qed
qed simp

text \<open>Property C15. A row whose results hold a failed write is stored without an error and can then no longer be
  read: \<open>VerifyError\<close> is an interface, written as an object that no decoder accepts. \<open>Get\<close> fails for the
  row, and \<open>List\<close> fails as a whole, whatever its filter.\<close>

theorem js_failed_result_unreadable:
  assumes "fault_free E" and "js_Update E m d = ((None, m'), d')"
    and "p \<in> set (smApplyResults m)" and "psVerifyError p \<noteq> None"
    and "fault_free E'" and "\<not> HasPrefix (smID m) ''.''"
  shows "(\<exists>x. js_Get E' (smID m) d' = Inl (StoreErr x)) \<and> (\<exists>x. js_List E' f d' = Inl x)"
proof -
  obtain r :: StoredMigration where m': "m' = m\<lparr>smCreatedAt := smCreatedAt r, smUpdatedAt := jeNow E\<rparr>" and w: "writeRow E d m' = (None, d')" and
    id: "smID m \<noteq> []"
    using assms(2) by (cases rule: js_Update_cases) blast+
  from w m' have doc: "map_of d' (pathFor (smID m)) = Some (JObj (row_fields m'))"
    by (auto simp: writeRow_def enc_row_def update_conv' split: option.splits if_splits)
  obtain e where "dec_row (JObj (row_fields m')) = Inl e"
    using dec_row_error [of p m'] assms(3,4) m' by auto
  with doc assms(5) have rr: "readRow E' d' (smID m) = Inl (StoreErr (''migrate: decode row '' @ smID m @ '': '' @ e))"
    by (simp add: readRow_def fault_free_def)
  have "HasSuffix (pathFor (smID m)) ''.json''" and "\<not> HasPrefix (pathFor (smID m)) ''.''"
    using assms(6) id by (cases "smID m"; simp add: pathFor_def suffix_def)+
  moreover have "pathFor (smID m) \<in> fst ` set d'" using map_of_SomeD [OF doc] by force
  ultimately have "pathFor (smID m) \<in> set (row_names d')" by (simp add: row_names_def)
  with collect_rows_error [of E' d' "pathFor (smID m)" _ "row_names d'"] rr
  obtain x where "collect_rows E' d' (row_names d') = Inl x" by (auto simp: pathFor_def)
  with rr assms(5) show ?thesis by (auto simp: js_Get_def js_List_def fault_free_def)
qed

definition failed_row :: StoredMigration where
  "failed_row = sample_row\<lparr>smVersion := 2, smApplyResults := [(push_result StatusFailed ''www'' ''x'' [])\<lparr>psVerifyError := Some ''quota''\<rparr>]\<rparr>"

lemma js_failed_result_unreadable_witness:
  "\<exists>m' d'. js_Update (quiet 5) failed_row sample_dir = ((None, m'), d') \<and> (\<exists>x. js_Get (quiet 6) ''m1'' d' = Inl (StoreErr x))"
proof -
  let ?m = "failed_row\<lparr>smCreatedAt := smCreatedAt sample_row, smUpdatedAt := 5\<rparr>"
  have "readRow (quiet 5) sample_dir ''m1'' = Inr sample_row"
    using readRow_spec [of sample_dir "quiet 5" "''m1''"] sample_dir_valid
    by (simp add: js_valid_def quiet_def js_rows_def sample_dir_def dec_enc_row sample_row_wf)
  then have u: "js_Update (quiet 5) failed_row sample_dir
      = ((None, ?m), AList.update (pathFor ''m1'') (JObj (row_fields ?m)) sample_dir)"
    by (simp add: js_Update_def quiet_def failed_row_def sample_row_def Let_def writeRow_def enc_row_def time_json_ok_def)
  have "\<exists>x. js_Get (quiet 6) (smID failed_row) (AList.update (pathFor ''m1'') (JObj (row_fields ?m)) sample_dir) = Inl (StoreErr x)"
    using js_failed_result_unreadable [OF _ u, of "(push_result StatusFailed ''www'' ''x'' [])\<lparr>psVerifyError := Some ''quota''\<rparr>" "quiet 6"]
    by (simp add: failed_row_def sample_row_def)
  with u show ?thesis by (auto simp: failed_row_def sample_row_def)
qed

end
