(* ===== verification/Migrate_System.thy ===== *)
theory Migrate_System
  imports Api_Migrate Store_Json
begin

text \<open>
  The migration server as a transition system: requests interleave at their store operations. A state
  holds the store, the target provider and the requests in flight: apply jobs that are loaded, that have
  claimed their row and that have done their work, and verify requests before their update. Ghost fields
  record the ids issued and the claims made, in order. The locale \<open>migration_server\<close> extends the store's
  contract by a server on it; it is interpreted on the JSON store, the backend \<open>NewServer\<close> sets up
  (\<open>api/server.go\<close>).
\<close>

record ('e, 't, 's) sys =
  syStore :: 't
  syProv :: 's
  syLoaded :: "('e, 't, 's) apply_job list"
  syWorking :: "('e, 't, 's) apply_job list"
  syDone :: "(('e, 't) store_ops \<times> response option \<times> StoredMigration) list"
  syVerify :: "(('e, 't) store_ops \<times> StoredMigration \<times> VerifyTargetSummary) list"
  syIDs :: "string set"
  syClaims :: "string list"

definition sys_init :: "'t \<Rightarrow> 's \<Rightarrow> ('e, 't, 's) sys" where
  "sys_init st ps = \<lparr>syStore = st, syProv = ps, syLoaded = [], syWorking = [], syDone = [], syVerify = [],
     syIDs = {}, syClaims = []\<rparr>"

text \<open>New ids are fresh and ASCII, as a UUID is. A request that fails before it changes anything is no step.\<close>

inductive sys_step :: "('e, 't, 's) server \<Rightarrow> ('e, 't, 's) sys \<Rightarrow> ('e, 't, 's) sys \<Rightarrow> bool"
  for srv :: "('e, 't, 's) server" where
  preview: "sys_step srv s (s\<lparr>syStore := st', syIDs := insert (qeNewID E) (syIDs s)\<rparr>)"
    if "preview_prepare srv E b = Inr p" and "qeNewID E \<notin> syIDs s" and "utf8_ok (qeNewID E)"
      and "handleMigratePreview srv E b (syStore s) = (res, st')"
| load: "sys_step srv s (s\<lparr>syLoaded := job # syLoaded s\<rparr>)"
    if "apply_load srv E r (syStore s) = Inr job"
| claim: "sys_step srv s (s\<lparr>syStore := st', syLoaded := js @ ks, syWorking := job' # syWorking s,
      syClaims := smID (ajRow job) # syClaims s\<rparr>)"
    if "syLoaded s = js @ job # ks" and "apply_claim E job (syStore s) = (Inr job', st')"
| refuse: "sys_step srv s (s\<lparr>syStore := st', syLoaded := js @ ks\<rparr>)"
    if "syLoaded s = js @ job # ks" and "apply_claim E job (syStore s) = (Inl res, st')"
| provide: "sys_step srv s (s\<lparr>syProv := ps', syWorking := js @ ks, syDone := (ajStore job, early, row) # syDone s\<rparr>)"
    if "syWorking s = js @ job # ks" and "apply_work srv E job (syProv s) = ((early, row), ps')"
| finish: "sys_step srv s (s\<lparr>syStore := st', syDone := js @ ks\<rparr>)"
    if "syDone s = js @ (S, early, row) # ks" and "apply_finish E S early row (syStore s) = (res, st')"
| look: "sys_step srv s (s\<lparr>syVerify := v # syVerify s\<rparr>)"
    if "verify_load srv E r (syStore s) = Inr v"
| confirm: "sys_step srv s (s\<lparr>syStore := st', syVerify := js @ ks\<rparr>)"
    if "syVerify s = js @ (S, row, summary) # ks" and "verify_finish E S row summary (syStore s) = (res, st')"
| delete: "sys_step srv s (s\<lparr>syStore := st'\<rparr>)"
    if "handleMigrateDelete srv E r (syStore s) = (res, st')"
| sweep: "sys_step srv s (s\<lparr>syStore := sweep_tick srv e now (syStore s)\<rparr>)"
    if "int64_min \<le> now" and "now \<le> int64_max"

inductive reach :: "('e, 't, 's) server \<Rightarrow> 't \<Rightarrow> 's \<Rightarrow> nat \<Rightarrow> ('e, 't, 's) sys \<Rightarrow> bool"
  for srv :: "('e, 't, 's) server" and st0 :: 't and ps0 :: 's where
  start: "reach srv st0 ps0 0 (sys_init st0 ps0)"
| step: "reach srv st0 ps0 n s \<Longrightarrow> sys_step srv s s' \<Longrightarrow> reach srv st0 ps0 (Suc n) s'"

inductive_cases sys_stepE: "sys_step srv s s'"

subsection \<open>The server on a store\<close>

lemma unat_next: "unat (w :: 64 word) + 1 < 2 ^ 64 \<Longrightarrow> unat (w + 1) = Suc (unat w)"
  by (simp add: unat_word_ariths)

locale migration_server = migration_store S rows ver img
  for S :: "('e, 't) store_ops" and rows ver img +
  fixes srv :: "('e, 't, 's) server"
  assumes store: "svStore srv = Some S"
begin

text \<open>The invariant of the store: rows lie under their ids, versions count the updates, a row in the
  preview state has never been updated, and a claimed row has been.\<close>

definition ver_ok :: "nat \<Rightarrow> string set \<Rightarrow> string set \<Rightarrow> string \<Rightarrow> 64 word \<Rightarrow> bool" where
  "ver_ok n ids claims i v \<longleftrightarrow> i \<in> ids \<and> 1 \<le> unat v \<and> unat v \<le> Suc n \<and> (i \<in> claims \<longrightarrow> 2 \<le> unat v)"

definition preview_ok :: "StoredMigration \<Rightarrow> bool" where
  "preview_ok r \<longleftrightarrow> (smStatus r = StatusPreview \<longrightarrow> smVersion r = 1)"

definition store_inv :: "nat \<Rightarrow> string set \<Rightarrow> string set \<Rightarrow> 't \<Rightarrow> bool" where
  "store_inv n ids claims st \<longleftrightarrow> keyed st
     \<and> (\<forall>i v. ver st i = Some v \<longrightarrow> ver_ok n ids claims i v) \<and> (\<forall>i r. rows st i = Some r \<longrightarrow> preview_ok r)
     \<and> (\<forall>i \<in> ids. utf8_ok i) \<and> claims \<subseteq> ids"

lemma ver_ok_Suc: "ver_ok n ids claims i v \<Longrightarrow> ver_ok (Suc n) ids claims i v"
  by (simp add: ver_ok_def)

lemma store_inv_mono: "store_inv n ids claims st \<Longrightarrow> store_inv (Suc n) ids claims st"
  unfolding store_inv_def by (blast intro: ver_ok_Suc)

text \<open>Any operation that only removes rows keeps it.\<close>

lemma store_inv_remove:
  assumes "store_inv n ids claims st" and "keyed st'"
    and "\<And>i. (rows st' i = rows st i \<and> ver st' i = ver st i) \<or> (rows st' i = None \<and> ver st' i = None)"
  shows "store_inv n ids claims st'"
proof -
  have "rows st' i = Some r \<Longrightarrow> rows st i = Some r" and "ver st' i = Some v \<Longrightarrow> ver st i = Some v" for i r v
    using assms(3) [of i] by auto
  with assms(1,2) show ?thesis unfolding store_inv_def by metis
qed

definition settled :: "StoredMigration \<Rightarrow> bool" where
  "settled m \<longleftrightarrow> utf8_ok (smStatus m) \<and> smStatus m \<noteq> StatusPreview"

lemma settled_img: "img w = Some r \<Longrightarrow> same_content w m \<Longrightarrow> settled m \<Longrightarrow> preview_ok r"
  using img_keeps [of w r] same_contentD(2) [of w m] unfolding settled_def preview_ok_def by metis

lemma store_inv_put:
  assumes inv: "store_inv n ids claims st" and k: "keyed st'"
    and r: "rows st' = (rows st)(i := x)" and v: "ver st' = (ver st)(i \<mapsto> v)"
    and ok: "\<And>r. x = Some r \<Longrightarrow> preview_ok r" "ver_ok n ids claims i v"
  shows "store_inv n ids claims st'"
  unfolding store_inv_def
proof (intro conjI allI impI)
  fix j u assume "ver st' j = Some u"
  with v ok(2) inv show "ver_ok n ids claims j u" unfolding store_inv_def by (cases "j = i") auto
next
  fix j q assume "rows st' j = Some q"
  with r ok(1) inv show "preview_ok q" unfolding store_inv_def by (cases "j = i") auto
qed (use inv k in \<open>simp_all add: store_inv_def\<close>)

lemma update_version:
  assumes inv: "store_inv n ids claims st" and old: "ver st i = Some (v - 1)" and bound: "n < 2 ^ 63"
  shows "ver_ok (Suc n) ids (insert i claims) i v"
proof -
  from inv old have o: "ver_ok n ids claims i (v - 1)" unfolding store_inv_def by blast
  then have "unat (v - 1) + 1 < 2 ^ 64" using bound by (simp add: ver_ok_def)
  from unat_next [OF this] o show ?thesis by (simp add: ver_ok_def)
qed

lemma ver_ok_fewer: "ver_ok n ids (insert j claims) i v \<Longrightarrow> ver_ok n ids claims i v"
  by (simp add: ver_ok_def)

lemma store_inv_update:
  assumes inv: "store_inv n ids claims st" and up: "stUpdate S e m st = ((y, m'), st')"
    and "settled m" and "utf8_ok (smID m)" and bound: "n < 2 ^ 63"
  shows "store_inv (Suc n) ids claims st'"
  using up
proof (cases rule: update_cases)
  case same
  with inv have "store_inv n ids claims st'" by (simp add: store_inv_def keyed_def)
  then show ?thesis by (rule store_inv_mono)
next
  case (updated w)
  have "keyed st'" using inv up assms(4) unfolding store_inv_def by (blast intro: keyed_update)
  from store_inv_put [OF store_inv_mono [OF inv] this updated(4,5)] settled_img [OF _ updated(3) assms(3)]
    ver_ok_fewer [OF update_version [OF inv updated(1) bound]]
  show ?thesis by blast
qed

lemma store_inv_claim:
  assumes inv: "store_inv n ids claims st" and up: "stUpdate S e m st = ((None, m'), st')"
    and "settled m" and "utf8_ok (smID m)" and bound: "n < 2 ^ 63"
  shows "store_inv (Suc n) ids (insert (smID m) claims) st'"
proof -
  note u = update_ok [OF up]
  from u have old: "ver st (smID m) = Some (smVersion m - 1)" and v: "ver st' = (ver st)(smID m \<mapsto> smVersion m)" by blast+
  from store_inv_update [OF assms] have i: "store_inv (Suc n) ids claims st'" .
  from inv old have "smID m \<in> ids" unfolding store_inv_def ver_ok_def by blast
  moreover have "ver_ok (Suc n) ids (insert (smID m) claims) j w" if "ver st' j = Some w" for j w
  proof (cases "j = smID m")
    case True
    with that v have "w = smVersion m" by simp
    with update_version [OF inv old bound] True show ?thesis by simp
  next
    case False
    from i that have "ver_ok (Suc n) ids claims j w" unfolding store_inv_def by blast
    with False show ?thesis by (simp add: ver_ok_def)
  qed
  ultimately show ?thesis using i unfolding store_inv_def by blast
qed

subsection \<open>The invariant of the system\<close>

definition loaded_ok :: "string set \<Rightarrow> ('e, 't, 's) apply_job \<Rightarrow> bool" where
  "loaded_ok ids job \<longleftrightarrow> ajStore job = S \<and> smVersion (ajRow job) = 1 \<and> smID (ajRow job) \<in> ids"

definition working_ok :: "string set \<Rightarrow> ('e, 't, 's) apply_job \<Rightarrow> bool" where
  "working_ok ids job \<longleftrightarrow> ajStore job = S \<and> smID (ajRow job) \<in> ids"

definition pending_ok :: "string set \<Rightarrow> ('e, 't) store_ops \<Rightarrow> StoredMigration \<Rightarrow> bool" where
  "pending_ok ids S' row \<longleftrightarrow> S' = S \<and> settled row \<and> smID row \<in> ids"

definition sys_inv :: "nat \<Rightarrow> ('e, 't, 's) sys \<Rightarrow> bool" where
  "sys_inv n s \<longleftrightarrow> store_inv n (syIDs s) (set (syClaims s)) (syStore s) \<and> distinct (syClaims s)
     \<and> (\<forall>job \<in> set (syLoaded s). loaded_ok (syIDs s) job) \<and> (\<forall>job \<in> set (syWorking s). working_ok (syIDs s) job)
     \<and> (\<forall>(S', early, row) \<in> set (syDone s). pending_ok (syIDs s) S' row)
     \<and> (\<forall>(S', row, summary) \<in> set (syVerify s). pending_ok (syIDs s) S' row)"

lemma sys_invD:
  assumes "sys_inv n s"
  shows "store_inv n (syIDs s) (set (syClaims s)) (syStore s)" "distinct (syClaims s)"
    "job \<in> set (syLoaded s) \<Longrightarrow> loaded_ok (syIDs s) job" "job \<in> set (syWorking s) \<Longrightarrow> working_ok (syIDs s) job"
    "(S', early, row) \<in> set (syDone s) \<Longrightarrow> pending_ok (syIDs s) S' row"
    "(S', row, summary) \<in> set (syVerify s) \<Longrightarrow> pending_ok (syIDs s) S' row"
  using assms unfolding sys_inv_def by blast+

lemma inv_utf8: "store_inv n ids claims st \<Longrightarrow> i \<in> ids \<Longrightarrow> utf8_ok i"
  unfolding store_inv_def by blast

lemma auth_row:
  assumes "store_inv n ids claims st" and "loadAndAuth srv E r i st = Inr (S', row)"
  shows "S' = S" "rows st i = Some row" "smID row = i" "i \<in> ids" "preview_ok row"
proof -
  note a = loadAndAuth_ok [OF assms(2)]
  show "S' = S" using a(1) store by simp
  with a(2) show r: "rows st i = Some row" by (blast intro: get_ok)
  with assms(1) show "smID row = i" "preview_ok row" unfolding store_inv_def keyed_def by blast+
  from row_ver [OF r] assms(1) show "i \<in> ids" unfolding store_inv_def ver_ok_def by blast
qed

lemma apply_load_ok:
  assumes "store_inv n ids claims st" and "apply_load srv E r st = Inr job"
  shows "loaded_ok ids job"
proof -
  from assms(2) obtain S' row where l: "loadAndAuth srv E r (extractPathID (rqPath r)) st = Inr (S', row)"
    and p: "smStatus row = StatusPreview" and j: "ajStore job = S'" "ajRow job = row"
    by (auto simp: apply_load_def bindE_Inr_iff split: if_splits)
  from auth_row [OF assms(1) l] p j show ?thesis by (simp add: loaded_ok_def preview_ok_def)
qed

lemma verify_load_ok:
  assumes "store_inv n ids claims st" and "verify_load srv E r st = Inr (S', row, summary)"
  shows "pending_ok ids S' row"
proof -
  from assms(2) obtain S1 row1 st1 where l: "loadAndAuth srv E r (extractPathID (rqPath r)) st = Inr (S1, row1)"
    and row: "S' = S1" "row = row1\<lparr>smStatus := st1, smVersion := smVersion row1 + 1\<rparr>" "st1 = StatusComplete \<or> st1 = StatusVerifying"
    by (auto simp: verify_load_def Let_def split: if_splits)
  have "utf8_ok StatusComplete" "utf8_ok StatusVerifying" by (simp_all add: utf8_ascii byte_def)
  with row(3) have "settled row" unfolding row(2) settled_def by auto
  with auth_row [OF assms(1) l] row show ?thesis by (simp add: pending_ok_def)
qed

lemma settled_work:
  assumes "apply_work srv E job ps = ((early, row), ps')"
  shows "settled row" "smID row = smID (ajRow job)"
proof -
  have "smStatus row = StatusFailedRow \<or> smStatus row = StatusAwaitingNSChange"
    using assms by (auto simp: apply_work_def Let_def fail_row_def split: prod.splits sum.splits if_splits)
  moreover have "utf8_ok StatusFailedRow" "utf8_ok StatusAwaitingNSChange" by (simp_all add: utf8_ascii byte_def)
  ultimately show "settled row" unfolding settled_def by auto
  show "smID row = smID (ajRow job)"
    using assms by (auto simp: apply_work_def Let_def fail_row_def split: prod.splits sum.splits if_splits)
qed

lemma store_inv_ids: "store_inv n ids claims st \<Longrightarrow> utf8_ok i \<Longrightarrow> store_inv n (insert i ids) claims st"
  unfolding store_inv_def ver_ok_def by blast

lemma preview_inv:
  assumes inv: "store_inv n ids claims st" and p: "preview_prepare srv E b = Inr (S', row, src, zone)"
    and fresh: "qeNewID E \<notin> ids" "utf8_ok (qeNewID E)" and h: "handleMigratePreview srv E b st = (res, st')"
  shows "store_inv n (insert (qeNewID E) ids) claims st'"
proof -
  from p have S': "S' = S" and row: "smID row = qeNewID E" "smVersion row = 1" "smStatus row = StatusPreview"
    using store by (auto simp: preview_prepare_def preview_row_def Let_def bindE_Inr_iff split: if_splits option.splits sum.splits)
  obtain y m' where c: "stCreate S (qeClaim E) row st = ((y, m'), st')"
    using h p S' by (auto simp: handleMigratePreview_def split: prod.splits option.splits)
  note i = store_inv_ids [OF inv fresh(2)]
  have k: "keyed st'" using inv c row(1) fresh(2) unfolding store_inv_def by (metis keyed_create)
  show ?thesis
  proof (cases y)
    case None
    from create_ok [OF c [unfolded None]] obtain now where m': "m' = stamp_new now row"
      and r: "rows st' = (rows st)(qeNewID E := img m')" and v: "ver st' = (ver st)(qeNewID E \<mapsto> smVersion m')"
      using row(1) by auto
    have one: "smVersion m' = 1" using m' row(2) by (simp add: row_simps)
    have "preview_ok q" if "img m' = Some q" for q
      using img_keeps [OF that] one by (simp add: preview_ok_def)
    moreover have "ver_ok n (insert (qeNewID E) ids) claims (qeNewID E) (smVersion m')"
      using inv fresh(1) one unfolding store_inv_def ver_ok_def by auto
    ultimately show ?thesis using store_inv_put [OF i k r v] by blast
  next
    case (Some x)
    from create_err [OF c [unfolded Some]] i k show ?thesis by (simp add: store_inv_def)
  qed
qed

lemma claim_inv:
  assumes inv: "store_inv n ids claims st" and job: "loaded_ok ids job" and bound: "n < 2 ^ 63"
    and c: "apply_claim E job st = (Inr job', st')"
  shows "store_inv (Suc n) ids (insert (smID (ajRow job)) claims) st'" "smID (ajRow job) \<notin> claims" "working_ok ids job'"
proof -
  let ?m = "(ajRow job)\<lparr>smStatus := StatusApplying, smVersion := smVersion (ajRow job) + 1\<rparr>"
  from c job obtain row' where u: "stUpdate S (qeClaim E) ?m st = ((None, row'), st')" and j: "job' = job\<lparr>ajRow := row'\<rparr>"
    by (auto simp: apply_claim_def loaded_ok_def Let_def split: prod.splits option.splits)
  have "utf8_ok StatusApplying" by (simp add: utf8_ascii byte_def)
  then have s: "settled ?m" by (simp add: settled_def)
  from inv job have id: "utf8_ok (smID ?m)" by (simp add: loaded_ok_def store_inv_def)
  from store_inv_claim [OF inv u s id bound] show "store_inv (Suc n) ids (insert (smID (ajRow job)) claims) st'" by simp
  from update_ok [OF u] have "ver st (smID (ajRow job)) = Some (smVersion (ajRow job))" by simp
  with job have "ver st (smID (ajRow job)) = Some 1" by (simp add: loaded_ok_def)
  with inv have "ver_ok n ids claims (smID (ajRow job)) 1" unfolding store_inv_def by blast
  then show "smID (ajRow job) \<notin> claims" by (auto simp: ver_ok_def)
  from update_ok [OF u] have "same_content row' ?m" by blast
  then have "smID row' = smID (ajRow job)" using same_contentD(1) by fastforce
  with job j show "working_ok ids job'" by (simp add: working_ok_def loaded_ok_def)
qed

lemma refuse_inv:
  assumes inv: "store_inv n ids claims st" and job: "loaded_ok ids job" and bound: "n < 2 ^ 63"
    and c: "apply_claim E job st = (Inl res, st')"
  shows "store_inv (Suc n) ids claims st'"
proof -
  let ?m = "(ajRow job)\<lparr>smStatus := StatusApplying, smVersion := smVersion (ajRow job) + 1\<rparr>"
  from c job obtain y row' where u: "stUpdate S (qeClaim E) ?m st = ((y, row'), st')"
    by (auto simp: apply_claim_def loaded_ok_def Let_def split: prod.splits option.splits)
  have "utf8_ok StatusApplying" by (simp add: utf8_ascii byte_def)
  then have "settled ?m" by (simp add: settled_def)
  moreover have "utf8_ok (smID ?m)" using inv job by (simp add: loaded_ok_def store_inv_def)
  ultimately show ?thesis by (rule store_inv_update [OF inv u _ _ bound])
qed

lemma finish_inv:
  assumes inv: "store_inv n ids claims st" and job: "pending_ok ids S' row" and bound: "n < 2 ^ 63"
    and c: "apply_finish E S' early row st = (res, st')"
  shows "store_inv (Suc n) ids claims st'"
proof -
  from c job obtain y row' where u: "stUpdate S (qeFinish E) (row\<lparr>smVersion := smVersion row + 1\<rparr>) st = ((y, row'), st')"
    by (auto simp: apply_finish_def pending_ok_def split: prod.splits option.splits)
  from job inv show ?thesis
    by (intro store_inv_update [OF inv u _ _ bound]) (auto simp: pending_ok_def settled_def store_inv_def)
qed

lemma confirm_inv:
  assumes inv: "store_inv n ids claims st" and job: "pending_ok ids S' row" and bound: "n < 2 ^ 63"
    and c: "verify_finish E S' row summary st = (res, st')"
  shows "store_inv (Suc n) ids claims st'"
proof -
  from c job obtain y row' where u: "stUpdate S (qeFinish E) row st = ((y, row'), st')"
    by (auto simp: verify_finish_def pending_ok_def split: prod.splits option.splits)
  from job inv show ?thesis
    by (intro store_inv_update [OF inv u _ _ bound]) (auto simp: pending_ok_def settled_def store_inv_def)
qed

lemma delete_inv:
  assumes inv: "store_inv n ids claims st" and h: "handleMigrateDelete srv E r st = (res, st')"
  shows "store_inv n ids claims st'"
proof (cases "loadAndAuth srv E r (extractPathID (rqPath r)) st")
  case (Inl e)
  with h inv show ?thesis by (simp add: handleMigrateDelete_def)
next
  case (Inr p)
  then obtain row where l: "loadAndAuth srv E r (extractPathID (rqPath r)) st = Inr (S, row)"
    using auth_row(1) [OF inv] by (cases p) auto
  then obtain y where d: "stDelete S (qeFinish E) (smID row) st = (y, st')"
    using h by (auto simp: handleMigrateDelete_def split: prod.splits option.splits)
  have "keyed st'" using inv d unfolding store_inv_def by (blast intro: keyed_delete)
  moreover have "(rows st' = rows st \<and> ver st' = ver st)
      \<or> (rows st' = (rows st)(smID row := None) \<and> ver st' = (ver st)(smID row := None))"
    using d by (cases y) (auto dest: delete_ok delete_err)
  then have "(rows st' i = rows st i \<and> ver st' i = ver st i) \<or> (rows st' i = None \<and> ver st' i = None)" for i
    by (cases "i = smID row") auto
  ultimately show ?thesis by (rule store_inv_remove [OF inv])
qed

lemma sweep_inv:
  assumes inv: "store_inv n ids claims st" and now: "int64_min \<le> now" "now \<le> int64_max"
  shows "store_inv n ids claims (sweep_tick srv e now st)"
proof -
  obtain z c st' where sw: "stSweep S e now st = ((z, c), st')" by (metis prod.collapse)
  have "keyed st'" using inv now sw unfolding store_inv_def by (blast intro: keyed_sweep)
  moreover have "(rows st' i = rows st i \<and> ver st' i = ver st i) \<or> (rows st' i = None \<and> ver st' i = None)" for i
    using sweep_ver [OF now sw, of i] by blast
  ultimately have "store_inv n ids claims st'" by (rule store_inv_remove [OF inv])
  with sw store show ?thesis by (simp add: sweep_tick_def)
qed

lemma job_ok_ids:
  "loaded_ok ids job \<Longrightarrow> loaded_ok (insert i ids) job" "working_ok ids job \<Longrightarrow> working_ok (insert i ids) job"
  "pending_ok ids S' row \<Longrightarrow> pending_ok (insert i ids) S' row"
  by (simp_all add: loaded_ok_def working_ok_def pending_ok_def)

lemma sys_invI:
  assumes "store_inv n (syIDs s) (set (syClaims s)) (syStore s)" "distinct (syClaims s)"
    and "\<And>job. job \<in> set (syLoaded s) \<Longrightarrow> loaded_ok (syIDs s) job" "\<And>job. job \<in> set (syWorking s) \<Longrightarrow> working_ok (syIDs s) job"
    and "\<And>S' early row. (S', early, row) \<in> set (syDone s) \<Longrightarrow> pending_ok (syIDs s) S' row"
    and "\<And>S' row summary. (S', row, summary) \<in> set (syVerify s) \<Longrightarrow> pending_ok (syIDs s) S' row"
  shows "sys_inv n s"
  using assms unfolding sys_inv_def by blast

lemma sys_step_inv:
  assumes "sys_step srv s s'" and I: "sys_inv n s" and bound: "n < 2 ^ 63"
  shows "sys_inv (Suc n) s'"
  using assms(1)
proof cases
  case (preview E b p res st')
  obtain S' row src zone where p: "p = (S', row, src, zone)" by (cases p) auto
  have "store_inv (Suc n) (insert (qeNewID E) (syIDs s)) (set (syClaims s)) st'"
    using preview_inv [OF sys_invD(1) [OF I] preview(2) [unfolded p] preview(3-5)] by (rule store_inv_mono)
  then show ?thesis unfolding preview(1) by (intro sys_invI) (auto intro: job_ok_ids dest: sys_invD(3-6) [OF I] simp: sys_invD(2) [OF I])
next
  case (load E r job)
  then have "loaded_ok (syIDs s) job" using apply_load_ok [OF sys_invD(1) [OF I]] by blast
  then show ?thesis unfolding load(1)
    by (intro sys_invI) (auto dest: sys_invD(3-6) [OF I] simp: sys_invD(2) [OF I] store_inv_mono [OF sys_invD(1) [OF I]])
next
  case (claim js job ks E job' st')
  have "loaded_ok (syIDs s) job" using claim(2) sys_invD(3) [OF I] by simp
  note c = claim_inv [OF sys_invD(1) [OF I] this bound claim(3)]
  show ?thesis unfolding claim(1)
    by (intro sys_invI) (use c claim(2) in \<open>auto intro: sys_invD(3-6) [OF I] simp: sys_invD(2) [OF I]\<close>)
next
  case (refuse js job ks E res st')
  have "loaded_ok (syIDs s) job" using refuse(2) sys_invD(3) [OF I] by simp
  note c = refuse_inv [OF sys_invD(1) [OF I] this bound refuse(3)]
  show ?thesis unfolding refuse(1)
    by (intro sys_invI) (use c refuse(2) in \<open>auto intro: sys_invD(3-6) [OF I] simp: sys_invD(2) [OF I]\<close>)
next
  case (provide js job ks E early row ps')
  have "working_ok (syIDs s) job" using provide(2) sys_invD(4) [OF I] by simp
  then have d: "pending_ok (syIDs s) (ajStore job) row" using settled_work [OF provide(3)]
    by (simp add: working_ok_def pending_ok_def)
  show ?thesis unfolding provide(1)
    by (intro sys_invI) (use d provide(2) in \<open>auto intro: sys_invD(3-6) [OF I] simp: sys_invD(2) [OF I] store_inv_mono [OF sys_invD(1) [OF I]]\<close>)
next
  case (finish js S' early row ks E res st')
  have "pending_ok (syIDs s) S' row" using finish(2) sys_invD(5) [OF I, of S' early row] by simp
  note c = finish_inv [OF sys_invD(1) [OF I] this bound finish(3)]
  show ?thesis unfolding finish(1)
    by (intro sys_invI) (use c finish(2) in \<open>auto intro: sys_invD(3-6) [OF I] simp: sys_invD(2) [OF I]\<close>)
next
  case (look E r v)
  obtain S' row summary where v: "v = (S', row, summary)" by (cases v) auto
  have "pending_ok (syIDs s) S' row" using verify_load_ok [OF sys_invD(1) [OF I] look(2) [unfolded v]] .
  then show ?thesis unfolding look(1) v
    by (intro sys_invI) (auto dest: sys_invD(3-6) [OF I] simp: sys_invD(2) [OF I] store_inv_mono [OF sys_invD(1) [OF I]])
next
  case (confirm js S' row summary ks E res st')
  have "pending_ok (syIDs s) S' row" using confirm(2) sys_invD(6) [OF I, of S' row summary] by simp
  note c = confirm_inv [OF sys_invD(1) [OF I] this bound confirm(3)]
  show ?thesis unfolding confirm(1)
    by (intro sys_invI) (use c confirm(2) in \<open>auto intro: sys_invD(3-6) [OF I] simp: sys_invD(2) [OF I]\<close>)
next
  case (delete E r res st')
  show ?thesis unfolding delete(1)
    by (intro sys_invI) (auto dest: sys_invD(3-6) [OF I] simp: sys_invD(2) [OF I] store_inv_mono [OF delete_inv [OF sys_invD(1) [OF I] delete(2)]])
next
  case (sweep now e)
  show ?thesis unfolding sweep(1)
    by (intro sys_invI) (auto dest: sys_invD(3-6) [OF I] simp: sys_invD(2) [OF I] store_inv_mono [OF sweep_inv [OF sys_invD(1) [OF I] sweep(2,3)]])
qed

lemma reach_inv:
  assumes "reach srv st0 ps0 n s" and "\<And>i. rows st0 i = None" and "\<And>i. ver st0 i = None" and "n \<le> 2 ^ 63"
  shows "sys_inv n s"
  using assms
proof induction
  case start
  then show ?case by (intro sys_invI) (simp_all add: sys_init_def store_inv_def keyed_def)
next
  case (step n s s')
  then have "sys_inv n s" by simp
  from sys_step_inv [OF step.hyps(2) this] step.prems(3) show ?case by simp
qed

lemma sys_inv_rows:
  assumes "sys_inv n s"
  shows "distinct (syClaims s)" "rows (syStore s) i = Some q \<Longrightarrow> smID q = i"
    "rows (syStore s) i = Some q \<Longrightarrow> smStatus q = StatusPreview \<Longrightarrow> smVersion q = 1"
    "rows (syStore s) i = Some q \<Longrightarrow> smStatus q = StatusPreview \<Longrightarrow> i \<notin> set (syClaims s)"
proof -
  note inv = sys_invD(1) [OF assms]
  show "distinct (syClaims s)" by (rule sys_invD(2) [OF assms])
  assume q: "rows (syStore s) i = Some q"
  from inv q show "smID q = i" unfolding store_inv_def keyed_def by blast
  assume p: "smStatus q = StatusPreview"
  from inv q have "preview_ok q" unfolding store_inv_def by blast
  with p show v: "smVersion q = 1" by (simp add: preview_ok_def)
  from inv row_ver [OF q] have "ver_ok n (syIDs s) (set (syClaims s)) i (smVersion q)" unfolding store_inv_def by blast
  with v show "i \<notin> set (syClaims s)" by (auto simp: ver_ok_def)
qed

text \<open>A token that is not the row's changes nothing.\<close>

lemma wrong_token:
  assumes "rows st (extractPathID (rqPath r)) = Some row" and "extractBearer r \<noteq> smAccessToken row"
  shows "\<exists>res. loadAndAuth srv E r (extractPathID (rqPath r)) st = Inl res"
proof (cases "loadAndAuth srv E r (extractPathID (rqPath r)) st")
  case (Inr p)
  obtain S' row' where p: "p = (S', row')" by (cases p) auto
  note a = loadAndAuth_ok [OF Inr [unfolded p]]
  then have "S' = S" using store by simp
  with a(2) have "row' = row" using get_ok assms(1) by fastforce
  with a(4) assms(2) show ?thesis by simp
qed simp

text \<open>A verification that is stored while an apply is at work takes the version the apply would write.\<close>

lemma overtaken:
  assumes "apply_claim E job st = (Inr job1, st1)" and "ajStore job = S"
    and "apply_work srv E job1 ps = ((early, row), ps1)"
    and "verify_load srv E' r st1 = Inr (S', vrow, summary)" and "extractPathID (rqPath r) = smID (ajRow job)"
    and "stUpdate S (qeFinish E') vrow st1 = ((None, v'), st2)" and "keyed st1"
  shows "\<exists>e m' st3. stUpdate S (qeFinish E) (row\<lparr>smVersion := smVersion row + 1\<rparr>) st2 = ((Some e, m'), st3)"
proof -
  let ?m = "(ajRow job)\<lparr>smStatus := StatusApplying, smVersion := smVersion (ajRow job) + 1\<rparr>"
  obtain row1 where u: "stUpdate S (qeClaim E) ?m st = ((None, row1), st1)" and j: "job1 = job\<lparr>ajRow := row1\<rparr>"
    using assms(1,2) by (auto simp: apply_claim_def Let_def split: prod.splits option.splits)
  have v1: "ver st1 (smID (ajRow job)) = Some (smVersion (ajRow job) + 1)" and sc: "same_content row1 ?m"
    using update_ok [OF u] by auto
  have r1: "smVersion row1 = smVersion (ajRow job) + 1" "smID row1 = smID (ajRow job)"
    using same_contentD(1,3) [OF sc] by simp_all
  have row: "smVersion row = smVersion row1 \<and> smID row = smID row1"
    using assms(3) j by (auto simp: apply_work_def Let_def fail_row_def split: prod.splits sum.splits if_splits)
  obtain q st' where l: "loadAndAuth srv E' r (extractPathID (rqPath r)) st1 = Inr (S', q)"
    and vrow: "vrow = q\<lparr>smStatus := st', smVersion := smVersion q + 1\<rparr>"
    using assms(4) by (auto simp: verify_load_def Let_def split: if_splits)
  have "S' = S" using loadAndAuth_ok(1) [OF l] store by simp
  with loadAndAuth_ok(2) [OF l] have q: "rows st1 (smID (ajRow job)) = Some q" using assms(5) by (simp add: get_ok)
  from row_ver [OF q] v1 have qv: "smVersion q = smVersion (ajRow job) + 1" by simp
  from q assms(7) have qi: "smID q = smID (ajRow job)" by (simp add: keyed_def)
  from update_excludes [OF assms(6), of "row\<lparr>smVersion := smVersion row + 1\<rparr>" "qeFinish E"] row r1 qv qi vrow
  have "fst (fst (stUpdate S (qeFinish E) (row\<lparr>smVersion := smVersion row + 1\<rparr>) st2)) \<noteq> None" by simp
  then show ?thesis by (metis not_Some_eq prod.collapse)
qed

end

subsection \<open>The server on the JSON store\<close>

text \<open>The server as \<open>NewServer\<close> builds it from a state directory.\<close>

definition json_server :: "string \<Rightarrow> int \<Rightarrow> json aead \<Rightarrow> 's adapters \<Rightarrow> (string \<rightharpoonup> 's provider factory) \<Rightarrow> (js_env, json_dir, 's) server" where
  "json_server key ttl A adapters providers = \<lparr>svStore = Some json_store, svKey = key, svTTL = ttl, svAead = A,
     svAdapters = adapters, svProviders = providers\<rparr>"

interpretation api: migration_server json_store js_rows js_ver js_img "json_server key ttl A adapters providers"
  for key ttl A and adapters :: "'s adapters" and providers
  by unfold_locales (simp add: json_server_def)

end
