(* ===== verification/Store_Sql.thy ===== *)
theory Store_Sql
  imports Store "HOL-Library.DAList"
begin

text \<open>
  The SQLite store (\<open>migrate/sqlstore/store.go\<close>). The state is the table: the columns of each row by its
  primary key, an association list with distinct keys. A statement of the source acts on it as its SQL says. Times are columns of nanoseconds in a 64-bit
  integer: \<open>UnixNano\<close> wraps. Structured fields are JSON blobs. The driver is outside the repository:
  \<open>sq_env\<close> holds the clock, the errors it may report at one call, and \<open>sqTie\<close>, the order of rows with equal
  \<open>created_at\<close>.
\<close>

record sql_row =
  scTenantID :: string
  scStatus :: string
  scDomain :: string
  scSourceSlug :: string
  scTargetSlug :: string
  scTargetZoneID :: string
  scPreview :: json
  scPreviewRecords :: json
  scTargetNameservers :: json
  scApplyResults :: json
  scNSChangeInstructions :: string
  scErrorMessage :: string
  scCredentialBlob :: string
  scAccessToken :: string
  scExpiresAt :: "64 word"
  scVersion :: "64 word"
  scCreatedAt :: "64 word"
  scUpdatedAt :: "64 word"

type_synonym sql_table = "(string, sql_row) alist"

record sq_env =
  sqNow :: int
  sqExec :: "string option"
  sqAffected :: "string option"
  sqCheck :: "string option"
  sqTie :: "sql_row \<Rightarrow> nat"

definition UnixNano :: "int \<Rightarrow> 64 word" where
  "UnixNano t = word_of_int t"

definition unixTime :: "64 word \<Rightarrow> int" where
  "unixTime w = sint w"

definition bind_row :: "StoredMigration \<Rightarrow> sql_row" where
  "bind_row m = \<lparr>scTenantID = smTenantID m, scStatus = smStatus m, scDomain = smDomain m,
     scSourceSlug = smSourceSlug m, scTargetSlug = smTargetSlug m, scTargetZoneID = smTargetZoneID m,
     scPreview = enc_ptr enc_zone (smPreview m), scPreviewRecords = JArr (map enc_record (smPreviewRecords m)),
     scTargetNameservers = JArr (map enc_str (smTargetNameservers m)), scApplyResults = JArr (map enc_push (smApplyResults m)),
     scNSChangeInstructions = smNSChangeInstructions m, scErrorMessage = smErrorMessage m,
     scCredentialBlob = smCredentialBlob m, scAccessToken = smAccessToken m, scExpiresAt = UnixNano (smExpiresAt m),
     scVersion = smVersion m, scCreatedAt = UnixNano (smCreatedAt m), scUpdatedAt = UnixNano (smUpdatedAt m)\<rparr>"

definition scanRow :: "string \<Rightarrow> sql_row \<Rightarrow> string + StoredMigration" where
  "scanRow i c =
     bindE (mapErr (\<lambda>e. ''sqlstore: decode preview: '' @ e) (dec_ptr dec_zone (scPreview c))) (\<lambda>preview.
     bindE (mapErr (\<lambda>e. ''sqlstore: decode preview_records: '' @ e) (dec_list dec_record (scPreviewRecords c))) (\<lambda>records.
     bindE (mapErr (\<lambda>e. ''sqlstore: decode target_nameservers: '' @ e) (dec_list dec_str (scTargetNameservers c))) (\<lambda>nss.
     bindE (mapErr (\<lambda>e. ''sqlstore: decode apply_results: '' @ e) (dec_list dec_push (scApplyResults c))) (\<lambda>results.
     Inr \<lparr>smID = i, smTenantID = scTenantID c, smStatus = scStatus c, smDomain = scDomain c,
       smSourceSlug = scSourceSlug c, smTargetSlug = scTargetSlug c, smPreview = preview, smPreviewRecords = records,
       smTargetZoneID = scTargetZoneID c, smTargetNameservers = nss, smApplyResults = results,
       smNSChangeInstructions = scNSChangeInstructions c, smErrorMessage = scErrorMessage c,
       smCredentialBlob = scCredentialBlob c, smAccessToken = scAccessToken c, smExpiresAt = unixTime (scExpiresAt c),
       smVersion = scVersion c, smCreatedAt = unixTime (scCreatedAt c), smUpdatedAt = unixTime (scUpdatedAt c)\<rparr>))))"

definition sq_Create :: "sq_env \<Rightarrow> StoredMigration \<Rightarrow> sql_table \<Rightarrow> (store_error option \<times> StoredMigration) \<times> sql_table" where
  "sq_Create E m tab =
     (if smID m = [] then ((Some (StoreErr ''sqlstore: Create: missing ID''), m), tab)
      else let m' = stamp_new (sqNow E) m in
        case sqExec E of
          Some e \<Rightarrow> ((Some (StoreErr (''sqlstore: insert: '' @ e)), m'), tab)
        | None \<Rightarrow>
            if DAList.lookup tab (smID m) \<noteq> None
              then ((Some (StoreErr ''sqlstore: insert: UNIQUE constraint failed: migrations.id''), m'), tab)
            else ((None, m'), DAList.update (smID m) (bind_row m') tab))"

definition sq_Get :: "sq_env \<Rightarrow> string \<Rightarrow> sql_table \<Rightarrow> store_error + StoredMigration" where
  "sq_Get E i tab =
     (case sqExec E of
        Some e \<Rightarrow> Inl (StoreErr (''sqlstore: get: '' @ e))
      | None \<Rightarrow>
          (case DAList.lookup tab i of
             None \<Rightarrow> Inl ErrNotFound
           | Some c \<Rightarrow>
               bindE (mapErr (\<lambda>e. StoreErr (''sqlstore: get: '' @ e)) (scanRow i c)) (\<lambda>m.
               if row_expired (sqNow E) m then Inl ErrExpired else Inr m)))"

text \<open>\<open>UPDATE ... WHERE id = ? AND version = ?\<close> sets every column but the id and \<open>created_at\<close>. The table
  after it, with the number of rows it has changed.\<close>

definition sql_update :: "StoredMigration \<Rightarrow> sql_table \<Rightarrow> nat \<times> sql_table" where
  "sql_update m tab =
     (case DAList.lookup tab (smID m) of
        None \<Rightarrow> (0, tab)
      | Some c \<Rightarrow>
          if scVersion c = smVersion m - 1
            then (1, DAList.update (smID m) ((bind_row m)\<lparr>scCreatedAt := scCreatedAt c\<rparr>) tab)
          else (0, tab))"

definition sq_Update :: "sq_env \<Rightarrow> StoredMigration \<Rightarrow> sql_table \<Rightarrow> (store_error option \<times> StoredMigration) \<times> sql_table" where
  "sq_Update E m tab =
     (if smID m = [] then ((Some (StoreErr ''sqlstore: Update: missing ID''), m), tab)
      else let m' = m\<lparr>smUpdatedAt := sqNow E\<rparr> in
        case sqExec E of
          Some e \<Rightarrow> ((Some (StoreErr (''sqlstore: update: '' @ e)), m'), tab)
        | None \<Rightarrow>
          (case sql_update m' tab of (n, tab') \<Rightarrow>
            (case sqAffected E of
               Some e \<Rightarrow> ((Some (StoreErr (''sqlstore: rows affected: '' @ e)), m'), tab')
             | None \<Rightarrow>
                 if n \<noteq> 0 then ((None, m'), tab')
                 else case sqCheck E of
                   Some e \<Rightarrow> ((Some (StoreErr (''sqlstore: exists check: '' @ e)), m'), tab')
                 | None \<Rightarrow>
                     if DAList.lookup tab' (smID m) = None then ((Some ErrNotFound, m'), tab')
                     else ((Some ErrVersionMismatch, m'), tab'))))"

definition sq_Delete :: "sq_env \<Rightarrow> string \<Rightarrow> sql_table \<Rightarrow> store_error option \<times> sql_table" where
  "sq_Delete E i tab =
     (case sqExec E of
        Some e \<Rightarrow> (Some (StoreErr (''sqlstore: delete: '' @ e)), tab)
      | None \<Rightarrow> (None, DAList.delete i tab))"

definition sql_where :: "int \<Rightarrow> ListFilter \<Rightarrow> sql_row \<Rightarrow> bool" where
  "sql_where now f c \<longleftrightarrow> sint (UnixNano now) \<le> sint (scExpiresAt c)
     \<and> (lfTenantID f = [] \<or> scTenantID c = lfTenantID f) \<and> (lfStatus f = [] \<or> scStatus c = lfStatus f)"

definition sq_List :: "sq_env \<Rightarrow> ListFilter \<Rightarrow> sql_table \<Rightarrow> store_error + StoredMigration list" where
  "sq_List E f tab =
     (case sqExec E of
        Some e \<Rightarrow> Inl (StoreErr (''sqlstore: list: '' @ e))
      | None \<Rightarrow> mapErr (\<lambda>e. StoreErr (''sqlstore: scan: '' @ e)) (mapE (\<lambda>(i, c). scanRow i c)
          (page (lfOffset f) (lfLimit f)
            (sort_key (\<lambda>(i, c). sint (scCreatedAt c))
              (sort_key (\<lambda>(i, c). sqTie E c) (filter (\<lambda>(i, c). sql_where (sqNow E) f c) (DAList.impl_of tab)))))))"

definition sql_old :: "int \<Rightarrow> sql_row \<Rightarrow> bool" where
  "sql_old before c \<longleftrightarrow> sint (scExpiresAt c) < sint (UnixNano before)"

definition sq_SweepExpired :: "sq_env \<Rightarrow> int \<Rightarrow> sql_table \<Rightarrow> (store_error option \<times> nat) \<times> sql_table" where
  "sq_SweepExpired E before tab =
     (case sqExec E of
        Some e \<Rightarrow> ((Some (StoreErr (''sqlstore: sweep: '' @ e)), 0), tab)
      | None \<Rightarrow>
          (let tab' = DAList.filter (\<lambda>(i, c). \<not> sql_old before c) tab;
               n = length (filter (\<lambda>(i, c). sql_old before c) (DAList.impl_of tab)) in
           case sqAffected E of
             Some e \<Rightarrow> ((Some (StoreErr (''sqlstore: sweep rows affected: '' @ e)), 0), tab')
           | None \<Rightarrow> ((None, n), tab')))"

definition sql_store :: "(sq_env, sql_table) store_ops" where
  "sql_store = \<lparr>stCreate = sq_Create, stGet = sq_Get, stUpdate = sq_Update, stList = sq_List,
     stDelete = sq_Delete, stSweep = sq_SweepExpired\<rparr>"

subsection \<open>The contract\<close>

definition sq_rows :: "sql_table \<Rightarrow> string \<Rightarrow> StoredMigration option" where
  "sq_rows tab i = (case DAList.lookup tab i of
     None \<Rightarrow> None | Some c \<Rightarrow> (case scanRow i c of Inl e \<Rightarrow> None | Inr m \<Rightarrow> Some m))"

definition sq_ver :: "sql_table \<Rightarrow> string \<Rightarrow> 64 word option" where
  "sq_ver tab i = map_option scVersion (DAList.lookup tab i)"

definition sq_img :: "StoredMigration \<Rightarrow> StoredMigration option" where
  "sq_img m = (case scanRow (smID m) (bind_row m) of Inl e \<Rightarrow> None | Inr m' \<Rightarrow> Some m')"

lemma scanRow_sel:
  assumes "scanRow i c = Inr r"
  shows "smVersion r = scVersion c" "smID r = i" "smStatus r = scStatus c" "smAccessToken r = scAccessToken c"
    "smExpiresAt r = unixTime (scExpiresAt c)" "smCreatedAt r = unixTime (scCreatedAt c)"
  using assms by (auto simp: scanRow_def)

lemma sq_rows_put:
  "sq_rows (DAList.update i c tab) = (sq_rows tab)(i := (case scanRow i c of Inl e \<Rightarrow> None | Inr m \<Rightarrow> Some m))"
  "sq_ver (DAList.update i c tab) = (sq_ver tab)(i \<mapsto> scVersion c)"
  by (auto simp: sq_rows_def sq_ver_def fun_eq_iff)

lemma sq_rows_drop:
  "sq_rows (DAList.delete i tab) = (sq_rows tab)(i := None)"
  "sq_ver (DAList.delete i tab) = (sq_ver tab)(i := None)"
  by (auto simp: sq_rows_def sq_ver_def fun_eq_iff)

lemma sq_row_ver: "sq_rows tab i = Some r \<Longrightarrow> sq_ver tab i = Some (smVersion r)"
  by (auto simp: sq_rows_def sq_ver_def scanRow_sel split: option.splits sum.splits)

lemma bind_row_version [simp]: "scVersion (bind_row m) = smVersion m"
  by (simp add: bind_row_def)

lemma sq_Create_ok:
  assumes "sq_Create E m tab = ((None, m'), tab')"
  shows "smID m \<noteq> []" "sq_ver tab (smID m) = None" "m' = stamp_new (sqNow E) m" "tab' = DAList.update (smID m) (bind_row m') tab"
  using assms by (auto simp: sq_Create_def Let_def sq_ver_def split: if_splits option.splits)

lemma sq_Create_err: "sq_Create E m tab = ((Some x, m'), tab') \<Longrightarrow> tab' = tab"
  by (auto simp: sq_Create_def Let_def split: if_splits option.splits)

text \<open>The row whose columns an update leaves: \<open>created_at\<close> is kept.\<close>

lemma update_image:
  "\<exists>w. same_content w m \<and> bind_row w = (bind_row m)\<lparr>scCreatedAt := k\<rparr>"
  by (rule exI [of _ "m\<lparr>smCreatedAt := sint k, smUpdatedAt := smUpdatedAt m\<rparr>"]) (simp add: bind_row_def UnixNano_def)

lemma sql_update_cases:
  assumes "sql_update m tab = (n, tab')"
  obtains (none) "n = 0" "tab' = tab" "sq_ver tab (smID m) \<noteq> Some (smVersion m - 1)"
  | (hit) w where "n \<noteq> 0" "sq_ver tab (smID m) = Some (smVersion m - 1)" "same_content w m"
      "sq_rows tab' = (sq_rows tab)(smID m := sq_img w)" "sq_ver tab' = (sq_ver tab)(smID m \<mapsto> smVersion m)"
proof (cases "sq_ver tab (smID m) = Some (smVersion m - 1)")
  case True
  then obtain c where c: "DAList.lookup tab (smID m) = Some c" "scVersion c = smVersion m - 1" by (auto simp: sq_ver_def)
  obtain w where w: "same_content w m" "bind_row w = (bind_row m)\<lparr>scCreatedAt := scCreatedAt c\<rparr>" using update_image by blast
  from assms c w(2) have "n = 1" and t: "tab' = DAList.update (smID m) (bind_row w) tab" by (auto simp: sql_update_def)
  have i: "smID w = smID m" and v: "smVersion w = smVersion m" using w(1) by (rule same_contentD)+
  show thesis
  proof (rule hit)
    show "n \<noteq> 0" using \<open>n = 1\<close> by simp
    show "sq_rows tab' = (sq_rows tab)(smID m := sq_img w)" by (simp add: t sq_rows_put sq_img_def i)
    show "sq_ver tab' = (sq_ver tab)(smID m \<mapsto> smVersion m)" by (simp add: t sq_rows_put v)
  qed (fact True w(1))+
next
  case False
  with assms have "n = 0 \<and> tab' = tab" by (auto simp: sql_update_def sq_ver_def split: option.splits if_splits)
  with False none show thesis by simp
qed

lemma sq_Update_cases:
  assumes "sq_Update E m tab = ((y, m'), tab')"
  obtains (none) "y \<noteq> None" "tab' = tab"
      "y = Some ErrVersionMismatch \<longrightarrow> sq_ver tab (smID m) \<noteq> Some (smVersion m - 1)"
  | (hit) w where "y \<noteq> Some ErrVersionMismatch" "sq_ver tab (smID m) = Some (smVersion m - 1)" "same_content m' m" "same_content w m"
      "sq_rows tab' = (sq_rows tab)(smID m := sq_img w)" "sq_ver tab' = (sq_ver tab)(smID m \<mapsto> smVersion m)"
proof (cases "smID m = [] \<or> sqExec E \<noteq> None")
  case True
  with assms none show thesis by (auto simp: sq_Update_def Let_def split: if_splits)
next
  case False
  let ?m = "m\<lparr>smUpdatedAt := sqNow E\<rparr>"
  obtain n t where u: "sql_update ?m tab = (n, t)" by fastforce
  from u show thesis
  proof (cases rule: sql_update_cases)
    case none': none
    with assms False u none show thesis by (auto simp: sq_Update_def Let_def split: option.splits if_splits)
  next
    case hit': (hit w)
    have "m' = ?m" "y \<noteq> Some ErrVersionMismatch" "tab' = t"
      using assms False u hit'(1) by (auto simp: sq_Update_def Let_def split: option.splits)
    moreover have "same_content w m" using hit'(3) by (simp add: same_content_def)
    ultimately show thesis using hit' hit [of w] by simp
  qed
qed

lemma sq_List_rows:
  assumes "sq_List E f tab = Inr rs" and "r \<in> set rs"
  shows "\<exists>i. sq_rows tab i = Some r"
proof -
  define cs where "cs = page (lfOffset f) (lfLimit f) (sort_key (\<lambda>(i, c). sint (scCreatedAt c))
      (sort_key (\<lambda>(i, c). sqTie E c) (filter (\<lambda>(i, c). sql_where (sqNow E) f c) (DAList.impl_of tab))))"
  from assms(1) have "mapE (\<lambda>(i, c). scanRow i c) cs = Inr rs"
    by (auto simp: sq_List_def cs_def split: option.splits)
  with assms(2) obtain i c where ic: "(i, c) \<in> set cs" and "scanRow i c = Inr r"
    by (auto dest: mapE_in_set)
  have "(i, c) \<in> set (DAList.impl_of tab)"
    using ic subsetD [OF set_page] unfolding cs_def by fastforce
  then have "DAList.lookup tab i = Some c"
    using DAList.impl_of [of tab] by (simp add: DAList.lookup_def)
  with \<open>scanRow i c = Inr r\<close> show ?thesis by (auto simp: sq_rows_def intro!: exI [of _ i])
qed

lemma sq_Get_ok: "sq_Get E i tab = Inr m \<Longrightarrow> sq_rows tab i = Some m"
  by (auto simp: sq_Get_def sq_rows_def bindE_Inr_iff split: option.splits if_splits)

lemma sq_Get_missing: "sq_Get E i tab = Inl ErrNotFound \<Longrightarrow> sq_ver tab i = None"
  by (cases "sqExec E"; cases "DAList.lookup tab i"; cases "scanRow i (the (DAList.lookup tab i))")
     (auto simp: sq_Get_def sq_ver_def split: if_splits)

lemma int64_word: "int64_min \<le> t \<Longrightarrow> t \<le> int64_max \<Longrightarrow> sint (word_of_int t :: 64 word) = t"
  by (simp add: int64_min_def int64_max_def signed_take_bit_int_eq_self_iff sint_sbintrunc')

lemma map_of_filter_values:
  "distinct (map fst xs) \<Longrightarrow>
    map_of (filter (\<lambda>(i, c). \<not> p c) xs) k = (case map_of xs k of None \<Rightarrow> None | Some c \<Rightarrow> if p c then None else Some c)"
  by (induction xs) (auto simp: map_of_eq_None_iff split: option.splits)

lemma sq_sweep:
  assumes "int64_min \<le> t" and "t \<le> int64_max" and "sq_SweepExpired E t tab = ((z, n), tab')"
  shows "(sq_rows tab' i = sq_rows tab i \<and> sq_ver tab' i = sq_ver tab i)
    \<or> (sq_rows tab' i = None \<and> sq_ver tab' i = None \<and> (\<forall>r. sq_rows tab i = Some r \<longrightarrow> smExpiresAt r < t))"
proof (cases "sqExec E")
  case None
  with assms(3) have t': "tab' = DAList.filter (\<lambda>(i, c). \<not> sql_old t c) tab"
    by (auto simp: sq_SweepExpired_def Let_def split: option.splits)
  have l: "DAList.lookup tab' i = (case DAList.lookup tab i of None \<Rightarrow> None | Some c \<Rightarrow> if sql_old t c then None else Some c)"
    using DAList.impl_of [of tab] unfolding t' by (simp add: DAList.lookup_def filter.rep_eq map_of_filter_values)
  show ?thesis
  proof (cases "DAList.lookup tab i")
    case (Some c)
    have "smExpiresAt r < t" if "sql_old t c" "sq_rows tab i = Some r" for r
      using that Some assms(1,2) scanRow_sel(5) [of i c r]
      by (auto simp: sql_old_def sq_rows_def UnixNano_def int64_word unixTime_def split: sum.splits)
    with l Some show ?thesis by (auto simp: sq_rows_def sq_ver_def)
  qed (use l in \<open>simp add: sq_rows_def sq_ver_def\<close>)
qed (use assms(3) in \<open>simp add: sq_SweepExpired_def\<close>)

interpretation sql: migration_store sql_store sq_rows sq_ver sq_img
proof (unfold_locales, unfold sql_store_def store_ops.simps, goal_cases)
  case (1 s i r) then show ?case by (rule sq_row_ver)
next
  case (2 m r) then show ?case by (auto simp: sq_img_def scanRow_sel bind_row_def split: sum.splits)
next
  case (3 E m s m' s')
  note c = sq_Create_ok [OF 3]
  then have "smID m' = smID m" by (simp add: row_simps)
  with c show ?case by (auto simp: sq_rows_put sq_img_def)
next
  case (4 E m s x m' s') then show ?case by (auto dest: sq_Create_err)
next
  case (5 E i s m) then show ?case by (rule sq_Get_ok)
next
  case (6 E i s) then show ?case by (rule sq_Get_missing)
next
  case (7 E m s m' s') then show ?case by (cases rule: sq_Update_cases) auto
next
  case (8 E m s x m' s') then show ?case by (cases rule: sq_Update_cases) auto
next
  case (9 E m s m' s') then show ?case by (cases rule: sq_Update_cases) auto
next
  case (10 E i s s') then show ?case by (auto simp: sq_Delete_def sq_rows_drop split: option.splits)
next
  case (11 E i s x s') then show ?case by (auto simp: sq_Delete_def split: option.splits)
next
  case (12 E f s rs r) then show ?case by (rule sq_List_rows)
next
  case (13 t E s z n s' i) then show ?case by (rule sq_sweep)
qed

subsection \<open>Refinement\<close>

definition sq_fault_free :: "sq_env \<Rightarrow> bool" where
  "sq_fault_free E \<longleftrightarrow> sqExec E = None \<and> sqAffected E = None \<and> sqCheck E = None"

definition int64_ok :: "int \<Rightarrow> bool" where
  "int64_ok t \<longleftrightarrow> int64_min \<le> t \<and> t \<le> int64_max"

definition blobs_wf :: "StoredMigration \<Rightarrow> bool" where
  "blobs_wf m \<longleftrightarrow> pred_option zone_wf (smPreview m) \<and> list_all record_wf (smPreviewRecords m)
     \<and> list_all utf8_ok (smTargetNameservers m) \<and> list_all push_wf (smApplyResults m)"

definition sq_storable :: "int \<Rightarrow> StoredMigration \<Rightarrow> bool" where
  "sq_storable now m \<longleftrightarrow> blobs_wf m \<and> smID m \<noteq> [] \<and> int64_ok now \<and> int64_ok (smExpiresAt m)
     \<and> (smCreatedAt m = zero_time \<or> int64_ok (smCreatedAt m))"

definition sq_valid :: "sql_table \<Rightarrow> bool" where
  "sq_valid tab \<longleftrightarrow> list_all (\<lambda>(i, c). case scanRow i c of Inl e \<Rightarrow> False | Inr m \<Rightarrow> True) (DAList.impl_of tab)"

lemma scan_bind_row:
  assumes "blobs_wf m"
  shows "scanRow (smID m) (bind_row m) = Inr (m\<lparr>smExpiresAt := unixTime (UnixNano (smExpiresAt m)),
    smCreatedAt := unixTime (UnixNano (smCreatedAt m)), smUpdatedAt := unixTime (UnixNano (smUpdatedAt m))\<rparr>)"
  using assms
  by (simp add: scanRow_def bind_row_def blobs_wf_def jzone.dec_enc_ptr enc_zone_not_null jrecord.mapE_dec_enc
      jstr.mapE_dec_enc jpush.mapE_dec_enc)

lemma nano_roundtrip [simp]: "int64_ok t \<Longrightarrow> unixTime (UnixNano t) = t"
  by (simp add: unixTime_def UnixNano_def int64_ok_def int64_word)

lemma sq_img_wf:
  "blobs_wf m \<Longrightarrow> int64_ok (smExpiresAt m) \<Longrightarrow> int64_ok (smCreatedAt m) \<Longrightarrow> int64_ok (smUpdatedAt m) \<Longrightarrow> sq_img m = Some m"
  by (simp add: sq_img_def scan_bind_row)

lemma sq_lookup_row:
  assumes "sq_valid tab"
  shows "(case DAList.lookup tab i of None \<Rightarrow> sq_rows tab i = None | Some c \<Rightarrow> (\<exists>m. scanRow i c = Inr m \<and> sq_rows tab i = Some m))"
proof (cases "DAList.lookup tab i")
  case (Some c)
  then have "(i, c) \<in> set (DAList.impl_of tab)" unfolding DAList.lookup_def map_fun_def id_def comp_def by (rule map_of_SomeD)
  with assms have "case scanRow i c of Inl e \<Rightarrow> False | Inr m \<Rightarrow> True" unfolding sq_valid_def list_all_iff by blast
  then obtain m where "scanRow i c = Inr m" by (cases "scanRow i c") simp_all
  with Some show ?thesis by (simp add: sq_rows_def)
qed (simp add: sq_rows_def)

lemma sq_create_refines:
  assumes "sq_fault_free E" and "sq_valid tab" and "sq_storable (sqNow E) m"
  shows "(case sq_Create E m tab of ((err, m'), tab') \<Rightarrow> (err = None, sq_rows tab')) = spec_create (sqNow E) m (sq_rows tab)"
proof (cases "sq_rows tab (smID m)")
  case None
  let ?m = "stamp_new (sqNow E) m"
  have "sq_img ?m = Some ?m"
    using assms(3) by (intro sq_img_wf) (auto simp: sq_storable_def stamp_new_def blobs_wf_def)
  moreover have "smID ?m = smID m" by (simp add: row_simps)
  ultimately have s: "scanRow (smID m) (bind_row ?m) = Inr ?m" by (simp add: sq_img_def split: sum.splits)
  have "DAList.lookup tab (smID m) = None"
    using sq_lookup_row [OF assms(2), of "smID m"] None by (auto split: option.splits)
  then have "sq_Create E m tab = ((None, ?m), DAList.update (smID m) (bind_row ?m) tab)"
    using assms(1,3) by (simp add: sq_Create_def sq_fault_free_def sq_storable_def Let_def)
  then show ?thesis by (simp add: spec_create_def None sq_rows_put s)
next
  case (Some r)
  with sq_lookup_row [OF assms(2), of "smID m"] assms show ?thesis
    by (auto simp: sq_Create_def sq_fault_free_def sq_storable_def spec_create_def Let_def split: option.splits)
qed

lemma sq_update_refines:
  assumes "sq_fault_free E" and "sq_valid tab" and "sq_storable (sqNow E) m"
  shows "(case sq_Update E m tab of ((err, m'), tab') \<Rightarrow> (err, sq_rows tab')) = spec_update (sqNow E) m (sq_rows tab)"
proof (cases "DAList.lookup tab (smID m)")
  case None
  with sq_lookup_row [OF assms(2), of "smID m"] assms show ?thesis
    by (simp add: sq_Update_def sql_update_def sq_fault_free_def sq_storable_def spec_update_def Let_def)
next
  case (Some c)
  with sq_lookup_row [OF assms(2), of "smID m"] obtain r where r: "scanRow (smID m) c = Inr r" "sq_rows tab (smID m) = Some r" by auto
  note sel = scanRow_sel [OF r(1)]
  let ?m = "m\<lparr>smUpdatedAt := sqNow E\<rparr>"
  let ?w = "m\<lparr>smCreatedAt := smCreatedAt r, smUpdatedAt := sqNow E\<rparr>"
  have "bind_row ?w = (bind_row ?m)\<lparr>scCreatedAt := scCreatedAt c\<rparr>"
    by (simp add: bind_row_def sel UnixNano_def unixTime_def)
  moreover have "sq_img ?w = Some ?w"
  proof (rule sq_img_wf)
    have "int64_ok (sint (scCreatedAt c))"
      using sint_ge [of "scCreatedAt c"] sint_lt [of "scCreatedAt c"] by (simp add: int64_ok_def int64_min_def int64_max_def)
    then show "int64_ok (smCreatedAt ?w)" by (simp add: sel unixTime_def)
  qed (use assms(3) in \<open>auto simp: sq_storable_def blobs_wf_def\<close>)
  moreover have "smID ?w = smID m" by simp
  ultimately have "scanRow (smID m) ((bind_row ?m)\<lparr>scCreatedAt := scCreatedAt c\<rparr>) = Inr ?w"
    by (simp add: sq_img_def split: sum.splits)
  with assms Some r sel(1) show ?thesis
    by (auto simp: sq_Update_def sql_update_def sq_fault_free_def sq_storable_def spec_update_def Let_def sq_rows_put eq_diff_eq)
qed

text \<open>Property C8. The SQLite store is the same map, errors included, for rows whose times fit 64 bits of
  nanoseconds.\<close>

theorem sql_store_refines_map:
  assumes "sq_fault_free E" and "sq_valid tab" and "sq_storable (sqNow E) m"
  shows "(case sq_Create E m tab of ((err, m'), tab') \<Rightarrow> (err = None, sq_rows tab')) = spec_create (sqNow E) m (sq_rows tab)
    \<and> sq_Get E i tab = spec_get (sqNow E) i (sq_rows tab)
    \<and> (case sq_Update E m tab of ((err, m'), tab') \<Rightarrow> (err, sq_rows tab')) = spec_update (sqNow E) m (sq_rows tab)
    \<and> (case sq_Delete E i tab of (err, tab') \<Rightarrow> (err, sq_rows tab')) = (None, spec_delete i (sq_rows tab))"
proof (intro conjI)
  show "sq_Get E i tab = spec_get (sqNow E) i (sq_rows tab)"
    using sq_lookup_row [OF assms(2), of i] assms(1)
    by (auto simp: sq_Get_def spec_get_def sq_fault_free_def split: option.splits)
  show "(case sq_Delete E i tab of (err, tab') \<Rightarrow> (err, sq_rows tab')) = (None, spec_delete i (sq_rows tab))"
    using assms(1) by (simp add: sq_Delete_def sq_fault_free_def spec_delete_def sq_rows_drop)
qed (rule sq_create_refines [OF assms] sq_update_refines [OF assms])+

definition sq_quiet :: "int \<Rightarrow> sq_env" where
  "sq_quiet now = \<lparr>sqNow = now, sqExec = None, sqAffected = None, sqCheck = None, sqTie = (\<lambda>_. 0)\<rparr>"

lemma sq_quiet_sel [simp]: "sq_fault_free (sq_quiet now)" "sqNow (sq_quiet now) = now"
  by (simp_all add: sq_fault_free_def sq_quiet_def)

lemma sample_blobs: "blobs_wf sample_row" "blobs_wf (sample_row\<lparr>smExpiresAt := t\<rparr>)" "blobs_wf (sample_row\<lparr>smVersion := v\<rparr>)"
  using sample_utf8(7) by (simp_all add: blobs_wf_def) (simp_all add: sample_row_def)

definition sample_table :: sql_table where
  "sample_table = DAList.update ''m1'' (bind_row sample_row) DAList.empty"

lemma sample_table_valid: "sq_valid sample_table"
  using scan_bind_row [OF sample_blobs(1)]
  by (simp add: sq_valid_def sample_table_def DAList.update.rep_eq DAList.empty.rep_eq) (simp add: sample_row_def)

lemma sql_store_refines_map_witness:
  "(case sq_Update (sq_quiet 5) (sample_row\<lparr>smVersion := 2\<rparr>) sample_table of ((err, m'), tab') \<Rightarrow> (err, sq_rows tab'))
    = spec_update 5 (sample_row\<lparr>smVersion := 2\<rparr>) (sq_rows sample_table)"
proof -
  have "sq_storable 5 (sample_row\<lparr>smVersion := 2\<rparr>)"
    using sample_blobs(3) by (simp add: sq_storable_def int64_ok_def int64_min_def int64_max_def) (simp add: sample_row_def)
  with sql_store_refines_map [of "sq_quiet 5" sample_table "sample_row\<lparr>smVersion := 2\<rparr>" "''m1''"] sample_table_valid
  show ?thesis by simp
qed

text \<open>A row without an expiry: the zero time does not fit and wraps into the year 1754, so the SQLite
  store gives the row back as expired and a sweep deletes it, where the abstract store and the JSON
  store keep it.\<close>

theorem sql_zero_expiry_expires:
  assumes "sq_Create E m tab = ((None, m'), tab')" and "smExpiresAt m = zero_time" and "blobs_wf m"
    and "sq_fault_free E'" and "- 6795364578871345152 < sqNow E'" and "int64_ok (sqNow E')"
  shows "sq_Get E' (smID m) tab' = Inl ErrExpired
    \<and> spec_get (sqNow E') (smID m) [smID m \<mapsto> m'] = Inr m'
    \<and> sq_rows (snd (sq_SweepExpired E' (sqNow E') tab')) (smID m) = None"
proof (intro conjI)
  note c = sq_Create_ok [OF assms(1)]
  have b: "blobs_wf m'" and i: "smID m' = smID m" and e: "smExpiresAt m' = zero_time"
    using assms(2,3) c(3) by (auto simp: blobs_wf_def stamp_new_def)
  have w: "UnixNano zero_time = word_of_int (- 6795364578871345152)"
    unfolding UnixNano_def zero_time_def word_of_int_eq_iff by (simp add: take_bit_eq_mod)
  have z: "unixTime (UnixNano zero_time) = - 6795364578871345152"
    unfolding w unixTime_def by (rule int64_word) (simp_all add: int64_min_def int64_max_def)
  have l: "DAList.lookup tab' (smID m) = Some (bind_row m')" by (simp add: c(4))
  have s: "scanRow (smID m) (bind_row m') = Inr (m'\<lparr>smExpiresAt := - 6795364578871345152,
      smCreatedAt := unixTime (UnixNano (smCreatedAt m')), smUpdatedAt := unixTime (UnixNano (smUpdatedAt m'))\<rparr>)"
    using scan_bind_row [OF b] i by (simp add: e z)
  show "sq_Get E' (smID m) tab' = Inl ErrExpired"
    using assms(4,5) l s by (simp add: sq_Get_def sq_fault_free_def row_expired_def zero_time_def)
  show "spec_get (sqNow E') (smID m) [smID m \<mapsto> m'] = Inr m'"
    by (simp add: spec_get_def row_expired_def e)
  have "sql_old (sqNow E') (bind_row m')"
    using z assms(5,6) by (simp add: sql_old_def bind_row_def e unixTime_def UnixNano_def int64_ok_def int64_word)
  then have "DAList.lookup (DAList.filter (\<lambda>(i, c). \<not> sql_old (sqNow E') c) tab') (smID m) = None"
    using DAList.impl_of [of tab'] l by (simp add: DAList.lookup_def filter.rep_eq map_of_filter_values)
  then show "sq_rows (snd (sq_SweepExpired E' (sqNow E') tab')) (smID m) = None"
    using assms(4) by (simp add: sq_SweepExpired_def sq_fault_free_def Let_def sq_rows_def)
qed

lemma sql_zero_expiry_expires_witness:
  "\<exists>m' tab'. sq_Create (sq_quiet 5) (sample_row\<lparr>smExpiresAt := zero_time\<rparr>) DAList.empty = ((None, m'), tab')
    \<and> sq_Get (sq_quiet 6) ''m1'' tab' = Inl ErrExpired"
proof -
  let ?m = "sample_row\<lparr>smExpiresAt := zero_time\<rparr>"
  have i: "smID ?m = ''m1''" by (simp add: sample_row_def)
  obtain m' tab' where c: "sq_Create (sq_quiet 5) ?m DAList.empty = ((None, m'), tab')"
    by (simp add: sq_Create_def sq_quiet_def i Let_def)
  from sql_zero_expiry_expires [OF c, of "sq_quiet 6"] c i show ?thesis
    by (auto simp: sample_blobs int64_ok_def int64_min_def int64_max_def)
qed

end
