(* ===== verification/Migrate_Safety.thy ===== *)
theory Migrate_Safety
  imports Migrate_System Store_Sql
begin

text \<open>
  What the stateful migration endpoints guarantee, on both backends: the properties of \<open>Migrate_System\<close> on
  the JSON server and on a server with the SQLite store, with a sample run that the witnesses use.
\<close>

definition sql_server :: "string \<Rightarrow> int \<Rightarrow> json aead \<Rightarrow> 's adapters \<Rightarrow> (string \<rightharpoonup> 's provider factory) \<Rightarrow> (sq_env, sql_table, 's) server" where
  "sql_server key ttl A adapters providers = \<lparr>svStore = Some sql_store, svKey = key, svTTL = ttl, svAead = A,
     svAdapters = adapters, svProviders = providers\<rparr>"

interpretation sqlapi: migration_server sql_store sq_rows sq_ver sq_img "sql_server key ttl A adapters providers"
  for key ttl A and adapters :: "'s adapters" and providers
  by unfold_locales (simp add: sql_server_def)

subsection \<open>A sample run\<close>

definition demo_rec :: Record where
  "demo_rec = mk_record ''A'' ''www.example.com'' ''192.0.2.1'' 300"

definition demo_zone :: MZone where
  "demo_zone = (new_zone ''example.com'' ''bind'')\<lparr>zRecords := [demo_rec]\<rparr>"

definition demo_creds :: bodyCredentials where
  "demo_creds = \<lparr>bcAPIToken = ''t'', bcAPIKey = [], bcAPISecret = [], bcAccessKey = [], bcSecretKey = [], bcRegion = [],
     bcToken = [], bcProjectID = [], bcAccountID = []\<rparr>"

definition demo_query :: previewRequest where
  "demo_query = \<lparr>pqDomain = ''example.com'', pqTarget = ''fake'', pqTenantID = ''t'', pqCredentials = demo_creds,
     pqNameservers = [], pqLabels = [], pqLabelsOnly = [], pqNoAXFR = False, pqPreloadedZone = Some demo_zone\<rparr>"

definition demo_aead :: "json aead" where
  "demo_aead = \<lparr>aeSeal = (\<lambda>k n p. ''sealed''), aeOpen = (\<lambda>k n c. Some (enc_creds demo_creds))\<rparr>"

definition demo_adapters :: "fake_state adapters" where
  "demo_adapters = RegisterAdapter ''fake'' (\<lambda>d opts s. (Inr \<lparr>ziZoneID = ''z'', ziNameservers = [], ziCreated = True\<rparr>, s)) Map.empty"

definition demo_providers :: "string \<rightharpoonup> fake_state provider factory" where
  "demo_providers = RegisterProvider ''fake'' (\<lambda>_. Inr fake_ops) Map.empty"

definition demo_key :: string where
  "demo_key = replicate 32 (CHR ''k'')"

definition demo_server :: "(js_env, json_dir, fake_state) server" where
  "demo_server = json_server demo_key 0 demo_aead demo_adapters demo_providers"

definition demo_scrape :: scrape_env where
  "demo_scrape = \<lparr>seLookupNS = (\<lambda>_. Inl ''off''), seLookupHost = (\<lambda>_. None), seAxfr = (\<lambda>_ _. Inl ''off''),
     seExchange = (\<lambda>_ _ _. ExchNil), seTypeName = (\<lambda>_. []), seRcodeName = (\<lambda>_. []), seDone = (\<lambda>_. True)\<rparr>"

definition demo_net :: vt_env where
  "demo_net = \<lparr>vtLookupHost = (\<lambda>_. Inl ''off''), vtExchange = (\<lambda>_ _ _. ExchNil), vtTypeName = (\<lambda>_. [])\<rparr>"

definition demo_env :: "int \<Rightarrow> js_env req_env" where
  "demo_env now = \<lparr>qeGet = quiet now, qeNow = now, qeClaim = quiet now, qeFinish = quiet now, qeNonce = Inr ''twelve bytes'',
     qeNewID = ''m1'', qeToken = ''secret'', qeWall = now, qeScrape = demo_scrape, qeLookupNS = (\<lambda>_. None),
     qeRdap = (\<lambda>_. None), qeLimiter = (\<lambda>_. None), qeNet = demo_net\<rparr>"

definition demo_request :: "string \<Rightarrow> request" where
  "demo_request tok = \<lparr>rqMethod = ''POST'', rqPath = ''/v1/migrate/m1/apply'', rqHeader = [(''Authorization'', [''Bearer '' @ tok])],
     rqCreds = None, rqRequestID = []\<rparr>"

definition demo_row :: StoredMigration where
  "demo_row = preview_row demo_server (demo_env 0) demo_query demo_zone [] ''twelve bytessealed''"

definition dir_of :: "StoredMigration \<Rightarrow> json_dir" where
  "dir_of m = [(pathFor (smID m), JObj (row_fields m))]"

lemma dir_of_readable: "row_wf m \<Longrightarrow> readable (dir_of m)"
  by (simp add: readable_def dir_of_def dec_enc_row)

lemma dir_of_rows: "row_wf m \<Longrightarrow> js_rows (dir_of m) (smID m) = Some m"
  by (simp add: js_rows_def dir_of_def dec_enc_row)

lemma dir_of_get:
  "row_wf m \<Longrightarrow> \<not> row_expired t m \<Longrightarrow> js_Get (quiet t) (smID m) (dir_of m) = Inr m"
  using readRow_spec [OF dir_of_readable, of m "quiet t" "smID m"] by (simp add: js_Get_def dir_of_rows) (simp add: quiet_def)

lemma dir_of_update:
  assumes "row_wf m" and "smID w = smID m" and "smID m \<noteq> []" and "smVersion w = smVersion m + 1"
    and "time_json_ok (smExpiresAt w)" and "time_json_ok (smCreatedAt m)" and "time_json_ok t"
  shows "js_Update (quiet t) w (dir_of m) = ((None, w\<lparr>smCreatedAt := smCreatedAt m, smUpdatedAt := t\<rparr>),
    dir_of (w\<lparr>smCreatedAt := smCreatedAt m, smUpdatedAt := t\<rparr>))"
proof -
  let ?w = "w\<lparr>smCreatedAt := smCreatedAt m, smUpdatedAt := t\<rparr>"
  have r: "readRow (quiet t) (dir_of m) (smID w) = Inr m"
    using readRow_spec [OF dir_of_readable [OF assms(1)], of "quiet t" "smID m"] dir_of_rows [OF assms(1)] assms(2)
    by (simp add: quiet_def)
  have "writeRow (quiet t) (dir_of m) ?w = (None, dir_of ?w)"
    using writeRow_fault_free [OF fault_free_quiet, of ?w t "dir_of m"] assms by (simp add: dir_of_def)
  with r assms(2,3,4) show ?thesis by (simp add: js_Update_def) (simp add: quiet_def Let_def)
qed

lemma dir_of_create:
  assumes "smID m \<noteq> []" and "smVersion m = 1" and "list_all time_json_ok [smExpiresAt m, smCreatedAt m, t]" and "smCreatedAt m \<noteq> zero_time"
  shows "js_Create (quiet t) m [] = ((None, m\<lparr>smUpdatedAt := t\<rparr>), dir_of (m\<lparr>smUpdatedAt := t\<rparr>))"
proof -
  have s: "stamp_new t m = m\<lparr>smUpdatedAt := t\<rparr>" using assms(2,4) by (simp add: stamp_new_def)
  have "writeRow (quiet t) [] (m\<lparr>smUpdatedAt := t\<rparr>) = (None, dir_of (m\<lparr>smUpdatedAt := t\<rparr>))"
    using writeRow_fault_free [OF fault_free_quiet, of "m\<lparr>smUpdatedAt := t\<rparr>" t "[]"] assms(3) by (simp add: dir_of_def)
  with assms(1) s show ?thesis by (simp add: js_Create_def) (simp add: quiet_def Let_def)
qed

lemma demo_row_sel:
  "smID demo_row = ''m1''" "smStatus demo_row = StatusPreview" "smVersion demo_row = 1" "smAccessToken demo_row = ''secret''"
  "smTargetSlug demo_row = ''fake''" "smExpiresAt demo_row = 3600000000000" "smCreatedAt demo_row = 0" "smUpdatedAt demo_row = 0"
  "smCredentialBlob demo_row = ''twelve bytessealed''" "smPreviewRecords demo_row = [demo_rec]" "smTargetNameservers demo_row = []"
  "smDomain demo_row = ''example.com''" "smApplyResults demo_row = []" "smSourceSlug demo_row = []"
  by (simp_all add: demo_row_def preview_row_def demo_server_def json_server_def demo_env_def demo_query_def demo_zone_def
      new_zone_def Let_def)

lemma ascii_ok: "list_all (\<lambda>c. byte c < 128) s \<Longrightarrow> utf8_ok s"
  by (rule utf8_ascii)

lemma demo_rec_wf: "record_wf demo_rec"
  by (simp add: demo_rec_def record_wf_def utf8_ascii byte_def)

lemma demo_row_wf: "row_wf demo_row"
proof -
  have "zone_wf demo_zone" by (simp add: zone_wf_def demo_zone_def new_zone_def demo_rec_wf utf8_ascii byte_def)
  moreover have "smPreview demo_row = Some demo_zone" "smTenantID demo_row = ''t''" "smTargetZoneID demo_row = []"
    "smNSChangeInstructions demo_row = []" "smErrorMessage demo_row = []"
    by (simp_all add: demo_row_def preview_row_def demo_query_def Let_def)
  ultimately show ?thesis by (simp add: row_wf_def demo_row_sel demo_rec_wf utf8_ascii byte_def)
qed

lemma demo_prepare: "preview_prepare demo_server (demo_env 0) (Body demo_query) = Inr (json_store, demo_row, [], demo_zone)"
proof -
  have v: "ValidateDNSName ''example.com'' = None" by code_simp
  have d: "detected_slug (demo_env 0) x = []" for x :: string by (simp add: detected_slug_def demo_env_def DetectProvider_def)
  have z: "preview_zone (demo_env 0) demo_query = Inr demo_zone" by (simp add: preview_zone_def demo_query_def)
  have a: "\<exists>f. GetAdapter (svAdapters demo_server) ''fake'' = Inr f"
    by (simp add: GetAdapter_def demo_server_def json_server_def demo_adapters_def RegisterAdapter_def)
  have e: "EncryptCreds (svAead demo_server) (qeNonce (demo_env 0)) (svKey demo_server) p = Inr ''twelve bytessealed''" for p
    by (simp add: EncryptCreds_def demo_server_def json_server_def demo_env_def demo_key_def demo_aead_def)
  have q: "pqDomain demo_query = ''example.com''" "pqTarget demo_query = ''fake''" by (simp_all add: demo_query_def)
  have s: "svStore demo_server = Some json_store" "length (svKey demo_server) = 32"
    by (simp_all add: demo_server_def json_server_def demo_key_def)
  from a show ?thesis
    by (auto simp: preview_prepare_def decodeJSON_def q v z e d s demo_row_def [symmetric] Let_def)
qed

lemma time_ok_small: "0 \<le> t \<Longrightarrow> t \<le> 10 ^ 18 \<Longrightarrow> time_json_ok t"
  by (simp add: time_json_ok_def)

lemma demo_preview:
  "handleMigratePreview demo_server (demo_env 0) (Body demo_query) [] = (writeJSON (preview_data demo_row [] demo_zone), dir_of demo_row)"
proof -
  have "js_Create (quiet 0) demo_row [] = ((None, demo_row\<lparr>smUpdatedAt := 0\<rparr>), dir_of (demo_row\<lparr>smUpdatedAt := 0\<rparr>))"
    by (rule dir_of_create) (simp_all add: demo_row_sel time_json_ok_def zero_time_def)
  moreover have "demo_row\<lparr>smUpdatedAt := 0\<rparr> = demo_row" by (simp add: demo_row_def preview_row_def Let_def demo_env_def)
  ultimately have "stCreate json_store (qeClaim (demo_env 0)) demo_row [] = ((None, demo_row), dir_of demo_row)"
    by (simp add: json_store_def demo_env_def)
  then show ?thesis by (simp add: handleMigratePreview_def demo_prepare)
qed

lemma demo_id: "extractPathID (rqPath (demo_request tok)) = ''m1''"
proof -
  have "extractPathID ''/v1/migrate/m1/apply'' = ''m1''" by code_simp
  then show ?thesis by (simp add: demo_request_def)
qed

lemma demo_bearer: "extractBearer (demo_request ''secret'') = ''secret''"
  unfolding demo_request_def by code_simp

lemma demo_auth:
  assumes "row_wf m" and "smID m = ''m1''" and "smAccessToken m = ''secret''" and "smExpiresAt m = 3600000000000" and "t \<le> 10"
  shows "loadAndAuth demo_server (demo_env t) (demo_request ''secret'') ''m1'' (dir_of m) = Inr (json_store, m)"
proof -
  have e: "\<not> row_expired t m" using assms(4,5) by (simp add: row_expired_def)
  from dir_of_get [OF assms(1) e] assms(2) have "stGet json_store (qeGet (demo_env t)) ''m1'' (dir_of m) = Inr m"
    by (simp add: json_store_def demo_env_def)
  moreover have "qeNow (demo_env t) = t" by (simp add: demo_env_def)
  ultimately show ?thesis using e assms(3)
    by (simp add: loadAndAuth_def demo_server_def json_server_def demo_bearer checkAccessToken_def)
qed

definition demo_adapter :: "fake_state adapter" where
  "demo_adapter = the (demo_adapters ''fake'')"

definition demo_job :: "(js_env, json_dir, fake_state) apply_job" where
  "demo_job = \<lparr>ajStore = json_store, ajRow = demo_row, ajCreds = demo_creds, ajAdapter = demo_adapter\<rparr>"

lemma demo_load: "apply_load demo_server (demo_env 1) (demo_request ''secret'') (dir_of demo_row) = Inr demo_job"
proof -
  have a: "loadAndAuth demo_server (demo_env 1) (demo_request ''secret'') ''m1'' (dir_of demo_row) = Inr (json_store, demo_row)"
    by (rule demo_auth) (simp_all add: demo_row_wf demo_row_sel)
  have d: "DecryptCreds (svAead demo_server) (svKey demo_server) ''twelve bytessealed'' = Inr (enc_creds demo_creds)"
    by (simp add: DecryptCreds_def demo_server_def json_server_def demo_key_def demo_aead_def nonce_size_def)
  have c: "dec_creds (enc_creds demo_creds) = Inr demo_creds"
    by (rule dec_enc_creds) (simp add: creds_wf_def demo_creds_def utf8_ascii byte_def)
  have g: "GetAdapter (svAdapters demo_server) ''fake'' = Inr demo_adapter"
    by (simp add: GetAdapter_def demo_server_def json_server_def demo_adapter_def demo_adapters_def RegisterAdapter_def)
  show ?thesis by (simp add: apply_load_def demo_id a demo_row_sel d c g demo_job_def)
qed

definition demo_claimed :: StoredMigration where
  "demo_claimed = demo_row\<lparr>smStatus := StatusApplying, smVersion := 2, smUpdatedAt := 1\<rparr>"

lemma demo_claimed_wf: "row_wf demo_claimed"
  using demo_row_wf by (simp add: row_wf_def demo_claimed_def utf8_ascii byte_def)

lemma demo_claim: "apply_claim (demo_env 1) demo_job (dir_of demo_row) = (Inr (demo_job\<lparr>ajRow := demo_claimed\<rparr>), dir_of demo_claimed)"
proof -
  let ?w = "demo_row\<lparr>smStatus := StatusApplying, smVersion := 2\<rparr>"
  have "js_Update (quiet 1) ?w (dir_of demo_row)
      = ((None, ?w\<lparr>smCreatedAt := smCreatedAt demo_row, smUpdatedAt := 1\<rparr>), dir_of (?w\<lparr>smCreatedAt := smCreatedAt demo_row, smUpdatedAt := 1\<rparr>))"
    by (rule dir_of_update) (simp_all add: demo_row_wf demo_row_sel time_json_ok_def)
  moreover have "?w\<lparr>smCreatedAt := smCreatedAt demo_row, smUpdatedAt := 1\<rparr> = demo_claimed" by (simp add: demo_claimed_def)
  ultimately show ?thesis
    by (simp add: apply_claim_def demo_job_def demo_row_sel json_store_def demo_env_def)
qed

definition demo_verified :: StoredMigration where
  "demo_verified = demo_claimed\<lparr>smStatus := StatusVerifying, smVersion := 3, smUpdatedAt := 2\<rparr>"

definition demo_summary :: VerifyTargetSummary where
  "demo_summary = VerifyAgainstNS demo_net [] [demo_rec]"

lemma demo_verify_load:
  "verify_load demo_server (demo_env 2) (demo_request ''secret'') (dir_of demo_claimed)
    = Inr (json_store, demo_claimed\<lparr>smStatus := StatusVerifying, smVersion := 3\<rparr>, demo_summary)"
proof -
  have a: "loadAndAuth demo_server (demo_env 2) (demo_request ''secret'') ''m1'' (dir_of demo_claimed) = Inr (json_store, demo_claimed)"
    by (rule demo_auth) (simp_all add: demo_claimed_wf, simp_all add: demo_claimed_def demo_row_sel)
  have s: "smStatus demo_claimed = StatusApplying" "smVersion demo_claimed = 2" "smTargetNameservers demo_claimed = []"
    "smPreviewRecords demo_claimed = [demo_rec]" by (simp_all add: demo_claimed_def demo_row_sel)
  have m: "VerifyAgainstNS (qeNet (demo_env 2)) [] [demo_rec] = demo_summary" by (simp add: demo_env_def demo_summary_def)
  have z: "vtsTotal demo_summary = 1" "vtsMatched demo_summary = 0"
    by (simp_all add: demo_summary_def VerifyAgainstNS_def verify_matched_iff served_def)
  show ?thesis by (simp add: verify_load_def demo_id a s m z verify_statuses_def Let_def)
qed

lemma demo_verify_update:
  "js_Update (quiet 2) (demo_claimed\<lparr>smStatus := StatusVerifying, smVersion := 3\<rparr>) (dir_of demo_claimed)
    = ((None, demo_verified), dir_of demo_verified)"
proof -
  let ?w = "demo_claimed\<lparr>smStatus := StatusVerifying, smVersion := 3\<rparr>"
  have "js_Update (quiet 2) ?w (dir_of demo_claimed)
      = ((None, ?w\<lparr>smCreatedAt := smCreatedAt demo_claimed, smUpdatedAt := 2\<rparr>), dir_of (?w\<lparr>smCreatedAt := smCreatedAt demo_claimed, smUpdatedAt := 2\<rparr>))"
    by (rule dir_of_update) (simp_all add: demo_claimed_wf, simp_all add: demo_claimed_def demo_row_sel time_json_ok_def)
  moreover have "?w\<lparr>smCreatedAt := smCreatedAt demo_claimed, smUpdatedAt := 2\<rparr> = demo_verified" by (simp add: demo_verified_def demo_claimed_def)
  ultimately show ?thesis by simp
qed

subsection \<open>One apply per migration\<close>

text \<open>Property C5. Requests may interleave in any order: along every run of the server from an empty store, no
  migration is claimed by two apply requests; every stored row lies under its id, and a row in the preview
  state has never been claimed. The bound on the number of steps keeps the 64-bit version from
  wrapping.\<close>

theorem apply_claims_once:
  assumes "reach (json_server key ttl A adapters providers) [] ps n s" and "n \<le> 2 ^ 63"
  shows "distinct (syClaims s) \<and> (\<forall>i q. js_rows (syStore s) i = Some q \<longrightarrow>
    smID q = i \<and> (smStatus q = StatusPreview \<longrightarrow> smVersion q = 1 \<and> i \<notin> set (syClaims s)))"
proof -
  have "api.sys_inv n s"
    by (rule api.reach_inv [OF assms(1) _ _ assms(2)]) (simp_all add: js_rows_def js_ver_def)
  then show ?thesis by (intro conjI allI impI) (blast dest: api.sys_inv_rows)+
qed

text \<open>The same for a server whose store is the SQLite backend.\<close>

theorem sql_apply_claims_once:
  assumes "reach (sql_server key ttl A adapters providers) DAList.empty ps n s" and "n \<le> 2 ^ 63"
  shows "distinct (syClaims s) \<and> (\<forall>i q. sq_rows (syStore s) i = Some q \<longrightarrow>
    smID q = i \<and> (smStatus q = StatusPreview \<longrightarrow> smVersion q = 1 \<and> i \<notin> set (syClaims s)))"
proof -
  have "sqlapi.sys_inv n s"
    by (rule sqlapi.reach_inv [OF assms(1) _ _ assms(2)]) (simp_all add: sq_rows_def sq_ver_def)
  then show ?thesis by (intro conjI allI impI) (blast dest: sqlapi.sys_inv_rows)+
qed

definition demo_run :: "(js_env, json_dir, fake_state) sys" where
  "demo_run = (sys_init [] fake_New)\<lparr>syStore := dir_of demo_claimed, syIDs := {''m1''},
     syWorking := [demo_job\<lparr>ajRow := demo_claimed\<rparr>], syClaims := [''m1'']\<rparr>"

lemma demo_reach: "reach demo_server [] fake_New 3 demo_run"
proof -
  let ?s0 = "sys_init [] fake_New :: (js_env, json_dir, fake_state) sys"
  let ?s1 = "?s0\<lparr>syStore := dir_of demo_row, syIDs := insert (qeNewID (demo_env 0)) (syIDs ?s0)\<rparr>"
  let ?s2 = "?s1\<lparr>syLoaded := demo_job # syLoaded ?s1\<rparr>"
  let ?s3 = "?s2\<lparr>syStore := dir_of demo_claimed, syLoaded := [] @ [], syWorking := demo_job\<lparr>ajRow := demo_claimed\<rparr> # syWorking ?s2,
      syClaims := smID (ajRow demo_job) # syClaims ?s2\<rparr>"
  have "sys_step demo_server ?s0 ?s1"
    by (rule sys_step.preview [OF demo_prepare])
      (simp_all add: sys_init_def demo_env_def utf8_ascii byte_def demo_preview [unfolded demo_env_def])
  moreover have "sys_step demo_server ?s1 ?s2"
    by (rule sys_step.load [of _ "demo_env 1" "demo_request ''secret''"]) (simp add: demo_load)
  moreover have "sys_step demo_server ?s2 ?s3"
    by (rule sys_step.claim [of _ _ _ _ "demo_env 1"]) (simp_all add: sys_init_def demo_claim)
  ultimately have "reach demo_server [] fake_New (Suc (Suc (Suc 0))) ?s3"
    by (blast intro: reach.intros)
  moreover have "?s3 = demo_run" by (simp add: demo_run_def sys_init_def demo_env_def demo_job_def demo_row_sel)
  ultimately show ?thesis by (simp add: numeral_3_eq_3)
qed

lemma apply_claims_once_witness: "distinct (syClaims demo_run) \<and> syClaims demo_run = [''m1'']"
  using apply_claims_once [OF demo_reach [unfolded demo_server_def]] by (simp add: demo_run_def)

subsection \<open>Access\<close>

lemma loadAndAuth_refused: "loadAndAuth srv E r i st = Inl res \<Longrightarrow> rpStatus res \<in> {400, 401, 404, 410, 500}"
  by (auto simp: loadAndAuth_def internal_def writeError_def Let_def split: if_splits option.splits sum.splits store_error.splits)

text \<open>Property C9. A request whose bearer token is not that of the row it names is refused by every endpoint in the
  same way, and neither the store nor the target provider changes.\<close>

theorem wrong_token_no_effect:
  fixes adapters :: "'s adapters"
  assumes "js_rows st (extractPathID (rqPath r)) = Some row" and "extractBearer r \<noteq> smAccessToken row"
    and srv: "srv = json_server key ttl A adapters providers"
  shows "\<exists>res. rpStatus res \<in> {400, 401, 404, 410, 500} \<and> handleMigrateApply srv E r (st, ps) = (res, st, ps)
    \<and> handleMigrateVerify srv E r st = (res, st) \<and> handleMigrateDelete srv E r st = (res, st) \<and> handleMigrateGet srv E r st = res"
proof -
  from api.wrong_token [OF assms(1,2)] srv obtain res
    where l: "loadAndAuth srv E r (extractPathID (rqPath r)) st = Inl res" by blast
  from loadAndAuth_refused [OF l] l show ?thesis
    by (simp add: handleMigrateApply_def apply_load_def handleMigrateVerify_def verify_load_def handleMigrateDelete_def handleMigrateGet_def)
qed

lemma wrong_token_no_effect_witness:
  "\<exists>res. rpStatus res \<in> {400, 401, 404, 410, 500}
    \<and> handleMigrateApply demo_server (demo_env 1) (demo_request ''guess'') (dir_of demo_row, fake_New) = (res, dir_of demo_row, fake_New)"
proof -
  have "extractBearer (demo_request ''guess'') = ''guess''" unfolding demo_request_def by code_simp
  moreover have "js_rows (dir_of demo_row) ''m1'' = Some demo_row"
    using dir_of_rows [OF demo_row_wf] by (simp add: demo_row_sel)
  ultimately show ?thesis
    using wrong_token_no_effect [of "dir_of demo_row" "demo_request ''guess''" demo_row demo_server demo_key 0 demo_aead
        demo_adapters demo_providers "demo_env 1" "fake_New"]
    by (auto simp: demo_id demo_row_sel demo_server_def)
qed

subsection \<open>A verification during an apply\<close>

text \<open>Property C10. A verify request that is stored while an apply is at work makes the apply lose its results: its
  last update is refused, the client gets an error, and the directory keeps the row without the results,
  although the records have been written at the provider.\<close>

theorem apply_overtaken_by_verify:
  fixes adapters :: "'s adapters"
  assumes "apply_claim E job st = (Inr job1, st1)" and "ajStore job = json_store"
    and "apply_work (json_server key ttl A adapters providers) E job1 ps = ((None, row), ps1)"
    and "verify_load (json_server key ttl A adapters providers) E' r st1 = Inr (S', vrow, summary)"
    and "extractPathID (rqPath r) = smID (ajRow job)"
    and "js_Update (qeFinish E') vrow st1 = ((None, v'), st2)"
    and "\<forall>i q. js_rows st1 i = Some q \<longrightarrow> smID q = i"
  shows "\<exists>res. apply_finish E json_store None row st2 = (res, st2) \<and> rpStatus res \<noteq> 200"
proof -
  from api.overtaken [OF assms(1-5)] assms(6,7) obtain e m' st3
    where u: "js_Update (qeFinish E) (row\<lparr>smVersion := smVersion row + 1\<rparr>) st2 = ((Some e, m'), st3)"
    by (auto simp: json.keyed_def json_store_def)
  from js_Update_err [OF u] have "st3 = st2" .
  with u show ?thesis by (simp add: apply_finish_def json_store_def conflict_or_def internal_def writeError_def)
qed

lemma demo_work:
  "\<exists>row ps. apply_work demo_server (demo_env 1) (demo_job\<lparr>ajRow := demo_claimed\<rparr>) fake_New = ((None, row), ps)"
proof -
  have P: "NewProvider (svProviders demo_server) ''fake'' c = Inr fake_ops" for c
    by (simp add: NewProvider_def demo_server_def json_server_def demo_providers_def RegisterProvider_def)
  have A: "demo_adapter d opts ps = (Inr \<lparr>ziZoneID = ''z'', ziNameservers = [], ziCreated = True\<rparr>, ps)" for d opts ps
    by (simp add: demo_adapter_def demo_adapters_def RegisterAdapter_def)
  have "smTargetSlug demo_claimed = ''fake''" by (simp add: demo_claimed_def demo_row_sel)
  with P A show ?thesis by (auto simp: apply_work_def demo_job_def Let_def split: prod.splits)
qed

lemma apply_overtaken_by_verify_witness:
  "\<exists>res row ps. apply_work demo_server (demo_env 1) (demo_job\<lparr>ajRow := demo_claimed\<rparr>) fake_New = ((None, row), ps)
    \<and> apply_finish (demo_env 1) json_store None row (dir_of demo_verified) = (res, dir_of demo_verified) \<and> rpStatus res \<noteq> 200"
proof -
  obtain row ps where w: "apply_work demo_server (demo_env 1) (demo_job\<lparr>ajRow := demo_claimed\<rparr>) fake_New = ((None, row), ps)"
    using demo_work by blast
  have k: "\<forall>i q. js_rows (dir_of demo_claimed) i = Some q \<longrightarrow> smID q = i"
    using dir_of_rows [OF demo_claimed_wf] by (auto simp: js_rows_def dir_of_def split: if_splits option.splits sum.splits)
  have u: "js_Update (qeFinish (demo_env 2)) (demo_claimed\<lparr>smStatus := StatusVerifying, smVersion := 3\<rparr>) (dir_of demo_claimed)
    = ((None, demo_verified), dir_of demo_verified)"
    using demo_verify_update by (simp add: demo_env_def)
  have i: "extractPathID (rqPath (demo_request ''secret'')) = smID (ajRow demo_job)"
    by (simp add: demo_id demo_job_def demo_row_sel)
  have j: "ajStore demo_job = json_store" by (simp add: demo_job_def)
  from apply_overtaken_by_verify [OF demo_claim j w [unfolded demo_server_def] demo_verify_load [unfolded demo_server_def] i u k] w
  show ?thesis by blast
qed

subsection \<open>Secrets in answers\<close>

lemma dec_row_redacted:
  assumes "enc_row (redactCreds m) = Inr j" and "dec_row j = Inr q"
  shows "smAccessToken q = [] \<and> smCredentialBlob q = []"
proof -
  have "j = JObj (row_fields (redactCreds m))" using assms(1) by (simp add: enc_row_def split: if_splits)
  with assms(2) have "dec_row (JObj (row_fields (redactCreds m))) = Inr q" by simp
  moreover have "utf8_fix [] = []" using utf8_ok_Nil by (simp add: utf8_ok_def)
  ultimately show ?thesis by (auto simp: dec_row_fields bindE_Inr_iff redactCreds_def)
qed

text \<open>Property C11. No row in an answer of the get and list endpoints carries an access token or the encrypted
  credentials, whatever the store holds.\<close>

theorem answers_hide_secrets:
  assumes "rpBody (handleMigrateGet srv E r st) = Some (JObj [okk, sv, (''data'', j)])
      \<or> (\<exists>js. rpBody (handleMigrateList srv E tenant status st) = Some (JObj [okk, sv, (''data'', JArr js)]) \<and> j \<in> set js)"
    and "dec_row j = Inr q"
  shows "smAccessToken q = [] \<and> smCredentialBlob q = []"
proof -
  have "\<exists>m. enc_row (redactCreds m) = Inr j"
    using assms(1)
  proof (elim disjE exE conjE)
    assume "rpBody (handleMigrateGet srv E r st) = Some (JObj [okk, sv, (''data'', j)])"
    then show ?thesis
      by (auto simp: handleMigrateGet_def writeJSON_enc_def writeJSON_def loadAndAuth_def internal_def writeError_def Let_def
          split: sum.splits prod.splits option.splits if_splits store_error.splits)
  next
    fix js assume "rpBody (handleMigrateList srv E tenant status st) = Some (JObj [okk, sv, (''data'', JArr js)])" and "j \<in> set js"
    then obtain rows where rows: "mapE enc_row (map redactCreds rows) = Inr js"
      by (auto simp: handleMigrateList_def writeJSON_enc_def writeJSON_def internal_def writeError_def bindE_Inr_iff
          split: sum.splits option.splits)
    from mapE_in_set [OF rows \<open>j \<in> set js\<close>] show ?thesis by auto
  qed
  with assms(2) show ?thesis by (blast dest: dec_row_redacted)
qed

lemma answers_hide_secrets_witness:
  "\<exists>okk sv j q. rpBody (handleMigrateGet demo_server (demo_env 1) (demo_request ''secret'') (dir_of demo_row)) = Some (JObj [okk, sv, (''data'', j)])
    \<and> dec_row j = Inr q \<and> smAccessToken q = [] \<and> smCredentialBlob q = []"
proof -
  let ?m = "redactCreds demo_row"
  have "loadAndAuth demo_server (demo_env 1) (demo_request ''secret'') ''m1'' (dir_of demo_row) = Inr (json_store, demo_row)"
    by (rule demo_auth) (simp_all add: demo_row_wf demo_row_sel)
  moreover have "enc_row ?m = Inr (JObj (row_fields ?m))"
    by (simp add: enc_row_def redactCreds_def demo_row_sel time_json_ok_def)
  ultimately have b: "rpBody (handleMigrateGet demo_server (demo_env 1) (demo_request ''secret'') (dir_of demo_row))
      = Some (JObj [(''ok'', JBool True), (''schema_version'', JNum 1), (''data'', JObj (row_fields ?m))])"
    by (simp add: handleMigrateGet_def demo_id writeJSON_enc_def writeJSON_def)
  have "row_wf ?m" using demo_row_wf by (simp add: row_wf_def redactCreds_def)
  then have d: "dec_row (JObj (row_fields ?m)) = Inr ?m" by (rule dec_enc_row)
  from answers_hide_secrets [OF disjI1 [OF b] d] b d show ?thesis by blast
qed

end
