(* ===== verification/Go_Path.thy ===== *)
theory Go_Path
  imports Go_Strings
begin

text \<open>
  Paths of \<open>path/filepath\<close> on Unix: the segments a path has after cleaning, \<open>Clean\<close>, and \<open>Join\<close>, with the
  facts the caches and state directories rest on.
\<close>

definition rooted :: "string \<Rightarrow> bool" where
  "rooted p \<longleftrightarrow> p \<noteq> [] \<and> hd p = CHR ''/''"

text \<open>The segments read so far are kept in reverse: a parent segment takes the last one away, unless
  there is none that can be taken away.\<close>

fun clean_segs :: "bool \<Rightarrow> string list \<Rightarrow> string list \<Rightarrow> string list" where
  "clean_segs r acc [] = acc"
| "clean_segs r acc (w # ws) =
     (if w = [] \<or> w = ''.'' then clean_segs r acc ws
      else if w = ''..'' then
        (case acc of
           [] \<Rightarrow> clean_segs r (if r then [] else [w]) ws
         | a # as \<Rightarrow> clean_segs r (if a = ''..'' then w # acc else as) ws)
      else clean_segs r (w # acc) ws)"

definition path_segs :: "string \<Rightarrow> string list" where
  "path_segs p = rev (clean_segs (rooted p) [] (Split p CHR ''/''))"

definition path_Clean :: "string \<Rightarrow> string" where
  "path_Clean p =
     (let out = Join (path_segs p) ''/'' in
      if rooted p then CHR ''/'' # out else if out = [] then ''.'' else out)"

definition path_Join :: "string list \<Rightarrow> string" where
  "path_Join es = (case dropWhile (\<lambda>e. e = []) es of [] \<Rightarrow> [] | es' \<Rightarrow> path_Clean (Join es' ''/''))"

definition plain_seg :: "string \<Rightarrow> bool" where
  "plain_seg w \<longleftrightarrow> w \<noteq> [] \<and> w \<noteq> ''.'' \<and> w \<noteq> ''..'' \<and> CHR ''/'' \<notin> set w"

lemma clean_segs_append: "clean_segs r acc (ws @ vs) = clean_segs r (clean_segs r acc ws) vs"
  by (induction r acc ws rule: clean_segs.induct) (auto split: list.splits)

lemma clean_segs_plain: "list_all plain_seg ws \<Longrightarrow> clean_segs r acc ws = rev ws @ acc"
  by (induction ws arbitrary: acc) (auto simp: plain_seg_def)

text \<open>What is left is parent segments, none in a rooted path, followed by plain segments.\<close>

definition segs_ok :: "bool \<Rightarrow> string list \<Rightarrow> bool" where
  "segs_ok r acc \<longleftrightarrow> (\<exists>k ws. acc = ws @ replicate k ''..'' \<and> (r \<longrightarrow> k = 0) \<and> list_all plain_seg ws)"

lemma segs_ok_Nil [simp]: "segs_ok r []"
  unfolding segs_ok_def by (rule exI [of _ 0], rule exI [of _ "[]"]) simp

lemma segs_ok_plain: "segs_ok r acc \<Longrightarrow> plain_seg w \<Longrightarrow> segs_ok r (w # acc)"
  unfolding segs_ok_def by (metis append_Cons list.pred_inject(2))

lemma segs_ok_parent:
  assumes "segs_ok r acc"
  shows "segs_ok r (case acc of [] \<Rightarrow> if r then [] else [''..''] | a # as \<Rightarrow> if a = ''..'' then ''..'' # acc else as)"
proof -
  from assms obtain k ws where a: "acc = ws @ replicate k ''..''" "r \<longrightarrow> k = 0" "list_all plain_seg ws"
    by (auto simp: segs_ok_def)
  show ?thesis
  proof (cases ws)
    case Nil
    then show ?thesis
    proof (cases r)
      case False
      have "(case acc of [] \<Rightarrow> if r then [] else [''..''] | x # as \<Rightarrow> if x = ''..'' then ''..'' # acc else as) = replicate (Suc k) ''..''"
        using a Nil False by (cases k) auto
      then show ?thesis using False by (auto simp: segs_ok_def intro!: exI [of _ "Suc k"])
    qed (use a in auto)
  next
    case (Cons w vs)
    then have "w \<noteq> ''..''" using a(3) by (auto simp: plain_seg_def)
    with Cons a show ?thesis by (auto simp: segs_ok_def)
  qed
qed

lemma clean_segs_ok:
  "segs_ok r acc \<Longrightarrow> \<forall>w \<in> set ws. CHR ''/'' \<notin> set w \<Longrightarrow> segs_ok r (clean_segs r acc ws)"
proof (induction ws arbitrary: acc)
  case (Cons w ws)
  then have rest: "segs_ok r a \<Longrightarrow> segs_ok r (clean_segs r a ws)" for a by simp
  consider "w = [] \<or> w = ''.''" | "w = ''..''" | "w \<notin> {[], ''.'', ''..''}" by blast
  then show ?case
  proof cases
    case 2
    with rest [OF segs_ok_parent [OF Cons.prems(1)]] show ?thesis by (cases acc) auto
  next
    case 3
    then have "plain_seg w" using Cons.prems(2) by (auto simp: plain_seg_def)
    with 3 rest [OF segs_ok_plain [OF Cons.prems(1)]] show ?thesis by auto
  qed (use rest [OF Cons.prems(1)] in auto)
qed simp

lemma path_segs_ok: "segs_ok (rooted p) (rev (path_segs p))"
  unfolding path_segs_def rev_rev_ident by (rule clean_segs_ok) (auto dest: Split_no_sep)

lemma path_segs_noslash: "w \<in> set (path_segs p) \<Longrightarrow> CHR ''/'' \<notin> set w \<and> w \<noteq> []"
proof -
  assume w: "w \<in> set (path_segs p)"
  from path_segs_ok [of p, unfolded segs_ok_def] obtain k ws
    where a: "rev (path_segs p) = ws @ replicate k ''..''" "list_all plain_seg ws" by (elim exE conjE)
  have "w \<in> set (rev (path_segs p))" using w by simp
  then have "w \<in> set (ws @ replicate k ''..'')" unfolding a(1) .
  then consider "w \<in> set ws" | "w = ''..''" by (auto simp: in_set_replicate)
  then show ?thesis using a(2) by cases (auto simp: list_all_iff plain_seg_def)
qed

lemma clean_segs_fix: "segs_ok r (rev ss) \<Longrightarrow> clean_segs r [] ss = rev ss"
proof -
  assume "segs_ok r (rev ss)"
  then obtain k ws where a: "rev ss = ws @ replicate k ''..''" "r \<longrightarrow> k = 0" "list_all plain_seg ws" by (auto simp: segs_ok_def)
  then have ss: "ss = replicate k ''..'' @ rev ws" by (metis rev_append rev_replicate rev_rev_ident)
  have up: "\<not> r \<Longrightarrow> clean_segs r (replicate j ''..'') (replicate n ''..'') = replicate (n + j) ''..''" for j n
  proof (induction n arbitrary: j)
    case (Suc n)
    from Suc.IH [of "Suc j"] Suc.prems show ?case by (cases j) auto
  qed simp
  have "clean_segs r [] (replicate k ''..'') = replicate k ''..''" using a(2) up [of 0 k] by (cases r) auto
  with a(3) show ?thesis by (simp add: ss clean_segs_append clean_segs_plain)
qed

text \<open>Cleaning keeps the segments, so it is idempotent.\<close>

lemma Join_hd: "ws \<noteq> [] \<Longrightarrow> hd ws \<noteq> [] \<Longrightarrow> hd (Join ws sep) = hd (hd ws) \<and> Join ws sep \<noteq> []"
  by (cases ws; cases "tl ws") auto

lemma path_Clean_segs: "path_segs (path_Clean p) = path_segs p \<and> rooted (path_Clean p) = rooted p"
proof (cases "path_segs p = []")
  case True
  then show ?thesis by (cases "rooted p") (auto simp: path_Clean_def path_segs_def rooted_def Split_def)
next
  case False
  let ?ss = "path_segs p" and ?out = "Join (path_segs p) ''/''"
  have sp: "Split ?out CHR ''/'' = ?ss" by (rule Split_Join [OF False]) (auto dest: path_segs_noslash)
  have "CHR ''/'' \<notin> set (hd ?ss)" "hd ?ss \<noteq> []" using False path_segs_noslash [of "hd ?ss" p] by auto
  then have hd: "hd ?out \<noteq> CHR ''/'' \<and> ?out \<noteq> []" using Join_hd [OF False, of "''/''"] by (metis hd_in_set)
  have fixd: "rev (clean_segs (rooted p) [] ?ss) = ?ss" by (simp add: clean_segs_fix [OF path_segs_ok])
  have r: "rooted (path_Clean p) = rooted p" using hd by (auto simp: path_Clean_def Let_def rooted_def)
  have "clean_segs (rooted p) [] (Split (path_Clean p) CHR ''/'') = clean_segs (rooted p) [] ?ss"
    using hd sp by (auto simp: path_Clean_def Let_def Split_def)
  with r fixd show ?thesis unfolding path_segs_def [of "path_Clean p"] by simp
qed

lemma path_Clean_idem: "path_Clean (path_Clean p) = path_Clean p"
  using path_Clean_segs [of p] unfolding path_Clean_def [of "path_Clean p"] by (simp add: path_Clean_def Let_def)

text \<open>Joining plain names to a directory appends them to its segments.\<close>

lemma Split_joined: "ws \<noteq> [] \<Longrightarrow> Split (Join ws [c]) c = concat (map (\<lambda>w. Split w c) ws)"
proof (induction ws)
  case (Cons w ws)
  then show ?case by (cases "ws = []") (auto simp: Join_Cons Split_append)
qed simp

lemma clean_segs_drop: "clean_segs r [] (concat (map (\<lambda>w. Split w c) (dropWhile (\<lambda>e. e = []) es)))
  = clean_segs r [] (concat (map (\<lambda>w. Split w c) es))"
  by (induction es) (auto simp: Split_def)

lemma path_Join_segs:
  assumes "\<exists>e \<in> set es. e \<noteq> []"
  shows "path_segs (path_Join es) = rev (clean_segs (rooted (path_Join es)) [] (concat (map (\<lambda>w. Split w CHR ''/'') es)))"
    and "rooted (path_Join es) \<longleftrightarrow> rooted (hd (dropWhile (\<lambda>e. e = []) es))"
proof -
  let ?es = "dropWhile (\<lambda>e. e = []) es"
  have ne: "?es \<noteq> []" using assms by auto
  then obtain x y where es: "?es = x # y" unfolding neq_Nil_conv by (elim exE)
  have j: "path_Join es = path_Clean (Join ?es ''/'')" by (simp only: path_Join_def es list.case)
  have h: "hd ?es \<noteq> []" using hd_dropWhile [OF ne] .
  then have "rooted (Join ?es ''/'') = rooted (hd ?es)" using Join_hd [OF ne h, of "''/''"] by (simp add: rooted_def)
  then show "rooted (path_Join es) \<longleftrightarrow> rooted (hd ?es)" by (simp add: j path_Clean_segs)
  show "path_segs (path_Join es) = rev (clean_segs (rooted (path_Join es)) [] (concat (map (\<lambda>w. Split w CHR ''/'') es)))"
    unfolding j path_Clean_segs [THEN conjunct1] path_Clean_segs [THEN conjunct2]
    by (simp add: path_segs_def Split_joined [OF ne] clean_segs_drop)
qed

lemma path_Join_below:
  assumes "list_all plain_seg rel" and "dir \<noteq> []"
  shows "path_segs (path_Join (dir # rel)) = path_segs dir @ rel \<and> rooted (path_Join (dir # rel)) = rooted dir"
proof -
  have "concat (map (\<lambda>w. Split w CHR ''/'') rel) = rel"
    using assms(1) by (induction rel) (auto simp: plain_seg_def Split_id)
  with assms path_Join_segs [of "dir # rel"] show ?thesis
    by (simp add: clean_segs_append clean_segs_plain path_segs_def)
qed

lemma path_Join_nonempty: "\<exists>e \<in> set es. e \<noteq> [] \<Longrightarrow> path_Join es \<noteq> []"
  by (auto simp: path_Join_def path_Clean_def Let_def split: list.split)

text \<open>A rooted path of plain names is clean.\<close>

lemma path_segs_rooted: "path_segs (CHR ''/'' # Join ws ''/'') = ws" if "list_all plain_seg ws" and "ws \<noteq> []"
proof -
  have "Split (Join ws ''/'') CHR ''/'' = ws" using that by (intro Split_Join) (auto simp: list_all_iff plain_seg_def)
  then have "Split (CHR ''/'' # Join ws ''/'') CHR ''/'' = [] # ws" by (simp add: Split_def)
  then show ?thesis using that(1) by (simp add: path_segs_def rooted_def clean_segs_plain)
qed

lemma path_Clean_rooted: "list_all plain_seg ws \<Longrightarrow> ws \<noteq> [] \<Longrightarrow> path_Clean (CHR ''/'' # Join ws ''/'') = CHR ''/'' # Join ws ''/''"
  by (simp add: path_Clean_def path_segs_rooted rooted_def)

end
