(* ===== verification/Template_Sync.thy ===== *)
theory Template_Sync
  imports Template_Types Go_Path "HOL-Library.List_Lexorder"
begin

text \<open>
  The cache of templates (\<open>template/sync.go\<close>): syncing a clone of the template repository, loading one
  template and listing all. The cache is explicit state: whether it is a clone, the time of the last
  sync, and the files, each the result of decoding it. Git and the file system are the fields of
  \<open>sync_env\<close>. A time to live of zero always syncs, a negative one never does.
\<close>

record template_file =
  tfTemplate :: "string + Template"
  tfHead :: "(string \<times> string \<times> string \<times> string) option"

record tcache =
  tcClone :: bool
  tcSentinel :: "int option"
  tcFiles :: "(string \<times> template_file) list"

record sync_env =
  syNow :: int
  syMkdirParent :: "string option"
  syStat :: "string option"
  syMkdir :: "string option"
  syCloneRepo :: "string \<Rightarrow> string + (string \<times> template_file) list"
  syOpen :: "string option"
  syWorktree :: "string option"
  syPull :: "string + (string \<times> template_file) list option"
  sySentinel :: bool
  syWalk :: "string option"
  syDefaultDir :: "string + string"

record syncConfig =
  scCacheDir :: string
  scTtl :: int
  scRepoURL :: string

definition defaultRepoURL :: string where
  "defaultRepoURL = ''https://github.com/Domain-Connect/Templates.git''"

definition defaultTTL :: int where
  "defaultTTL = 24 * 3600 * 10 ^ 9"

text \<open>The options are functions on the configuration, applied in order.\<close>

definition resolveConfig :: "sync_env \<Rightarrow> (syncConfig \<Rightarrow> syncConfig) list \<Rightarrow> string + syncConfig" where
  "resolveConfig E opts =
     (let cfg = fold (\<lambda>f c. f c) opts \<lparr>scCacheDir = [], scTtl = defaultTTL, scRepoURL = defaultRepoURL\<rparr> in
      if scCacheDir cfg \<noteq> [] then Inr cfg
      else bindE (mapErr (\<lambda>e. ''resolve cache dir: '' @ e) (syDefaultDir E)) (\<lambda>d. Inr (cfg\<lparr>scCacheDir := d\<rparr>)))"

definition defaultCacheDir :: "(string \<Rightarrow> string) \<Rightarrow> string + string \<Rightarrow> string + string" where
  "defaultCacheDir getenv userCache =
     (if getenv ''XDG_CACHE_HOME'' \<noteq> [] then Inr (path_Join [getenv ''XDG_CACHE_HOME'', ''dns-entree'', ''templates''])
      else bindE userCache (\<lambda>base. Inr (path_Join [base, ''dns-entree'', ''templates''])))"

definition WithCacheDir :: "string \<Rightarrow> syncConfig \<Rightarrow> syncConfig" where
  "WithCacheDir d c = c\<lparr>scCacheDir := d\<rparr>"

definition WithCacheTTL :: "int \<Rightarrow> syncConfig \<Rightarrow> syncConfig" where
  "WithCacheTTL t c = c\<lparr>scTtl := t\<rparr>"

definition sync_config :: "sync_env \<Rightarrow> syncConfig \<Rightarrow> tcache \<Rightarrow> string option \<times> tcache" where
  "sync_config E cfg s =
     (let touch = (\<lambda>s. if sySentinel E then s\<lparr>tcSentinel := Some (syNow E)\<rparr> else s) in
      case syMkdirParent E of
        Some e \<Rightarrow> (Some (''mkdir parent: '' @ e), s)
      | None \<Rightarrow>
        (case syStat E of
           Some e \<Rightarrow> (Some (''stat .git: '' @ e), s)
         | None \<Rightarrow>
           if \<not> tcClone s then
             (case syMkdir E of
                Some e \<Rightarrow> (Some (''mkdir cache: '' @ e), s)
              | None \<Rightarrow>
                (case syCloneRepo E (scRepoURL cfg) of
                   Inl e \<Rightarrow> (Some (''clone: '' @ e), s)
                 | Inr files \<Rightarrow> (None, touch (s\<lparr>tcClone := True, tcFiles := files\<rparr>))))
           else
             (case syOpen E of
                Some e \<Rightarrow> (Some (''open repo: '' @ e), s)
              | None \<Rightarrow>
                (case syWorktree E of
                   Some e \<Rightarrow> (Some (''worktree: '' @ e), s)
                 | None \<Rightarrow>
                   (case syPull E of
                      Inl e \<Rightarrow> (Some (''pull: '' @ e), s)
                    | Inr None \<Rightarrow> (None, touch s)
                    | Inr (Some files) \<Rightarrow> (None, touch (s\<lparr>tcFiles := files\<rparr>)))))))"

definition SyncTemplates :: "sync_env \<Rightarrow> (syncConfig \<Rightarrow> syncConfig) list \<Rightarrow> tcache \<Rightarrow> string option \<times> tcache" where
  "SyncTemplates E opts s =
     (case resolveConfig E opts of Inl e \<Rightarrow> (Some e, s) | Inr cfg \<Rightarrow> sync_config E cfg s)"

definition validateID :: "string \<Rightarrow> string option" where
  "validateID i =
     (if i = [] then Some ''empty''
      else if ContainsAny i [CHR ''/'', char_of (92 :: nat)] \<or> Contains i ''..'' then Some ''invalid characters''
      else None)"

definition cacheStale :: "sync_env \<Rightarrow> int \<Rightarrow> tcache \<Rightarrow> bool" where
  "cacheStale E ttl s =
     (if ttl < 0 then False
      else if ttl = 0 then True
      else case tcSentinel s of None \<Rightarrow> True | Some t \<Rightarrow> ttl < syNow E - t)"

definition template_path :: "string \<Rightarrow> string \<Rightarrow> string \<Rightarrow> string" where
  "template_path dir provider service = path_Join [dir, provider, provider @ ''.'' @ service @ ''.json'']"

definition LoadTemplate ::
  "sync_env \<Rightarrow> (syncConfig \<Rightarrow> syncConfig) list \<Rightarrow> string \<Rightarrow> string \<Rightarrow> tcache \<Rightarrow> (string + Template) \<times> tcache" where
  "LoadTemplate E opts provider service s =
     (case validateID provider of
        Some e \<Rightarrow> (Inl (''providerID: '' @ e), s)
      | None \<Rightarrow>
        (case validateID service of
           Some e \<Rightarrow> (Inl (''serviceID: '' @ e), s)
         | None \<Rightarrow>
           (case resolveConfig E opts of
              Inl e \<Rightarrow> (Inl e, s)
            | Inr cfg \<Rightarrow>
              (case (if cacheStale E (scTtl cfg) s then SyncTemplates E opts s else (None, s)) of
                 (Some e, s') \<Rightarrow> (Inl (''auto-sync: '' @ e), s')
               | (None, s') \<Rightarrow>
                 (case map_of (tcFiles s') (template_path (scCacheDir cfg) provider service) of
                    None \<Rightarrow> (Inl ''read template file'', s')
                  | Some f \<Rightarrow> (tfTemplate f, s'))))))"

record TemplateSummary =
  tsProviderID :: string
  tsServiceID :: string
  tsProviderName :: string
  tsServiceName :: string
  tsPath :: string

text \<open>One file of the walk, which does not enter a directory named \<open>.git\<close>.\<close>

definition list_file :: "string \<times> template_file \<Rightarrow> TemplateSummary list" where
  "list_file pf =
     (case pf of (path, f) \<Rightarrow>
       if ''.git'' \<in> set (butlast (Split path CHR ''/'')) \<or> \<not> HasSuffix path ''.json'' then []
       else case tfHead f of
         None \<Rightarrow> []
       | Some (pid, sid, pname, sname) \<Rightarrow>
           if pid = [] \<and> sid = [] then []
           else [\<lparr>tsProviderID = pid, tsServiceID = sid, tsProviderName = pname, tsServiceName = sname, tsPath = path\<rparr>])"

definition ListTemplates :: "sync_env \<Rightarrow> (syncConfig \<Rightarrow> syncConfig) list \<Rightarrow> tcache \<Rightarrow> string + TemplateSummary list" where
  "ListTemplates E opts s =
     bindE (resolveConfig E opts) (\<lambda>cfg.
     case syWalk E of
       Some e \<Rightarrow> Inl e
     | None \<Rightarrow> Inr (sort_key tsProviderID (sort_key tsServiceID (concat (map list_file (sort_key fst (tcFiles s)))))))"

subsection \<open>Properties\<close>

lemma validateID_clean:
  assumes "validateID i = None"
  shows "i \<noteq> []" "CHR ''/'' \<notin> set i" "\<not> Contains i ''..''"
  using assms by (auto simp: validateID_def ContainsAny_def list_ex_iff split: if_splits)

lemma validateID_path:
  assumes "validateID provider = None" and "validateID service = None"
  shows "\<exists>rel. rel \<noteq> [] \<and> list_all plain_seg rel \<and> path_segs (template_path dir provider service) = path_segs dir @ rel"
proof -
  let ?file = "provider @ ''.'' @ service @ ''.json''" and ?p = "template_path dir provider service"
  have nm: "plain_seg ?file" using validateID_clean [OF assms(1)] validateID_clean [OF assms(2)]
    by (auto simp: plain_seg_def append_eq_Cons_conv)
  have prov: "provider = ''.'' \<or> plain_seg provider"
    using validateID_clean [OF assms(1)] by (auto simp: plain_seg_def Contains_sublist)
  have sp: "Split provider CHR ''/'' = [provider]" "Split ?file CHR ''/'' = [?file]"
    using validateID_clean(2) [OF assms(1)] nm unfolding plain_seg_def by (blast intro: Split_id)+
  have ne: "\<exists>e \<in> set [dir, provider, ?file]. e \<noteq> []" by simp
  have hd: "hd provider \<noteq> CHR ''/''" using validateID_clean(1,2) [OF assms(1)] by (metis hd_in_set)
  have r: "rooted ?p \<longleftrightarrow> rooted dir" using path_Join_segs(2) [OF ne] validateID_clean(1) [OF assms(1)] hd
    by (cases "dir = []") (auto simp: template_path_def rooted_def)
  have "path_segs ?p = path_segs dir @ rev (clean_segs (rooted dir) [] [provider, ?file])"
    if "provider \<noteq> ''..''" using path_Join_segs(1) [OF ne] nm prov r that sp
    by (auto simp: template_path_def path_segs_def clean_segs_append plain_seg_def)
  moreover have "provider \<noteq> ''..''" using prov by (auto simp: plain_seg_def)
  moreover have "rev (clean_segs (rooted dir) [] [provider, ?file]) = (if provider = ''.'' then [?file] else [provider, ?file])"
    using prov nm by (auto simp: plain_seg_def)
  ultimately show ?thesis using prov nm by (cases "provider = ''.''") auto
qed

text \<open>Property C24. Loading a template reads one file, and that file lies in the cache: its cleaned path is the cache
  directory's followed by plain names, none of them a parent directory.\<close>

theorem LoadTemplate_in_cache:
  assumes "LoadTemplate E opts provider service s = (Inr tpl, s')"
  shows "\<exists>cfg path f rel. resolveConfig E opts = Inr cfg
    \<and> map_of (tcFiles s') path = Some f \<and> tfTemplate f = Inr tpl
    \<and> path_segs path = path_segs (scCacheDir cfg) @ rel \<and> rel \<noteq> [] \<and> list_all plain_seg rel"
proof -
  obtain cfg f where v: "validateID provider = None" "validateID service = None" and cfg: "resolveConfig E opts = Inr cfg"
    and f: "map_of (tcFiles s') (template_path (scCacheDir cfg) provider service) = Some f" "tfTemplate f = Inr tpl"
    using assms by (auto simp: LoadTemplate_def split: option.splits sum.splits prod.splits if_splits)
  from cfg f validateID_path [OF v] show ?thesis by blast
qed

definition cache_env :: sync_env where
  "cache_env = \<lparr>syNow = 0, syMkdirParent = None, syStat = None, syMkdir = None, syCloneRepo = (\<lambda>_. Inl ''offline''), syOpen = None,
     syWorktree = None, syPull = Inl ''offline'', sySentinel = True, syWalk = None, syDefaultDir = Inr ''/cache''\<rparr>"

definition demo_file :: "Template \<Rightarrow> template_file" where
  "demo_file t = \<lparr>tfTemplate = Inr t, tfHead = None\<rparr>"

definition cached_template :: Template where
  "cached_template = \<lparr>tplProviderID = ''p'', tplProviderName = [], tplServiceID = ''s'', tplServiceName = [], tplVersion = 1,
     tplLogoURL = [], tplDescription = [], tplVariableDescription = [], tplSyncPubKeyDomain = [], tplSyncRedirectDomain = [],
     tplMultiInstance = False, tplHostRequired = False, tplRecords = []\<rparr>"

lemma LoadTemplate_in_cache_witness:
  "\<exists>cfg path f rel. resolveConfig cache_env [WithCacheTTL (- 1)] = Inr cfg
    \<and> map_of [(''/cache/p/p.s.json'', demo_file cached_template)] path = Some f \<and> tfTemplate f = Inr cached_template
    \<and> path_segs path = path_segs (scCacheDir cfg) @ rel \<and> rel \<noteq> [] \<and> list_all plain_seg rel"
proof -
  let ?s = "\<lparr>tcClone = True, tcSentinel = None, tcFiles = [(''/cache/p/p.s.json'', demo_file cached_template)]\<rparr>"
  have "validateID ''p'' = None" "validateID ''s'' = None" "path_Join [''/cache'', ''p'', ''p.s.json''] = ''/cache/p/p.s.json''"
    by code_simp+
  then have "LoadTemplate cache_env [WithCacheTTL (- 1)] ''p'' ''s'' ?s = (Inr cached_template, ?s)"
    by (simp add: LoadTemplate_def resolveConfig_def WithCacheTTL_def cache_env_def cacheStale_def template_path_def demo_file_def)
  from LoadTemplate_in_cache [OF this] show ?thesis unfolding tcache.select_convs by blast
qed

end
