(* ===== verification/Api_Core.thy ===== *)
theory Api_Core
  imports Api_Http Validate Detect Template_Apply Template_Sync
begin

text \<open>
  The core endpoints (\<open>api/handlers_core.go\<close>): detect, verify, SPF merge, apply and apply template. What a
  handler uses of the outside is in \<open>api_env\<close>: the registry of providers, the verification, the name
  server and RDAP lookups, the template cache's environment. The deadline of a request shows as errors of
  these. The state is the provider's, and the template cache.
\<close>

record 's api_env =
  xeRegistry :: "string \<rightharpoonup> 's provider factory"
  xeVerify :: verifier
  xeLookupNS :: "string \<Rightarrow> string list option"
  xeRdap :: "string \<Rightarrow> rdap_entity list option"
  xeSync :: sync_env
  xeCacheDir :: string

definition bad_request :: "string \<Rightarrow> response" where
  "bad_request msg = writeError 400 CodeBadRequest msg None"

definition provider_error :: "string \<Rightarrow> response" where
  "provider_error msg = writeError 500 CodeProviderError msg None"

text \<open>The guard on a name that every endpoint has.\<close>

definition requireName :: "string \<Rightarrow> string \<Rightarrow> response option" where
  "requireName what name = map_option (\<lambda>e. bad_request (what @ e)) (ValidateDNSName name)"

definition post_json :: "request \<Rightarrow> 'a body \<Rightarrow> response + 'a" where
  "post_json r b = guardE (requireMethod r ''POST'') (guardE (requireJSON r) (decodeJSON b))"

subsection \<open>Detect, verify, merge\<close>

record detectRequest =
  dqDomain :: string

definition enc_detection :: "DetectionResult \<Rightarrow> json" where
  "enc_detection d = JObj [(''provider'', enc_str (drProvider d)), (''label'', enc_str (drLabel d)),
     (''supported'', JBool (drSupported d)), (''nameservers'', JArr (map enc_str (drNameservers d))),
     (''method'', enc_str (drMethod d))]"

definition handleDetect :: "'s api_env \<Rightarrow> request \<Rightarrow> detectRequest body \<Rightarrow> response" where
  "handleDetect X r b =
     joinE (bindE (post_json r b) (\<lambda>q.
     if dqDomain q = [] then Inl (bad_request ''domain is required'')
     else guardE (requireName ''invalid domain: '' (dqDomain q))
       (case DetectProvider (xeLookupNS X) (xeRdap X) (dqDomain q) of
          Inl e \<Rightarrow> Inl (provider_error ''detection failed'')
        | Inr d \<Rightarrow> Inr (writeJSON (enc_detection d)))))"

record verifyRequest =
  vqDomain :: string
  vqType :: string
  vqName :: string
  vqContains :: string

definition handleVerify :: "'s api_env \<Rightarrow> request \<Rightarrow> verifyRequest body \<Rightarrow> response" where
  "handleVerify X r b =
     joinE (bindE (post_json r b) (\<lambda>q.
     if vqDomain q = [] \<or> vqType q = [] \<or> vqName q = [] then Inl (bad_request ''domain, type, and name are required'')
     else guardE (requireName ''invalid domain: '' (vqDomain q)) (guardE (requireName ''invalid name: '' (vqName q))
       (case xeVerify X (vqDomain q) (verify_opts (vqType q) (vqName q) (vqContains q)) of
          (Some e, _) \<Rightarrow> Inl (provider_error ''verification failed'')
        | (None, v) \<Rightarrow>
            (let fields = [(''verified'', JBool (vrVerified v)), (''current_value'', enc_str (vrCurrentValue v)),
                   (''method'', enc_str (vrMethod v)), (''nameservers_queried'', JArr (map enc_str (vrNameserversQueried v)))] in
             if \<not> vrVerified v then Inl (writeError 409 CodeVerifyMismatch ''verification did not match'' (Some fields))
             else Inr (writeJSON (JObj fields)))))))"

record spfMergeRequest =
  mqCurrent :: string
  mqIncludes :: "string list"

definition enc_merge :: "MergeResult \<Rightarrow> json" where
  "enc_merge m = JObj ([(''value'', enc_str (mrValue m)), (''changed'', JBool (mrChanged m)),
     (''broken_input'', JBool (mrBrokenInput m)), (''lookup_count'', JNum (int (mrLookupCount m))),
     (''lookup_limit_exceeded'', JBool (mrLookupLimitExceeded m))]
     @ (if mrWarnings m = [] then [] else [(''warnings'', JArr (map enc_str (mrWarnings m)))]))"

text \<open>\<open>MergeSPF\<close> returns no error.\<close>

definition handleSPFMerge :: "request \<Rightarrow> spfMergeRequest body \<Rightarrow> response" where
  "handleSPFMerge r b =
     joinE (bindE (post_json r b) (\<lambda>q. Inr (writeJSON (enc_merge (MergeSPF (mqCurrent q) (mqIncludes q) None)))))"

subsection \<open>Apply\<close>

record applyRecord =
  arType :: string
  arName :: string
  arContent :: string
  arTTL :: int

record applyRequest =
  aqDomain :: string
  aqRecords :: "applyRecord list"
  aqDryRun :: bool

definition check_record :: "nat \<Rightarrow> applyRecord \<Rightarrow> response option" where
  "check_record i rec =
     (case (if arName rec \<noteq> [] then requireName (''invalid record['' @ Itoa (int i) @ ''] name: '') (arName rec) else None) of
        Some res \<Rightarrow> Some res
      | None \<Rightarrow> map_option (\<lambda>e. bad_request (''invalid record['' @ Itoa (int i) @ ''] value: '' @ e))
          (ValidateRecordValue (arType rec) (arContent rec)))"

fun check_records :: "nat \<Rightarrow> applyRecord list \<Rightarrow> response option" where
  "check_records i [] = None"
| "check_records i (rec # recs) =
     (case check_record i rec of Some res \<Rightarrow> Some res | None \<Rightarrow> check_records (Suc i) recs)"

record applyDiffEntry =
  adType :: string
  adName :: string
  adCurrent :: string
  adProposed :: string
  adAction :: string

definition diff_entry :: "Record list \<Rightarrow> applyRecord \<Rightarrow> applyDiffEntry" where
  "diff_entry existing rec =
     (let entry = \<lparr>adType = arType rec, adName = arName rec, adCurrent = [], adProposed = arContent rec, adAction = ''CREATE''\<rparr> in
      case findRecord existing (arName rec) of
        None \<Rightarrow> entry
      | Some e \<Rightarrow> entry\<lparr>adCurrent := recContent e,
          adAction := (if recContent e = arContent rec then ''SKIP'' else ''UPDATE'')\<rparr>)"

fun apply_diffs :: "'s provider \<Rightarrow> string \<Rightarrow> applyRecord list \<Rightarrow> 's \<Rightarrow> response + applyDiffEntry list" where
  "apply_diffs P domain [] s = Inr []"
| "apply_diffs P domain (rec # recs) s =
     (case pvGet P s domain (arType rec) of
        Inl e \<Rightarrow> Inl (provider_error ''apply failed'')
      | Inr existing \<Rightarrow> bindE (apply_diffs P domain recs s) (\<lambda>ds. Inr (diff_entry existing rec # ds)))"

record applyResultEntry =
  reType :: string
  reName :: string
  reStatus :: string
  reRecordValue :: string
  rePreviousValue :: string
  reVerified :: bool
  reVerifyError :: string

text \<open>The record the generic push gets; TXT and CNAME pushes take name and content only.\<close>

definition push_one :: "'s provider \<Rightarrow> verifier \<Rightarrow> string \<Rightarrow> applyRecord \<Rightarrow> 's \<Rightarrow> (string option \<times> PushResult) \<times> 's" where
  "push_one P ver domain rec s =
     (if arType rec = ''TXT'' then PushTXTRecord P ver domain (arName rec) (arContent rec) s
      else if arType rec = ''CNAME'' then PushCNAMERecord P ver domain (arName rec) (arContent rec) s
      else if arType rec \<in> {''A'', ''AAAA'', ''MX'', ''NS'', ''SRV''}
        then PushGenericRecord P ver domain (mk_record (arType rec) (arName rec) (arContent rec) (arTTL rec)) s
      else ((Some ''unsupported record type'', push_result StatusFailed (arName rec) (arContent rec) []), s))"

definition verify_error_text :: "string option \<Rightarrow> string" where
  "verify_error_text e = (if e = None then [] else ''post-push verification did not observe record'')"

definition result_entry :: "applyRecord \<Rightarrow> string option \<times> PushResult \<Rightarrow> applyResultEntry" where
  "result_entry rec out =
     (let entry = \<lparr>reType = arType rec, reName = arName rec, reStatus = [], reRecordValue = arContent rec,
            rePreviousValue = [], reVerified = False, reVerifyError = []\<rparr> in
      case out of
        (Some e, _) \<Rightarrow> entry\<lparr>reStatus := push_status_text StatusFailed\<rparr>
      | (None, res) \<Rightarrow> entry\<lparr>reStatus := push_status_text (psStatus res), rePreviousValue := psPreviousValue res,
          reVerified := psVerified res, reVerifyError := verify_error_text (psVerifyError res)\<rparr>)"

text \<open>Every record is pushed, also after one has failed; the flag is \<open>anyFailed\<close>.\<close>

fun apply_pushes :: "'s provider \<Rightarrow> verifier \<Rightarrow> string \<Rightarrow> applyRecord list \<Rightarrow> 's \<Rightarrow> (applyResultEntry list \<times> bool) \<times> 's" where
  "apply_pushes P ver domain [] s = (([], False), s)"
| "apply_pushes P ver domain (rec # recs) s =
     (case push_one P ver domain rec s of
        (out, s1) \<Rightarrow>
          (case apply_pushes P ver domain recs s1 of
             ((es, failed), s2) \<Rightarrow> ((result_entry rec out # es, fst out \<noteq> None \<or> failed), s2)))"

definition opt_str :: "string \<Rightarrow> string \<Rightarrow> (string \<times> json) list" where
  "opt_str k v = (if v = [] then [] else [(k, enc_str v)])"

definition enc_diff :: "applyDiffEntry \<Rightarrow> json" where
  "enc_diff d = JObj [(''type'', enc_str (adType d)), (''name'', enc_str (adName d)), (''current'', enc_str (adCurrent d)),
     (''proposed'', enc_str (adProposed d)), (''action'', enc_str (adAction d))]"

definition enc_result :: "applyResultEntry \<Rightarrow> json" where
  "enc_result e = JObj ([(''type'', enc_str (reType e)), (''name'', enc_str (reName e)), (''status'', enc_str (reStatus e)),
     (''record_value'', enc_str (reRecordValue e))] @ opt_str ''previous_value'' (rePreviousValue e)
     @ [(''verified'', JBool (reVerified e))] @ opt_str ''verify_error'' (reVerifyError e))"

definition enc_report :: "applyRequest \<Rightarrow> applyDiffEntry list \<Rightarrow> applyResultEntry list \<Rightarrow> json" where
  "enc_report q diffs results = JObj ([(''domain'', enc_str (aqDomain q)), (''dry_run'', JBool (aqDryRun q))]
     @ (if diffs = [] then [] else [(''diffs'', JArr (map enc_diff diffs))])
     @ (if results = [] then [] else [(''results'', JArr (map enc_result results))]))"

text \<open>The checks before a provider is touched.\<close>

definition apply_prepare :: "'s api_env \<Rightarrow> request \<Rightarrow> applyRequest body \<Rightarrow> response + applyRequest \<times> 's provider" where
  "apply_prepare X r b =
     bindE (post_json r b) (\<lambda>q.
     if aqDomain q = [] \<or> aqRecords q = [] then Inl (bad_request ''domain and at least one record are required'')
     else guardE (requireName ''invalid domain: '' (aqDomain q)) (guardE (check_records 0 (aqRecords q))
       (bindE (mapErr writeTo (parseCredentialHeaders r)) (\<lambda>(slug, creds).
        bindE (mapErr (\<lambda>e. provider_error ''provider init failed'') (NewProvider (xeRegistry X) slug creds)) (\<lambda>P.
        Inr (q, P))))))"

definition handleApply :: "'s api_env \<Rightarrow> request \<Rightarrow> applyRequest body \<Rightarrow> 's \<Rightarrow> response \<times> 's" where
  "handleApply X r b s =
     (case apply_prepare X r b of
        Inl res \<Rightarrow> (res, s)
      | Inr (q, P) \<Rightarrow>
          if aqDryRun q then
            (joinE (bindE (apply_diffs P (aqDomain q) (aqRecords q) s) (\<lambda>ds. Inr (writeJSON (enc_report q ds [])))), s)
          else
            (case apply_pushes P (xeVerify X) (aqDomain q) (aqRecords q) s of
               ((results, failed), s') \<Rightarrow>
                 (if failed then writeError 500 CodeProviderError ''apply failed'' (Some [(''results'', JArr (map enc_result results))])
                  else writeJSON (enc_report q [] results), s')))"

subsection \<open>Apply template\<close>

record applyTemplateRequest =
  tqDomain :: string
  tqProviderID :: string
  tqServiceID :: string
  tqVars :: vars
  tqDryRun :: bool

definition templateOpts :: "'s api_env \<Rightarrow> (syncConfig \<Rightarrow> syncConfig) list" where
  "templateOpts X = (if xeCacheDir X \<noteq> [] then [WithCacheDir (xeCacheDir X)] else [])"

definition push_result_json :: "PushResult \<Rightarrow> json" where
  "push_result_json p = JObj ([(''status'', JStr (push_status_text (psStatus p))), (''name'', enc_str (psRecordName p)),
     (''value'', enc_str (psRecordValue p)), (''verified'', JBool (psVerified p))]
     @ opt_str ''previous'' (psPreviousValue p) @ opt_str ''verify_error'' (verify_error_text (psVerifyError p)))"

definition pushResultsToJSON :: "PushResult list \<Rightarrow> json" where
  "pushResultsToJSON ps = JArr (map push_result_json ps)"

definition resolved_json :: "Record \<Rightarrow> json" where
  "resolved_json r = JObj [(''type'', enc_str (recType r)), (''name'', enc_str (recName r)),
     (''content'', enc_str (recContent r)), (''ttl'', JNum (recTTL r))]"

definition applyTemplate_push ::
  "'s api_env \<Rightarrow> applyTemplateRequest \<Rightarrow> 's provider \<Rightarrow> Template \<Rightarrow> 's \<Rightarrow> response \<times> 's" where
  "applyTemplate_push X q P tmpl s =
     (let failed = (\<lambda>rs. writeError 500 CodeProviderError ''template apply failed'' (Some [(''results'', pushResultsToJSON rs)])) in
      case ApplyTemplateWithReport P (xeVerify X) (tqDomain q) tmpl (tqVars q) s of
        (Inl e, s') \<Rightarrow> (failed [], s')
      | (Inr a, s') \<Rightarrow>
          (if asErrs a \<noteq> [] then failed (asResults a)
           else writeJSON (JObj [(''domain'', enc_str (tqDomain q)), (''dry_run'', JBool False),
             (''results'', pushResultsToJSON (asResults a))]), s'))"

definition handleApplyTemplate ::
  "'s api_env \<Rightarrow> request \<Rightarrow> applyTemplateRequest body \<Rightarrow> 's \<times> tcache \<Rightarrow> response \<times> 's \<times> tcache" where
  "handleApplyTemplate X r b sc =
     (case sc of (s, c) \<Rightarrow>
        case bindE (post_json r b) (\<lambda>q.
            if tqDomain q = [] \<or> tqProviderID q = [] \<or> tqServiceID q = []
              then Inl (bad_request ''domain, provider_id, and service_id are required'')
            else guardE (requireName ''invalid domain: '' (tqDomain q))
              (bindE (mapErr writeTo (parseCredentialHeaders r)) (\<lambda>sl. Inr (q, sl)))) of
          Inl res \<Rightarrow> (res, s, c)
        | Inr (q, slug, creds) \<Rightarrow>
            (case LoadTemplate (xeSync X) (templateOpts X) (tqProviderID q) (tqServiceID q) c of
               (Inl e, c') \<Rightarrow> (writeError 404 CodeTemplateNotFound ''template not found'' None, s, c')
             | (Inr tmpl, c') \<Rightarrow>
                 if tqDryRun q then
                   (case Resolve tmpl (tqVars q) of
                      Inl e \<Rightarrow> (bad_request ''template resolve failed'', s, c')
                    | Inr recs \<Rightarrow> (writeJSON (JObj [(''domain'', enc_str (tqDomain q)), (''dry_run'', JBool True),
                        (''records'', JArr (map resolved_json recs))]), s, c'))
                 else
                   (case NewProvider (xeRegistry X) slug creds of
                      Inl e \<Rightarrow> (provider_error ''provider init failed'', s, c')
                    | Inr P \<Rightarrow> (case applyTemplate_push X q P tmpl s of (res, s') \<Rightarrow> (res, s', c')))))"


subsection \<open>One push\<close>

text \<open>The record a push leaves alone, and the record it writes otherwise.\<close>

definition settled_by :: "applyRecord \<Rightarrow> Record \<Rightarrow> bool" where
  "settled_by rec q \<longleftrightarrow>
     (if arType rec = ''CNAME'' then normalizeHost (recContent q) = normalizeHost (arContent rec)
      else recContent q = arContent rec \<and> (arType rec = ''MX'' \<longrightarrow> recPriority q = 0))"

definition pushed_record :: "applyRecord \<Rightarrow> Record" where
  "pushed_record rec = mk_record (arType rec) (arName rec) (arContent rec)
     (if arType rec \<in> {''TXT'', ''CNAME''} \<or> arTTL rec = 0 then 300 else arTTL rec)"

definition push_types :: "string set" where
  "push_types = {''TXT'', ''CNAME'', ''A'', ''AAAA'', ''MX'', ''NS'', ''SRV''}"

lemma pushed_record_sel [simp]:
  "recType (pushed_record rec) = arType rec" "recName (pushed_record rec) = arName rec"
  "recContent (pushed_record rec) = arContent rec" "recPriority (pushed_record rec) = 0"
  by (simp_all add: pushed_record_def)

lemma mk_record_ttl: "(mk_record t n c ttl)\<lparr>recTTL := ttl'\<rparr> = mk_record t n c ttl'"
  by (simp add: mk_record_def empty_record_def)

lemma push_set_result:
  "push_set P ver d rec vo ex res s = ((None, r), s') \<Longrightarrow>
    pvSet P s d rec = (None, s') \<and> psStatus r = (if ex then StatusUpdated else StatusCreated)"
  by (auto simp: push_set_def split: prod.splits option.splits)

lemma push_one_supported: "push_one P ver d rec s = ((None, r), s') \<Longrightarrow> arType rec \<in> push_types"
  by (auto simp: push_one_def push_types_def split: if_splits)

lemma push_one_settled:
  assumes "pvGet P s d (arType rec) = Inr xs" and "findRecord xs (arName rec) = Some q" and "settled_by rec q"
    and "arType rec \<in> push_types"
  shows "push_one P ver d rec s = ((None, push_result StatusAlreadyConfigured (arName rec) (arContent rec) []), s)"
  using assms
  by (auto simp: push_one_def push_types_def settled_by_def PushTXTRecord_def PushCNAMERecord_def PushGenericRecord_def generic_types_def)

lemma push_one_unsettled:
  assumes "pvGet P s d (arType rec) = Inr xs" and "\<nexists>q. findRecord xs (arName rec) = Some q \<and> settled_by rec q"
    and "push_one P ver d rec s = ((None, r), s')"
  shows "pvSet P s d (pushed_record rec) = (None, s')
    \<and> psStatus r = (if findRecord xs (arName rec) = None then StatusCreated else StatusUpdated)"
proof -
  let ?f = "findRecord xs (arName rec)"
  have n: "(case ?f of None \<Rightarrow> False | Some q \<Rightarrow> settled_by rec q) = False" using assms(2) by (auto split: option.splits)
  from push_one_supported [OF assms(3)] consider "arType rec = ''TXT''" | "arType rec = ''CNAME''"
    | "arType rec \<in> set generic_types" by (auto simp: push_types_def generic_types_def)
  then show ?thesis
  proof cases
    case 1
    then have "(case ?f of None \<Rightarrow> False | Some q \<Rightarrow> recContent q = arContent rec) = False"
      using n by (simp add: settled_by_def split: option.splits)
    with 1 assms(1,3) show ?thesis by (auto simp: push_one_def PushTXTRecord_def pushed_record_def Let_def dest!: push_set_result)
  next
    case 2
    then have "(case ?f of None \<Rightarrow> False | Some q \<Rightarrow> normalizeHost (recContent q) = normalizeHost (arContent rec)) = False"
      using n by (simp add: settled_by_def split: option.splits)
    with 2 assms(1,3) show ?thesis by (auto simp: push_one_def PushCNAMERecord_def pushed_record_def Let_def dest!: push_set_result)
  next
    case 3
    then have c: "(case ?f of None \<Rightarrow> False | Some q \<Rightarrow> recContent q = arContent rec \<and> (arType rec \<noteq> ''MX'' \<or> recPriority q = 0)) = False"
      using n by (auto simp: settled_by_def generic_types_def split: option.splits)
    have p: "pushed_record rec = (if arTTL rec = 0 then (mk_record (arType rec) (arName rec) (arContent rec) (arTTL rec))\<lparr>recTTL := 300\<rparr>
        else mk_record (arType rec) (arName rec) (arContent rec) (arTTL rec))"
      using 3 by (auto simp: pushed_record_def mk_record_ttl generic_types_def)
    have o1: "push_one P ver d rec s = PushGenericRecord P ver d (mk_record (arType rec) (arName rec) (arContent rec) (arTTL rec)) s"
      using 3 by (auto simp: push_one_def generic_types_def)
    have g: "PushGenericRecord P ver d (mk_record (arType rec) (arName rec) (arContent rec) (arTTL rec)) s = ((None, r), s')"
      using assms(3) o1 by simp
    show ?thesis
    proof (cases ?f)
      case None
      with g 3 assms(1) show ?thesis unfolding p by (cases "arTTL rec = 0") (auto simp: PushGenericRecord_def Let_def dest!: push_set_result)
    next
      case (Some q)
      with c have "\<not> (recContent q = arContent rec \<and> (arType rec \<noteq> ''MX'' \<or> recPriority q = 0))" by simp
      with Some g 3 assms(1) show ?thesis unfolding p by (cases "arTTL rec = 0") (auto simp: PushGenericRecord_def Let_def dest!: push_set_result)
    qed
  qed
qed

text \<open>Property C18. The action a dry run shows is what the push then does, for every type except CNAME and MX: a record
  is skipped exactly when the push finds it configured, and created or updated accordingly.\<close>

theorem diff_predicts_push:
  assumes "pvGet P s d (arType rec) = Inr xs" and "push_one P ver d rec s = ((None, r), s')"
    and "arType rec \<noteq> ''CNAME''" and "arType rec \<noteq> ''MX''"
  shows "adAction (diff_entry xs rec) = (case psStatus r of StatusAlreadyConfigured \<Rightarrow> ''SKIP''
      | StatusCreated \<Rightarrow> ''CREATE'' | StatusUpdated \<Rightarrow> ''UPDATE'' | StatusFailed \<Rightarrow> [])
    \<and> (adAction (diff_entry xs rec) = ''SKIP'' \<longrightarrow> s' = s)"
proof (cases "\<exists>q. findRecord xs (arName rec) = Some q \<and> settled_by rec q")
  case True
  then obtain q where q: "findRecord xs (arName rec) = Some q" "settled_by rec q" by blast
  from push_one_settled [OF assms(1) q push_one_supported [OF assms(2)]] assms(2)
  have "r = push_result StatusAlreadyConfigured (arName rec) (arContent rec) []" "s' = s" by simp_all
  with q assms(3) show ?thesis by (simp add: diff_entry_def settled_by_def push_result_def)
next
  case False
  from push_one_unsettled [OF assms(1) this assms(2)] False assms(3,4) show ?thesis
    by (auto simp: diff_entry_def settled_by_def split: option.splits)
qed

lemma diff_predicts_push_witness:
  "adAction (diff_entry [mk_record ''A'' ''www.example.com'' ''192.0.2.1'' 300]
      \<lparr>arType = ''A'', arName = ''www.example.com'', arContent = ''192.0.2.1'', arTTL = 0\<rparr>) = ''SKIP''"
  using diff_predicts_push [of fake_ops "(\<lambda>_. [mk_record ''A'' ''www.example.com'' ''192.0.2.1'' 300])" "''example.com''"
      "\<lparr>arType = ''A'', arName = ''www.example.com'', arContent = ''192.0.2.1'', arTTL = 0\<rparr>"
      "[mk_record ''A'' ''www.example.com'' ''192.0.2.1'' 300]" unverified
      "push_result StatusAlreadyConfigured ''www.example.com'' ''192.0.2.1'' []"
      "\<lambda>_. [mk_record ''A'' ''www.example.com'' ''192.0.2.1'' 300]"]
  by (simp add: fake_ops_def fake_GetRecords_def push_one_def PushGenericRecord_def generic_types_def push_result_def)

text \<open>For a CNAME the dry run compares the texts and the push compares normalised host names.\<close>

lemma diff_differs_for_cname:
  "adAction (diff_entry [mk_record ''CNAME'' ''www'' ''host.example.net.'' 300]
      \<lparr>arType = ''CNAME'', arName = ''www'', arContent = ''host.example.net'', arTTL = 0\<rparr>) = ''UPDATE''
   \<and> psStatus (snd (fst (push_one fake_ops unverified ''example.com''
      \<lparr>arType = ''CNAME'', arName = ''www'', arContent = ''host.example.net'', arTTL = 0\<rparr>
      (\<lambda>_. [mk_record ''CNAME'' ''www'' ''host.example.net.'' 300])))) = StatusAlreadyConfigured"
proof -
  have "normalizeHost ''host.example.net.'' = normalizeHost ''host.example.net''" by code_simp
  then show ?thesis
    by (simp add: diff_entry_def fake_ops_def fake_GetRecords_def push_one_def PushCNAMERecord_def push_result_def)
qed

subsection \<open>Applying twice\<close>

context record_provider
begin

definition in_place :: "string \<Rightarrow> applyRecord \<Rightarrow> 's \<Rightarrow> bool" where
  "in_place d rec s \<longleftrightarrow> arType rec \<in> push_types
     \<and> (\<exists>xs q. pvGet P s d (arType rec) = Inr xs \<and> findRecord xs (arName rec) = Some q \<and> settled_by rec q)"

lemma push_in_place:
  assumes "push_one P ver d rec s = ((None, r), s')" and "inv s" and "adm d (pushed_record rec)"
  shows "inv s' \<and> in_place d rec s' \<and> (s' = s \<or> pvSet P s d (pushed_record rec) = (None, s'))"
proof -
  note t = push_one_supported [OF assms(1)]
  obtain xs where xs: "pvGet P s d (arType rec) = Inr xs"
    using assms(1) by (auto simp: push_one_def PushTXTRecord_def PushCNAMERecord_def PushGenericRecord_def Let_def
        split: if_splits sum.splits)
  show ?thesis
  proof (cases "\<exists>q. findRecord xs (arName rec) = Some q \<and> settled_by rec q")
    case True
    then obtain q where q: "findRecord xs (arName rec) = Some q" "settled_by rec q" by blast
    from push_one_settled [OF xs q t] assms(1) have "s' = s" by simp
    with assms(2) xs q t show ?thesis unfolding in_place_def by blast
  next
    case False
    from push_one_unsettled [OF xs False assms(1)] have w: "pvSet P s d (pushed_record rec) = (None, s')" by blast
    from get_set [OF assms(2,3) w] obtain ys q where y: "pvGet P s' d (arType rec) = Inr ys"
      "findRecord ys (arName rec) = Some q" "settled_by rec q" by (auto simp: settled_by_def)
    with t have "in_place d rec s'" unfolding in_place_def by blast
    with w set_inv [OF assms(2,3) w] show ?thesis by blast
  qed
qed

lemma in_place_kept:
  assumes "in_place d rec s" and "push_one P ver d rec' s = ((None, r), s')" and "inv s" and "adm d (pushed_record rec')"
    and "(arType rec, arName rec) \<noteq> (arType rec', arName rec')"
  shows "in_place d rec s'"
proof -
  from assms(1) obtain xs q where x: "pvGet P s d (arType rec) = Inr xs" "findRecord xs (arName rec) = Some q" "settled_by rec q"
    and t: "arType rec \<in> push_types" by (auto simp: in_place_def)
  from push_in_place [OF assms(2-4)] consider "s' = s" | "pvSet P s d (pushed_record rec') = (None, s')" by blast
  then show ?thesis
  proof cases
    case 2
    from get_set_other [OF assms(3,4) 2 x(1), of "arName rec"] assms(5) x(2) obtain ys
      where "pvGet P s' d (arType rec) = Inr ys" "findRecord ys (arName rec) = Some q" by auto
    with x(3) t show ?thesis unfolding in_place_def by blast
  qed (use assms(1) in simp)
qed

lemma pushes_in_place:
  assumes "apply_pushes P ver d recs s = ((es, False), s')" and "inv s" and "\<forall>rec \<in> set recs. adm d (pushed_record rec)"
    and "distinct (map (\<lambda>rec. (arType rec, arName rec)) (before @ recs))" and "\<forall>rec \<in> set before. in_place d rec s"
  shows "\<forall>rec \<in> set (before @ recs). in_place d rec s'"
  using assms
proof (induction recs arbitrary: s es before)
  case (Cons rec recs)
  obtain out s1 where p: "push_one P ver d rec s = (out, s1)" by fastforce
  with Cons.prems(1) obtain es' where o: "fst out = None" and r: "apply_pushes P ver d recs s1 = ((es', False), s')"
    by (auto split: prod.splits)
  then obtain r0 where p': "push_one P ver d rec s = ((None, r0), s1)" using p by (metis prod.collapse)
  have a: "adm d (pushed_record rec)" using Cons.prems(3) by simp
  note i = push_in_place [OF p' Cons.prems(2) a]
  have "in_place d x s1" if "x \<in> set (before @ [rec])" for x
  proof (cases "x = rec")
    case False
    with that have x: "x \<in> set before" by simp
    with Cons.prems(5) have "in_place d x s" by blast
    moreover from x Cons.prems(4) have "(arType x, arName x) \<noteq> (arType rec, arName rec)"
      by (simp add: image_iff) metis
    ultimately show ?thesis by (rule in_place_kept [OF _ p' Cons.prems(2) a])
  qed (use i in simp)
  with Cons.IH [OF r, of "before @ [rec]"] i Cons.prems(3,4) show ?case by simp
qed simp

lemma pushes_again:
  "\<forall>rec \<in> set recs. in_place d rec s \<Longrightarrow>
    apply_pushes P ver d recs s = ((map (\<lambda>rec. result_entry rec (None, push_result StatusAlreadyConfigured (arName rec) (arContent rec) [])) recs, False), s)"
proof (induction recs)
  case (Cons rec recs)
  then have "in_place d rec s" by simp
  then obtain xs q where "pvGet P s d (arType rec) = Inr xs" "findRecord xs (arName rec) = Some q" "settled_by rec q" "arType rec \<in> push_types"
    unfolding in_place_def by blast
  note one = push_one_settled [OF this]
  have "\<forall>rec \<in> set recs. in_place d rec s" using Cons.prems by simp
  from Cons.IH [OF this] show ?case by (simp add: one)
qed simp

lemma apply_again:
  assumes "apply_pushes P ver d recs s = ((es, False), s')" and "inv s" and "\<forall>rec \<in> set recs. adm d (pushed_record rec)"
    and "distinct (map (\<lambda>rec. (arType rec, arName rec)) recs)"
  shows "apply_pushes P ver' d recs s' = ((map (\<lambda>rec. result_entry rec (None, push_result StatusAlreadyConfigured (arName rec) (arContent rec) [])) recs, False), s')"
  by (rule pushes_again) (use pushes_in_place [OF assms(1-3), of "[]"] assms(4) in simp)

end

subsection \<open>The apply endpoint\<close>

lemma guardE_Inr_iff: "guardE g k = Inr x \<longleftrightarrow> g = None \<and> k = Inr x"
  by (simp add: guardE_def split: option.split)

lemma post_json_ok: "post_json r b = Inr q \<longleftrightarrow> rqMethod r = ''POST'' \<and> requireJSON r = None \<and> b = Body q"
  by (auto simp: post_json_def guardE_Inr_iff requireMethod_def decodeJSON_def split: body.splits)

text \<open>What a refusal can be.\<close>

lemma guardE_Inl_iff: "guardE g k = Inl x \<longleftrightarrow> g = Some x \<or> (g = None \<and> k = Inl x)"
  by (simp add: guardE_def split: option.split)

lemma post_json_refused: "post_json r b = Inl res \<Longrightarrow> rpStatus res \<in> {400, 405, 413, 415}"
  by (auto simp: post_json_def guardE_Inl_iff requireMethod_def requireJSON_def decodeJSON_def writeError_def Let_def
      split: body.splits if_splits)

lemma requireName_refused: "requireName what name = Some res \<Longrightarrow> rpStatus res = 400"
  by (auto simp: requireName_def bad_request_def writeError_def)

lemma check_records_refused: "check_records i recs = Some res \<Longrightarrow> rpStatus res = 400"
  by (induction recs arbitrary: i)
    (auto simp: check_record_def bad_request_def writeError_def dest: requireName_refused split: option.splits if_splits)

lemma parseCredentialHeaders_status: "parseCredentialHeaders r = Inl e \<Longrightarrow> ceStatus e = 400"
  by (auto simp: parseCredentialHeaders_def Let_def split: if_splits option.splits)

lemma apply_prepare_refused:
  assumes "apply_prepare X r b = Inl res"
  shows "rpStatus res \<in> {400, 405, 413, 415, 500}"
proof -
  have "(writeTo e = res \<Longrightarrow> parseCredentialHeaders r = Inl e \<Longrightarrow> rpStatus res = 400)" for e
    by (auto simp: writeTo_def writeError_def dest: parseCredentialHeaders_status)
  with assms show ?thesis
    by (fastforce simp: apply_prepare_def bindE_Inl_iff guardE_Inl_iff mapErr_Inl_iff bad_request_def provider_error_def writeError_def
        dest: post_json_refused requireName_refused check_records_refused split: if_splits)
qed

lemma check_records_ok:
  "check_records i recs = None \<Longrightarrow> rec \<in> set recs \<Longrightarrow>
    ValidateRecordValue (arType rec) (arContent rec) = None \<and> (arName rec \<noteq> [] \<longrightarrow> ValidateDNSName (arName rec) = None)"
  by (induction recs arbitrary: i) (auto simp: check_record_def requireName_def split: option.splits if_splits)

lemma apply_prepare_ok:
  "apply_prepare X r b = Inr (q, P) \<longleftrightarrow> rqMethod r = ''POST'' \<and> requireJSON r = None \<and> b = Body q
    \<and> aqDomain q \<noteq> [] \<and> aqRecords q \<noteq> [] \<and> ValidateDNSName (aqDomain q) = None \<and> check_records 0 (aqRecords q) = None
    \<and> (\<exists>slug creds. parseCredentialHeaders r = Inr (slug, creds) \<and> NewProvider (xeRegistry X) slug creds = Inr P)"
  by (auto simp: apply_prepare_def bindE_Inr_iff guardE_Inr_iff post_json_ok requireName_def mapErr_Inr_iff split: if_splits)

text \<open>Property C17. The apply endpoint changes a zone only for a POST with a valid domain, valid names and values in every
  record, complete credentials of a registered provider, and no dry run.\<close>

theorem handleApply_guarded:
  assumes "handleApply X r b s = (res, s')" and "s' \<noteq> s"
  shows "\<exists>q slug creds P. b = Body q \<and> rqMethod r = ''POST'' \<and> \<not> aqDryRun q \<and> ValidateDNSName (aqDomain q) = None
    \<and> (\<forall>rec \<in> set (aqRecords q). ValidateRecordValue (arType rec) (arContent rec) = None
         \<and> (arName rec \<noteq> [] \<longrightarrow> ValidateDNSName (arName rec) = None))
    \<and> parseCredentialHeaders r = Inr (slug, creds) \<and> NewProvider (xeRegistry X) slug creds = Inr P"
proof -
  obtain q P where p: "apply_prepare X r b = Inr (q, P)" and d: "\<not> aqDryRun q"
    using assms by (auto simp: handleApply_def split: sum.splits if_splits)
  from p [unfolded apply_prepare_ok] d show ?thesis by (blast dest: check_records_ok)
qed

text \<open>Property C16. Sending the same request again to a zone of the in-memory provider changes nothing and reports every
  record as already configured, if the first one was answered with success and its records differ in
  type or name. The later verification may fail or not.\<close>

definition already_entry :: "applyRecord \<Rightarrow> applyResultEntry" where
  "already_entry rec = result_entry rec (None, push_result StatusAlreadyConfigured (arName rec) (arContent rec) [])"


definition demo_api :: "fake_state api_env" where
  "demo_api = \<lparr>xeRegistry = RegisterProvider ''fake'' (\<lambda>creds. Inr fake_ops) Map.empty, xeVerify = unverified,
     xeLookupNS = (\<lambda>_. None), xeRdap = (\<lambda>_. None), xeSync = cache_env, xeCacheDir = []\<rparr>"

definition demo_post :: request where
  "demo_post = \<lparr>rqMethod = ''POST'', rqPath = ''/v1/apply'',
     rqHeader = [(''Content-Type'', [''application/json'']), (''X-Entree-Provider'', [''fake''])], rqCreds = None, rqRequestID = []\<rparr>"

definition demo_www :: applyRecord where
  "demo_www = \<lparr>arType = ''A'', arName = ''www.example.com'', arContent = ''192.0.2.1'', arTTL = 0\<rparr>"

definition demo_apply :: applyRequest where
  "demo_apply = \<lparr>aqDomain = ''example.com'', aqRecords = [demo_www], aqDryRun = False\<rparr>"

definition demo_applied :: fake_state where
  "demo_applied = fake_New(''A'' := [mk_record ''A'' ''www.example.com'' ''192.0.2.1'' 300])"

lemma demo_prepared: "apply_prepare demo_api demo_post (Body demo_apply) = Inr (demo_apply, fake_ops)"
proof -
  have "requireJSON demo_post = None" unfolding demo_post_def by code_simp
  moreover have "ValidateDNSName ''example.com'' = None" "ValidateDNSName ''www.example.com'' = None"
    "ValidateRecordValue ''A'' ''192.0.2.1'' = None" by code_simp+
  moreover have "parseCredentialHeaders demo_post = Inr (''fake'', empty_credentials)"
    unfolding demo_post_def by code_simp
  ultimately show ?thesis
    by (simp add: apply_prepare_ok demo_post_def demo_apply_def demo_www_def demo_api_def check_record_def requireName_def
        NewProvider_def RegisterProvider_def)
qed

lemma demo_handled:
  "\<exists>es. handleApply demo_api demo_post (Body demo_apply) fake_New = (writeJSON (enc_report demo_apply [] es), demo_applied)"
proof -
  have "\<exists>r. push_one fake_ops unverified ''example.com'' demo_www fake_New = ((None, r), demo_applied)"
    by (auto simp: push_one_def demo_www_def PushGenericRecord_def generic_types_def fake_ops_def fake_GetRecords_def
        fake_New_def push_set_def fake_SetRecord_def Let_def demo_applied_def mk_record_ttl)
  then show ?thesis by (auto simp: handleApply_def demo_prepared) (auto simp: demo_apply_def demo_api_def)
qed

lemma demo_applied_new: "demo_applied \<noteq> fake_New"
proof
  assume "demo_applied = fake_New"
  then have "demo_applied ''A'' = fake_New ''A''" by simp
  then show False by (simp add: demo_applied_def fake_New_def)
qed

lemma handleApply_guarded_witness:
  "\<exists>q slug creds P. Body demo_apply = Body q \<and> \<not> aqDryRun q \<and> parseCredentialHeaders demo_post = Inr (slug, creds)
    \<and> NewProvider (xeRegistry demo_api) slug creds = Inr (P :: fake_state provider)"
proof -
  obtain es where h: "handleApply demo_api demo_post (Body demo_apply) fake_New = (writeJSON (enc_report demo_apply [] es), demo_applied)"
    using demo_handled by blast
  from handleApply_guarded [OF h demo_applied_new] show ?thesis by blast
qed


text \<open>The credentials reach the handler although the middleware takes them off the request, and nothing after
  the middleware sees them among the headers.\<close>

theorem credentials_survive_redaction:
  assumes "rqCreds r = None"
  shows "credentialRedactMW parseCredentialHeaders r = parseCredentialHeaders r
    \<and> (\<forall>k \<in> set credentialHeaderNames. credentialRedactMW (\<lambda>r. map_of (rqHeader r) k) r = None)"
proof
  obtain r' where r': "\<And>f :: request \<Rightarrow> credentialError + string \<times> Credentials. credentialRedactMW f r = f r'"
    "\<And>f :: request \<Rightarrow> string. credentialRedactMW f r = f r'" by (simp add: credentialRedactMW_def Let_def)
  have names: "\<forall>n \<in> {''X-Entree-Provider'', ''X-Entree-Cloudflare-Token'', ''X-Entree-AWS-Access-Key-Id'', ''X-Entree-AWS-Secret-Access-Key'',
      ''X-Entree-AWS-Region'', ''X-Entree-GoDaddy-Key'', ''X-Entree-GoDaddy-Secret'', ''X-Entree-GCDNS-Service-Account-JSON'',
      ''X-Entree-GCDNS-Project-Id''}. cred_header r' n = cred_header r n"
    using cred_header_redact [OF assms] r'(2) by (simp add: credentialHeaderNames_def)
  then show "credentialRedactMW parseCredentialHeaders r = parseCredentialHeaders r"
    unfolding r'(1) by (simp add: parseCredentialHeaders_def providerHeaderSpecs_def Let_def cong: if_cong option.case_cong)
  have "(Not \<circ> (\<lambda>(k, v :: string list). k \<in> set credentialHeaderNames)) = (\<lambda>(k, v). k \<notin> set credentialHeaderNames)"
    by auto
  then show "\<forall>k \<in> set credentialHeaderNames. credentialRedactMW (\<lambda>r. map_of (rqHeader r) k) r = None"
    by (simp add: credentialRedactMW_def Let_def map_of_filter_key)
qed

lemma credentials_survive_redaction_witness:
  "credentialRedactMW parseCredentialHeaders demo_post = Inr (''fake'', empty_credentials)"
proof -
  have "rqCreds demo_post = None" by (simp add: demo_post_def)
  moreover have "parseCredentialHeaders demo_post = Inr (''fake'', empty_credentials)"
    unfolding demo_post_def by code_simp
  ultimately show ?thesis using credentials_survive_redaction [of demo_post] by simp
qed


text \<open>The error a client gets for its credentials does not depend on their values, only on the provider
  named and on which headers are there.\<close>

theorem credential_errors_secret:
  assumes "parseCredentialHeaders r = Inl e" and "parseCredentialHeaders r' = Inl e'"
    and "cred_header r ''X-Entree-Provider'' = cred_header r' ''X-Entree-Provider''"
    and "\<forall>name. cred_header r name = [] \<longleftrightarrow> cred_header r' name = []"
  shows "e = e'"
proof -
  have f: "filter (\<lambda>h. cred_header r h = []) hs = filter (\<lambda>h. cred_header r' h = []) hs" for hs
    using assms(4) by simp
  from assms(1,2) show ?thesis
    unfolding parseCredentialHeaders_def Let_def assms(3) f by (auto split: if_splits option.splits)
qed

definition demo_key_request :: "string \<Rightarrow> request" where
  "demo_key_request v = demo_post\<lparr>rqHeader := [(''X-Entree-Provider'', [''google_cloud_dns'']),
     (''X-Entree-Gcdns-Service-Account-Json'', [v])]\<rparr>"

lemma credential_errors_secret_witness:
  "parseCredentialHeaders (demo_key_request ''!secret'') = parseCredentialHeaders (demo_key_request ''?other'')"
proof -
  let ?r = "demo_key_request ''!secret''" and ?r' = "demo_key_request ''?other''"
  have sel: "rqCreds ?r = None" "rqCreds ?r' = None"
    "rqHeader ?r = [(''X-Entree-Provider'', [''google_cloud_dns'']), (''X-Entree-Gcdns-Service-Account-Json'', [''!secret''])]"
    "rqHeader ?r' = [(''X-Entree-Provider'', [''google_cloud_dns'']), (''X-Entree-Gcdns-Service-Account-Json'', [''?other''])]"
    by (simp_all add: demo_key_request_def demo_post_def)
  have "isl (parseCredentialHeaders ?r)" "isl (parseCredentialHeaders ?r')"
    unfolding demo_key_request_def demo_post_def by code_simp+
  then obtain e e' where e: "parseCredentialHeaders ?r = Inl e" "parseCredentialHeaders ?r' = Inl e'"
    by (auto simp: isl_def)
  have p: "cred_header ?r ''X-Entree-Provider'' = cred_header ?r' ''X-Entree-Provider''"
    unfolding demo_key_request_def demo_post_def by code_simp
  have "\<forall>name. cred_header ?r name = [] \<longleftrightarrow> cred_header ?r' name = []"
    by (simp add: cred_header_def originalCredentialHeader_def Header_Get_def header_first_def sel Let_def)
  from credential_errors_secret [OF e p this] e show ?thesis by simp
qed

end
