(* ===== verification/Api_Extra.thy ===== *)
theory Api_Extra
  imports Api_Core Api_Migrate Domain_Connect
begin

text \<open>
  The other endpoints: Domain Connect (\<open>api/handlers_dc.go\<close>), templates (\<open>api/handlers_templates.go\<close>), and the
  one-shot migration with zone export and import (\<open>api/handlers_migrate.go\<close>). PEM and X.509 parsing are
  parameters, as is the end of a request's context.
\<close>

subsection \<open>Domain Connect\<close>

definition enc_discovery :: "DiscoveryResult \<Rightarrow> json" where
  "enc_discovery d = JObj [(''Supported'', JBool (dcSupported d)), (''ProviderID'', enc_str (dcProviderID d)),
     (''ProviderName'', enc_str (dcProviderName d)), (''URLSyncUX'', enc_str (dcURLSyncUX d)),
     (''URLAsyncUX'', enc_str (dcURLAsyncUX d)), (''URLAPI'', enc_str (dcURLAPI d)), (''Width'', JNum (dcWidth d)),
     (''Height'', JNum (dcHeight d)), (''Nameservers'', JArr (map enc_str (dcNameservers d)))]"

definition handleDCDiscover :: "discoverOptions \<Rightarrow> detectRequest body \<Rightarrow> response" where
  "handleDCDiscover D b =
     joinE (bindE (decodeJSON b) (\<lambda>q.
     if TrimSpace (dqDomain q) = [] then Inl (bad_request ''domain required'')
     else guardE (requireName ''invalid domain: '' (dqDomain q))
       (case fst (Discover D (dqDomain q)) of
          Inl e \<Rightarrow> Inl (bad_request ''invalid domain'')
        | Inr res \<Rightarrow>
            if \<not> dcSupported res then Inl (writeError 404 CodeTemplateNotFound ''domain does not support Domain Connect'' None)
            else Inr (writeJSON (enc_discovery res)))))"

record 'k pem_env =
  pemDecode :: "string \<Rightarrow> string option"
  pemPKCS1 :: "string \<Rightarrow> 'k option"
  pemPKCS8 :: "string \<Rightarrow> (string + 'k option)"

definition parseRSAPrivateKeyPEM :: "'k pem_env \<Rightarrow> string \<Rightarrow> string + 'k" where
  "parseRSAPrivateKeyPEM E pem =
     (case pemDecode E pem of
        None \<Rightarrow> Inl ''no PEM block found''
      | Some bytes \<Rightarrow>
          (case pemPKCS1 E bytes of
             Some k \<Rightarrow> Inr k
           | None \<Rightarrow>
               (case pemPKCS8 E bytes of
                  Inl e \<Rightarrow> Inl e
                | Inr None \<Rightarrow> Inl ''PEM key is not RSA''
                | Inr (Some k) \<Rightarrow> Inr k)))"

record dcApplyURLOpts =
  doURLAsyncUX :: string
  doProviderID :: string
  doServiceID :: string
  doDomain :: string
  doHost :: string
  doParams :: "(string \<times> string) list"
  doPrivateKeyPEM :: string
  doKeyHost :: string
  doRedirectURI :: string
  doState :: string

definition handleDCApplyURL :: "'k pem_env \<Rightarrow> 'k signer \<Rightarrow> dcApplyURLOpts body \<Rightarrow> response" where
  "handleDCApplyURL E sg b =
     joinE (bindE (decodeJSON b) (\<lambda>q.
     guardE (if doDomain q \<noteq> [] then requireName ''invalid domain: '' (doDomain q) else None)
       (if doPrivateKeyPEM q = [] then Inl (bad_request ''private_key_pem required'')
        else bindE (mapErr (\<lambda>_. bad_request ''invalid PEM private key'') (parseRSAPrivateKeyPEM E (doPrivateKeyPEM q))) (\<lambda>key.
          bindE (mapErr bad_request (BuildApplyURL sg \<lparr>auURLAsyncUX = doURLAsyncUX q, auProviderID = doProviderID q,
            auServiceID = doServiceID q, auDomain = doDomain q, auHost = doHost q, auParams = doParams q, auPrivateKey = Some key,
            auKeyHost = doKeyHost q, auRedirectURI = doRedirectURI q, auState = doState q\<rparr>)) (\<lambda>url.
          Inr (writeJSON (JObj [(''url'', enc_str url)])))))))"

subsection \<open>Templates\<close>

definition handleTemplatesSync :: "'s api_env \<Rightarrow> unit body \<Rightarrow> tcache \<Rightarrow> response \<times> tcache" where
  "handleTemplatesSync X b c =
     (case decodeJSON b of
        Inl res \<Rightarrow> (res, c)
      | Inr _ \<Rightarrow>
          (case SyncTemplates (xeSync X) (templateOpts X) c of
             (Some e, c') \<Rightarrow> (writeError 500 CodeInternal ''template sync failed'' None, c')
           | (None, c') \<Rightarrow>
               (case ListTemplates (xeSync X) (templateOpts X) c' of
                  Inl e \<Rightarrow> (writeError 500 CodeInternal ''template list failed'' None, c')
                | Inr ts \<Rightarrow> (writeJSON (JObj [(''ok'', JBool True), (''count'', JNum (int (length ts)))]), c'))))"

definition enc_summary :: "TemplateSummary \<Rightarrow> json" where
  "enc_summary t = JObj [(''providerId'', enc_str (tsProviderID t)), (''serviceId'', enc_str (tsServiceID t)),
     (''providerName'', enc_str (tsProviderName t)), (''serviceName'', enc_str (tsServiceName t)), (''path'', enc_str (tsPath t))]"

text \<open>Whether the error of the walk is \<open>fs.ErrNotExist\<close> is an argument.\<close>

definition handleTemplatesList :: "'s api_env \<Rightarrow> bool \<Rightarrow> tcache \<Rightarrow> response" where
  "handleTemplatesList X missing c =
     (case ListTemplates (xeSync X) (templateOpts X @ [WithCacheTTL (-1)]) c of
        Inl e \<Rightarrow> if missing then writeJSON (JArr []) else writeError 500 CodeInternal ''template list failed'' None
      | Inr ts \<Rightarrow> writeJSON (JArr (map enc_summary ts)))"

text \<open>\<open>flexInt\<close> has no marshaller: it is written as the object of its two fields.\<close>

definition enc_flexInt :: "flexInt \<Rightarrow> json" where
  "enc_flexInt f = JObj [(''Value'', JNum (fxValue f)), (''Raw'', enc_str (fxRaw f))]"

definition enc_template_record :: "TemplateRecord \<Rightarrow> json" where
  "enc_template_record r = JObj [(''type'', enc_str (trType r)), (''host'', enc_str (trHost r)), (''pointsTo'', enc_str (trPointsTo r)),
     (''target'', enc_str (trTarget r)), (''data'', enc_str (trData r)), (''ttl'', enc_flexInt (trTTL r)),
     (''groupId'', enc_str (trGroupID r)), (''essential'', enc_str (trEssential r)),
     (''txtConflictMatchingMode'', enc_str (trTxtConflictMatchingMode r)),
     (''txtConflictMatchingPrefix'', enc_str (trTxtConflictMatchingPrefix r)), (''priority'', enc_flexInt (trPriority r)),
     (''weight'', enc_flexInt (trWeight r)), (''port'', enc_flexInt (trPort r)), (''service'', enc_str (trService r)),
     (''protocol'', enc_str (trProtocol r))]"

definition enc_template :: "Template \<Rightarrow> json" where
  "enc_template t = JObj [(''providerId'', enc_str (tplProviderID t)), (''providerName'', enc_str (tplProviderName t)),
     (''serviceId'', enc_str (tplServiceID t)), (''serviceName'', enc_str (tplServiceName t)), (''version'', JNum (tplVersion t)),
     (''logoUrl'', enc_str (tplLogoURL t)), (''description'', enc_str (tplDescription t)),
     (''variableDescription'', enc_str (tplVariableDescription t)), (''syncPubKeyDomain'', enc_str (tplSyncPubKeyDomain t)),
     (''syncRedirectDomain'', enc_str (tplSyncRedirectDomain t)), (''multiInstance'', JBool (tplMultiInstance t)),
     (''hostRequired'', JBool (tplHostRequired t)), (''records'', JArr (map enc_template_record (tplRecords t)))]"

text \<open>The part \<open>handleTemplateGet\<close> and \<open>handleTemplateResolve\<close> share: the path values and the template.\<close>

definition path_values :: "string \<Rightarrow> string \<Rightarrow> response + string \<times> string" where
  "path_values provider service =
     (let p = TrimSpace provider; s = TrimSpace service in
      if p = [] \<or> s = [] then Inl (bad_request ''provider and service required'') else Inr (p, s))"

definition load_cached :: "'s api_env \<Rightarrow> string \<Rightarrow> string \<Rightarrow> tcache \<Rightarrow> (response + Template) \<times> tcache" where
  "load_cached X p s c =
     (case LoadTemplate (xeSync X) (templateOpts X @ [WithCacheTTL (-1)]) p s c of
        (r, c') \<Rightarrow> (mapErr (\<lambda>_. writeError 404 CodeTemplateNotFound ''template not found''
           (Some [(''provider'', enc_str p), (''service'', enc_str s)])) r, c'))"

definition handleTemplateGet :: "'s api_env \<Rightarrow> string \<Rightarrow> string \<Rightarrow> tcache \<Rightarrow> response \<times> tcache" where
  "handleTemplateGet X provider service c =
     (case path_values provider service of
        Inl res \<Rightarrow> (res, c)
      | Inr (p, s) \<Rightarrow>
          (case load_cached X p s c of (r, c') \<Rightarrow> (joinE (bindE r (\<lambda>t. Inr (writeJSON (enc_template t)))), c')))"

definition tmpl_error_text :: "(tmpl_error \<Rightarrow> string) \<Rightarrow> tmpl_error \<Rightarrow> response" where
  "tmpl_error_text show_error e = bad_request (show_error e)"

definition enc_resolved :: "ResolvedRecord \<Rightarrow> json" where
  "enc_resolved r = JObj [(''Record'', enc_record (rrRecord r)), (''Mode'', enc_str (rrMode r)), (''Prefix'', enc_str (rrPrefix r))]"

definition handleTemplateResolve ::
  "'s api_env \<Rightarrow> (tmpl_error \<Rightarrow> string) \<Rightarrow> string \<Rightarrow> string \<Rightarrow> vars body \<Rightarrow> tcache \<Rightarrow> response \<times> tcache" where
  "handleTemplateResolve X show_error provider service b c =
     (case bindE (path_values provider service) (\<lambda>ps. bindE (decodeJSON b) (\<lambda>vs. Inr (ps, vs))) of
        Inl res \<Rightarrow> (res, c)
      | Inr ((p, s), vs) \<Rightarrow>
          (case load_cached X p s c of
             (r, c') \<Rightarrow> (joinE (bindE r (\<lambda>t. bindE (mapErr (tmpl_error_text show_error) (ResolveDetailed t vs))
                (\<lambda>rs. Inr (writeJSON (JArr (map enc_resolved rs)))))), c')))"

subsection \<open>One-shot migration\<close>

record migrateRequest =
  grDomain :: string
  grTarget :: string
  grTargetCredentials :: bodyCredentials
  grPreloadedZone :: "MZone option"
  grSourceNameservers :: "string list"
  grSourceProviderSlug :: string
  grSkipSourceDetect :: bool
  grLabels :: "string list"
  grLabelsOnly :: "string list"
  grNoAXFR :: bool
  grApply :: bool
  grDryRun :: bool

text \<open>How the context of a request ends when it does so before the migration returns.\<close>

datatype ctx_end = DeadlineExceeded | Canceled

definition enc_zone_info :: "ZoneInfo \<Rightarrow> json" where
  "enc_zone_info z = JObj [(''ZoneID'', enc_str (ziZoneID z)), (''Nameservers'', JArr (map enc_str (ziNameservers z))),
     (''Created'', JBool (ziCreated z))]"

fun mig_status_num :: "mig_status \<Rightarrow> int" where
  "mig_status_num StatusMatched = 0"
| "mig_status_num StatusMismatch = 1"
| "mig_status_num StatusNotYetPropagated = 2"
| "mig_status_num StatusApplyFailed = 3"

definition enc_record_result :: "RecordResult \<Rightarrow> json" where
  "enc_record_result r = JObj [(''Record'', enc_record (rsRecord r)), (''Status'', JNum (mig_status_num (rsStatus r))),
     (''Detail'', enc_str (rsDetail r))]"

text \<open>The report as the encoder writes it: an error value is written as an empty object.\<close>

definition enc_migration_report :: "MigrationReport \<Rightarrow> json" where
  "enc_migration_report p = JObj [(''Domain'', enc_str (rpDomain p)), (''Source'', enc_str (rpSource p)),
     (''SourceNameservers'', JArr (map enc_str (rpSourceNameservers p))), (''SourceProvider'', enc_str (rpSourceProvider p)),
     (''TargetZone'', enc_zone_info (rpTargetZone p)), (''TargetZoneStatus'', enc_str (rpTargetZoneStatus p)),
     (''Preview'', JArr (map enc_record (rpPreview p))), (''Results'', JArr (map enc_record_result (rpResults p))),
     (''Warnings'', JArr (map enc_str (rpWarnings p))), (''Errors'', JArr (map (\<lambda>e. enc_error (Some e)) (rpErrors p))),
     (''NSChange'', enc_str (rpNSChange p))]"

text \<open>The adapters of the server take the credentials; \<open>Migrate\<close> sees them with the credentials filled in.\<close>

definition with_adapters :: "'s adapters \<Rightarrow> ProviderOpts \<Rightarrow> 's migrate_env \<Rightarrow> 's migrate_env" where
  "with_adapters A opts M = M\<lparr>meEnsure := (\<lambda>slug. case GetAdapter A slug of Inl e \<Rightarrow> None | Inr a \<Rightarrow> Some (\<lambda>s d. a d opts s))\<rparr>"

text \<open>The select over the end of the run and the end of the context. The run is not stopped, so its effects
  are those of the whole run. No answer and no state stand for a run that does not end.\<close>

definition run_select :: "string \<Rightarrow> ctx_end option \<Rightarrow> (mig_outcome \<times> 's) option \<Rightarrow> response option \<times> 's option" where
  "run_select what ended run =
     ((case ended of
         Some DeadlineExceeded \<Rightarrow> Some (writeError 500 CodeInternal ''request timeout'' None)
       | Some Canceled \<Rightarrow> Some (writeError 500 CodeInternal ''request cancelled'' None)
       | None \<Rightarrow> map_option (\<lambda>((report, err), s').
           case err of
             Some e \<Rightarrow> writeError 500 CodeInternal what (Some [(''report'', enc_migration_report report)])
           | None \<Rightarrow> writeJSON (enc_migration_report report)) run),
      map_option snd run)"

definition migrate_options :: "migrateRequest \<Rightarrow> 's provider \<Rightarrow> 's MigrateOptions" where
  "migrate_options q P = \<lparr>moDomain = grDomain q, moTargetSlug = grTarget q, moTarget = Some P,
     moScrapeOpts = \<lparr>soNameservers = grSourceNameservers q, soExtraLabels = grLabels q, soOnlyLabels = grLabelsOnly q,
       soSkipAXFR = grNoAXFR q\<rparr>,
     moSourceBindFile = [], moPreloaded = grPreloadedZone q, moApply = (grApply q \<and> \<not> grDryRun q),
     moSourceProviderSlug = grSourceProviderSlug q, moSkipSourceDetect = grSkipSourceDetect q\<rparr>"

definition deprecation_headers :: header where
  "deprecation_headers = [(''Deprecation'', [''true'']), (''Sunset'', [''Wed, 01 Oct 2026 00:00:00 GMT'']),
     (''Link'', [''</v1/migrate/preview>; rel='' @ [char_of (34 :: nat)] @ ''successor-version'' @ [char_of (34 :: nat)]])]"

definition target_error :: "string \<Rightarrow> response" where
  "target_error slug = writeError 400 CodeBadRequest ''provider init failed'' (Some [(''target'', enc_str slug)])"

definition handleMigrate ::
  "('e, 't, 's) server \<Rightarrow> 's migrate_env \<Rightarrow> ctx_end option \<Rightarrow> migrateRequest body \<Rightarrow> 's \<Rightarrow> response option \<times> 's option" where
  "handleMigrate srv M ended b s =
     (let out = (case bindE (decodeJSON b) (\<lambda>q.
          if grDomain q = [] then Inl (bad_request ''domain required'')
          else guardE (requireName ''invalid domain: '' (grDomain q))
            (if grTarget q = [] then Inl (bad_request ''target required'')
             else bindE (mapErr (\<lambda>_. target_error (grTarget q))
               (NewProvider (svProviders srv) (grTarget q) (toEntreeCredentials (grTargetCredentials q)))) (\<lambda>P. Inr (q, P)))) of
        Inl res \<Rightarrow> (Some res, Some s)
      | Inr (q, P) \<Rightarrow> run_select ''migration failed'' ended
          (Migrate (with_adapters (svAdapters srv) (toProviderOpts (grTargetCredentials q)) M) (migrate_options q P) s)) in
      (map_option (\<lambda>res. res\<lparr>rpHeader := deprecation_headers @ rpHeader res\<rparr>) (fst out), snd out))"

subsection \<open>Zone export and import\<close>

record zoneExportRequest =
  eqDomain :: string
  eqLabels :: "string list"
  eqLabelsOnly :: "string list"
  eqNoAXFR :: bool
  eqNameservers :: "string list"

definition handleZoneExport :: "scrape_env \<Rightarrow> zoneExportRequest body \<Rightarrow> response" where
  "handleZoneExport E b =
     joinE (bindE (decodeJSON b) (\<lambda>q.
     if eqDomain q = [] then Inl (bad_request ''domain required'')
     else guardE (requireName ''invalid domain: '' (eqDomain q))
       (case ScrapeZone E (eqDomain q) \<lparr>soNameservers = eqNameservers q, soExtraLabels = eqLabels q,
            soOnlyLabels = eqLabelsOnly q, soSkipAXFR = eqNoAXFR q\<rparr> of
          Inl e \<Rightarrow> Inl (writeError 500 CodeInternal ''zone export failed'' None)
        | Inr zone \<Rightarrow> Inr (writeJSON (enc_zone zone)))))"

record zoneImportRequest =
  iqZone :: "MZone option"
  iqTo :: string
  iqTargetCredentials :: bodyCredentials
  iqDryRun :: bool

definition import_options :: "MZone \<Rightarrow> zoneImportRequest \<Rightarrow> 's provider \<Rightarrow> 's MigrateOptions" where
  "import_options z q P = \<lparr>moDomain = zDomain z, moTargetSlug = iqTo q, moTarget = Some P,
     moScrapeOpts = \<lparr>soNameservers = [], soExtraLabels = [], soOnlyLabels = [], soSkipAXFR = False\<rparr>,
     moSourceBindFile = [], moPreloaded = Some z, moApply = (\<not> iqDryRun q), moSourceProviderSlug = [], moSkipSourceDetect = True\<rparr>"

definition handleZoneImport ::
  "('e, 't, 's) server \<Rightarrow> 's migrate_env \<Rightarrow> ctx_end option \<Rightarrow> zoneImportRequest body \<Rightarrow> 's \<Rightarrow> response option \<times> 's option" where
  "handleZoneImport srv M ended b s =
     (case bindE (decodeJSON b) (\<lambda>q.
        case iqZone q of
          None \<Rightarrow> Inl (bad_request ''zone required'')
        | Some z \<Rightarrow>
            if iqTo q = [] then Inl (bad_request ''to required'')
            else if zDomain z = [] then Inl (bad_request ''zone.domain required'')
            else bindE (mapErr (\<lambda>_. target_error (iqTo q))
              (NewProvider (svProviders srv) (iqTo q) (toEntreeCredentials (iqTargetCredentials q)))) (\<lambda>P. Inr (q, z, P))) of
        Inl res \<Rightarrow> (Some res, Some s)
      | Inr (q, z, P) \<Rightarrow> run_select ''zone import failed'' ended
          (Migrate (with_adapters (svAdapters srv) (toProviderOpts (iqTargetCredentials q)) M) (import_options z q P) s))"

end
