(* ===== verification/Api_Metrics.thy ===== *)
theory Api_Metrics
  imports Api_Http "HOL-Library.Word" "HOL-Library.AList" "HOL-Library.List_Lexorder"
begin

text \<open>
  The metrics registry of the API (\<open>api/metrics.go\<close>): counters of requests by method, route and status, a latency
  histogram by method and route, counters of provider operations, and their text form. Counters are 64-bit words
  that wrap. A duration is its number of nanoseconds, and so is the bound of a bucket; \<open>Duration.Seconds\<close> is
  monotone and exact at the bounds, so the comparison of the code is the comparison of the integers. The sums are
  floating point numbers: their zero, addition and text form are a parameter.
\<close>

subsection \<open>The registry\<close>

record 'f float_ops =
  flZero :: 'f
  flAdd :: "'f \<Rightarrow> 'f \<Rightarrow> 'f"
  flSeconds :: "int \<Rightarrow> 'f"
  flFormat :: "'f \<Rightarrow> string"

definition defaultBuckets :: "(int \<times> string) list" where
  "defaultBuckets =
     [(5000000, ''0.005''), (10000000, ''0.01''), (25000000, ''0.025''), (50000000, ''0.05''), (100000000, ''0.1''),
      (250000000, ''0.25''), (500000000, ''0.5''), (1000000000, ''1''), (2500000000, ''2.5''), (5000000000, ''5''),
      (10000000000, ''10''), (30000000000, ''30'')]"

record 'f metrics =
  mtRequests :: "(string \<times> 64 word) list"
  mtDurBuckets :: "(string \<times> 64 word list) list"
  mtDurSum :: "(string \<times> 'f) list"
  mtDurCount :: "(string \<times> 64 word) list"
  mtProviderOps :: "(string \<times> 64 word) list"

definition newMetrics :: "'f metrics" where
  "newMetrics = \<lparr>mtRequests = [], mtDurBuckets = [], mtDurSum = [], mtDurCount = [], mtProviderOps = []\<rparr>"

text \<open>Reading a Go map gives the zero value for a missing key.\<close>

definition lookup_or :: "'v \<Rightarrow> (string \<times> 'v) list \<Rightarrow> string \<Rightarrow> 'v" where
  "lookup_or z m k = (case map_of m k of None \<Rightarrow> z | Some v \<Rightarrow> v)"

definition incr :: "string \<Rightarrow> (string \<times> 64 word) list \<Rightarrow> (string \<times> 64 word) list" where
  "incr k m = AList.update k (lookup_or 0 m k + 1) m"

definition bump_buckets :: "int \<Rightarrow> 64 word list \<Rightarrow> 64 word list" where
  "bump_buckets dur bs = map (\<lambda>((b, l), n). if dur \<le> b then n + 1 else n) (zip defaultBuckets bs)"

definition hist_key :: "string \<Rightarrow> string \<Rightarrow> string" where
  "hist_key method route = method @ ''|'' @ route"

definition request_key :: "string \<Rightarrow> string \<Rightarrow> nat \<Rightarrow> string" where
  "request_key method route status = method @ ''|'' @ route @ ''|'' @ Itoa (int status)"

definition observeHTTP :: "'f float_ops \<Rightarrow> string \<Rightarrow> string \<Rightarrow> nat \<Rightarrow> int \<Rightarrow> 'f metrics \<Rightarrow> 'f metrics" where
  "observeHTTP F method route status dur m =
     (let ck = request_key method route status;
          hk = hist_key method route;
          bs = lookup_or (replicate (length defaultBuckets) 0) (mtDurBuckets m) hk
      in m\<lparr>mtRequests := incr ck (mtRequests m),
           mtDurBuckets := AList.update hk (bump_buckets dur bs) (mtDurBuckets m),
           mtDurSum := AList.update hk (flAdd F (lookup_or (flZero F) (mtDurSum m) hk) (flSeconds F dur)) (mtDurSum m),
           mtDurCount := incr hk (mtDurCount m)\<rparr>)"

definition IncProviderOp :: "string \<Rightarrow> string \<Rightarrow> string \<Rightarrow> 'f metrics \<Rightarrow> 'f metrics" where
  "IncProviderOp provider op status m =
     m\<lparr>mtProviderOps := incr (provider @ ''|'' @ op @ ''|'' @ status) (mtProviderOps m)\<rparr>"

subsection \<open>The text form\<close>

definition escapeLabelValue :: "string \<Rightarrow> string" where
  "escapeLabelValue v =
     ReplaceChar newline [backslash, CHR ''n'']
       (ReplaceChar dquote [backslash, dquote] (ReplaceChar backslash [backslash, backslash] v))"

definition sortKeys :: "(string \<times> 'v) list \<Rightarrow> string list" where
  "sortKeys m = sort (map fst m)"

text \<open>Labels in order, each value as it is written between the quotes, and the count.\<close>

definition label_set :: "(string \<times> string) list \<Rightarrow> string" where
  "label_set kvs = ''{'' @ Join (map (\<lambda>(k, v). k @ ''='' @ [dquote] @ v @ [dquote]) kvs) '','' @ ''}''"

definition sample :: "string \<Rightarrow> (string \<times> string) list \<Rightarrow> string \<Rightarrow> string" where
  "sample name kvs value = name @ label_set kvs @ '' '' @ value @ [newline]"

definition Utoa :: "64 word \<Rightarrow> string" where
  "Utoa n = nat_digits (unat n)"

text \<open>An index past the end of the parts is a panic, \<open>None\<close>.\<close>

definition request_line :: "string \<times> 64 word \<Rightarrow> string option" where
  "request_line kn =
     (case SplitN3 (fst kn) CHR ''|'' of
        [a, b, c] \<Rightarrow> Some (sample ''entree_http_requests_total''
          [(''method'', escapeLabelValue a), (''path'', escapeLabelValue b), (''status'', c)] (Utoa (snd kn)))
      | _ \<Rightarrow> None)"

definition histogram_lines :: "'f float_ops \<Rightarrow> 'f metrics \<Rightarrow> string \<Rightarrow> string option" where
  "histogram_lines F m k =
     (case SplitN2 k CHR ''|'' of
        [a, b] \<Rightarrow>
          (let hd = [(''method'', escapeLabelValue a), (''path'', escapeLabelValue b)];
               bs = lookup_or [] (mtDurBuckets m) k;
               count = Utoa (lookup_or 0 (mtDurCount m) k)
           in if length bs < length defaultBuckets then None
              else Some (concat (map (\<lambda>((_, le), n). sample ''entree_http_request_duration_seconds_bucket'' (hd @ [(''le'', le)]) (Utoa n))
                      (zip defaultBuckets bs))
                   @ sample ''entree_http_request_duration_seconds_bucket'' (hd @ [(''le'', ''+Inf'')]) count
                   @ sample ''entree_http_request_duration_seconds_sum'' hd (flFormat F (lookup_or (flZero F) (mtDurSum m) k))
                   @ sample ''entree_http_request_duration_seconds_count'' hd count))
      | _ \<Rightarrow> None)"

definition provider_line :: "string \<times> 64 word \<Rightarrow> string option" where
  "provider_line kn =
     (case SplitN3 (fst kn) CHR ''|'' of
        [a, b, c] \<Rightarrow> Some (sample ''entree_provider_operations_total''
          [(''provider'', escapeLabelValue a), (''op'', escapeLabelValue b), (''status'', escapeLabelValue c)] (Utoa (snd kn)))
      | _ \<Rightarrow> None)"

fun all_some :: "'a option list \<Rightarrow> 'a list option" where
  "all_some [] = Some []"
| "all_some (x # xs) = (case x of None \<Rightarrow> None | Some a \<Rightarrow> map_option (Cons a) (all_some xs))"

definition WriteText :: "'f float_ops \<Rightarrow> 'f metrics \<Rightarrow> string option" where
  "WriteText F m =
     (case (all_some (map (\<lambda>k. request_line (k, lookup_or 0 (mtRequests m) k)) (sortKeys (mtRequests m))),
            all_some (map (histogram_lines F m) (sortKeys (mtDurBuckets m))),
            all_some (map (\<lambda>k. provider_line (k, lookup_or 0 (mtProviderOps m) k)) (sortKeys (mtProviderOps m)))) of
        (Some rs, Some hs, Some ps) \<Rightarrow>
          Some (''# HELP entree_http_requests_total Total HTTP requests processed.'' @ [newline]
            @ ''# TYPE entree_http_requests_total counter'' @ [newline] @ concat rs
            @ ''# HELP entree_http_request_duration_seconds HTTP request duration in seconds.'' @ [newline]
            @ ''# TYPE entree_http_request_duration_seconds histogram'' @ [newline] @ concat hs
            @ ''# HELP entree_provider_operations_total Provider API operations invoked.'' @ [newline]
            @ ''# TYPE entree_provider_operations_total counter'' @ [newline] @ concat ps)
      | _ \<Rightarrow> None)"

subsection \<open>A server that observes\<close>

text \<open>Each request of a sequence comes with the time it takes; what \<open>slogMW\<close> logs it also observes, so a request
  whose handler panics leaves no trace in the registry.\<close>

definition observe_log :: "'f float_ops \<Rightarrow> int \<Rightarrow> log_entry list \<Rightarrow> 'f metrics \<Rightarrow> 'f metrics" where
  "observe_log F dur ls m = fold (\<lambda>l. observeHTTP F (leMethod l) (leRoute l) (leStatus l) dur) ls m"

fun serve_all :: "'f float_ops \<Rightarrow> (request \<Rightarrow> response \<times> log_entry list) \<Rightarrow> (request \<times> int) list \<Rightarrow> 'f metrics
    \<Rightarrow> response list \<times> 'f metrics" where
  "serve_all F h [] m = ([], m)"
| "serve_all F h ((r, dur) # qs) m =
     (case h r of (res, ls) \<Rightarrow> (case serve_all F h qs (observe_log F dur ls m) of (rs, m') \<Rightarrow> (res # rs, m')))"

subsection \<open>Counting is exact\<close>

text \<open>An observation and the two keys it counts under. The batch that recounts a list of observations is the
  specification of the registry.\<close>

type_synonym observation = "string \<times> string \<times> nat \<times> int"

definition observe_all :: "'f float_ops \<Rightarrow> observation list \<Rightarrow> 'f metrics \<Rightarrow> 'f metrics" where
  "observe_all F obs m = fold (\<lambda>(a, r, s, d). observeHTTP F a r s d) obs m"

definition obs_request :: "observation \<Rightarrow> string" where
  "obs_request ob = (case ob of (a, r, s, d) \<Rightarrow> request_key a r s)"

definition obs_hist :: "observation \<Rightarrow> string" where
  "obs_hist ob = (case ob of (a, r, s, d) \<Rightarrow> hist_key a r)"

definition obs_dur :: "observation \<Rightarrow> int" where
  "obs_dur ob = (case ob of (a, r, s, d) \<Rightarrow> d)"

definition obs_status :: "observation \<Rightarrow> nat" where
  "obs_status ob = (case ob of (a, r, s, d) \<Rightarrow> s)"

definition tally :: "('a \<Rightarrow> bool) \<Rightarrow> 'a list \<Rightarrow> nat" where
  "tally P xs = length (filter P xs)"

lemma tally_simps [simp]:
  "tally P [] = 0" "tally P (x # xs) = (if P x then Suc (tally P xs) else tally P xs)"
  "tally P (xs @ ys) = tally P xs + tally P ys"
  by (simp_all add: tally_def)

lemma tally_mono: "(\<And>x. P x \<Longrightarrow> Q x) \<Longrightarrow> tally P xs \<le> tally Q xs"
  by (induction xs) auto

lemma tally_le: "tally P xs \<le> length xs"
  by (simp add: tally_def)

lemma lookup_or_update [simp]: "lookup_or z (AList.update k v m) k' = (if k' = k then v else lookup_or z m k')"
  by (simp add: lookup_or_def update_conv')

lemma lookup_or_Nil [simp]: "lookup_or z [] k = z"
  by (simp add: lookup_or_def)

lemma lookup_incr [simp]: "lookup_or 0 (incr k m) k' = lookup_or 0 m k' + (if k' = k then 1 else 0)"
  by (simp add: incr_def)

lemma observe_all_simps [simp]:
  "observe_all F [] m = m"
  "observe_all F (obs @ [ob]) m = (case ob of (a, r, s, d) \<Rightarrow> observeHTTP F a r s d (observe_all F obs m))"
  by (simp_all add: observe_all_def split: prod.split)

lemma observeHTTP_sel:
  "mtRequests (observeHTTP F a r s d m) = incr (request_key a r s) (mtRequests m)"
  "mtDurCount (observeHTTP F a r s d m) = incr (hist_key a r) (mtDurCount m)"
  "mtDurBuckets (observeHTTP F a r s d m) = AList.update (hist_key a r)
     (bump_buckets d (lookup_or (replicate (length defaultBuckets) 0) (mtDurBuckets m) (hist_key a r))) (mtDurBuckets m)"
  "mtProviderOps (observeHTTP F a r s d m) = mtProviderOps m"
  by (simp_all add: observeHTTP_def Let_def)

lemma zip_map_self: "zip xs (map f xs) = map (\<lambda>x. (x, f x)) xs"
  by (induction xs) auto

lemma bump_map: "bump_buckets d (map f defaultBuckets) = map (\<lambda>x. f x + (if d \<le> fst x then 1 else 0)) defaultBuckets"
  by (simp add: bump_buckets_def zip_map_self split_beta)

lemma zero_buckets: "replicate (length defaultBuckets) (0 :: 64 word) = map (\<lambda>x. 0) defaultBuckets"
  by (simp add: map_replicate_const)

lemma requests_exact: "lookup_or 0 (mtRequests (observe_all F obs newMetrics)) k = of_nat (tally (\<lambda>ob. obs_request ob = k) obs)"
  by (induction obs rule: rev_induct) (auto simp: newMetrics_def observeHTTP_sel obs_request_def)

lemma durations_exact: "lookup_or 0 (mtDurCount (observe_all F obs newMetrics)) k = of_nat (tally (\<lambda>ob. obs_hist ob = k) obs)"
  by (induction obs rule: rev_induct) (auto simp: newMetrics_def observeHTTP_sel obs_hist_def)

lemma buckets_exact: "lookup_or (replicate (length defaultBuckets) 0) (mtDurBuckets (observe_all F obs newMetrics)) k
  = map (\<lambda>x. of_nat (tally (\<lambda>ob. obs_hist ob = k \<and> obs_dur ob \<le> fst x) obs)) defaultBuckets"
proof (induction obs rule: rev_induct)
  case Nil
  then show ?case by (simp add: newMetrics_def zero_buckets)
next
  case (snoc ob obs)
  obtain a r s d where ob: "ob = (a, r, s, d)" by (cases ob) auto
  show ?case
  proof (cases "hist_key a r = k")
    case True
    then show ?thesis using snoc by (simp add: ob observeHTTP_sel obs_hist_def obs_dur_def bump_map algebra_simps)
  next
    case False
    then show ?thesis using snoc by (simp add: ob observeHTTP_sel obs_hist_def obs_dur_def)
  qed
qed

text \<open>The requests of one histogram, split by status.\<close>

lemma tally_partition:
  "finite S \<Longrightarrow> \<forall>x \<in> set xs. f x \<in> S \<Longrightarrow> (\<Sum>s \<in> S. tally (\<lambda>x. P x \<and> f x = s) xs) = tally P xs"
proof (induction xs)
  case (Cons x xs)
  have "(\<Sum>s \<in> S. tally (\<lambda>x. P x \<and> f x = s) (x # xs))
      = (\<Sum>s \<in> S. (if P x \<and> f x = s then 1 else 0) + tally (\<lambda>x. P x \<and> f x = s) xs)"
    by (rule sum.cong) auto
  also have "\<dots> = (\<Sum>s \<in> S. if P x \<and> f x = s then 1 else 0) + tally P xs"
    using Cons by (simp add: sum.distrib)
  also have "(\<Sum>s \<in> S. if P x \<and> f x = s then 1 else 0) = (if P x then 1 else 0 :: nat)"
    using Cons.prems by (cases "P x") simp_all
  finally show ?case by simp
qed simp

lemma no_bar_Itoa: "CHR ''|'' \<notin> set (Itoa (int n))"
proof
  assume "CHR ''|'' \<in> set (Itoa (int n))"
  then have "is_digit CHR ''|''" using nat_digits_ok [of n] by (auto simp: Itoa_def list_all_iff)
  then show False by (simp add: is_digit_def byte_def)
qed

lemma Itoa_nat_inj: "Itoa (int a) = Itoa (int b) \<longleftrightarrow> a = b"
proof
  assume "Itoa (int a) = Itoa (int b)"
  then have "dec_value (nat_digits a) = dec_value (nat_digits b)" by (simp add: Itoa_def)
  then show "a = b" using nat_digits_ok [of a] nat_digits_ok [of b] by simp
qed simp

lemma append_sep_eq:
  fixes c :: char
  shows "c \<notin> set v \<Longrightarrow> c \<notin> set v' \<Longrightarrow> u @ c # v = u' @ c # v' \<longleftrightarrow> u = u' \<and> v = v'"
proof
  assume c: "c \<notin> set v" "c \<notin> set v'" and e: "u @ c # v = u' @ c # v'"
  have "Split (rev v) c @ Split (rev u) c = Split (rev v') c @ Split (rev u') c"
    using arg_cong [OF e, of "\<lambda>s. Split (rev s) c"] by (simp add: Split_append)
  with c show "u = u' \<and> v = v'" using e by (simp add: Split_id)
qed auto

lemma key_eq: "request_key a r s = hk @ CHR ''|'' # Itoa (int t) \<longleftrightarrow> hist_key a r = hk \<and> s = t"
  using append_sep_eq [OF no_bar_Itoa [of s] no_bar_Itoa [of t], of "hist_key a r" hk]
  by (simp add: request_key_def hist_key_def Itoa_nat_inj)

subsection \<open>The shape of the registry\<close>

text \<open>Every key has the parts \<open>WriteText\<close> indexes, and every histogram its twelve buckets.\<close>

definition three_parts :: "string \<Rightarrow> bool" where
  "three_parts k \<longleftrightarrow> (\<exists>a b c. k = a @ ''|'' @ b @ ''|'' @ c)"

definition metrics_wf :: "'f metrics \<Rightarrow> bool" where
  "metrics_wf m \<longleftrightarrow> (\<forall>(k, n) \<in> set (mtRequests m). three_parts k) \<and> (\<forall>(k, n) \<in> set (mtProviderOps m). three_parts k)
     \<and> (\<forall>(k, bs) \<in> set (mtDurBuckets m). CHR ''|'' \<in> set k \<and> length bs = length defaultBuckets)"

lemma in_update: "(k, v) \<in> set (AList.update k' v' m) \<Longrightarrow> (k = k' \<and> v = v') \<or> (k, v) \<in> set m"
  by (induction m) (auto split: if_splits)

lemma in_incr: "(k, n) \<in> set (incr k' m) \<Longrightarrow> k = k' \<or> (k, n) \<in> set m"
  unfolding incr_def by (auto dest: in_update)

lemma length_bump [simp]: "length bs = length defaultBuckets \<Longrightarrow> length (bump_buckets d bs) = length defaultBuckets"
  by (simp add: bump_buckets_def)

lemma metrics_wf_new: "metrics_wf newMetrics"
  by (simp add: metrics_wf_def newMetrics_def)

lemma metrics_wf_observe:
  assumes "metrics_wf m"
  shows "metrics_wf (observeHTTP F a r s d m)"
proof -
  have three: "three_parts (request_key a r s)" by (auto simp: three_parts_def request_key_def)
  have old: "length (lookup_or (replicate (length defaultBuckets) 0) (mtDurBuckets m) k) = length defaultBuckets" for k
    using assms by (auto simp: metrics_wf_def lookup_or_def split: option.split dest!: map_of_SomeD)
  have "CHR ''|'' \<in> set k \<and> length bs = length defaultBuckets"
    if "(k, bs) \<in> set (mtDurBuckets (observeHTTP F a r s d m))" for k bs
    using in_update [OF that [unfolded observeHTTP_sel]] assms old by (auto simp: metrics_wf_def hist_key_def)
  with assms three show ?thesis
    unfolding metrics_wf_def by (auto simp: observeHTTP_sel dest!: in_incr)
qed

lemma metrics_wf_op:
  assumes "metrics_wf m"
  shows "metrics_wf (IncProviderOp p op st m)"
proof -
  have "three_parts (p @ ''|'' @ op @ ''|'' @ st)" by (auto simp: three_parts_def)
  with assms show ?thesis unfolding metrics_wf_def IncProviderOp_def by (auto dest!: in_incr)
qed

lemma SplitN3_three: "three_parts k \<Longrightarrow> \<exists>a b c. SplitN3 k CHR ''|'' = [a, b, c]"
proof -
  assume "three_parts k"
  then obtain x y z where k: "k = x @ ''|'' @ y @ ''|'' @ z" by (auto simp: three_parts_def)
  then obtain a r where a: "SplitN2 k CHR ''|'' = [a, r]" "k = a @ CHR ''|'' # r" "CHR ''|'' \<notin> set a"
    using SplitN2_two [of "CHR ''|''" k] by auto
  have "count_list k CHR ''|'' = Suc (count_list r CHR ''|'')" using a(2,3) by (simp add: count_list_0_iff)
  moreover have "2 \<le> count_list k CHR ''|''" by (simp add: k)
  ultimately have "CHR ''|'' \<in> set r" using count_list_0_iff [of r "CHR ''|''"] by linarith
  then obtain b c where "SplitN2 r CHR ''|'' = [b, c]" using SplitN2_two by blast
  with a(1) show ?thesis by simp
qed

lemma request_line_total: "three_parts k \<Longrightarrow> request_line (k, n) \<noteq> None"
  using SplitN3_three [of k] by (auto simp: request_line_def simp del: SplitN3.simps)

lemma provider_line_total: "three_parts k \<Longrightarrow> provider_line (k, n) \<noteq> None"
  using SplitN3_three [of k] by (auto simp: provider_line_def simp del: SplitN3.simps)

lemma all_some_map: "(\<And>k. k \<in> set ks \<Longrightarrow> f k \<noteq> None) \<Longrightarrow> all_some (map f ks) \<noteq> None"
  by (induction ks) force+

lemma set_sortKeys [simp]: "set (sortKeys m) = fst ` set m"
  by (simp add: sortKeys_def)

text \<open>Scraping never panics: whatever requests and provider operations a registry has counted, its keys
  have the parts the writer indexes and its histograms all their buckets, so \<open>/metrics\<close> is answered.\<close>

inductive registry :: "'f float_ops \<Rightarrow> 'f metrics \<Rightarrow> bool" for F :: "'f float_ops" where
  registry_new: "registry F newMetrics"
| registry_http: "registry F m \<Longrightarrow> registry F (observeHTTP F a r s d m)"
| registry_op: "registry F m \<Longrightarrow> registry F (IncProviderOp p op st m)"

lemma registry_wf: "registry F m \<Longrightarrow> metrics_wf m"
  by (induction rule: registry.induct) (simp_all add: metrics_wf_new metrics_wf_observe metrics_wf_op)

lemma histogram_lines_total:
  assumes "metrics_wf m" and "k \<in> fst ` set (mtDurBuckets m)"
  shows "\<exists>t. histogram_lines F m k = Some t"
proof -
  from assms(2) obtain bs where bs: "map_of (mtDurBuckets m) k = Some bs" by (metis map_of_eq_None_iff not_None_eq)
  with assms(1) have "CHR ''|'' \<in> set k" "length bs = length defaultBuckets"
    by (auto simp: metrics_wf_def dest!: map_of_SomeD)
  moreover obtain a b where "SplitN2 k CHR ''|'' = [a, b]" using calculation(1) SplitN2_two by blast
  ultimately show ?thesis using bs by (simp add: histogram_lines_def lookup_or_def Let_def)
qed

theorem WriteText_total:
  assumes "registry F m"
  shows "metrics_wf m \<and> (\<exists>text. WriteText F m = Some text)"
proof -
  have wf: "metrics_wf m" using assms by (rule registry_wf)
  have req: "request_line (k, n) \<noteq> None" if "k \<in> fst ` set (mtRequests m)" for k n
    using wf that by (intro request_line_total) (auto simp: metrics_wf_def)
  have op: "provider_line (k, n) \<noteq> None" if "k \<in> fst ` set (mtProviderOps m)" for k n
    using wf that by (intro provider_line_total) (auto simp: metrics_wf_def)
  have "all_some (map (\<lambda>k. request_line (k, lookup_or 0 (mtRequests m) k)) (sortKeys (mtRequests m))) \<noteq> None"
    by (rule all_some_map, rule req) simp
  moreover have "all_some (map (\<lambda>k. provider_line (k, lookup_or 0 (mtProviderOps m) k)) (sortKeys (mtProviderOps m))) \<noteq> None"
    by (rule all_some_map, rule op) simp
  moreover have "all_some (map (histogram_lines F m) (sortKeys (mtDurBuckets m))) \<noteq> None"
    by (rule all_some_map) (use histogram_lines_total [OF wf] in simp)
  ultimately show ?thesis using wf by (auto simp: WriteText_def)
qed

definition demo_floats :: "int float_ops" where
  "demo_floats = \<lparr>flZero = 0, flAdd = (+), flSeconds = (\<lambda>d. d div 10 ^ 9), flFormat = Itoa\<rparr>"

lemma WriteText_total_witness:
  "\<exists>text. WriteText demo_floats (IncProviderOp ''cloudflare'' ''apply'' ''ok''
    (observeHTTP demo_floats ''GET'' ''GET /healthz'' 200 7000000 newMetrics)) = Some text"
  by (rule WriteText_total [THEN conjunct2]) (intro registry.intros)
subsection \<open>Labels read back\<close>

text \<open>Reading a quoted label value the way a scraper does: up to the first quote without a backslash.\<close>

fun read_label :: "string \<Rightarrow> (string \<times> string) option" where
  "read_label [] = None"
| "read_label (c # s) =
     (if c = dquote then Some ([], s)
      else if c = backslash then
        (case s of
           [] \<Rightarrow> None
         | d # t \<Rightarrow> map_option (\<lambda>(v, u). ((if d = CHR ''n'' then newline else d) # v, u)) (read_label t))
      else map_option (\<lambda>(v, u). (c # v, u)) (read_label s))"

definition escape_label_char :: "char \<Rightarrow> string" where
  "escape_label_char c =
     (if c = backslash then [backslash, backslash] else if c = dquote then [backslash, dquote]
      else if c = newline then [backslash, CHR ''n''] else [c])"

lemma escapeLabelValue_simps [simp]:
  "escapeLabelValue [] = []" "escapeLabelValue (c # v) = escape_label_char c @ escapeLabelValue v"
  by (auto simp del: char_of_eq_iff simp: escapeLabelValue_def escape_label_char_def)

text \<open>A label value is read back: whatever bytes it holds, the escaped form holds no newline, and a
  scraper that reads from behind the opening quote finds the value and stops at the closing quote.\<close>

theorem read_escapeLabelValue:
  "read_label (escapeLabelValue v @ [dquote] @ rest) = Some (v, rest) \<and> newline \<notin> set (escapeLabelValue v)"
  by (induction v) (auto simp del: char_of_eq_iff simp: escape_label_char_def)

text \<open>The labels of a counter are those it was counted under, unless the method has a bar of its own; the
  token grammar of methods allows one, and then the labels shift.\<close>

lemma request_line_labels:
  assumes "CHR ''|'' \<notin> set a" and "CHR ''|'' \<notin> set r"
  shows "request_line (request_key a r s, n) = Some (sample ''entree_http_requests_total''
    [(''method'', escapeLabelValue a), (''path'', escapeLabelValue r), (''status'', Itoa (int s))] (Utoa n))"
proof -
  have "SplitN2 (a @ CHR ''|'' # r @ CHR ''|'' # Itoa (int s)) CHR ''|'' = [a, r @ CHR ''|'' # Itoa (int s)]"
    using assms(1) by (rule SplitN2_first)
  moreover have "SplitN2 (r @ CHR ''|'' # Itoa (int s)) CHR ''|'' = [r, Itoa (int s)]" using assms(2) by (rule SplitN2_first)
  ultimately show ?thesis by (simp add: request_line_def request_key_def)
qed

lemma request_line_shifted:
  "list_all token_char ''A|B'' \<and> request_line (request_key ''A|B'' ''unmatched'' 405, n) = Some (sample ''entree_http_requests_total''
    [(''method'', ''A''), (''path'', ''B''), (''status'', ''unmatched|405'')] (Utoa n))"
proof
  show "list_all token_char ''A|B''" by code_simp
  have "SplitN3 (request_key ''A|B'' ''unmatched'' 405) CHR ''|'' = [''A'', ''B'', ''unmatched|405'']"
    "escapeLabelValue ''A'' = ''A''" "escapeLabelValue ''B'' = ''B''" by code_simp+
  then show "request_line (request_key ''A|B'' ''unmatched'' 405, n) = Some (sample ''entree_http_requests_total''
    [(''method'', ''A''), (''path'', ''B''), (''status'', ''unmatched|405'')] (Utoa n))"
    by (simp add: request_line_def del: SplitN3.simps escapeLabelValue_simps)
qed

subsection \<open>What a server has counted\<close>

text \<open>Cumulative buckets never decrease, and none exceeds the count, as long as no counter has wrapped.\<close>

lemma buckets_cumulative:
  fixes F :: "'f float_ops" and k :: string
  assumes "length obs < 2 ^ 64" and "i \<le> j" and "j < length defaultBuckets"
  defines "bs \<equiv> lookup_or (replicate 12 0) (mtDurBuckets (observe_all F obs newMetrics)) k"
  shows "bs ! i \<le> bs ! j \<and> bs ! j \<le> lookup_or 0 (mtDurCount (observe_all F obs newMetrics)) k"
proof -
  have len: "length defaultBuckets = 12" by (simp add: defaultBuckets_def)
  have small: "tally P obs < 2 ^ 64" for P :: "observation \<Rightarrow> bool" using tally_le [of P obs] assms(1) by linarith
  have un: "unat (of_nat (tally P obs) :: 64 word) = tally P obs" for P :: "observation \<Rightarrow> bool"
    using small [of P] by (simp add: unat_of_nat take_bit_nat_eq_self)
  have nth: "bs ! n = of_nat (tally (\<lambda>ob. obs_hist ob = k \<and> obs_dur ob \<le> fst (defaultBuckets ! n)) obs)" if "n < 12" for n
    using that buckets_exact [of F obs k] by (simp add: bs_def len)
  have "sorted (map fst defaultBuckets)" by (simp add: defaultBuckets_def)
  then have le: "fst (defaultBuckets ! i) \<le> fst (defaultBuckets ! j)" using sorted_nth_mono [OF _ assms(2), of "map fst defaultBuckets"] assms(2,3) by simp
  have "i < 12" "j < 12" using assms(2,3) len by auto
  then show ?thesis
    unfolding nth [OF \<open>i < 12\<close>] nth [OF \<open>j < 12\<close>] durations_exact word_le_nat_alt un using le
    by (auto intro!: tally_mono)
qed

text \<open>The request as the logging layer sees it, and whether its handler panics.\<close>

definition inner_request :: "string \<Rightarrow> request \<Rightarrow> request" where
  "inner_request gen r =
     (let h = Header_Get (rqHeader r) ''X-Request-ID''
      in credentialRedactMW id (r\<lparr>rqRequestID := (if h = [] then gen else h)\<rparr>))"

definition panics :: "string list \<Rightarrow> string \<Rightarrow> handler \<Rightarrow> request \<Rightarrow> bool" where
  "panics origins gen mux r = (case corsMW origins mux (inner_request gen r) of Panicked h \<Rightarrow> True | Responded res \<Rightarrow> False)"

definition route_label :: "string \<Rightarrow> (request \<Rightarrow> string) \<Rightarrow> request \<Rightarrow> string" where
  "route_label gen route r =
     (if route (inner_request gen r) = [] then ''unmatched'' else route (inner_request gen r))"

definition served_key :: "string \<Rightarrow> (request \<Rightarrow> string) \<Rightarrow> request \<Rightarrow> nat \<Rightarrow> string" where
  "served_key gen route r status = request_key (rqMethod r) (route_label gen route r) status"

lemma serve_log:
  assumes "serve origins gen route mux r = (res, ls)"
  shows "if panics origins gen mux r then rpStatus res = 500 \<and> ls = []
    else \<exists>l. ls = [l] \<and> leMethod l = rqMethod r \<and> leRoute l = route_label gen route r \<and> leStatus l = rpStatus res"
proof -
  have m: "rqMethod (inner_request gen r) = rqMethod r" by (simp add: inner_request_def credentialRedactMW_def Let_def)
  have s: "serve origins gen route mux r = recoverMW (\<lambda>r. case slogMW route (corsMW origins mux) (inner_request gen r) of
      (out, l) \<Rightarrow> (set_headers [(''X-Request-Id'', [rqRequestID (inner_request gen r)])] out, l)) r"
    by (simp add: serve_def recoverMW_def requestIDMW_def inner_request_def credentialRedactMW_def Let_def)
  show ?thesis
    using assms m unfolding s panics_def route_label_def
    by (cases "corsMW origins mux (inner_request gen r)")
      (auto simp: recoverMW_def slogMW_def set_headers_def Let_def writeError_def)
qed

text \<open>What a server reports is what it did: after any sequence of requests the counter of a method, route
  and status is the number of requests answered so whose handler did not panic. A request that panics is answered
  500, and is neither logged nor counted.\<close>

theorem served_requests_counted:
  assumes "serve_all F (serve origins gen route mux) qs m = (rs, m')"
  shows "length rs = length qs
    \<and> (\<forall>i < length qs. panics origins gen mux (fst (qs ! i)) \<longrightarrow> rpStatus (rs ! i) = 500)
    \<and> lookup_or 0 (mtRequests m') k = lookup_or 0 (mtRequests m) k
      + of_nat (tally (\<lambda>(q, res). \<not> panics origins gen mux (fst q) \<and> served_key gen route (fst q) (rpStatus res) = k) (zip qs rs))"
  using assms
proof (induction qs arbitrary: m rs)
  case (Cons q qs)
  obtain r dur where q: "q = (r, dur)" by (cases q)
  obtain res ls where h: "serve origins gen route mux r = (res, ls)" by (cases "serve origins gen route mux r")
  from Cons.prems obtain rs' where t: "serve_all F (serve origins gen route mux) qs (observe_log F dur ls m) = (rs', m')"
    and rs: "rs = res # rs'" by (auto simp: q h split: prod.splits)
  have one: "lookup_or 0 (mtRequests (observe_log F dur ls m)) k = lookup_or 0 (mtRequests m) k
      + (if \<not> panics origins gen mux r \<and> served_key gen route r (rpStatus res) = k then 1 else 0)"
    and "panics origins gen mux r \<longrightarrow> rpStatus res = 500"
    using serve_log [OF h] by (auto simp: observe_log_def observeHTTP_sel served_key_def split: if_splits)
  with Cons.IH [OF t] show ?case by (auto simp: rs q one nth_Cons split: nat.split)
qed simp

definition demo_mux :: handler where
  "demo_mux r = (if rqPath r = ''/healthz'' then Responded (writeJSON (JObj [(''ok'', JBool True)])) else Panicked [])"

definition demo_get :: "string \<Rightarrow> request" where
  "demo_get path = \<lparr>rqMethod = ''GET'', rqPath = path, rqHeader = [], rqCreds = None, rqRequestID = []\<rparr>"

lemmas demo_serve_defs = serve_def recoverMW_def requestIDMW_def credentialRedactMW_def slogMW_def corsMW_def set_headers_def
  inner_request_def demo_mux_def demo_get_def Header_Get_def header_first_def Let_def

lemma served_requests_counted_witness:
  "let (rs, m) = serve_all demo_floats (serve [] ''id'' rqPath demo_mux)
         [(demo_get ''/healthz'', 1), (demo_get ''/boom'', 2), (demo_get ''/healthz'', 3)] newMetrics
   in rpStatus (rs ! 1) = 500 \<and> lookup_or 0 (mtRequests m) (request_key ''GET'' ''/healthz'' 200) = 2"
proof -
  let ?qs = "[(demo_get ''/healthz'', 1), (demo_get ''/boom'', 2), (demo_get ''/healthz'', 3)]"
  have p: "\<not> panics [] ''id'' demo_mux (demo_get ''/healthz'')" "panics [] ''id'' demo_mux (demo_get ''/boom'')"
    by (simp_all add: panics_def demo_serve_defs)
  have k: "served_key ''id'' rqPath (demo_get ''/healthz'') 200 = request_key ''GET'' ''/healthz'' 200"
    by (simp add: served_key_def route_label_def demo_serve_defs)
  obtain a ls where ok: "serve [] ''id'' rqPath demo_mux (demo_get ''/healthz'') = (a, ls)" "rpStatus a = 200"
    by (simp add: demo_serve_defs writeJSON_def)
  obtain b where boom: "fst (serve [] ''id'' rqPath demo_mux (demo_get ''/boom'')) = b" by blast
  obtain rs m where e: "serve_all demo_floats (serve [] ''id'' rqPath demo_mux) ?qs newMetrics = (rs, m)"
    by (cases "serve_all demo_floats (serve [] ''id'' rqPath demo_mux) ?qs newMetrics")
  then have rs: "rs = [a, b, a]" using ok boom by (auto split: prod.splits)
  show ?thesis using served_requests_counted [OF e, of "request_key ''GET'' ''/healthz'' 200"] unfolding e
    by (auto simp: rs p k ok newMetrics_def less_Suc_eq All_less_Suc2)
qed

end
