(* ===== verification/Go_Flag.thy ===== *)
theory Go_Flag
  imports Go_Strings
begin

text \<open>
  The part of Go's \<open>flag\<close> package the servers use: \<open>FlagSet.Parse\<close> splits the arguments into settings until the
  first argument that is no flag, hands each to its flag, and remembers which flags were set.
\<close>

datatype flag_error = FlagSyntax string | FlagUndefined string | FlagNeedsArg string | FlagInvalid string string | FlagHelp

text \<open>One argument that starts a flag: its name, and the value behind an equals sign.\<close>

definition flag_name :: "string \<Rightarrow> string \<times> string option" where
  "flag_name body =
     (case Index (drop 1 body) ''='' of
        None \<Rightarrow> (body, None)
      | Some i \<Rightarrow> (take (Suc i) body, Some (drop (i + 2) body)))"

text \<open>\<open>parseOne\<close>, for flags of which the boolean ones take no argument: the arguments end, the next one is at
  fault, or it sets a flag and arguments are left. Then all of them, with how the scan ended.\<close>

datatype scan_step = ScanStop | ScanError flag_error | ScanSet string string "string list"

definition no_flag :: "string \<Rightarrow> bool" where
  "no_flag s \<longleftrightarrow> length s < 2 \<or> hd s \<noteq> CHR ''-'' \<or> s = ''--''"

definition flag_body :: "string \<Rightarrow> string" where
  "flag_body s = drop (if s ! 1 = CHR ''-'' then 2 else 1) s"

definition bad_body :: "string \<Rightarrow> bool" where
  "bad_body b \<longleftrightarrow> b = [] \<or> hd b = CHR ''-'' \<or> hd b = CHR ''=''"

definition scan_value :: "(string \<Rightarrow> bool option) \<Rightarrow> string \<Rightarrow> string option \<Rightarrow> string list \<Rightarrow> scan_step" where
  "scan_value known name va args =
     (case known name of
        None \<Rightarrow> ScanError (if name = ''help'' \<or> name = ''h'' then FlagHelp else FlagUndefined name)
      | Some is_bool \<Rightarrow>
          (case va of
             Some v \<Rightarrow> ScanSet name v args
           | None \<Rightarrow>
               if is_bool then ScanSet name ''true'' args
               else (case args of [] \<Rightarrow> ScanError (FlagNeedsArg name) | v # rest \<Rightarrow> ScanSet name v rest)))"

definition scan_one :: "(string \<Rightarrow> bool option) \<Rightarrow> string \<Rightarrow> string list \<Rightarrow> scan_step" where
  "scan_one known s args =
     (if no_flag s then ScanStop
      else if bad_body (flag_body s) then ScanError (FlagSyntax s)
      else case flag_name (flag_body s) of (name, va) \<Rightarrow> scan_value known name va args)"

lemma scan_value_Set: "scan_value known name va args = ScanSet n v rest \<Longrightarrow> known n \<noteq> None \<and> length rest \<le> length args"
  by (auto simp: scan_value_def split: if_splits option.splits list.splits)

lemma scan_one_Set: "scan_one known s args = ScanSet n v rest \<Longrightarrow> known n \<noteq> None \<and> length rest \<le> length args"
  unfolding scan_one_def by (auto split: if_splits prod.splits dest: scan_value_Set)

lemma scan_value_mono:
  assumes "\<And>n b. known n = Some b \<Longrightarrow> known' n = Some b"
  shows "\<forall>e. scan_value known n va args \<noteq> ScanError e \<Longrightarrow> scan_value known' n va args = scan_value known n va args"
  by (auto simp: scan_value_def assms split: option.splits list.splits)

lemma scan_one_mono:
  assumes "\<And>n b. known n = Some b \<Longrightarrow> known' n = Some b"
  shows "\<forall>e. scan_one known s args \<noteq> ScanError e \<Longrightarrow> scan_one known' s args = scan_one known s args"
  using scan_value_mono [of known known', OF assms] by (auto simp: scan_one_def split: prod.splits)

function scan_args :: "(string \<Rightarrow> bool option) \<Rightarrow> string list \<Rightarrow> (string \<times> string) list \<times> flag_error option" where
  "scan_args known [] = ([], None)"
| "scan_args known (s # args) =
     (case scan_one known s args of
        ScanStop \<Rightarrow> ([], None)
      | ScanError e \<Rightarrow> ([], Some e)
      | ScanSet n v rest \<Rightarrow> (case scan_args known rest of (kvs, e) \<Rightarrow> ((n, v) # kvs, e)))"
  by pat_completeness auto

termination scan_args
  by (relation "measure (\<lambda>(known, args). length args)") (auto dest: scan_one_Set)

lemma scan_args_mono:
  assumes "\<And>n b. known n = Some b \<Longrightarrow> known' n = Some b"
  shows "scan_args known args = (kvs, None) \<Longrightarrow> scan_args known' args = (kvs, None)"
  using assms
proof (induction known args arbitrary: kvs rule: scan_args.induct)
  case (2 known s args)
  have same: "scan_one known' s args = scan_one known s args"
    using "2.prems"(1) by (intro scan_one_mono [OF "2.prems"(2)]) (auto split: scan_step.splits)
  from "2.prems"(1) show ?case
    by (auto simp: same split: scan_step.splits prod.splits dest!: "2.IH" [OF _ _ "2.prems"(2)])
qed simp

lemma scan_args_known: "scan_args known args = (kvs, e) \<Longrightarrow> (n, v) \<in> set kvs \<Longrightarrow> known n \<noteq> None"
proof (induction known args arbitrary: kvs rule: scan_args.induct)
  case (2 known s args)
  from "2.prems" show ?case
    by (auto split: scan_step.splits prod.splits dest: scan_one_Set "2.IH")
qed simp

text \<open>Each setting goes to its flag; a flag that rejects its value ends the parse.\<close>

fun set_flags :: "(string \<Rightarrow> string \<Rightarrow> 's \<Rightarrow> 's option) \<Rightarrow> (string \<times> string) list \<Rightarrow> 's \<Rightarrow> flag_error + 's" where
  "set_flags set1 [] s = Inr s"
| "set_flags set1 ((name, v) # kvs) s =
     (case set1 name v s of None \<Rightarrow> Inl (FlagInvalid name v) | Some s' \<Rightarrow> set_flags set1 kvs s')"

definition parse_flags :: "(string \<Rightarrow> bool option) \<Rightarrow> (string \<Rightarrow> string \<Rightarrow> 's \<Rightarrow> 's option) \<Rightarrow> string list \<Rightarrow> 's
    \<Rightarrow> flag_error + (string \<times> string) list \<times> 's" where
  "parse_flags known set1 args s =
     (case scan_args known args of (kvs, err) \<Rightarrow>
       bindE (set_flags set1 kvs s) (\<lambda>s'. case err of Some e \<Rightarrow> Inl e | None \<Rightarrow> Inr (kvs, s')))"

text \<open>The last value given for a flag.\<close>

definition last_set :: "string \<Rightarrow> (string \<times> string) list \<Rightarrow> string option" where
  "last_set name kvs = map_of (rev kvs) name"

lemma last_set_simps [simp]:
  "last_set name [] = None"
  "last_set name (kvs @ [(k, v)]) = (if k = name then Some v else last_set name kvs)"
  by (auto simp: last_set_def)

lemma last_set_None: "last_set name kvs = None \<longleftrightarrow> name \<notin> fst ` set kvs"
  by (simp add: last_set_def map_of_eq_None_iff)

lemma set_flags_append: "set_flags set1 (kvs @ kvs') s = bindE (set_flags set1 kvs s) (set_flags set1 kvs')"
  by (induction set1 kvs s rule: set_flags.induct) (auto split: option.split)

text \<open>An observation a flag of its own name alone can change holds its default, or what the last setting left.\<close>

lemma set_flags_last:
  assumes own: "\<And>n v s s'. set1 n v s = Some s' \<Longrightarrow> get s' = (if n = name then f v else get s)"
    and ok: "set_flags set1 kvs s = Inr s'"
  shows "get s' = (case last_set name kvs of None \<Rightarrow> get s | Some v \<Rightarrow> f v)"
  using ok
proof (induction kvs arbitrary: s' rule: rev_induct)
  case (snoc kv kvs)
  obtain n v where kv: "kv = (n, v)" by (cases kv)
  from snoc.prems obtain t where t: "set_flags set1 kvs s = Inr t" "set1 n v t = Some s'"
    by (auto simp: set_flags_append kv split: option.splits)
  from snoc.IH [OF t(1)] own [OF t(2)] show ?case by (simp add: kv)
qed simp

end
