(* ===== verification/Api_Server.thy ===== *)
theory Api_Server
  imports Api_Migrate Store_Json Api_Metrics Go_Path Go_Flag
begin

text \<open>
  The server around the handlers: options from flags and environment (\<open>api/options.go\<close>, \<open>api/options_flags.go\<close>),
  the set-up with its store and key (\<open>api/server.go\<close>, \<open>NewJSONStore\<close>), health checks, the background sweeper,
  the binary \<open>entree-api\<close> (\<open>cmd/entree-api/main.go\<close>) and the write limiter (\<open>migrate/ratelimit.go\<close>).
  Durations are nanoseconds and rates any type with 0, 10 and an order; \<open>time.ParseDuration\<close>,
  \<open>strconv.ParseFloat\<close> and the environment of the process are parameters. The options that only tests set (the
  logger, the clock and the generator of request ids) are left out.
\<close>

subsection \<open>Options\<close>

record 'f options =
  opListen :: string
  opLogLevel :: string
  opLogFormat :: string
  opCORSOrigins :: "string list"
  opRequestTimeout :: int
  opTemplateCacheDir :: string
  opReadyCheck :: "(int \<Rightarrow> string option) option"
  opStateDir :: string
  opMigrationStore :: "(js_env, json_dir) store_ops option"
  opMigrationKey :: "string option"
  opMigrationTTL :: int
  opMigrationGCInterval :: int
  opMigrationRatePerSecond :: 'f

abbreviation "second \<equiv> (1000000000 :: int)"
abbreviation "minute \<equiv> 60 * second"
abbreviation "hour \<equiv> 3600 * second"

text \<open>The process: environment variables, the home directory or an error, and the directory of temporary files.\<close>

record process =
  prEnv :: "string \<Rightarrow> string"
  prHome :: "string + string"
  prTemp :: string

definition home_dir :: "process \<Rightarrow> string option" where
  "home_dir P = (case prHome P of Inr h \<Rightarrow> if h = [] then None else Some h | Inl e \<Rightarrow> None)"

definition defaultStateDirFlag :: "process \<Rightarrow> string" where
  "defaultStateDirFlag P =
     (if prEnv P ''XDG_DATA_HOME'' \<noteq> [] then path_Join [prEnv P ''XDG_DATA_HOME'', ''entree'', ''migrations'']
      else case home_dir P of
        Some home \<Rightarrow> path_Join [home, ''.local'', ''share'', ''entree'', ''migrations'']
      | None \<Rightarrow> path_Join [prTemp P, ''entree'', ''migrations''])"

definition defaultStateDir :: "process \<Rightarrow> string" where
  "defaultStateDir P =
     (if prEnv P ''ENTREE_STATE_DIR'' \<noteq> [] then prEnv P ''ENTREE_STATE_DIR''
      else if prEnv P ''XDG_DATA_HOME'' \<noteq> [] then path_Join [prEnv P ''XDG_DATA_HOME'', ''entree'', ''migrations'']
      else case home_dir P of
        Some home \<Rightarrow> path_Join [home, ''.local'', ''share'', ''entree'', ''migrations'']
      | None \<Rightarrow> path_Join [prTemp P, ''entree'', ''migrations''])"

definition defaultTemplateCacheDir :: "process \<Rightarrow> string" where
  "defaultTemplateCacheDir P =
     (if prEnv P ''XDG_CACHE_HOME'' \<noteq> [] then path_Join [prEnv P ''XDG_CACHE_HOME'', ''dns-entree'', ''templates'']
      else case home_dir P of
        Some home \<Rightarrow> path_Join [home, ''.cache'', ''dns-entree'', ''templates'']
      | None \<Rightarrow> path_Join [prTemp P, ''dns-entree'', ''templates''])"

record 'f parsers =
  paDuration :: "string \<Rightarrow> string + int"
  paFloat :: "string \<Rightarrow> string + 'f"

text \<open>The options while the flags are parsed, with the origins the repeatable flag has collected.\<close>

record 'f bindings =
  fbOpts :: "'f options"
  fbCORS :: "string list"

definition BindFlags :: "process \<Rightarrow> ('f :: {zero, numeral, ord}) bindings" where
  "BindFlags P = \<lparr>fbOpts = \<lparr>opListen = '':8080'', opLogLevel = ''info'', opLogFormat = ''json'', opCORSOrigins = [],
     opRequestTimeout = 15 * minute, opTemplateCacheDir = defaultTemplateCacheDir P, opReadyCheck = None,
     opStateDir = defaultStateDirFlag P, opMigrationStore = None, opMigrationKey = None, opMigrationTTL = hour,
     opMigrationGCInterval = 5 * minute, opMigrationRatePerSecond = 10\<rparr>, fbCORS = []\<rparr>"

definition api_flags :: "string list" where
  "api_flags = [''listen'', ''log-level'', ''log-format'', ''cors-origin'', ''request-timeout'', ''template-cache-dir'',
     ''state-dir'', ''migration-ttl'', ''gc-interval'', ''migration-rate'']"

definition known_flag :: "string \<Rightarrow> bool option" where
  "known_flag name = (if name \<in> set api_flags then Some False else None)"

definition upd_opts :: "('f options \<Rightarrow> 'f options) \<Rightarrow> 'f bindings \<Rightarrow> 'f bindings" where
  "upd_opts f b = b\<lparr>fbOpts := f (fbOpts b)\<rparr>"

definition set_duration :: "'f parsers \<Rightarrow> (int \<Rightarrow> 'f options \<Rightarrow> 'f options) \<Rightarrow> string \<Rightarrow> 'f bindings \<Rightarrow> 'f bindings option" where
  "set_duration A f v b = (case paDuration A v of Inl e \<Rightarrow> None | Inr d \<Rightarrow> Some (upd_opts (f d) b))"

text \<open>\<open>corsList.Set\<close> appends, and skips an empty value.\<close>

definition set_flag :: "'f parsers \<Rightarrow> string \<Rightarrow> string \<Rightarrow> 'f bindings \<Rightarrow> 'f bindings option" where
  "set_flag A name v b =
     (if name = ''listen'' then Some (upd_opts (\<lambda>o'. o'\<lparr>opListen := v\<rparr>) b)
      else if name = ''log-level'' then Some (upd_opts (\<lambda>o'. o'\<lparr>opLogLevel := v\<rparr>) b)
      else if name = ''log-format'' then Some (upd_opts (\<lambda>o'. o'\<lparr>opLogFormat := v\<rparr>) b)
      else if name = ''cors-origin'' then Some (if v = [] then b else b\<lparr>fbCORS := fbCORS b @ [v]\<rparr>)
      else if name = ''request-timeout'' then set_duration A (\<lambda>d o'. o'\<lparr>opRequestTimeout := d\<rparr>) v b
      else if name = ''template-cache-dir'' then Some (upd_opts (\<lambda>o'. o'\<lparr>opTemplateCacheDir := v\<rparr>) b)
      else if name = ''state-dir'' then Some (upd_opts (\<lambda>o'. o'\<lparr>opStateDir := v\<rparr>) b)
      else if name = ''migration-ttl'' then set_duration A (\<lambda>d o'. o'\<lparr>opMigrationTTL := d\<rparr>) v b
      else if name = ''gc-interval'' then set_duration A (\<lambda>d o'. o'\<lparr>opMigrationGCInterval := d\<rparr>) v b
      else if name = ''migration-rate'' then
        (case paFloat A v of Inl e \<Rightarrow> None | Inr r \<Rightarrow> Some (upd_opts (\<lambda>o'. o'\<lparr>opMigrationRatePerSecond := r\<rparr>) b))
      else None)"

text \<open>\<open>LoadFromEnv\<close>: a variable counts only when its flag was not visited and its value is not empty.\<close>

definition env_string :: "string list \<Rightarrow> string \<Rightarrow> string \<Rightarrow> (string \<Rightarrow> 'f options \<Rightarrow> 'f options) \<Rightarrow> 'f options \<Rightarrow> 'f options" where
  "env_string visited name v f o' = (if name \<notin> set visited \<and> v \<noteq> [] then f v o' else o')"

definition env_parsed :: "(string \<Rightarrow> string + 'a) \<Rightarrow> string list \<Rightarrow> string \<Rightarrow> string \<Rightarrow> string
    \<Rightarrow> ('a \<Rightarrow> 'f options \<Rightarrow> 'f options) \<Rightarrow> 'f options \<Rightarrow> string + 'f options" where
  "env_parsed parse visited name var v f o' =
     (if name \<notin> set visited \<and> v \<noteq> []
      then (case parse v of Inl e \<Rightarrow> Inl (''invalid '' @ var @ '': '' @ e) | Inr x \<Rightarrow> Inr (f x o')) else Inr o')"

definition env_origins :: "string \<Rightarrow> string list" where
  "env_origins v = filter (\<lambda>p. p \<noteq> []) (map TrimSpace (Split v CHR '',''))"

definition LoadFromEnv :: "'f parsers \<Rightarrow> (string \<Rightarrow> string) \<Rightarrow> string list \<Rightarrow> 'f bindings \<Rightarrow> string + 'f options" where
  "LoadFromEnv A env visited b =
     (let o1 = env_string visited ''log-format'' (env ''ENTREE_API_LOG_FORMAT'') (\<lambda>v o'. o'\<lparr>opLogFormat := v\<rparr>)
            (env_string visited ''log-level'' (env ''ENTREE_API_LOG_LEVEL'') (\<lambda>v o'. o'\<lparr>opLogLevel := v\<rparr>)
              (env_string visited ''listen'' (env ''ENTREE_API_LISTEN'') (\<lambda>v o'. o'\<lparr>opListen := v\<rparr>) (fbOpts b))) in
      bindE (env_parsed (paDuration A) visited ''request-timeout'' ''ENTREE_API_REQUEST_TIMEOUT''
        (env ''ENTREE_API_REQUEST_TIMEOUT'') (\<lambda>d o'. o'\<lparr>opRequestTimeout := d\<rparr>) o1) (\<lambda>o2.
      let o3 = env_string visited ''template-cache-dir'' (env ''ENTREE_API_TEMPLATE_CACHE_DIR'') (\<lambda>v o'. o'\<lparr>opTemplateCacheDir := v\<rparr>) o2;
          o4 = o3\<lparr>opCORSOrigins := if ''cors-origin'' \<in> set visited then fbCORS b
                 else if env ''ENTREE_API_CORS_ORIGIN'' \<noteq> [] then env_origins (env ''ENTREE_API_CORS_ORIGIN'')
                 else opCORSOrigins o3\<rparr>;
          o5 = env_string visited ''state-dir'' (env ''ENTREE_API_STATE_DIR'') (\<lambda>v o'. o'\<lparr>opStateDir := v\<rparr>) o4
      in
      bindE (env_parsed (paDuration A) visited ''migration-ttl'' ''ENTREE_API_MIGRATION_TTL''
        (env ''ENTREE_API_MIGRATION_TTL'') (\<lambda>d o'. o'\<lparr>opMigrationTTL := d\<rparr>) o5) (\<lambda>o6.
      bindE (env_parsed (paDuration A) visited ''gc-interval'' ''ENTREE_API_GC_INTERVAL''
        (env ''ENTREE_API_GC_INTERVAL'') (\<lambda>d o'. o'\<lparr>opMigrationGCInterval := d\<rparr>) o6) (\<lambda>o7.
      env_parsed (paFloat A) visited ''migration-rate'' ''ENTREE_API_MIGRATION_RATE''
        (env ''ENTREE_API_MIGRATION_RATE'') (\<lambda>r o'. o'\<lparr>opMigrationRatePerSecond := r\<rparr>) o7))))"

text \<open>Flags and environment as both binaries combine them.\<close>

definition configure :: "'f parsers \<Rightarrow> process \<Rightarrow> string list \<Rightarrow> (flag_error + string) + ('f :: {zero, numeral, ord}) options" where
  "configure A P args =
     bindE (mapErr Inl (parse_flags known_flag (set_flag A) args (BindFlags P))) (\<lambda>(kvs, b).
     mapErr Inr (LoadFromEnv A (prEnv P) (map fst kvs) b))"

subsection \<open>The server\<close>

datatype log_lv = LevelDebug | LevelInfo | LevelWarn | LevelError

definition defaultLogger :: "string \<Rightarrow> string \<Rightarrow> log_lv \<times> bool" where
  "defaultLogger level format =
     (if level = ''debug'' then LevelDebug else if level = ''warn'' then LevelWarn
      else if level = ''error'' then LevelError else LevelInfo, format = ''text'')"

text \<open>\<open>NewJSONStore\<close> with the errors of the directory and of the probe file.\<close>

record dir_env =
  deMkdir :: "string option"
  deProbe :: "string option"

definition NewJSONStore :: "dir_env \<Rightarrow> string \<Rightarrow> string option" where
  "NewJSONStore E dir =
     (if dir = [] then Some ''migrate: state dir is empty''
      else case deMkdir E of
        Some e \<Rightarrow> Some (''migrate: mkdir state dir: '' @ e)
      | None \<Rightarrow> map_option (\<lambda>e. ''migrate: state dir not writable: '' @ e) (deProbe E))"

text \<open>The outside of one start of the server. The salts are the files \<open>.key-salt\<close>, by directory.\<close>

record start_env =
  stProcess :: process
  stDir :: "string \<Rightarrow> dir_env"
  stKeys :: key_env

type_synonym salts = "string \<Rightarrow> string option"

definition resolve_defaults :: "process \<Rightarrow> ('f :: {zero, numeral, ord}) options \<Rightarrow> 'f options" where
  "resolve_defaults P opts = opts\<lparr>
     opListen := (if opListen opts = [] then '':8080'' else opListen opts),
     opRequestTimeout := (if opRequestTimeout opts = 0 then 15 * minute else opRequestTimeout opts),
     opMigrationTTL := (if opMigrationTTL opts = 0 then hour else opMigrationTTL opts),
     opMigrationGCInterval := (if opMigrationGCInterval opts = 0 then 5 * minute else opMigrationGCInterval opts),
     opMigrationRatePerSecond := (if opMigrationRatePerSecond opts = 0 then 10 else opMigrationRatePerSecond opts),
     opStateDir := (if opStateDir opts = [] then defaultStateDir P else opStateDir opts)\<rparr>"

definition resolve_store :: "start_env \<Rightarrow> 'f options \<Rightarrow> 'f options" where
  "resolve_store E opts =
     (if opMigrationStore opts = None \<and> opStateDir opts \<noteq> [] \<and> NewJSONStore (stDir E (opStateDir opts)) (opStateDir opts) = None
      then opts\<lparr>opMigrationStore := Some json_store\<rparr> else opts)"

definition resolve_key :: "start_env \<Rightarrow> salts \<Rightarrow> 'f options \<Rightarrow> 'f options \<times> salts" where
  "resolve_key E salt opts =
     (if opMigrationKey opts \<noteq> None then (opts, salt)
      else case LoadStateKey (prEnv (stProcess E)) of
        (Some k, True, _) \<Rightarrow> (opts\<lparr>opMigrationKey := Some k\<rparr>, salt)
      | _ \<Rightarrow>
          if opStateDir opts = [] then (opts, salt)
          else (case DeriveStateKey (stKeys E) (opStateDir opts) (salt (opStateDir opts)) of
                  (Inl e, s) \<Rightarrow> (opts, salt(opStateDir opts := s))
                | (Inr k, s) \<Rightarrow> (opts\<lparr>opMigrationKey := Some k\<rparr>, salt(opStateDir opts := s))))"

text \<open>\<open>NewServer\<close>: the resolved options, and the handlers' part of the server. The sealing algorithm, the
  adapters and the provider registry are the globals of the process.\<close>

definition NewServer :: "start_env \<Rightarrow> json aead \<Rightarrow> 's adapters \<Rightarrow> (string \<rightharpoonup> 's provider factory)
    \<Rightarrow> ('f :: {zero, numeral, ord}) options \<Rightarrow> salts \<Rightarrow> ('f options \<times> (js_env, json_dir, 's) server) \<times> salts" where
  "NewServer E A ads provs opts salt =
     (case resolve_key E salt (resolve_store E (resolve_defaults (stProcess E) opts)) of
        (o', salt') \<Rightarrow>
          ((o', \<lparr>svStore = opMigrationStore o', svKey = (case opMigrationKey o' of None \<Rightarrow> [] | Some k \<Rightarrow> k),
             svTTL = opMigrationTTL o', svAead = A, svAdapters = ads, svProviders = provs\<rparr>), salt'))"

definition handleHealthz :: response where
  "handleHealthz = writeJSON (JObj [(''ok'', JBool True)])"

definition handleReadyz :: "'f options \<Rightarrow> int \<Rightarrow> response" where
  "handleReadyz o' now =
     (case opReadyCheck o' of
        None \<Rightarrow> writeJSON (JObj [(''ok'', JBool True)])
      | Some check \<Rightarrow>
          (case check now of
             Some e \<Rightarrow> writeError 503 CodeInternal ''not ready'' None
           | None \<Rightarrow> writeJSON (JObj [(''ok'', JBool True)])))"

subsection \<open>The write limiter\<close>

text \<open>The token bucket is a library's: its constructor and its wait are parameters. A nil limiter never waits.\<close>

definition NewWriteLimiter :: "('f \<Rightarrow> nat \<Rightarrow> 'l) \<Rightarrow> ('f :: {zero, numeral, ord}) \<Rightarrow> 'l option" where
  "NewWriteLimiter new perSecond = Some (new (if perSecond \<le> 0 then 10 else perSecond) 1)"

definition limiter_Wait :: "('l \<Rightarrow> string option \<times> 'l) \<Rightarrow> 'l option \<Rightarrow> string option \<times> 'l option" where
  "limiter_Wait wait w = (case w of None \<Rightarrow> (None, None) | Some l \<Rightarrow> (case wait l of (e, l') \<Rightarrow> (e, Some l')))"

subsection \<open>The sweeper\<close>

text \<open>The background goroutine as a state: it runs or not. A tick of a running one sweeps; starting twice is starting
  once; a store that is missing, or an interval that is not positive, keeps it from starting.\<close>

datatype sweeper = Stopped | Running

definition startSweeper :: "'f options \<Rightarrow> sweeper \<Rightarrow> sweeper" where
  "startSweeper o' w =
     (if w = Running then w
      else if opMigrationStore o' = None \<or> opMigrationGCInterval o' \<le> 0 then w else Running)"

definition stopSweeper :: "sweeper \<Rightarrow> sweeper" where
  "stopSweeper w = Stopped"

definition sweeper_tick :: "(js_env, json_dir, 's) server \<Rightarrow> sweeper \<Rightarrow> js_env \<Rightarrow> int \<Rightarrow> json_dir \<Rightarrow> json_dir" where
  "sweeper_tick srv w e now d = (if w = Running then sweep_tick srv e now d else d)"

subsection \<open>The binary\<close>

text \<open>How serving ended: an error of the listener, or a drain.\<close>

definition runServe :: "'f parsers \<Rightarrow> process \<Rightarrow> (('f :: {zero, numeral, ord}) options \<Rightarrow> string option) \<Rightarrow> string list \<Rightarrow> nat" where
  "runServe A P listen args =
     (case configure A P args of
        Inl e \<Rightarrow> 2
      | Inr o' \<Rightarrow> (case listen o' of Some e \<Rightarrow> 1 | None \<Rightarrow> 0))"

text \<open>\<open>gc --once\<close>: the flags of the server and a boolean one, then one sweep of the store in the state directory.\<close>

definition ParseBool :: "string \<Rightarrow> bool option" where
  "ParseBool s =
     (if s \<in> {''1'', ''t'', ''T'', ''true'', ''TRUE'', ''True''} then Some True
      else if s \<in> {''0'', ''f'', ''F'', ''false'', ''FALSE'', ''False''} then Some False else None)"

definition gc_known :: "string \<Rightarrow> bool option" where
  "gc_known name = (if name = ''once'' then Some True else known_flag name)"

definition gc_set :: "'f parsers \<Rightarrow> string \<Rightarrow> string \<Rightarrow> bool \<times> 'f bindings \<Rightarrow> (bool \<times> 'f bindings) option" where
  "gc_set A name v s =
     (if name = ''once'' then map_option (\<lambda>b. (b, snd s)) (ParseBool v)
      else map_option (Pair (fst s)) (set_flag A name v (snd s)))"

definition runGC :: "('f :: {zero, numeral, ord}) parsers \<Rightarrow> process \<Rightarrow> (string \<Rightarrow> dir_env) \<Rightarrow> js_env \<Rightarrow> int \<Rightarrow> string list
    \<Rightarrow> (string \<Rightarrow> json_dir) \<Rightarrow> nat \<times> (string \<Rightarrow> json_dir)" where
  "runGC A P D e now args fs =
     (case parse_flags gc_known (gc_set A) args (False, BindFlags P) of
        Inl er \<Rightarrow> (2, fs)
      | Inr (kvs, (once, b)) \<Rightarrow>
          (case LoadFromEnv A (prEnv P) (map fst kvs) b of
             Inl er \<Rightarrow> (2, fs)
           | Inr o' \<Rightarrow>
               if \<not> once then (2, fs)
               else if opStateDir o' = [] then (2, fs)
               else (case NewJSONStore (D (opStateDir o')) (opStateDir o') of
                       Some er \<Rightarrow> (1, fs)
                     | None \<Rightarrow>
                         (case js_SweepExpired e now (fs (opStateDir o')) of
                            ((Some er, n), d) \<Rightarrow> (1, fs(opStateDir o' := d))
                          | ((None, n), d) \<Rightarrow> (0, fs(opStateDir o' := d))))))"

definition api_main :: "('f :: {zero, numeral, ord}) parsers \<Rightarrow> process \<Rightarrow> ('f options \<Rightarrow> string option) \<Rightarrow> (string \<Rightarrow> dir_env) \<Rightarrow> js_env \<Rightarrow> int
    \<Rightarrow> string list \<Rightarrow> (string \<Rightarrow> json_dir) \<Rightarrow> nat \<times> (string \<Rightarrow> json_dir)" where
  "api_main A P listen D e now args fs =
     (case args of
        a # as \<Rightarrow> if a = ''serve'' then (runServe A P listen as, fs)
                  else if a = ''gc'' then runGC A P D e now as fs
                  else (runServe A P listen args, fs)
      | [] \<Rightarrow> (runServe A P listen args, fs))"

subsection \<open>Precedence of the settings\<close>

text \<open>The text that decides a setting: the last value of its flag, else a variable that is not empty. What a
  setting is then: its default, or what its parser makes of the text.\<close>

definition chosen :: "(string \<times> string) list \<Rightarrow> (string \<Rightarrow> string) \<Rightarrow> string \<Rightarrow> string \<Rightarrow> string option" where
  "chosen kvs env name var =
     (case last_set name kvs of Some v \<Rightarrow> Some v | None \<Rightarrow> if env var = [] then None else Some (env var))"

definition setting :: "(string \<Rightarrow> string + 'a) \<Rightarrow> 'a \<Rightarrow> string option \<Rightarrow> 'a \<Rightarrow> bool" where
  "setting parse d c x = (case c of None \<Rightarrow> x = d | Some v \<Rightarrow> parse v = Inr x)"

lemma set_flags_used: "set_flags set1 kvs s = Inr s' \<Longrightarrow> (n, v) \<in> set kvs \<Longrightarrow> \<exists>t t'. set1 n v t = Some t'"
  by (induction set1 kvs s rule: set_flags.induct) (auto split: option.splits)

lemma last_set_in: "last_set n kvs = Some v \<Longrightarrow> (n, v) \<in> set kvs"
  unfolding last_set_def by (auto dest: map_of_SomeD)

text \<open>A flag with a parser.\<close>

lemma flag_setting:
  assumes "\<And>n v s s'. set1 n v s = Some s' \<Longrightarrow> get s' = (if n = name then projr (parse v) else get s)"
    and "\<And>v s s'. set1 name v s = Some s' \<Longrightarrow> \<exists>y. parse v = Inr y"
    and "set_flags set1 kvs s = Inr s'"
  shows "setting parse (get s) (last_set name kvs) (get s')"
proof (cases "last_set name kvs")
  case None
  then show ?thesis using set_flags_last [of set1 get name "\<lambda>v. projr (parse v)", OF assms(1) assms(3)] by (simp add: setting_def)
next
  case (Some v)
  then have "\<exists>y. parse v = Inr y" using set_flags_used [OF assms(3) last_set_in [OF Some]] assms(2) by blast
  then show ?thesis
    using set_flags_last [of set1 get name "\<lambda>v. projr (parse v)", OF assms(1) assms(3)] Some
    by (auto simp: setting_def)
qed

lemma set_flag_sel:
  assumes "set_flag A n v b = Some b'"
  shows "opListen (fbOpts b') = (if n = ''listen'' then v else opListen (fbOpts b))"
    and "opLogLevel (fbOpts b') = (if n = ''log-level'' then v else opLogLevel (fbOpts b))"
    and "opLogFormat (fbOpts b') = (if n = ''log-format'' then v else opLogFormat (fbOpts b))"
    and "opTemplateCacheDir (fbOpts b') = (if n = ''template-cache-dir'' then v else opTemplateCacheDir (fbOpts b))"
    and "opStateDir (fbOpts b') = (if n = ''state-dir'' then v else opStateDir (fbOpts b))"
    and "opRequestTimeout (fbOpts b') = (if n = ''request-timeout'' then projr (paDuration A v) else opRequestTimeout (fbOpts b))"
    and "opMigrationTTL (fbOpts b') = (if n = ''migration-ttl'' then projr (paDuration A v) else opMigrationTTL (fbOpts b))"
    and "opMigrationGCInterval (fbOpts b') = (if n = ''gc-interval'' then projr (paDuration A v) else opMigrationGCInterval (fbOpts b))"
    and "opMigrationRatePerSecond (fbOpts b') = (if n = ''migration-rate'' then projr (paFloat A v) else opMigrationRatePerSecond (fbOpts b))"
    and "fbCORS b' = (if n = ''cors-origin'' \<and> v \<noteq> [] then fbCORS b @ [v] else fbCORS b)"
    and "opMigrationStore (fbOpts b') = opMigrationStore (fbOpts b) \<and> opMigrationKey (fbOpts b') = opMigrationKey (fbOpts b)
      \<and> opCORSOrigins (fbOpts b') = opCORSOrigins (fbOpts b)"
  using assms by (auto simp: set_flag_def set_duration_def upd_opts_def split: if_splits sum.splits)

lemma set_flag_valid:
  assumes "set_flag A n v b = Some b'"
  shows "n \<in> {''request-timeout'', ''migration-ttl'', ''gc-interval''} \<Longrightarrow> \<exists>y. paDuration A v = Inr y"
    and "n = ''migration-rate'' \<Longrightarrow> \<exists>y. paFloat A v = Inr y"
  using assms by (auto simp: set_flag_def set_duration_def split: if_splits sum.splits)

lemma set_flags_cors:
  "set_flags (set_flag A) kvs b = Inr b' \<Longrightarrow>
    fbCORS b' = fbCORS b @ filter (\<lambda>v. v \<noteq> []) (map snd (filter (\<lambda>(k, v). k = ''cors-origin'') kvs))"
proof (induction kvs arbitrary: b)
  case (Cons kv kvs)
  obtain n v where kv: "kv = (n, v)" by (cases kv)
  from Cons.prems obtain t where t: "set_flag A n v b = Some t" "set_flags (set_flag A) kvs t = Inr b'"
    by (auto simp: kv split: option.splits)
  from Cons.IH [OF t(2)] set_flag_sel(10) [OF t(1)] show ?case by (simp add: kv)
qed simp

text \<open>The settings a list of flags and an environment amount to, field by field.\<close>

definition settings_of :: "'f parsers \<Rightarrow> process \<Rightarrow> (string \<times> string) list \<Rightarrow> ('f :: {zero, numeral, ord}) options \<Rightarrow> bool" where
  "settings_of A P kvs o' \<longleftrightarrow>
     setting Inr '':8080'' (chosen kvs (prEnv P) ''listen'' ''ENTREE_API_LISTEN'') (opListen o')
   \<and> setting Inr ''info'' (chosen kvs (prEnv P) ''log-level'' ''ENTREE_API_LOG_LEVEL'') (opLogLevel o')
   \<and> setting Inr ''json'' (chosen kvs (prEnv P) ''log-format'' ''ENTREE_API_LOG_FORMAT'') (opLogFormat o')
   \<and> setting Inr (defaultTemplateCacheDir P) (chosen kvs (prEnv P) ''template-cache-dir'' ''ENTREE_API_TEMPLATE_CACHE_DIR'') (opTemplateCacheDir o')
   \<and> setting Inr (defaultStateDirFlag P) (chosen kvs (prEnv P) ''state-dir'' ''ENTREE_API_STATE_DIR'') (opStateDir o')
   \<and> setting (paDuration A) (15 * minute) (chosen kvs (prEnv P) ''request-timeout'' ''ENTREE_API_REQUEST_TIMEOUT'') (opRequestTimeout o')
   \<and> setting (paDuration A) hour (chosen kvs (prEnv P) ''migration-ttl'' ''ENTREE_API_MIGRATION_TTL'') (opMigrationTTL o')
   \<and> setting (paDuration A) (5 * minute) (chosen kvs (prEnv P) ''gc-interval'' ''ENTREE_API_GC_INTERVAL'') (opMigrationGCInterval o')
   \<and> setting (paFloat A) 10 (chosen kvs (prEnv P) ''migration-rate'' ''ENTREE_API_MIGRATION_RATE'') (opMigrationRatePerSecond o')
   \<and> opCORSOrigins o' = (if ''cors-origin'' \<in> fst ` set kvs
        then filter (\<lambda>v. v \<noteq> []) (map snd (filter (\<lambda>(k, v). k = ''cors-origin'') kvs))
        else env_origins (prEnv P ''ENTREE_API_CORS_ORIGIN''))
   \<and> opMigrationStore o' = None \<and> opMigrationKey o' = None \<and> opReadyCheck o' = None"
lemma flags_settings:
  fixes A :: "('f :: {zero, numeral, ord}) parsers"
  assumes "set_flags (set_flag A) kvs (BindFlags P) = Inr b"
  shows "setting Inr '':8080'' (last_set ''listen'' kvs) (opListen (fbOpts b))"
    and "setting Inr ''info'' (last_set ''log-level'' kvs) (opLogLevel (fbOpts b))"
    and "setting Inr ''json'' (last_set ''log-format'' kvs) (opLogFormat (fbOpts b))"
    and "setting Inr (defaultTemplateCacheDir P) (last_set ''template-cache-dir'' kvs) (opTemplateCacheDir (fbOpts b))"
    and "setting Inr (defaultStateDirFlag P) (last_set ''state-dir'' kvs) (opStateDir (fbOpts b))"
    and "setting (paDuration A) (15 * minute) (last_set ''request-timeout'' kvs) (opRequestTimeout (fbOpts b))"
    and "setting (paDuration A) hour (last_set ''migration-ttl'' kvs) (opMigrationTTL (fbOpts b))"
    and "setting (paDuration A) (5 * minute) (last_set ''gc-interval'' kvs) (opMigrationGCInterval (fbOpts b))"
    and "setting (paFloat A) 10 (last_set ''migration-rate'' kvs) (opMigrationRatePerSecond (fbOpts b))"
proof -
  have str: "setting Inr (get (BindFlags P)) (last_set name kvs) (get b)"
    if "\<And>n v b b'. set_flag A n v b = Some b' \<Longrightarrow> get b' = (if n = name then v else get b)" for get name
    by (rule flag_setting [where parse = Inr, OF _ _ assms]) (simp_all add: that)
  show "setting Inr '':8080'' (last_set ''listen'' kvs) (opListen (fbOpts b))"
    using str [of "\<lambda>b. opListen (fbOpts b)", OF set_flag_sel(1)] by (simp add: BindFlags_def)
  show "setting Inr ''info'' (last_set ''log-level'' kvs) (opLogLevel (fbOpts b))"
    using str [of "\<lambda>b. opLogLevel (fbOpts b)", OF set_flag_sel(2)] by (simp add: BindFlags_def)
  show "setting Inr ''json'' (last_set ''log-format'' kvs) (opLogFormat (fbOpts b))"
    using str [of "\<lambda>b. opLogFormat (fbOpts b)", OF set_flag_sel(3)] by (simp add: BindFlags_def)
  show "setting Inr (defaultTemplateCacheDir P) (last_set ''template-cache-dir'' kvs) (opTemplateCacheDir (fbOpts b))"
    using str [of "\<lambda>b. opTemplateCacheDir (fbOpts b)", OF set_flag_sel(4)] by (simp add: BindFlags_def)
  show "setting Inr (defaultStateDirFlag P) (last_set ''state-dir'' kvs) (opStateDir (fbOpts b))"
    using str [of "\<lambda>b. opStateDir (fbOpts b)", OF set_flag_sel(5)] by (simp add: BindFlags_def)
  have parsed: "setting parse (get (BindFlags P)) (last_set name kvs) (get b)"
    if "\<And>n v b b'. set_flag A n v b = Some b' \<Longrightarrow> get b' = (if n = name then projr (parse v) else get b)"
      and "\<And>v b b'. set_flag A name v b = Some b' \<Longrightarrow> \<exists>y. parse v = Inr y" for get name and parse :: "string \<Rightarrow> string + 'x"
    by (rule flag_setting [OF that assms])
  show "setting (paDuration A) (15 * minute) (last_set ''request-timeout'' kvs) (opRequestTimeout (fbOpts b))"
    using parsed [of "\<lambda>b. opRequestTimeout (fbOpts b)", OF set_flag_sel(6) set_flag_valid(1)] by (simp add: BindFlags_def)
  show "setting (paDuration A) hour (last_set ''migration-ttl'' kvs) (opMigrationTTL (fbOpts b))"
    using parsed [of "\<lambda>b. opMigrationTTL (fbOpts b)", OF set_flag_sel(7) set_flag_valid(1)] by (simp add: BindFlags_def)
  show "setting (paDuration A) (5 * minute) (last_set ''gc-interval'' kvs) (opMigrationGCInterval (fbOpts b))"
    using parsed [of "\<lambda>b. opMigrationGCInterval (fbOpts b)", OF set_flag_sel(8) set_flag_valid(1)] by (simp add: BindFlags_def)
  show "setting (paFloat A) 10 (last_set ''migration-rate'' kvs) (opMigrationRatePerSecond (fbOpts b))"
    using flag_setting [of "set_flag A" "\<lambda>b. opMigrationRatePerSecond (fbOpts b)", OF set_flag_sel(9) set_flag_valid(2) assms]
    by (simp add: BindFlags_def)
qed

lemma flags_fixed:
  assumes "set_flags (set_flag A) kvs (BindFlags P) = Inr b"
  shows "opMigrationStore (fbOpts b) = None" "opMigrationKey (fbOpts b) = None" "opCORSOrigins (fbOpts b) = []" "opReadyCheck (fbOpts b) = None"
proof -
  have "opMigrationStore (fbOpts t') = opMigrationStore (fbOpts t) \<and> opMigrationKey (fbOpts t') = opMigrationKey (fbOpts t)
      \<and> opCORSOrigins (fbOpts t') = opCORSOrigins (fbOpts t) \<and> opReadyCheck (fbOpts t') = opReadyCheck (fbOpts t)"
    if "set_flags (set_flag A) ks t = Inr t'" for ks t t'
    using that
  proof (induction ks arbitrary: t)
    case (Cons kv ks)
    then show ?case
      by (cases kv) (auto simp: set_flag_def set_duration_def upd_opts_def split: option.splits if_splits sum.splits)
  qed simp
  from this [OF assms] show "opMigrationStore (fbOpts b) = None" "opMigrationKey (fbOpts b) = None" "opCORSOrigins (fbOpts b) = []"
    "opReadyCheck (fbOpts b) = None"
    by (simp_all add: BindFlags_def)
qed

text \<open>What one variable does to its field, and that it leaves the others alone.\<close>

definition env_effect :: "(string \<Rightarrow> string + 'a) \<Rightarrow> (string \<times> string) list \<Rightarrow> (string \<Rightarrow> string) \<Rightarrow> string \<Rightarrow> string \<Rightarrow> 'a \<Rightarrow> 'a \<Rightarrow> bool" where
  "env_effect parse kvs env name var x y =
     (if name \<notin> fst ` set kvs \<and> env var \<noteq> [] then parse (env var) = Inr y else y = x)"

lemma env_setting:
  assumes "setting parse d (last_set name kvs) x" and "env_effect parse kvs env name var x y"
  shows "setting parse d (chosen kvs env name var) y"
  using assms last_set_None [of name kvs] by (auto simp: setting_def chosen_def env_effect_def split: option.splits if_splits)

lemma env_parsed_E:
  assumes "env_parsed parse (map fst kvs) name var (env var) upd o' = Inr o''" and "upd (get o') o' = o'"
  obtains y where "o'' = upd y o'" and "env_effect parse kvs env name var (get o') y"
  using assms by (auto simp: env_parsed_def env_effect_def split: if_splits sum.splits)

lemma options_same:
  "o'\<lparr>opRequestTimeout := opRequestTimeout o'\<rparr> = o'" "o'\<lparr>opMigrationTTL := opMigrationTTL o'\<rparr> = o'"
  "o'\<lparr>opMigrationGCInterval := opMigrationGCInterval o'\<rparr> = o'" "o'\<lparr>opMigrationRatePerSecond := opMigrationRatePerSecond o'\<rparr> = o'"
  by simp_all

lemmas env_parsed_Es =
  env_parsed_E [where upd = "\<lambda>d o'. o'\<lparr>opRequestTimeout := d\<rparr>", OF _ options_same(1)]
  env_parsed_E [where upd = "\<lambda>d o'. o'\<lparr>opMigrationTTL := d\<rparr>", OF _ options_same(2)]
  env_parsed_E [where upd = "\<lambda>d o'. o'\<lparr>opMigrationGCInterval := d\<rparr>", OF _ options_same(3)]
  env_parsed_E [where upd = "\<lambda>d o'. o'\<lparr>opMigrationRatePerSecond := d\<rparr>", OF _ options_same(4)]

lemma env_string_upd:
  "env_string vis n v (\<lambda>v o'. o'\<lparr>opListen := v\<rparr>) x = x\<lparr>opListen := if n \<notin> set vis \<and> v \<noteq> [] then v else opListen x\<rparr>"
  "env_string vis n v (\<lambda>v o'. o'\<lparr>opLogLevel := v\<rparr>) x = x\<lparr>opLogLevel := if n \<notin> set vis \<and> v \<noteq> [] then v else opLogLevel x\<rparr>"
  "env_string vis n v (\<lambda>v o'. o'\<lparr>opLogFormat := v\<rparr>) x = x\<lparr>opLogFormat := if n \<notin> set vis \<and> v \<noteq> [] then v else opLogFormat x\<rparr>"
  "env_string vis n v (\<lambda>v o'. o'\<lparr>opTemplateCacheDir := v\<rparr>) x
    = x\<lparr>opTemplateCacheDir := if n \<notin> set vis \<and> v \<noteq> [] then v else opTemplateCacheDir x\<rparr>"
  "env_string vis n v (\<lambda>v o'. o'\<lparr>opStateDir := v\<rparr>) x = x\<lparr>opStateDir := if n \<notin> set vis \<and> v \<noteq> [] then v else opStateDir x\<rparr>"
  by (simp_all add: env_string_def)

lemma LoadFromEnv_effect:
  assumes "LoadFromEnv A env (map fst kvs) b = Inr o'"
  shows "env_effect Inr kvs env ''listen'' ''ENTREE_API_LISTEN'' (opListen (fbOpts b)) (opListen o')
    \<and> env_effect Inr kvs env ''log-level'' ''ENTREE_API_LOG_LEVEL'' (opLogLevel (fbOpts b)) (opLogLevel o')
    \<and> env_effect Inr kvs env ''log-format'' ''ENTREE_API_LOG_FORMAT'' (opLogFormat (fbOpts b)) (opLogFormat o')
    \<and> env_effect Inr kvs env ''template-cache-dir'' ''ENTREE_API_TEMPLATE_CACHE_DIR'' (opTemplateCacheDir (fbOpts b)) (opTemplateCacheDir o')
    \<and> env_effect Inr kvs env ''state-dir'' ''ENTREE_API_STATE_DIR'' (opStateDir (fbOpts b)) (opStateDir o')
    \<and> env_effect (paDuration A) kvs env ''request-timeout'' ''ENTREE_API_REQUEST_TIMEOUT'' (opRequestTimeout (fbOpts b)) (opRequestTimeout o')
    \<and> env_effect (paDuration A) kvs env ''migration-ttl'' ''ENTREE_API_MIGRATION_TTL'' (opMigrationTTL (fbOpts b)) (opMigrationTTL o')
    \<and> env_effect (paDuration A) kvs env ''gc-interval'' ''ENTREE_API_GC_INTERVAL'' (opMigrationGCInterval (fbOpts b)) (opMigrationGCInterval o')
    \<and> env_effect (paFloat A) kvs env ''migration-rate'' ''ENTREE_API_MIGRATION_RATE'' (opMigrationRatePerSecond (fbOpts b)) (opMigrationRatePerSecond o')
    \<and> opCORSOrigins o' = (if ''cors-origin'' \<in> fst ` set kvs then fbCORS b
        else if env ''ENTREE_API_CORS_ORIGIN'' \<noteq> [] then env_origins (env ''ENTREE_API_CORS_ORIGIN'') else opCORSOrigins (fbOpts b))
    \<and> opMigrationStore o' = opMigrationStore (fbOpts b) \<and> opMigrationKey o' = opMigrationKey (fbOpts b)
    \<and> opReadyCheck o' = opReadyCheck (fbOpts b)"
proof -
  obtain l lv lf co rt tc rc sd st ke tt gc ra where ob: "fbOpts b = \<lparr>opListen = l, opLogLevel = lv, opLogFormat = lf,
      opCORSOrigins = co, opRequestTimeout = rt, opTemplateCacheDir = tc, opReadyCheck = rc, opStateDir = sd, opMigrationStore = st,
      opMigrationKey = ke, opMigrationTTL = tt, opMigrationGCInterval = gc, opMigrationRatePerSecond = ra\<rparr>"
    by (rule options.cases)
  show ?thesis
    using assms unfolding LoadFromEnv_def Let_def
    by (elim bindE_InrE env_parsed_Es, hypsubst)
      (simp only: ob env_string_upd options.simps, simp add: env_effect_def)
qed

lemma LoadFromEnv_settings:
  assumes flags: "set_flags (set_flag A) kvs (BindFlags P) = Inr b" and load: "LoadFromEnv A (prEnv P) (map fst kvs) b = Inr o'"
  shows "settings_of A P kvs o'"
proof -
  have cors: "env_origins [] = []" by (simp add: env_origins_def Split_def TrimSpace_def)
  show ?thesis
    unfolding settings_of_def
    using flags_settings [OF flags, THEN env_setting] flags_fixed [OF flags] LoadFromEnv_effect [OF load] set_flags_cors [OF flags] cors
    by (intro conjI) (simp_all add: BindFlags_def)
qed
lemma configure_settings:
  assumes "configure A P args = Inr o'"
  obtains kvs b where "scan_args known_flag args = (kvs, None)" and "set_flags (set_flag A) kvs (BindFlags P) = Inr b"
    and "LoadFromEnv A (prEnv P) (map fst kvs) b = Inr o'" and "settings_of A P kvs o'"
proof -
  from assms obtain kvs b where p: "parse_flags known_flag (set_flag A) args (BindFlags P) = Inr (kvs, b)"
    and l: "LoadFromEnv A (prEnv P) (map fst kvs) b = Inr o'"
    by (auto simp: configure_def)
  from p have s: "scan_args known_flag args = (kvs, None)" "set_flags (set_flag A) kvs (BindFlags P) = Inr b"
    by (auto simp: parse_flags_def split: prod.splits option.splits)
  from that [OF s l LoadFromEnv_settings [OF s(2) l]] show ?thesis .
qed


definition demo_process :: process where
  "demo_process = \<lparr>prEnv = (\<lambda>v. if v = ''HOME'' then ''/root'' else if v = ''ENTREE_API_LISTEN'' then '':9090''
      else if v = ''ENTREE_API_LOG_LEVEL'' then ''debug'' else []), prHome = Inr ''/root'', prTemp = ''/tmp''\<rparr>"

definition demo_parsers :: "int parsers" where
  "demo_parsers = \<lparr>paDuration = (\<lambda>s. case Atoi s of None \<Rightarrow> Inl ''bad'' | Some n \<Rightarrow> Inr n),
     paFloat = (\<lambda>s. case Atoi s of None \<Rightarrow> Inl ''bad'' | Some n \<Rightarrow> Inr n)\<rparr>"


text \<open>The defaults are never empty, so a started server does not look at \<open>ENTREE_STATE_DIR\<close> unless it is given an
  empty \<open>--state-dir\<close>.\<close>

lemma defaultStateDirFlag_nonempty: "defaultStateDirFlag P \<noteq> []"
  by (auto simp: defaultStateDirFlag_def path_Join_nonempty split: option.split)

lemma ENTREE_STATE_DIR_ignored:
  assumes "configure A P args = Inr o'" and "scan_args known_flag args = (kvs, None)" and "''state-dir'' \<notin> fst ` set kvs"
    and "prEnv P ''ENTREE_API_STATE_DIR'' = []"
  shows "opStateDir (resolve_defaults P o') = defaultStateDirFlag P"
proof -
  have "opStateDir o' = defaultStateDirFlag P"
    using assms(2-4) last_set_None [of "''state-dir''" kvs]
    by (rule_tac configure_settings [OF assms(1)]) (simp add: settings_of_def setting_def chosen_def)
  then show ?thesis using defaultStateDirFlag_nonempty [of P] by (simp add: resolve_defaults_def)
qed

end
