(* ===== verification/Api_Start.thy ===== *)
theory Api_Start
  imports Api_Server
begin

text \<open>
  What the set-up of a server guarantees: the one-shot sweep of \<open>entree-api gc\<close> is a tick of the server's own
  sweeper, credentials sealed before a restart can be opened after it, and no id of a request leaves the state
  directory.
\<close>

subsection \<open>One sweep, two ways\<close>

lemma gc_flags:
  assumes "set_flags (set_flag A) kvs b = Inr b'" and "''once'' \<notin> fst ` set kvs"
  shows "set_flags (gc_set A) kvs (once, b) = Inr (once, b')"
  using assms
proof (induction kvs arbitrary: b)
  case (Cons kv kvs)
  obtain n v where kv: "kv = (n, v)" by (cases kv)
  with Cons show ?case by (auto simp: gc_set_def split: option.splits)
qed simp

lemma gc_scan:
  assumes "scan_args known_flag args = (kvs, None)"
  shows "scan_args gc_known (''--once'' # args) = ((''once'', ''true'') # kvs, None)" and "''once'' \<notin> fst ` set kvs"
proof -
  have "scan_args gc_known args = (kvs, None)"
    by (rule scan_args_mono [OF _ assms]) (auto simp: gc_known_def known_flag_def api_flags_def split: if_splits)
  moreover have "scan_one gc_known ''--once'' args = ScanSet ''once'' ''true'' args"
    by (simp add: scan_one_def scan_value_def no_flag_def flag_body_def bad_body_def flag_name_def gc_known_def)
  ultimately show "scan_args gc_known (''--once'' # args) = ((''once'', ''true'') # kvs, None)"
    by simp
  show "''once'' \<notin> fst ` set kvs"
    using scan_args_known [OF assms] by (force simp: known_flag_def api_flags_def)
qed

lemma resolve_key_same: "opMigrationStore (fst (resolve_key E salt opts)) = opMigrationStore opts
    \<and> opStateDir (fst (resolve_key E salt opts)) = opStateDir opts"
  unfolding resolve_key_def by (auto split: prod.split option.split sum.split bool.split)

lemma NewServer_store:
  assumes "NewServer E aead ads provs opts salt = ((o'', srv), salt')"
  shows "svStore srv = opMigrationStore (resolve_store E (resolve_defaults (stProcess E) opts))"
  using assms resolve_key_same [of E salt "resolve_store E (resolve_defaults (stProcess E) opts)"]
  by (auto simp: NewServer_def split: prod.splits)

text \<open>Property C27. \<open>entree-api gc --once\<close> with the flags of a server is that server's sweeper: it touches no other state
  directory, leaves in this one exactly what a tick of the running sweeper at that time would leave, and exits with
  0 just when the sweep met no error.\<close>

theorem gc_is_a_tick:
  assumes "configure A P args = Inr o'"
    and "NewServer E aead ads provs o' salt = ((o'', srv), salt')" and "stProcess E = P"
    and "NewJSONStore (stDir E (opStateDir o')) (opStateDir o') = None"
  shows "runGC A P (stDir E) e now (''--once'' # args) fs
    = (if fst (fst (js_SweepExpired e now (fs (opStateDir o')))) = None then 0 else 1,
       fs(opStateDir o' := sweeper_tick srv Running e now (fs (opStateDir o'))))"
proof -
  obtain kvs b where scan: "scan_args known_flag args = (kvs, None)" and fl: "set_flags (set_flag A) kvs (BindFlags P) = Inr b"
    and load: "LoadFromEnv A (prEnv P) (map fst kvs) b = Inr o'" and s: "settings_of A P kvs o'"
    by (rule configure_settings [OF assms(1)])
  have ne: "opStateDir o' \<noteq> []" using assms(4) by (auto simp: NewJSONStore_def)
  have none: "opMigrationStore o' = None" using s by (simp add: settings_of_def)
  let ?kvs = "(''once'', ''true'') # kvs"
  have "set_flags (gc_set A) ?kvs (False, BindFlags P) = Inr (True, b)"
    using gc_flags [OF fl gc_scan(2) [OF scan], of True] by (simp add: gc_set_def ParseBool_def)
  then have parse: "parse_flags gc_known (gc_set A) (''--once'' # args) (False, BindFlags P) = Inr (?kvs, (True, b))"
    unfolding parse_flags_def gc_scan(1) [OF scan] by simp
  have "LoadFromEnv A (prEnv P) (''once'' # map fst kvs) b = LoadFromEnv A (prEnv P) (map fst kvs) b"
    by (simp add: LoadFromEnv_def env_string_def env_parsed_def)
  then have load': "LoadFromEnv A (prEnv P) (''once'' # map fst kvs) b = Inr o'" using load by simp
  have "svStore srv = Some json_store"
    using assms(4) ne none by (simp add: NewServer_store [OF assms(2)] resolve_store_def resolve_defaults_def)
  then have tick: "sweeper_tick srv Running e now d = snd (js_SweepExpired e now d)" for d
    by (simp add: sweeper_tick_def sweep_tick_def json_store_def)
  show ?thesis
    using ne assms(3,4) by (auto simp: runGC_def parse load' tick split: prod.split option.split)
qed

definition quiet_start :: "string \<Rightarrow> start_env" where
  "quiet_start r = \<lparr>stProcess = demo_process, stDir = (\<lambda>d. \<lparr>deMkdir = None, deProbe = None\<rparr>), stKeys = quiet_key_env r\<rparr>"

definition quiet_js :: js_env where
  "quiet_js = \<lparr>jeNow = 0, jeCtx = None, jeLock = None, jeStat = None, jeRead = (\<lambda>i. None), jeWrite = None, jeRemove = None,
     jeRemoveLock = None, jeReadDir = None, jeTie = (\<lambda>m. 0)\<rparr>"

definition plain_aead :: "json aead" where
  "plain_aead = \<lparr>aeSeal = (\<lambda>k n p. []), aeOpen = (\<lambda>k n c. Some JNull)\<rparr>"

lemma gc_is_a_tick_witness:
  "fst (runGC demo_parsers demo_process (stDir (quiet_start ''r'')) quiet_js 5 [''--once'', ''--state-dir=/state''] (\<lambda>d. [])) = 0"
proof -
  let ?args = "[''--state-dir=/state'']" and ?E = "quiet_start ''r''"
  have "isl (configure demo_parsers demo_process ?args) = False" by code_simp
  then obtain o' where c: "configure demo_parsers demo_process ?args = Inr o'"
    by (cases "configure demo_parsers demo_process ?args") auto
  have s: "scan_args known_flag ?args = ([(''state-dir'', ''/state'')], None)" by code_simp
  have d: "opStateDir o' = ''/state''"
    by (rule configure_settings [OF c]) (use s in \<open>simp add: settings_of_def setting_def chosen_def last_set_def\<close>)
  obtain o'' srv salt' where n: "NewServer ?E plain_aead Map.empty (Map.empty :: string \<rightharpoonup> unit provider factory) o' (\<lambda>d. None) = ((o'', srv), salt')"
    by (metis prod.collapse)
  have j: "NewJSONStore (stDir ?E (opStateDir o')) (opStateDir o') = None" by (simp add: NewJSONStore_def d quiet_start_def)
  have p: "stProcess ?E = demo_process" by (simp add: quiet_start_def)
  have "js_SweepExpired quiet_js 5 [] = ((None, 0), [])" by code_simp
  then show ?thesis using gc_is_a_tick [OF c n p j, of quiet_js 5 "\<lambda>d. []"] by simp
qed
subsection \<open>Restarts\<close>

lemma NewServer_key:
  assumes "NewServer E aead ads provs opts salt = ((o'', srv), salt')"
  shows "resolve_key E salt (resolve_store E (resolve_defaults (stProcess E) opts)) = (o'', salt')"
    and "svKey srv = (case opMigrationKey o'' of None \<Rightarrow> [] | Some k \<Rightarrow> k)"
  using assms by (auto simp: NewServer_def split: prod.splits)

lemma resolve_store_sel [simp]: "opStateDir (resolve_store E o') = opStateDir o'" "opMigrationKey (resolve_store E o') = opMigrationKey o'"
  by (simp_all add: resolve_store_def)

lemma resolve_defaults_sel [simp]:
  "opMigrationKey (resolve_defaults P o') = opMigrationKey o'"
  "opStateDir (resolve_defaults P o') = (if opStateDir o' = [] then defaultStateDir P else opStateDir o')"
  by (simp_all add: resolve_defaults_def)

text \<open>Where the key comes from, in order: the options, the environment, the derivation.\<close>

definition start_key :: "start_env \<Rightarrow> salts \<Rightarrow> 'f options \<Rightarrow> string option" where
  "start_key E salt opts =
     (case opMigrationKey opts of
        Some k \<Rightarrow> Some k
      | None \<Rightarrow>
          (case fst (LoadStateKey (prEnv (stProcess E))) of
             Some k \<Rightarrow> Some k
           | None \<Rightarrow>
               (case fst (DeriveStateKey (stKeys E) (opStateDir opts) (salt (opStateDir opts))) of
                  Inl e \<Rightarrow> None | Inr k \<Rightarrow> Some k)))"

lemma start_key_cong: "opMigrationKey a = opMigrationKey b \<Longrightarrow> opStateDir a = opStateDir b \<Longrightarrow> start_key E s a = start_key E s b"
  by (simp only: start_key_def)

lemma LoadStateKey_found: "fst (snd (LoadStateKey env)) \<longleftrightarrow> fst (LoadStateKey env) \<noteq> None"
  using LoadStateKey_length [of env "fst (LoadStateKey env)" "fst (snd (LoadStateKey env))" "snd (snd (LoadStateKey env))"] by simp

lemma resolve_key_result:
  assumes "resolve_key E salt opts = (o'', salt')" and "opStateDir opts \<noteq> []"
  shows "opMigrationKey o'' = start_key E salt opts"
    and "opMigrationKey opts = None \<Longrightarrow> fst (LoadStateKey (prEnv (stProcess E))) = None \<Longrightarrow>
      salt' (opStateDir opts) = snd (DeriveStateKey (stKeys E) (opStateDir opts) (salt (opStateDir opts)))"
proof -
  obtain k b e where l: "LoadStateKey (prEnv (stProcess E)) = (k, b, e)" by (rule prod_cases3)
  have kb: "b \<longleftrightarrow> k \<noteq> None" using LoadStateKey_found [of "prEnv (stProcess E)"] l by simp
  obtain r s where d: "DeriveStateKey (stKeys E) (opStateDir opts) (salt (opStateDir opts)) = (r, s)" by (rule prod.exhaust)
  show "opMigrationKey o'' = start_key E salt opts"
  proof (cases "opMigrationKey opts")
    case None
    then show ?thesis using assms l kb d by (cases k; cases r) (auto simp: resolve_key_def start_key_def)
  qed (use assms in \<open>auto simp: resolve_key_def start_key_def\<close>)
  show "salt' (opStateDir opts) = snd (DeriveStateKey (stKeys E) (opStateDir opts) (salt (opStateDir opts)))"
    if "opMigrationKey opts = None" "fst (LoadStateKey (prEnv (stProcess E))) = None"
    using that assms l kb d by (cases r) (auto simp: resolve_key_def)
qed

text \<open>A second start with the same options and the same variable finds the key of the first, when it derives one on
  the same host and the salt can be read.\<close>

lemma start_key_stable:
  assumes first: "resolve_key E salt opts = (o1, salt1)" "opMigrationKey o1 = Some key" and dir: "opStateDir opts \<noteq> []"
    and same: "prEnv (stProcess E') ''ENTREE_STATE_KEY'' = prEnv (stProcess E) ''ENTREE_STATE_KEY''"
      "keHostname (stKeys E') = keHostname (stKeys E)" "keHash (stKeys E') = keHash (stKeys E)"
      "keMkdir (stKeys E') = None" "keRead (stKeys E') = None"
  shows "start_key E' salt1 opts = Some key"
proof -
  have env: "LoadStateKey (prEnv (stProcess E')) = LoadStateKey (prEnv (stProcess E))" by (simp add: LoadStateKey_def same(1))
  have k: "start_key E salt opts = Some key" using resolve_key_result(1) [OF first(1) dir] first(2) by simp
  show ?thesis
  proof (cases "opMigrationKey opts = None \<and> fst (LoadStateKey (prEnv (stProcess E))) = None")
    case True
    then have "fst (DeriveStateKey (stKeys E) (opStateDir opts) (salt (opStateDir opts))) = Inr key"
      using k by (auto simp: start_key_def split: sum.splits)
    then have "DeriveStateKey (stKeys E) (opStateDir opts) (salt (opStateDir opts)) = (Inr key, salt1 (opStateDir opts))"
      using resolve_key_result(2) [OF first(1) dir] True by (metis prod.collapse)
    from DeriveStateKey_stable [OF this same(2-5) dir] True env show ?thesis by (simp add: start_key_def)
  next
    case False
    then show ?thesis using k env by (auto simp: start_key_def split: option.splits)
  qed
qed

text \<open>Property C25. Credentials survive a restart: what a server sealed, a server started later with the same options
  opens again, on the same host and with the same value of \<open>ENTREE_STATE_KEY\<close>, as long as the state directory
  and the salt in it can be read; a new salt is never drawn.\<close>

theorem restart_opens_credentials:
  assumes "aead_ok aead creds" and "opStateDir opts \<noteq> []"
    and "NewServer E aead ads provs opts salt = ((o1, srv1), salt1)"
    and "EncryptCreds aead (Inr nonce) (svKey srv1) creds = Inr blob" and "length nonce = nonce_size"
    and "NewServer E' aead ads' provs' opts salt1 = ((o2, srv2), salt2)"
    and "prEnv (stProcess E') ''ENTREE_STATE_KEY'' = prEnv (stProcess E) ''ENTREE_STATE_KEY''"
    and "keHostname (stKeys E') = keHostname (stKeys E)" "keHash (stKeys E') = keHash (stKeys E)"
    and "keMkdir (stKeys E') = None" "keRead (stKeys E') = None"
  shows "DecryptCreds aead (svKey srv2) blob = Inr creds"
proof -
  let ?r1 = "resolve_store E (resolve_defaults (stProcess E) opts)" and ?r2 = "resolve_store E' (resolve_defaults (stProcess E') opts)"
  note n1 = NewServer_key [OF assms(3)] and n2 = NewServer_key [OF assms(6)]
  have dir: "opStateDir ?r1 \<noteq> []" "opStateDir ?r2 \<noteq> []" using assms(2) by simp_all
  have "svKey srv1 \<noteq> []" using assms(4) by (auto simp: EncryptCreds_def split: if_splits)
  then obtain key where key: "opMigrationKey o1 = Some key" "svKey srv1 = key" using n1(2) by (auto split: option.splits)
  have "start_key E' salt1 ?r1 = Some key" by (rule start_key_stable [OF n1(1) key(1) dir(1) assms(7-11)])
  moreover have "start_key E' salt1 ?r2 = start_key E' salt1 ?r1" by (rule start_key_cong) (simp_all add: assms(2))
  ultimately have "start_key E' salt1 ?r2 = Some key" by simp
  then have "svKey srv2 = key" using resolve_key_result(1) [OF n2(1) dir(2)] n2(2) by simp
  with decrypt_encrypt [OF assms(1,4,5)] key(2) show ?thesis by simp
qed

text \<open>A toy cipher of texts keeps the text behind the key and checks the key.\<close>

definition toy_aead :: "json aead" where
  "toy_aead = \<lparr>aeSeal = (\<lambda>k n p. case p of JStr s \<Rightarrow> k @ s | _ \<Rightarrow> []),
     aeOpen = (\<lambda>k n c. if take (length k) c = k then Some (JStr (drop (length k) c)) else None)\<rparr>"

definition state_options :: "int options" where
  "state_options = \<lparr>opListen = [], opLogLevel = [], opLogFormat = [], opCORSOrigins = [], opRequestTimeout = 0, opTemplateCacheDir = [],
     opReadyCheck = None, opStateDir = ''/state'', opMigrationStore = None, opMigrationKey = None, opMigrationTTL = 0,
     opMigrationGCInterval = 0, opMigrationRatePerSecond = 0\<rparr>"

lemma restart_opens_credentials_witness:
  "\<exists>srv2. length (svKey srv2) = 32 \<and> DecryptCreds toy_aead (svKey (srv2 :: (js_env, json_dir, unit) server))
    (''nonce-nonce-'' @ svKey srv2 @ ''secret'') = Inr (JStr ''secret'')"
proof -
  let ?E = "quiet_start (replicate 32 CHR ''a'')" and ?E' = "quiet_start (replicate 32 CHR ''b'')"
  obtain o1 and srv1 :: "(js_env, json_dir, unit) server" and salt1
    where n1: "NewServer ?E toy_aead Map.empty Map.empty state_options (\<lambda>d. None) = ((o1, srv1), salt1)" by (metis prod.collapse)
  obtain o2 and srv2 :: "(js_env, json_dir, unit) server" and salt2
    where n2: "NewServer ?E' toy_aead Map.empty Map.empty state_options salt1 = ((o2, srv2), salt2)" by (metis prod.collapse)
  have env: "prEnv (stProcess ?E) ''ENTREE_STATE_KEY'' = []" by (simp add: quiet_start_def demo_process_def)
  have d: "DeriveStateKey (stKeys ?E) ''/state'' None = (Inr (derive_from (stKeys ?E) (replicate 32 CHR ''a'')), Some (replicate 32 CHR ''a''))"
    by (simp add: DeriveStateKey_def quiet_start_def quiet_key_env_def derive_from_def)
  have dir: "opStateDir (resolve_store ?E (resolve_defaults (stProcess ?E) state_options)) = ''/state''"
    "opMigrationKey (resolve_store ?E (resolve_defaults (stProcess ?E) state_options)) = None" by (simp_all add: state_options_def)
  have k1: "svKey srv1 = derive_from (stKeys ?E) (replicate 32 CHR ''a'')"
    using NewServer_key(2) [OF n1] resolve_key_result(1) [OF NewServer_key(1) [OF n1]] dir d env by (simp add: start_key_def LoadStateKey_def)
  have len: "length (svKey srv1) = 32" by (simp add: k1 derive_from_def quiet_start_def quiet_key_env_def)
  have seal: "EncryptCreds toy_aead (Inr ''nonce-nonce-'') (svKey srv1) (JStr ''secret'') = Inr (''nonce-nonce-'' @ svKey srv1 @ ''secret'')"
    by (simp add: EncryptCreds_def len toy_aead_def)
  have ok: "aead_ok toy_aead (JStr ''secret'')" by (simp add: aead_ok_def toy_aead_def)
  have "DecryptCreds toy_aead (svKey srv2) (''nonce-nonce-'' @ svKey srv1 @ ''secret'') = Inr (JStr ''secret'')"
    by (rule restart_opens_credentials [OF ok _ n1 seal _ n2]) (simp_all add: state_options_def nonce_size_def quiet_start_def quiet_key_env_def)
  moreover have "svKey srv2 = svKey srv1"
    using calculation len by (auto simp: DecryptCreds_def nonce_size_def toy_aead_def split: if_splits option.splits)
  ultimately show ?thesis using len by metis
qed

subsection \<open>The state directory\<close>

text \<open>No request leaves the state directory: whatever path a request has, the file that its migration id names
  is a plain name directly in that directory.\<close>

theorem request_in_state_dir:
  assumes "dir \<noteq> []" and "extractPathID path \<noteq> []"
  shows "path_segs (path_Join [dir, pathFor (extractPathID path)]) = path_segs dir @ [pathFor (extractPathID path)]
    \<and> plain_seg (pathFor (extractPathID path))"
proof -
  have "plain_seg (pathFor (extractPathID path))"
    using assms(2) extractPathID_no_slash [of path] by (auto simp: plain_seg_def pathFor_def append_eq_Cons_conv)
  with path_Join_below [of "[pathFor (extractPathID path)]" dir] assms(1) show ?thesis by simp
qed

lemma request_in_state_dir_witness:
  "path_segs (path_Join [''/var/state/'', pathFor (extractPathID ''/v1/migrate/../../etc/passwd'')]) = [''var'', ''state'', ''...json'']"
proof -
  have i: "extractPathID ''/v1/migrate/../../etc/passwd'' = ''..''" by code_simp
  have "path_segs ''/var/state/'' = [''var'', ''state'']" by code_simp
  with request_in_state_dir [of "''/var/state/''" "''/v1/migrate/../../etc/passwd''"] i show ?thesis by (simp add: pathFor_def)
qed

end
