(* ===== verification/Api_Routes.thy ===== *)
theory Api_Routes
  imports Api_Migrate Api_Metrics Go_Path Net_URL
begin

text \<open>
  The routes of the API (\<open>registerWave1Routes\<close> in \<open>api/server.go\<close>, \<open>api/routes_core.go\<close>, \<open>api/routes_extra.go\<close>)
  and what \<open>http.ServeMux\<close> makes of them: the escaped path is cleaned, a path that was not clean is redirected,
  segments are unescaped one by one, a wildcard takes one segment that is not empty. A handler is reached by its
  endpoint; the pattern it was registered with is the label of the metrics.
\<close>

subsection \<open>The table\<close>

datatype endpoint =
    Healthz | Readyz | Metrics | OpenAPI
  | Detect | VerifyRecord | SPFMerge | ApplyRecords | ApplyTemplate
  | DCDiscover | DCApplyURL | TemplatesSync | TemplatesList | TemplateGet | TemplateResolve
  | Migrate | MigratePreview | MigrateApply | MigrateVerify | MigrateGet | MigrateList | MigrateDelete
  | ZoneExport | ZoneImport

datatype seg_pat = Lit string | Wild string

type_synonym route = "string \<times> seg_pat list \<times> endpoint"

definition wave1_routes :: "route list" where
  "wave1_routes =
     [(''GET'', [Lit ''healthz''], Healthz), (''GET'', [Lit ''readyz''], Readyz), (''GET'', [Lit ''metrics''], Metrics),
      (''GET'', [Lit ''v1'', Lit ''openapi.yaml''], OpenAPI)]"

definition core_routes :: "route list" where
  "core_routes =
     [(''POST'', [Lit ''v1'', Lit ''detect''], Detect), (''POST'', [Lit ''v1'', Lit ''verify''], VerifyRecord),
      (''POST'', [Lit ''v1'', Lit ''spf-merge''], SPFMerge), (''POST'', [Lit ''v1'', Lit ''apply''], ApplyRecords),
      (''POST'', [Lit ''v1'', Lit ''apply'', Lit ''template''], ApplyTemplate)]"

definition extra_routes :: "route list" where
  "extra_routes =
     [(''POST'', [Lit ''v1'', Lit ''dc'', Lit ''discover''], DCDiscover), (''POST'', [Lit ''v1'', Lit ''dc'', Lit ''apply-url''], DCApplyURL),
      (''POST'', [Lit ''v1'', Lit ''templates'', Lit ''sync''], TemplatesSync), (''GET'', [Lit ''v1'', Lit ''templates''], TemplatesList),
      (''GET'', [Lit ''v1'', Lit ''templates'', Wild ''provider'', Wild ''service''], TemplateGet),
      (''POST'', [Lit ''v1'', Lit ''templates'', Wild ''provider'', Wild ''service'', Lit ''resolve''], TemplateResolve),
      (''POST'', [Lit ''v1'', Lit ''migrate''], Migrate), (''POST'', [Lit ''v1'', Lit ''migrate'', Lit ''preview''], MigratePreview),
      (''POST'', [Lit ''v1'', Lit ''migrate'', Wild ''id'', Lit ''apply''], MigrateApply),
      (''POST'', [Lit ''v1'', Lit ''migrate'', Wild ''id'', Lit ''verify''], MigrateVerify),
      (''GET'', [Lit ''v1'', Lit ''migrate'', Wild ''id''], MigrateGet), (''GET'', [Lit ''v1'', Lit ''migrate''], MigrateList),
      (''DELETE'', [Lit ''v1'', Lit ''migrate'', Wild ''id''], MigrateDelete),
      (''POST'', [Lit ''v1'', Lit ''zone'', Lit ''export''], ZoneExport), (''POST'', [Lit ''v1'', Lit ''zone'', Lit ''import''], ZoneImport)]"

definition api_routes :: "route list" where
  "api_routes = wave1_routes @ core_routes @ extra_routes"

fun seg_text :: "seg_pat \<Rightarrow> string" where
  "seg_text (Lit w) = w"
| "seg_text (Wild w) = ''{'' @ w @ ''}''"

definition pattern_text :: "route \<Rightarrow> string" where
  "pattern_text rt = (case rt of (m, ps, e) \<Rightarrow> m @ '' /'' @ Join (map seg_text ps) ''/'')"

subsection \<open>Matching\<close>

fun seg_match :: "seg_pat \<Rightarrow> string \<Rightarrow> bool" where
  "seg_match (Lit w) s \<longleftrightarrow> s = w"
| "seg_match (Wild w) s \<longleftrightarrow> s \<noteq> []"

text \<open>A \<open>GET\<close> pattern takes \<open>HEAD\<close> requests, too.\<close>

definition method_match :: "string \<Rightarrow> string \<Rightarrow> bool" where
  "method_match m method \<longleftrightarrow> method = m \<or> (m = ''GET'' \<and> method = ''HEAD'')"

definition path_match :: "string list \<Rightarrow> route \<Rightarrow> bool" where
  "path_match segs rt = (case rt of (m, ps, e) \<Rightarrow> list_all2 seg_match ps segs)"

definition route_match :: "string \<Rightarrow> string list \<Rightarrow> route \<Rightarrow> bool" where
  "route_match method segs rt \<longleftrightarrow> method_match (fst rt) method \<and> path_match segs rt"

definition path_unescape :: "string \<Rightarrow> string" where
  "path_unescape s = (if escapes_ok s then percent_decode s else s)"

definition cleanPath :: "string \<Rightarrow> string" where
  "cleanPath p =
     (if p = [] then ''/''
      else (let q = (if hd p = CHR ''/'' then p else CHR ''/'' # p); np = path_Clean q in
        if last q = CHR ''/'' \<and> np \<noteq> ''/'' then np @ ''/'' else np))"

datatype mux_result = Found endpoint string | Redirected string | NotAllowed "string list" | NotFound

definition path_segments :: "string \<Rightarrow> string list" where
  "path_segments p = map path_unescape (Split (drop 1 p) CHR ''/'')"

text \<open>The methods that would match, \<open>HEAD\<close> with \<open>GET\<close>, sorted.\<close>

definition matchingMethods :: "string list \<Rightarrow> string list" where
  "matchingMethods segs =
     (let ms = map fst (filter (path_match segs) api_routes)
      in sort (remdups (ms @ (if ''GET'' \<in> set ms then [''HEAD''] else []))))"

definition mux_find :: "string \<Rightarrow> string \<Rightarrow> mux_result" where
  "mux_find method epath =
     (let path = (if method = ''CONNECT'' then epath else cleanPath epath) in
      if path \<noteq> epath then Redirected path
      else (let segs = path_segments path in
        case find (route_match method segs) api_routes of
          Some rt \<Rightarrow> Found (snd (snd rt)) (pattern_text rt)
        | None \<Rightarrow> (let ms = matchingMethods segs in if ms \<noteq> [] then NotAllowed ms else NotFound)))"

text \<open>The handler of the server, given the handlers of the endpoints and the escaped path of a request: the answers
  of the mux itself are plain text, of which only status and headers are kept. The label is the pattern, which is
  empty for a path that matches none; a redirect keeps the pattern of the cleaned path.\<close>

definition plain_answer :: "nat \<Rightarrow> header \<Rightarrow> response" where
  "plain_answer status hs = \<lparr>rpStatus = status, rpHeader = hs, rpBody = None\<rparr>"

definition mux_handler :: "nat \<Rightarrow> (request \<Rightarrow> string) \<Rightarrow> (endpoint \<Rightarrow> handler) \<Rightarrow> handler" where
  "mux_handler redirect esc h r =
     (case mux_find (rqMethod r) (esc r) of
        Found e pat \<Rightarrow> h e r
      | Redirected p \<Rightarrow> Responded (plain_answer redirect [(''Location'', [p])])
      | NotAllowed ms \<Rightarrow> Responded (plain_answer 405 [(''Allow'', [Join ms '', ''])])
      | NotFound \<Rightarrow> Responded (plain_answer 404 []))"

definition mux_route :: "(request \<Rightarrow> string) \<Rightarrow> request \<Rightarrow> string" where
  "mux_route esc r =
     (case mux_find (rqMethod r) (esc r) of
        Found e pat \<Rightarrow> pat
      | Redirected p \<Rightarrow> (case mux_find (rqMethod r) p of Found e pat \<Rightarrow> pat | _ \<Rightarrow> [])
      | _ \<Rightarrow> [])"

subsection \<open>Properties\<close>

text \<open>Two patterns that a request could take both: the check Go runs on registration, without its order of precedence.\<close>

fun seg_overlap :: "seg_pat \<Rightarrow> seg_pat \<Rightarrow> bool" where
  "seg_overlap (Lit v) (Lit w) \<longleftrightarrow> v = w"
| "seg_overlap _ _ \<longleftrightarrow> True"

definition overlap :: "route \<Rightarrow> route \<Rightarrow> bool" where
  "overlap a b = (case (a, b) of ((m, ps, e), (m', ps', e')) \<Rightarrow> m = m' \<and> list_all2 seg_overlap ps ps')"

lemma list_all2_overlap:
  "list_all2 seg_match ps segs \<Longrightarrow> list_all2 seg_match qs segs \<Longrightarrow> list_all2 seg_overlap ps qs"
proof (induction ps segs arbitrary: qs rule: list_all2_induct)
  case (Cons p ps s segs)
  from Cons.prems obtain q qs' where q: "qs = q # qs'" "seg_match q s" "list_all2 seg_match qs' segs" by (auto simp: list_all2_Cons2)
  with Cons have "seg_overlap p q" by (cases p; cases q) auto
  with Cons q show ?case by simp
qed simp

lemma routes_methods: "rt \<in> set api_routes \<Longrightarrow> fst rt \<in> {''GET'', ''POST'', ''DELETE''}"
  by (auto simp: api_routes_def wave1_routes_def core_routes_def extra_routes_def)

lemma route_match_overlap:
  assumes "route_match method segs a" and "route_match method segs b" and "a \<in> set api_routes" and "b \<in> set api_routes"
  shows "overlap a b"
proof -
  have "fst a = fst b" using assms routes_methods [OF assms(3)] routes_methods [OF assms(4)] by (auto simp: route_match_def method_match_def)
  with assms(1,2) show ?thesis
    by (auto simp: overlap_def route_match_def path_match_def dest: list_all2_overlap split: prod.splits)
qed

lemma routes_no_overlap: "sorted_wrt (\<lambda>a b. \<not> overlap a b) api_routes"
  by code_simp

lemma filter_apart:
  assumes "sorted_wrt (\<lambda>a b. \<not> R a b) xs" and "\<And>a b. a \<in> set xs \<Longrightarrow> b \<in> set xs \<Longrightarrow> P a \<Longrightarrow> P b \<Longrightarrow> R a b"
  shows "length (filter P xs) \<le> 1"
  using assms
proof (induction xs)
  case (Cons x xs)
  have "filter P xs = []" if "P x" using Cons.prems that by (auto simp: filter_empty_conv)
  with Cons show ?case by (cases "P x") auto
qed simp

text \<open>Routing is unambiguous: at most one pattern of the table takes a request, so no two patterns conflict
  when they are registered, the order of registration does not matter, and a request determines its endpoint.\<close>

theorem routes_disjoint:
  "length (filter (route_match method segs) api_routes) \<le> 1"
  by (rule filter_apart [OF routes_no_overlap]) (rule route_match_overlap)

text \<open>An endpoint is reached exactly by the method and the segments of its pattern.\<close>

lemma route_labels: "mux_route esc r \<in> set (map pattern_text api_routes) \<union> {[]}"
proof -
  have "pat \<in> set (map pattern_text api_routes)" if "mux_find m p = Found e pat" for m p e pat
    using that by (auto simp: mux_find_def Let_def find_Some_iff split: if_splits option.splits)
  then show ?thesis by (auto simp: mux_route_def split: mux_result.split)
qed

lemma percent_decode_plain: "CHR ''%'' \<notin> set s \<Longrightarrow> path_unescape s = s"
proof -
  assume "CHR ''%'' \<notin> set s"
  then have "percent_decode s = s" by (induction s) (auto split: list.splits)
  then show ?thesis by (simp add: path_unescape_def)
qed

lemma cleanPath_plain:
  assumes "list_all plain_seg ws" and "ws \<noteq> []"
  shows "cleanPath (CHR ''/'' # Join ws ''/'') = CHR ''/'' # Join ws ''/''"
proof -
  have "last (Join ws ''/'') \<noteq> CHR ''/'' \<and> Join ws ''/'' \<noteq> []" using assms
  proof (induction ws)
    case (Cons w ws)
    then show ?case by (cases "ws = []") (auto simp: Join_Cons plain_seg_def dest: last_in_set)
  qed simp
  then show ?thesis by (simp add: cleanPath_def path_Clean_rooted [OF assms])
qed

lemma path_segments_plain:
  assumes "list_all plain_seg ws" and "ws \<noteq> []" and "\<forall>w \<in> set ws. CHR ''%'' \<notin> set w"
  shows "path_segments (CHR ''/'' # Join ws ''/'') = ws"
proof -
  have sp: "Split (Join ws ''/'') CHR ''/'' = ws" using assms(1,2) by (intro Split_Join) (auto simp: list_all_iff plain_seg_def)
  show ?thesis using assms(3) by (simp add: path_segments_def sp percent_decode_plain map_idI)
qed

lemma mux_find_plain:
  assumes "list_all plain_seg ws" and "ws \<noteq> []" and "\<forall>w \<in> set ws. CHR ''%'' \<notin> set w"
  shows "mux_find method (CHR ''/'' # Join ws ''/'') =
    (case find (route_match method ws) api_routes of
       Some rt \<Rightarrow> Found (snd (snd rt)) (pattern_text rt)
     | None \<Rightarrow> if matchingMethods ws \<noteq> [] then NotAllowed (matchingMethods ws) else NotFound)"
proof -
  let ?p = "CHR ''/'' # Join ws ''/''"
  have "cleanPath ?p = ?p" using assms(1,2) by (rule cleanPath_plain)
  then have "(if method = ''CONNECT'' then ?p else cleanPath ?p) = ?p" by simp
  moreover have "path_segments ?p = ws" using assms by (rule path_segments_plain)
  ultimately show ?thesis by (cases "find (route_match method ws) api_routes") (simp_all add: mux_find_def Let_def)
qed

lemmas route_table_defs = api_routes_def wave1_routes_def core_routes_def extra_routes_def route_match_def path_match_def method_match_def

lemma extractPathID_of: "CHR ''/'' \<notin> set i \<Longrightarrow> rest = [] \<or> hd rest = CHR ''/'' \<Longrightarrow> extractPathID (''/v1/migrate/'' @ i @ rest) = i"
proof -
  assume i: "CHR ''/'' \<notin> set i" and rest: "rest = [] \<or> hd rest = CHR ''/''"
  have "TrimPrefix (''/v1/migrate/'' @ i @ rest) ''/v1/migrate/'' = i @ rest" by (rule TrimPrefix_append)
  moreover have "length (i @ rest) < length (''/v1/migrate/'' @ i @ rest)" by simp
  moreover have "(case Index (i @ rest) ''/'' of Some n \<Rightarrow> take n (i @ rest) | None \<Rightarrow> i @ rest) = i"
  proof (cases rest)
    case Nil
    have "Index i ''/'' = None" using i by (induction i) auto
    with Nil show ?thesis by simp
  next
    case (Cons c t)
    with rest Index_first [OF i, of t] show ?thesis by simp
  qed
  ultimately show ?thesis by (simp add: extractPathID_def Let_def)
qed

text \<open>Where a migration's requests go: for an id that is a plain name without escapes, the documented
  methods and paths reach the handlers of migrations, and each handler reads that id from the path.\<close>

theorem migration_paths:
  assumes "plain_seg i" and "CHR ''%'' \<notin> set i"
  shows "(\<forall>(method, action, e) \<in> {(''GET'', [], MigrateGet), (''DELETE'', [], MigrateDelete),
        (''POST'', ''/apply'', MigrateApply), (''POST'', ''/verify'', MigrateVerify)}.
      (\<exists>pat. mux_find method (''/v1/migrate/'' @ i @ action) = Found e pat) \<and> extractPathID (''/v1/migrate/'' @ i @ action) = i)"
proof -
  have plain: "list_all plain_seg [''v1'', ''migrate'', i]" "list_all plain_seg [''v1'', ''migrate'', i, ''apply'']"
    "list_all plain_seg [''v1'', ''migrate'', i, ''verify'']" using assms(1) by (simp_all add: plain_seg_def)
  have i: "CHR ''/'' \<notin> set i" "i \<noteq> []" using assms(1) by (auto simp: plain_seg_def)
  note find3 = mux_find_plain [OF plain(1)] and apply4 = mux_find_plain [OF plain(2)] and verify4 = mux_find_plain [OF plain(3)]
  have "\<exists>pat. mux_find ''GET'' (''/v1/migrate/'' @ i) = Found MigrateGet pat"
    using find3 [of "''GET''"] assms(2) i by (simp add: route_table_defs)
  moreover have "\<exists>pat. mux_find ''DELETE'' (''/v1/migrate/'' @ i) = Found MigrateDelete pat"
    using find3 [of "''DELETE''"] assms(2) i by (simp add: route_table_defs)
  moreover have "\<exists>pat. mux_find ''POST'' (''/v1/migrate/'' @ i @ ''/apply'') = Found MigrateApply pat"
    using apply4 [of "''POST''"] assms(2) i by (simp add: route_table_defs)
  moreover have "\<exists>pat. mux_find ''POST'' (''/v1/migrate/'' @ i @ ''/verify'') = Found MigrateVerify pat"
    using verify4 [of "''POST''"] assms(2) i by (simp add: route_table_defs)
  ultimately show ?thesis
    using extractPathID_of [OF i(1), of "[]"] extractPathID_of [OF i(1), of "''/apply''"] extractPathID_of [OF i(1), of "''/verify''"] by simp
qed

lemma migration_paths_witness: "\<exists>pat. mux_find ''POST'' ''/v1/migrate/4f2a/apply'' = Found MigrateApply pat"
proof -
  have "plain_seg ''4f2a''" "CHR ''%'' \<notin> set ''4f2a''" by (simp_all add: plain_seg_def)
  from migration_paths [OF this] show ?thesis by simp
qed

text \<open>An escaped slash is the one way the two differ: the mux takes \<open>a%2Fb\<close> for one segment, the handler reads \<open>a\<close>.\<close>

lemma escaped_slash_id:
  "mux_find ''GET'' ''/v1/migrate/a%2Fb'' = Found MigrateGet ''GET /v1/migrate/{id}'' \<and> extractPathID ''/v1/migrate/a/b'' = ''a''"
  by code_simp

subsection \<open>The size of the registry\<close>

lemma distinct_observe: "distinct (map fst (mtDurBuckets m)) \<Longrightarrow> distinct (map fst (mtDurBuckets (observeHTTP F a r s d m)))"
  unfolding observeHTTP_sel by (rule distinct_update)

lemma hist_keys_observe:
  "fst ` set (mtDurBuckets (observeHTTP F a r s d m)) = insert (hist_key a r) (fst ` set (mtDurBuckets m))"
  using dom_update [of "hist_key a r" _ "mtDurBuckets m"] by (simp add: observeHTTP_sel dom_map_of_conv_image_fst [symmetric] update_conv')

lemma keys_step: "x \<subseteq> y \<union> b \<Longrightarrow> y \<subseteq> insert k z \<Longrightarrow> k \<in> c \<Longrightarrow> b \<subseteq> c \<Longrightarrow> x \<subseteq> z \<union> c"
  by blast

lemma served_keys:
  assumes "serve_all F (serve origins gen route mux) qs m = (rs, m')" and "distinct (map fst (mtDurBuckets m))"
    and "\<And>r. route r \<in> L"
  shows "distinct (map fst (mtDurBuckets m')) \<and> fst ` set (mtDurBuckets m') \<subseteq> fst ` set (mtDurBuckets m)
      \<union> (\<lambda>(a, b). hist_key a b) ` (rqMethod ` fst ` set qs \<times> insert ''unmatched'' (L - {[]}))"
  using assms(1,2)
proof (induction qs arbitrary: m rs)
  case (Cons q qs)
  obtain r dur where q: "q = (r, dur)" by (cases q)
  obtain res ls where h: "serve origins gen route mux r = (res, ls)" by (cases "serve origins gen route mux r")
  from Cons.prems obtain rs' where t: "serve_all F (serve origins gen route mux) qs (observe_log F dur ls m) = (rs', m')"
    by (auto simp: q h split: prod.splits)
  let ?key = "hist_key (rqMethod r) (route_label gen route r)"
  have lab: "route_label gen route r \<in> insert ''unmatched'' (L - {[]})" using assms(3) by (auto simp: route_label_def)
  have "distinct (map fst (mtDurBuckets (observe_log F dur ls m))) \<and>
      fst ` set (mtDurBuckets (observe_log F dur ls m)) \<subseteq> insert ?key (fst ` set (mtDurBuckets m))"
  proof (cases "panics origins gen mux r")
    case False
    with serve_log [OF h] have "observe_log F dur ls m = observeHTTP F (rqMethod r) (route_label gen route r) (rpStatus res) dur m"
      by (auto simp: observe_log_def)
    with distinct_observe [OF Cons.prems(2)] show ?thesis by (simp add: hist_keys_observe del: image_insert)
  qed (use serve_log [OF h] Cons.prems(2) in \<open>auto simp: observe_log_def\<close>)
  moreover have "?key \<in> (\<lambda>(a, b). hist_key a b) ` (rqMethod ` fst ` set (q # qs) \<times> insert ''unmatched'' (L - {[]}))"
    using lab q by force
  moreover have "(\<lambda>(a, b). hist_key a b) ` (rqMethod ` fst ` set qs \<times> insert ''unmatched'' (L - {[]}))
      \<subseteq> (\<lambda>(a, b). hist_key a b) ` (rqMethod ` fst ` set (q # qs) \<times> insert ''unmatched'' (L - {[]}))"
    by (intro image_mono Sigma_mono) auto
  ultimately show ?case using Cons.IH [OF t] using keys_step by (metis (no_types, lifting))
qed simp

text \<open>The registry stays bounded as long as the methods are: a server whose requests use \<open>n\<close> methods has at
  most \<open>25 n\<close> histograms, whatever the paths were, because the label of a path is one of the 24 patterns or
  \<open>unmatched\<close>.\<close>

theorem histograms_bounded:
  assumes "serve_all F (serve origins gen (mux_route esc) mux) qs newMetrics = (rs, m)"
  shows "length (mtDurBuckets m) \<le> 25 * card (rqMethod ` fst ` set qs)"
proof -
  let ?L = "set (map pattern_text api_routes) \<union> {[]}" and ?M = "rqMethod ` fst ` set qs"
  let ?U = "insert ''unmatched'' (?L - {[]})"
  have k: "distinct (map fst (mtDurBuckets m))" "fst ` set (mtDurBuckets m) \<subseteq> (\<lambda>(a, b). hist_key a b) ` (?M \<times> ?U)"
    using served_keys [OF assms, of ?L] route_labels by (simp_all add: newMetrics_def)
  have "card ?U \<le> card (insert ''unmatched'' (set (map pattern_text api_routes)))" by (rule card_mono) auto
  then have "card ?U \<le> Suc (card (set (map pattern_text api_routes)))" by (simp add: card_insert_if split: if_splits)
  moreover have "card (set (map pattern_text api_routes)) \<le> 24"
    by (rule order_trans [OF card_length]) (simp add: api_routes_def wave1_routes_def core_routes_def extra_routes_def)
  ultimately have u: "card ?U \<le> 25" by linarith
  have "length (mtDurBuckets m) = card (fst ` set (mtDurBuckets m))" using distinct_card [OF k(1)] by simp
  also have "\<dots> \<le> card (?M \<times> ?U)" using card_mono [OF _ k(2)] card_image_le [of "?M \<times> ?U" "\<lambda>(a, b). hist_key a b"] by (meson List.finite_set finite_Diff finite_SigmaI finite_UnI finite_imageI finite_insert finite.emptyI order_trans)
  also have "\<dots> \<le> 25 * card ?M" using u by (simp add: card_cartesian_product)
  finally show ?thesis .
qed

lemma histograms_bounded_witness:
  "length (mtDurBuckets (snd (serve_all demo_floats (serve [] ''id'' (mux_route rqPath) (mux_handler 307 rqPath (\<lambda>e. demo_mux)))
     [(demo_get ''/healthz'', 1), (demo_get ''/boom'', 2), (demo_get ''/no/such/path'', 3)] newMetrics))) \<le> 25"
proof -
  let ?qs = "[(demo_get ''/healthz'', 1 :: int), (demo_get ''/boom'', 2), (demo_get ''/no/such/path'', 3)]"
  let ?run = "serve_all demo_floats (serve [] ''id'' (mux_route rqPath) (mux_handler 307 rqPath (\<lambda>e. demo_mux))) ?qs newMetrics"
  have "rqMethod ` fst ` set ?qs = {''GET''}" by (simp add: demo_get_def)
  with histograms_bounded [of demo_floats "[]" "''id''" rqPath "mux_handler 307 rqPath (\<lambda>e. demo_mux)" ?qs "fst ?run" "snd ?run"]
  show ?thesis by simp
qed

end
