(* ===== verification/Cli_Base.thy ===== *)
theory Cli_Base
  imports Json Fake_Provider Go_Path Template_Types
begin

text \<open>
  What the commands of the command line share (\<open>cmd/entree\<close>): errors and exit codes (\<open>exit.go\<close>, \<open>root.go\<close>), output
  (\<open>output.go\<close>), credentials (\<open>credentials.go\<close>), template variables (\<open>vars.go\<close>) and the confirmation of writes
  (\<open>tty.go\<close>). A command is a function to an error, if any, and what it wrote. The syntax of JSON texts and the file
  system are parameters: a file is read as a text, and a text parses as a document or not. The parse of the command line
  itself is cobra's, whose errors arrive as plain errors.
\<close>

subsection \<open>Errors and exit codes\<close>

type_synonym details = "(string \<times> json) list"

datatype cli_error = UserError string string details | RuntimeError string string details | PlainError string

abbreviation "ExitOK \<equiv> 0 :: nat"
abbreviation "ExitRuntimeErr \<equiv> 1 :: nat"
abbreviation "ExitUserErr \<equiv> 2 :: nat"

definition ClassifyExit :: "cli_error option \<Rightarrow> nat" where
  "ClassifyExit err =
     (case err of
        None \<Rightarrow> ExitOK
      | Some (UserError c m d) \<Rightarrow> ExitUserErr
      | Some (RuntimeError c m d) \<Rightarrow> ExitRuntimeErr
      | Some (PlainError m) \<Rightarrow> ExitRuntimeErr)"

definition nonEmpty :: "string \<Rightarrow> string \<Rightarrow> string" where
  "nonEmpty s fallback = (if s = [] then fallback else s)"

fun classifyForOutput :: "cli_error \<Rightarrow> string \<times> string \<times> details" where
  "classifyForOutput (UserError c m d) = (nonEmpty c ''USER_ERROR'', m, d)"
| "classifyForOutput (RuntimeError c m d) = (nonEmpty c ''RUNTIME_ERROR'', m, d)"
| "classifyForOutput (PlainError m) = (''RUNTIME_ERROR'', m, [])"

subsection \<open>Output\<close>

datatype out_mode = ModeHuman | ModeJSON | ModeQuiet

text \<open>What is written: a JSON document or a text on standard output, data in Go's default form, a text on the
  standard error, a text into a file.\<close>

datatype emitted = OutJSON json | OutText string | OutPlain json | ErrText string | Wrote string string

definition ok_envelope :: "json \<Rightarrow> json" where
  "ok_envelope d = JObj [(''ok'', JBool True), (''schema_version'', JNum 1), (''data'', d)]"

definition err_envelope :: "string \<Rightarrow> string \<Rightarrow> details \<Rightarrow> json" where
  "err_envelope code msg ds = JObj [(''ok'', JBool False), (''schema_version'', JNum 1),
     (''error'', JObj ([(''code'', enc_str code), (''message'', enc_str msg)] @ (if ds = [] then [] else [(''details'', JObj ds)])))]"

definition EmitOK :: "out_mode \<Rightarrow> json \<Rightarrow> emitted list" where
  "EmitOK mode d = (case mode of ModeQuiet \<Rightarrow> [] | ModeJSON \<Rightarrow> [OutJSON (ok_envelope d)] | ModeHuman \<Rightarrow> [OutPlain d])"

definition EmitError :: "out_mode \<Rightarrow> string \<Rightarrow> string \<Rightarrow> details \<Rightarrow> emitted list" where
  "EmitError mode code msg ds =
     (case mode of
        ModeQuiet \<Rightarrow> []
      | ModeJSON \<Rightarrow> [OutJSON (err_envelope code msg ds)]
      | ModeHuman \<Rightarrow> [ErrText (''error: '' @ msg @ [newline])])"

definition ParseMode :: "bool \<Rightarrow> bool \<Rightarrow> string + out_mode" where
  "ParseMode json quiet =
     (if json \<and> quiet then Inl ''--json and --quiet are mutually exclusive''
      else Inr (if json then ModeJSON else if quiet then ModeQuiet else ModeHuman))"

text \<open>The global flags.\<close>

record cli_flags =
  cfJSON :: bool
  cfQuiet :: bool
  cfCredentialsFile :: string
  cfProvider :: string
  cfYes :: bool

type_synonym cmd_result = "cli_error option \<times> emitted list"

text \<open>\<open>Execute\<close>: a command runs in the mode of the flags; the error of the mode itself is reported by the
  default formatter. An error of cobra comes before the mode is known.\<close>

definition Execute :: "string option \<Rightarrow> cli_flags \<Rightarrow> (out_mode \<Rightarrow> cmd_result \<times> 's) \<Rightarrow> 's \<Rightarrow> (nat \<times> emitted list) \<times> 's" where
  "Execute parse_error fl cmd s =
     (let fail = (\<lambda>mode err. case classifyForOutput err of (c, m, d) \<Rightarrow> EmitError mode c m d);
          stop = (\<lambda>err. ((ClassifyExit (Some err), fail ModeHuman err), s)) in
      case parse_error of
        Some e \<Rightarrow> stop (PlainError e)
      | None \<Rightarrow>
          (case ParseMode (cfJSON fl) (cfQuiet fl) of
             Inl e \<Rightarrow> stop (UserError ''MUTUALLY_EXCLUSIVE'' e [])
           | Inr mode \<Rightarrow>
               (case cmd mode of
                  ((None, ems), s') \<Rightarrow> ((ExitOK, ems), s')
                | ((Some err, ems), s') \<Rightarrow> ((ClassifyExit (Some err), ems @ fail mode err), s'))))"

subsection \<open>Confirmation\<close>

definition RequireYes :: "bool \<Rightarrow> bool \<Rightarrow> cli_error option" where
  "RequireYes stdoutTTY yes =
     (if \<not> stdoutTTY \<and> \<not> yes
      then Some (UserError ''CONFIRM_REQUIRED'' ''non-interactive session requires explicit --yes for write operations'' [])
      else None)"

subsection \<open>The outside\<close>

record cli_env =
  ceEnv :: "string \<Rightarrow> string"
  ceFile :: "string \<Rightarrow> string + string"
  ceWrite :: "string \<Rightarrow> string \<Rightarrow> string option"
  ceJSON :: "string \<Rightarrow> json option"
  cePrint :: "json \<Rightarrow> string"
  ceHome :: "string option"
  ceTTY :: bool

subsection \<open>Template variables\<close>

definition user_error :: "string \<Rightarrow> string \<Rightarrow> cli_error" where
  "user_error code msg = UserError code msg []"

definition checkVarValue :: "string \<Rightarrow> cli_error option" where
  "checkVarValue v =
     (if ContainsAny v [newline, char_of (13 :: nat), char_of (0 :: nat)]
      then Some (user_error ''INVALID_VAR_VALUE'' ''variable values must not contain newline, carriage return, or null byte'')
      else None)"

text \<open>The entries of the file. Go walks a map in no fixed order, which only decides which of several errors is
  reported; here it is the order of the document.\<close>

fun vars_of_fields :: "(string \<times> json) list \<Rightarrow> vars \<Rightarrow> cli_error + vars" where
  "vars_of_fields [] out = Inr out"
| "vars_of_fields ((k, j) # kvs) out =
     (case dec_str j of
        Inl e \<Rightarrow> Inl (user_error ''INVALID_VARS_FILE'' (''vars file key '' @ go_quote k @ '' is not a string''))
      | Inr v \<Rightarrow> failE (checkVarValue v) id (vars_of_fields kvs (out(k \<mapsto> v))))"

definition vars_of_file :: "cli_env \<Rightarrow> string \<Rightarrow> cli_error + vars" where
  "vars_of_file E path =
     (if path = [] then Inr Map.empty
      else case ceFile E path of
        Inl e \<Rightarrow> Inl (user_error ''INVALID_VARS_FILE'' (''cannot read vars file '' @ path))
      | Inr text \<Rightarrow>
          (case ceJSON E text of
             None \<Rightarrow> Inl (user_error ''INVALID_VARS_FILE'' ''vars file is not a JSON object of string values'')
           | Some doc \<Rightarrow>
               bindE (mapErr (\<lambda>_. user_error ''INVALID_VARS_FILE'' ''vars file is not a JSON object of string values'') (dec_fields doc))
                 (\<lambda>kvs. vars_of_fields kvs Map.empty)))"

definition split_var :: "string \<Rightarrow> (string \<times> string) option" where
  "split_var kv = (case Index kv ''='' of Some (Suc n) \<Rightarrow> Some (take (Suc n) kv, drop (n + 2) kv) | _ \<Rightarrow> None)"

fun vars_of_flags :: "string list \<Rightarrow> vars \<Rightarrow> cli_error + vars" where
  "vars_of_flags [] out = Inr out"
| "vars_of_flags (kv # kvs) out =
     (case split_var kv of
        None \<Rightarrow> Inl (user_error ''INVALID_VAR'' (''--var '' @ go_quote kv @ '' must be key=value''))
      | Some (k, v) \<Rightarrow> failE (checkVarValue v) id (vars_of_flags kvs (out(k \<mapsto> v))))"

definition ParseVarsFlags :: "cli_env \<Rightarrow> string list \<Rightarrow> string \<Rightarrow> cli_error + vars" where
  "ParseVarsFlags E varFlags varsFile = bindE (vars_of_file E varsFile) (vars_of_flags varFlags)"

subsection \<open>Credentials\<close>

record credentialsFile =
  cfiCloudflareToken :: string
  cfiAccessKeyID :: string
  cfiSecretAccessKey :: string
  cfiRegion :: string
  cfiGoDaddyKey :: string
  cfiGoDaddySecret :: string
  cfiServiceAccountPath :: string
  cfiProjectID :: string

definition dec_credentialsFile :: "json \<Rightarrow> string + credentialsFile" where
  "dec_credentialsFile j =
     bindE (dec_fields j) (\<lambda>kvs.
     bindE (dec_fields (jfield kvs ''cloudflare'')) (\<lambda>cf.
     bindE (dec_fields (jfield kvs ''route53'')) (\<lambda>r53.
     bindE (dec_fields (jfield kvs ''godaddy'')) (\<lambda>gd.
     bindE (dec_fields (jfield kvs ''google_cloud_dns'')) (\<lambda>gc.
     bindE (dec_str (jfield cf ''api_token'')) (\<lambda>tok.
     bindE (dec_str (jfield r53 ''access_key_id'')) (\<lambda>ak.
     bindE (dec_str (jfield r53 ''secret_access_key'')) (\<lambda>sk.
     bindE (dec_str (jfield r53 ''region'')) (\<lambda>reg.
     bindE (dec_str (jfield gd ''api_key'')) (\<lambda>gk.
     bindE (dec_str (jfield gd ''api_secret'')) (\<lambda>gs.
     bindE (dec_str (jfield gc ''service_account_json_path'')) (\<lambda>p.
     bindE (dec_str (jfield gc ''project_id'')) (\<lambda>pid.
     Inr \<lparr>cfiCloudflareToken = tok, cfiAccessKeyID = ak, cfiSecretAccessKey = sk, cfiRegion = reg, cfiGoDaddyKey = gk,
       cfiGoDaddySecret = gs, cfiServiceAccountPath = p, cfiProjectID = pid\<rparr>)))))))))))))"

definition no_creds :: Credentials where
  "no_creds = \<lparr>crAPIToken = [], crAPIKey = [], crAPISecret = [], crAccessKey = [], crSecretKey = [], crRegion = [],
     crToken = [], crProjectID = [], crAPIUser = [], crUsername = [], crClientIP = []\<rparr>"

definition parseAndExtract :: "cli_env \<Rightarrow> string \<Rightarrow> string \<Rightarrow> cli_error + Credentials" where
  "parseAndExtract E text provider =
     (case (case ceJSON E text of None \<Rightarrow> json_mismatch | Some doc \<Rightarrow> dec_credentialsFile doc) of
        Inl e \<Rightarrow> Inl (user_error ''CREDENTIALS_PARSE_FAILED'' ''credentials file is not valid JSON'')
      | Inr cf \<Rightarrow>
          if HasPrefix provider ''fake'' then Inr no_creds
          else if provider = ''cloudflare'' then
            (if cfiCloudflareToken cf = [] then Inl (user_error ''NO_CREDENTIALS'' ''cloudflare api_token missing'')
             else Inr (no_creds\<lparr>crAPIToken := cfiCloudflareToken cf\<rparr>))
          else if provider = ''route53'' then
            (if cfiAccessKeyID cf = [] \<or> cfiSecretAccessKey cf = []
             then Inl (user_error ''NO_CREDENTIALS'' ''route53 access_key_id/secret_access_key missing'')
             else Inr (no_creds\<lparr>crAccessKey := cfiAccessKeyID cf, crSecretKey := cfiSecretAccessKey cf, crRegion := cfiRegion cf\<rparr>))
          else if provider = ''godaddy'' then
            (if cfiGoDaddyKey cf = [] \<or> cfiGoDaddySecret cf = []
             then Inl (user_error ''NO_CREDENTIALS'' ''godaddy api_key/api_secret missing'')
             else Inr (no_creds\<lparr>crAPIKey := cfiGoDaddyKey cf, crAPISecret := cfiGoDaddySecret cf\<rparr>))
          else if provider = ''google_cloud_dns'' then
            (if cfiServiceAccountPath cf = []
             then Inl (user_error ''NO_CREDENTIALS'' ''google_cloud_dns service_account_json_path missing'')
             else Inr (no_creds\<lparr>crToken := cfiServiceAccountPath cf, crProjectID := cfiProjectID cf\<rparr>))
          else Inl (user_error ''UNKNOWN_PROVIDER'' (''unknown provider '' @ go_quote provider)))"

definition loadFromFile :: "cli_env \<Rightarrow> string \<Rightarrow> string \<Rightarrow> cli_error + Credentials" where
  "loadFromFile E path provider =
     (case ceFile E path of
        Inl e \<Rightarrow> Inl (user_error ''CREDENTIALS_READ_FAILED'' (''cannot read credentials file '' @ path))
      | Inr text \<Rightarrow> parseAndExtract E text provider)"

definition loadFromEnv :: "cli_env \<Rightarrow> string \<Rightarrow> Credentials option" where
  "loadFromEnv E provider =
     (let env = ceEnv E in
      if provider = ''cloudflare'' then
        (if env ''DNSENTREE_CLOUDFLARE_TOKEN'' \<noteq> [] then Some (no_creds\<lparr>crAPIToken := env ''DNSENTREE_CLOUDFLARE_TOKEN''\<rparr>) else None)
      else if provider = ''route53'' then
        (if env ''DNSENTREE_AWS_ACCESS_KEY_ID'' \<noteq> [] \<and> env ''DNSENTREE_AWS_SECRET_ACCESS_KEY'' \<noteq> []
         then Some (no_creds\<lparr>crAccessKey := env ''DNSENTREE_AWS_ACCESS_KEY_ID'', crSecretKey := env ''DNSENTREE_AWS_SECRET_ACCESS_KEY'',
           crRegion := env ''DNSENTREE_AWS_REGION''\<rparr>) else None)
      else if provider = ''godaddy'' then
        (if env ''DNSENTREE_GODADDY_KEY'' \<noteq> [] \<and> env ''DNSENTREE_GODADDY_SECRET'' \<noteq> []
         then Some (no_creds\<lparr>crAPIKey := env ''DNSENTREE_GODADDY_KEY'', crAPISecret := env ''DNSENTREE_GODADDY_SECRET''\<rparr>) else None)
      else if provider = ''google_cloud_dns'' then
        (if env ''DNSENTREE_GCDNS_SERVICE_ACCOUNT_JSON'' = [] then None
         else case ceFile E (env ''DNSENTREE_GCDNS_SERVICE_ACCOUNT_JSON'') of
           Inl e \<Rightarrow> None
         | Inr text \<Rightarrow> Some (no_creds\<lparr>crToken := text, crProjectID := env ''DNSENTREE_GCDNS_PROJECT_ID''\<rparr>))
      else None)"

text \<open>\<open>NewCredentialsLoader\<close> and \<open>Load\<close>: the directory of the configuration, and the four places in order.\<close>

definition config_home :: "cli_env \<Rightarrow> string" where
  "config_home E =
     (if ceEnv E ''XDG_CONFIG_HOME'' \<noteq> [] then ceEnv E ''XDG_CONFIG_HOME''
      else case ceHome E of None \<Rightarrow> [] | Some home \<Rightarrow> path_Join [home, ''.config''])"

definition no_credentials :: "string \<Rightarrow> cli_error" where
  "no_credentials provider = user_error ''NO_CREDENTIALS''
     (''no credentials found for provider '' @ provider @ '' (set --credentials-file or env vars)'')"

definition load_creds :: "cli_env \<Rightarrow> string \<Rightarrow> string \<Rightarrow> cli_error + Credentials" where
  "load_creds E flagPath provider =
     (let rest = (case loadFromEnv E provider of Some c \<Rightarrow> Inr c | None \<Rightarrow> Inl (no_credentials provider)) in
      if flagPath \<noteq> [] then loadFromFile E flagPath provider
      else if ceEnv E ''DNSENTREE_CREDENTIALS_FILE'' \<noteq> [] then loadFromFile E (ceEnv E ''DNSENTREE_CREDENTIALS_FILE'') provider
      else if config_home E \<noteq> [] then
        (case ceFile E (path_Join [config_home E, ''dns-entree'', ''credentials.json'']) of
           Inr text \<Rightarrow> parseAndExtract E text provider
         | Inl e \<Rightarrow> rest)
      else rest)"

definition mask :: "string \<Rightarrow> string" where
  "mask s = (if s = [] then [] else ''***'')"

definition Redact :: "Credentials \<Rightarrow> (string \<times> json) list" where
  "Redact c = [(''api_token'', enc_str (mask (crAPIToken c))), (''api_key'', enc_str (mask (crAPIKey c))),
     (''api_secret'', enc_str (mask (crAPISecret c))), (''access_key'', enc_str (mask (crAccessKey c))),
     (''secret_key'', enc_str (mask (crSecretKey c))), (''region'', enc_str (crRegion c)),
     (''token'', enc_str (mask (crToken c))), (''project_id'', enc_str (crProjectID c))]"

subsection \<open>Variables\<close>

definition clean_value :: "string \<Rightarrow> bool" where
  "clean_value v \<longleftrightarrow> list_all (\<lambda>c. c \<notin> set v) [newline, char_of (13 :: nat), char_of (0 :: nat)]"

lemma checkVarValue_clean: "checkVarValue v = None \<longleftrightarrow> clean_value v"
  by (auto simp: checkVarValue_def clean_value_def ContainsAny_def list_ex_iff)

lemma vars_of_fields_clean:
  "vars_of_fields kvs out = Inr m \<Longrightarrow> (\<And>k v. out k = Some v \<Longrightarrow> clean_value v) \<Longrightarrow> m k = Some v \<Longrightarrow> clean_value v"
proof (induction kvs arbitrary: out)
  case (Cons kv kvs)
  obtain k' j where kv: "kv = (k', j)" by fastforce
  from Cons.prems(1) kv obtain w where w: "checkVarValue w = None" "vars_of_fields kvs (out(k' \<mapsto> w)) = Inr m"
    by (auto simp: failE_def split: sum.splits option.splits)
  show ?case
    by (rule Cons.IH [OF w(2) _ Cons.prems(3)]) (use w(1) Cons.prems(2) in \<open>auto simp: checkVarValue_clean split: if_splits\<close>)
qed auto

lemma vars_of_file_clean: "vars_of_file E path = Inr m \<Longrightarrow> m k = Some v \<Longrightarrow> clean_value v"
  by (auto simp: vars_of_file_def dest: vars_of_fields_clean split: if_splits sum.splits option.splits)

lemma vars_of_flags_map:
  "vars_of_flags kvs out = Inr m \<Longrightarrow>
     list_all (\<lambda>kv. case split_var kv of None \<Rightarrow> False | Some (k, v) \<Rightarrow> k \<noteq> [] \<and> clean_value v) kvs
     \<and> m = out ++ map_of (rev (List.map_filter split_var kvs))"
proof (induction kvs arbitrary: out)
  case (Cons kv kvs)
  then obtain k v where s: "split_var kv = Some (k, v)" by (auto split: option.splits)
  with Cons.prems have c: "clean_value v" "vars_of_flags kvs (out(k \<mapsto> v)) = Inr m"
    by (auto simp: failE_def checkVarValue_clean split: option.splits)
  have "k \<noteq> []" using s by (auto simp: split_var_def split: option.splits nat.splits dest!: Index_SomeD)
  moreover have "(out(k \<mapsto> v)) ++ map_of xs = out ++ map_of (xs @ [(k, v)])" for xs
    by (simp add: map_add_assoc)
  ultimately show ?case using Cons.IH [OF c(2)] s c(1) by (simp add: List.map_filter_def fun_upd_def)
qed (simp add: List.map_filter_def)

text \<open>The variables are those of the file, overridden by the flags, of which the last one for a name counts; every flag
  names a variable, and no value holds a newline, a carriage return or a null byte.\<close>

theorem ParseVarsFlags_override:
  assumes "ParseVarsFlags E varFlags varsFile = Inr m"
  shows "\<exists>base. vars_of_file E varsFile = Inr base \<and> m = base ++ map_of (rev (List.map_filter split_var varFlags))
    \<and> list_all (\<lambda>kv. split_var kv \<noteq> None) varFlags \<and> pred_option clean_value (m k)"
proof -
  from assms obtain base where b: "vars_of_file E varsFile = Inr base" "vars_of_flags varFlags base = Inr m"
    by (auto simp: ParseVarsFlags_def)
  note f = vars_of_flags_map [OF b(2)]
  have "clean_value v" if m: "m k = Some v" for v
  proof (cases "map_of (rev (List.map_filter split_var varFlags)) k")
    case None
    with m f vars_of_file_clean [OF b(1)] show ?thesis by (simp add: map_add_Some_iff)
  next
    case (Some w)
    with m f have "w = v" by (simp add: map_add_Some_iff)
    moreover from map_of_SomeD [OF Some] obtain kv where "kv \<in> set varFlags" "split_var kv = Some (k, w)"
      by (auto simp: List.map_filter_def)
    ultimately show ?thesis using f by (fastforce simp: list_all_iff)
  qed
  with b f show ?thesis by (auto simp: pred_option_def list_all_iff split: option.splits)
qed

subsection \<open>Credentials\<close>

text \<open>A file in the place for the configuration counts even if it says nothing of the provider: the variables of the
  environment are not looked at then.\<close>

lemma config_file_hides_environment:
  assumes "config_home E \<noteq> []" and "ceEnv E ''DNSENTREE_CREDENTIALS_FILE'' = []"
    and "ceFile E (path_Join [config_home E, ''dns-entree'', ''credentials.json'']) = Inr text'"
  shows "load_creds E [] provider = parseAndExtract E text' provider"
  using assms by (simp add: load_creds_def Let_def)

text \<open>For Google Cloud DNS the token is the service account itself when it comes from the environment, and the path of
  its file when it comes from the credentials file.\<close>

lemma google_token_differs:
  assumes "ceEnv E ''DNSENTREE_GCDNS_SERVICE_ACCOUNT_JSON'' = path" and "path \<noteq> []" and "ceFile E path = Inr account"
    and "ceJSON E text' = Some doc" and "dec_credentialsFile doc = Inr cf" and "cfiServiceAccountPath cf = path"
  shows "map_option crToken (loadFromEnv E ''google_cloud_dns'') = Some account"
    and "\<exists>c. parseAndExtract E text' ''google_cloud_dns'' = Inr c \<and> crToken c = path"
  using assms by (simp_all add: loadFromEnv_def parseAndExtract_def)

text \<open>The printable form of credentials depends on a secret only in whether it is there.\<close>

lemma Redact_hides:
  assumes "\<And>f. f \<in> {crAPIToken, crAPIKey, crAPISecret, crAccessKey, crSecretKey, crToken} \<Longrightarrow> (f c = []) = (f c' = [])"
    and "crRegion c = crRegion c'" and "crProjectID c = crProjectID c'"
  shows "Redact c = Redact c'"
  using assms by (simp add: Redact_def mask_def)

definition vars_cli :: cli_env where
  "vars_cli = \<lparr>ceEnv = \<lambda>_. [], ceFile = \<lambda>p. Inr ''{}'', ceWrite = \<lambda>p t. None,
     ceJSON = \<lambda>t. Some (JObj [(''host'', JStr ''www''), (''ip'', JStr ''192.0.2.1'')]), cePrint = \<lambda>j. [], ceHome = None, ceTTY = False\<rparr>"

lemma vars_demo: "ParseVarsFlags vars_cli [''ip=192.0.2.9'', ''ip=192.0.2.7''] ''vars.json''
    = Inr [''host'' \<mapsto> ''www'', ''ip'' \<mapsto> ''192.0.2.7'']"
proof -
  have "split_var ''ip=192.0.2.9'' = Some (''ip'', ''192.0.2.9'')" "split_var ''ip=192.0.2.7'' = Some (''ip'', ''192.0.2.7'')"
    "checkVarValue ''192.0.2.9'' = None" "checkVarValue ''192.0.2.7'' = None" "checkVarValue ''192.0.2.1'' = None" "checkVarValue ''www'' = None"
    by code_simp+
  then show ?thesis by (simp add: ParseVarsFlags_def vars_of_file_def vars_cli_def failE_def mapErr_def)
qed

lemma ParseVarsFlags_override_witness:
  "\<exists>base. vars_of_file vars_cli ''vars.json'' = Inr base
    \<and> [''host'' \<mapsto> ''www'', ''ip'' \<mapsto> ''192.0.2.7''] = base ++ map_of (rev (List.map_filter split_var [''ip=192.0.2.9'', ''ip=192.0.2.7'']))"
  using ParseVarsFlags_override [OF vars_demo] by blast

end
