(* ===== verification/Cli_Apply.thy ===== *)
theory Cli_Apply
  imports Cli_Base Api_Extra
begin

text \<open>
  Applying records and templates from the command line (\<open>cmd/entree/cmd_apply.go\<close>, \<open>cmd/entree/cmd_apply_template.go\<close>) and
  the template commands (\<open>cmd/entree/cmd_templates.go\<close>). What a command uses of the library's outside is in \<open>cli_ops\<close>; the
  hook of the template branch is always set, by the \<open>init\<close> of its file.
\<close>

record 's cli_ops =
  coRegistry :: "string \<rightharpoonup> 's provider factory"
  coVerify :: verifier
  coLookupNS :: "string \<Rightarrow> string list option"
  coRdap :: "string \<Rightarrow> rdap_entity list option"
  coSync :: sync_env
  coShowError :: "tmpl_error \<Rightarrow> string"

record apply_flags =
  afRecords :: "string list"
  afDryRun :: bool
  afTemplate :: string
  afVars :: "string list"
  afVarsFile :: string
  afCacheDir :: string

subsection \<open>Record specifications\<close>

record parsedRecord =
  prType :: string
  prName :: string
  prContent :: string

definition isApplyRecordType :: "string \<Rightarrow> bool" where
  "isApplyRecordType t \<longleftrightarrow> t \<in> {''TXT'', ''CNAME'', ''MX'', ''A'', ''AAAA'', ''SRV''}"

definition control_chars :: string where
  "control_chars = [newline, char_of (0 :: nat)]"

definition parseRecordSpec :: "string \<Rightarrow> string + parsedRecord" where
  "parseRecordSpec spec =
     (case Index spec '':'' of
        None \<Rightarrow> Inl (''expected TYPE:NAME:VALUE, got '' @ go_quote spec)
      | Some i \<Rightarrow>
          (let rest = drop (i + 1) spec in
           case Index rest '':'' of
             None \<Rightarrow> Inl (''expected TYPE:NAME:VALUE, got '' @ go_quote spec)
           | Some j \<Rightarrow>
               (let pr = \<lparr>prType = take i spec, prName = take j rest, prContent = drop (j + 1) rest\<rparr> in
                if prType pr = [] \<or> prName pr = [] \<or> prContent pr = [] then Inl (''empty field in '' @ go_quote spec)
                else if \<not> isApplyRecordType (prType pr) then Inl (''unsupported type '' @ go_quote (prType pr))
                else if ContainsAny (prName pr) control_chars \<or> ContainsAny (prContent pr) control_chars
                  then Inl ''control character in record spec''
                else Inr pr)))"

subsection \<open>Applying records\<close>

definition show_bool :: "bool \<Rightarrow> string" where
  "show_bool b = (if b then ''true'' else ''false'')"

text \<open>The slug of the provider, with the errors of the caller.\<close>

definition resolve_slug ::
  "'s cli_ops \<Rightarrow> cli_flags \<Rightarrow> string \<Rightarrow> (string \<Rightarrow> 'e) \<Rightarrow> (string \<Rightarrow> 'e) \<Rightarrow> 'e + string" where
  "resolve_slug X fl domain lookup_failed no_support =
     (if cfProvider fl \<noteq> [] then Inr (cfProvider fl)
      else case DetectProvider (coLookupNS X) (coRdap X) domain of
        Inl e \<Rightarrow> Inl (lookup_failed e)
      | Inr det \<Rightarrow> if drSupported det then Inr (drProvider det)
          else Inl (no_support (''provider '' @ go_quote (drProvider det) @ '' not supported; pass --provider'')))"

definition record_prepare ::
  "cli_env \<Rightarrow> 's cli_ops \<Rightarrow> cli_flags \<Rightarrow> apply_flags \<Rightarrow> string \<Rightarrow> cli_error + parsedRecord list \<times> 's provider" where
  "record_prepare E X fl af domain =
     (if domain = [] then Inl (user_error ''INVALID_DOMAIN'' ''domain required'')
      else if afRecords af = [] then Inl (user_error ''NO_RECORDS'' ''at least one --record required (or use --template)'')
      else bindE (mapErr (user_error ''INVALID_RECORD_SPEC'') (mapE parseRecordSpec (afRecords af))) (\<lambda>parsed.
        bindE (resolve_slug X fl domain (\<lambda>e. RuntimeError ''NS_LOOKUP_FAILED'' e []) (user_error ''PROVIDER_NOT_SUPPORTED'')) (\<lambda>slug.
        bindE (load_creds E (cfCredentialsFile fl) slug) (\<lambda>creds.
        bindE (mapErr (\<lambda>e. RuntimeError ''PROVIDER_INIT_FAILED'' e []) (NewProvider (coRegistry X) slug creds)) (\<lambda>P.
        Inr (parsed, P))))))"

definition cli_diff_entry :: "Record list \<Rightarrow> parsedRecord \<Rightarrow> applyDiffEntry" where
  "cli_diff_entry existing pr =
     (case List.find (\<lambda>r. recName r = prName pr) existing of
        None \<Rightarrow> \<lparr>adType = prType pr, adName = prName pr, adCurrent = [], adProposed = prContent pr, adAction = ''CREATE''\<rparr>
      | Some r \<Rightarrow> \<lparr>adType = prType pr, adName = prName pr, adCurrent = recContent r, adProposed = prContent pr,
          adAction = (if recContent r = prContent pr then ''SKIP'' else ''UPDATE'')\<rparr>)"

fun cli_diffs :: "'s provider \<Rightarrow> string \<Rightarrow> parsedRecord list \<Rightarrow> 's \<Rightarrow> cli_error + applyDiffEntry list" where
  "cli_diffs P domain [] s = Inr []"
| "cli_diffs P domain (pr # prs) s =
     bindE (mapErr (\<lambda>e. RuntimeError ''GET_RECORDS_FAILED'' e []) (pvGet P s domain (prType pr))) (\<lambda>existing.
     bindE (cli_diffs P domain prs s) (\<lambda>ds. Inr (cli_diff_entry existing pr # ds)))"

definition diff_line :: "applyDiffEntry \<Rightarrow> emitted" where
  "diff_line d = OutText (adType d @ '' '' @ adName d @ '' '' @ adCurrent d @ '' -> '' @ adProposed d @ '' ['' @ adAction d @ '']'' @ [newline])"

text \<open>Types other than TXT and CNAME are set without looking at what is there.\<close>

definition cli_push :: "'s provider \<Rightarrow> verifier \<Rightarrow> string \<Rightarrow> parsedRecord \<Rightarrow> 's \<Rightarrow> (string option \<times> PushResult) \<times> 's" where
  "cli_push P ver domain pr s =
     (if prType pr = ''TXT'' then PushTXTRecord P ver domain (prName pr) (prContent pr) s
      else if prType pr = ''CNAME'' then PushCNAMERecord P ver domain (prName pr) (prContent pr) s
      else case pvSet P s domain (mk_record (prType pr) (prName pr) (prContent pr) 300) of
        (e, s') \<Rightarrow> ((e, push_result StatusCreated (prName pr) (prContent pr) []), s'))"

record cliResultEntry =
  roType :: string
  roName :: string
  roStatus :: string
  roRecordValue :: string
  roPreviousValue :: string
  roVerified :: bool
  roVerifyError :: string
  roError :: string

definition cli_entry :: "parsedRecord \<Rightarrow> string option \<times> PushResult \<Rightarrow> cliResultEntry" where
  "cli_entry pr out =
     (case out of
        (Some e, _) \<Rightarrow> \<lparr>roType = prType pr, roName = prName pr, roStatus = push_status_text StatusFailed, roRecordValue = prContent pr,
          roPreviousValue = [], roVerified = False, roVerifyError = [], roError = e\<rparr>
      | (None, res) \<Rightarrow> \<lparr>roType = prType pr, roName = prName pr, roStatus = push_status_text (psStatus res), roRecordValue = prContent pr,
          roPreviousValue = psPreviousValue res, roVerified = psVerified res,
          roVerifyError = (case psVerifyError res of Some e \<Rightarrow> e | None \<Rightarrow> []), roError = []\<rparr>)"

fun cli_pushes :: "'s provider \<Rightarrow> verifier \<Rightarrow> string \<Rightarrow> parsedRecord list \<Rightarrow> 's \<Rightarrow> (cliResultEntry list \<times> bool) \<times> 's" where
  "cli_pushes P ver domain [] s = (([], False), s)"
| "cli_pushes P ver domain (pr # prs) s =
     (case cli_push P ver domain pr s of
        (out, s1) \<Rightarrow>
          (case cli_pushes P ver domain prs s1 of
             ((es, failed), s2) \<Rightarrow> ((cli_entry pr out # es, fst out \<noteq> None \<or> failed), s2)))"

definition enc_cli_entry :: "cliResultEntry \<Rightarrow> json" where
  "enc_cli_entry e = JObj ([(''type'', enc_str (roType e)), (''name'', enc_str (roName e)), (''status'', enc_str (roStatus e)),
     (''record_value'', enc_str (roRecordValue e))] @ opt_str ''previous_value'' (roPreviousValue e)
     @ [(''verified'', JBool (roVerified e))] @ opt_str ''verify_error'' (roVerifyError e) @ opt_str ''error'' (roError e))"

definition entry_line :: "cliResultEntry \<Rightarrow> emitted" where
  "entry_line e = OutText (roType e @ '' '' @ roName e @ '' '' @ roStatus e @ '' verified='' @ show_bool (roVerified e) @ [newline])"

definition runRecordBranch ::
  "cli_env \<Rightarrow> 's cli_ops \<Rightarrow> cli_flags \<Rightarrow> apply_flags \<Rightarrow> string \<Rightarrow> out_mode \<Rightarrow> 's \<Rightarrow> cmd_result \<times> 's" where
  "runRecordBranch E X fl af domain mode s =
     (case record_prepare E X fl af domain of
        Inl err \<Rightarrow> ((Some err, []), s)
      | Inr (parsed, P) \<Rightarrow>
          if afDryRun af then
            ((case cli_diffs P domain parsed s of
               Inl err \<Rightarrow> (Some err, [])
             | Inr ds \<Rightarrow> (None, if mode = ModeHuman then map diff_line ds else EmitOK mode (JObj [(''records'', JArr (map enc_diff ds))]))), s)
          else
            (case RequireYes (ceTTY E) (cfYes fl) of
               Some err \<Rightarrow> ((Some err, []), s)
             | None \<Rightarrow>
                 (case cli_pushes P (coVerify X) domain parsed s of
                    ((es, failed), s') \<Rightarrow>
                      ((if failed then Some (RuntimeError ''APPLY_PARTIAL_FAILURE'' ''one or more records failed to apply'' []) else None,
                        if mode = ModeHuman then map entry_line es else EmitOK mode (JObj [(''results'', JArr (map enc_cli_entry es))])), s'))))"

subsection \<open>Templates\<close>

definition splitTemplateSlug :: "string \<Rightarrow> cli_error + string \<times> string" where
  "splitTemplateSlug slug =
     (case Index slug ''/'' of
        Some (Suc n) \<Rightarrow>
          if Suc n = length slug - 1 then Inl (user_error ''INVALID_TEMPLATE_SLUG'' ''expected <providerID>/<serviceID>'')
          else Inr (take (Suc n) slug, drop (n + 2) slug)
      | _ \<Rightarrow> Inl (user_error ''INVALID_TEMPLATE_SLUG'' ''expected <providerID>/<serviceID>''))"

definition cli_template_opts :: "string \<Rightarrow> (syncConfig \<Rightarrow> syncConfig) list" where
  "cli_template_opts cacheDir = (if cacheDir \<noteq> [] then [WithCacheDir cacheDir, WithCacheTTL (-1)] else [])"

definition cli_push_result_json :: "PushResult \<Rightarrow> json" where
  "cli_push_result_json p = JObj ([(''status'', JStr (push_status_text (psStatus p))), (''name'', enc_str (psRecordName p)),
     (''value'', enc_str (psRecordValue p))] @ opt_str ''previous'' (psPreviousValue p)
     @ [case psVerifyError p of Some e \<Rightarrow> (''verify_error'', enc_str e) | None \<Rightarrow> (''verified'', JBool (psVerified p))])"

definition recordsToJSON :: "Record list \<Rightarrow> json" where
  "recordsToJSON rs = JArr (map (\<lambda>r. JObj ([(''type'', enc_str (recType r)), (''name'', enc_str (recName r)),
     (''content'', enc_str (recContent r)), (''ttl'', JNum (recTTL r))]
     @ (if recPriority r \<noteq> 0 then [(''priority'', JNum (recPriority r))] else []))) rs)"

definition template_record_json :: "TemplateRecord \<Rightarrow> json" where
  "template_record_json r = JObj ([(''type'', enc_str (trType r)), (''host'', enc_str (trHost r)), (''points_to'', enc_str (trPointsTo r))]
     @ opt_str ''target'' (trTarget r) @ opt_str ''data'' (trData r) @ opt_str ''group_id'' (trGroupID r)
     @ opt_str ''essential'' (trEssential r) @ opt_str ''txt_conflict_matching_mode'' (trTxtConflictMatchingMode r)
     @ opt_str ''txt_conflict_matching_prefix'' (trTxtConflictMatchingPrefix r))"

definition templateToJSON :: "Template \<Rightarrow> json" where
  "templateToJSON t = JObj [(''provider_id'', enc_str (tplProviderID t)), (''provider_name'', enc_str (tplProviderName t)),
     (''service_id'', enc_str (tplServiceID t)), (''service_name'', enc_str (tplServiceName t)), (''version'', JNum (tplVersion t)),
     (''description'', enc_str (tplDescription t)), (''records'', JArr (map template_record_json (tplRecords t)))]"

fun error_message :: "cli_error \<Rightarrow> string" where
  "error_message (UserError c m d) = m"
| "error_message (RuntimeError c m d) = m"
| "error_message (PlainError m) = m"

text \<open>\<open>defaultApplyTemplateExecutor\<close>: every error is plain here, also that of missing credentials.\<close>

definition executor_provider :: "cli_env \<Rightarrow> 's cli_ops \<Rightarrow> cli_flags \<Rightarrow> string \<Rightarrow> string + 's provider" where
  "executor_provider E X fl domain =
     bindE (resolve_slug X fl domain (\<lambda>e. ''detect provider: '' @ e) (\<lambda>m. m)) (\<lambda>slug.
     bindE (mapErr error_message (load_creds E (cfCredentialsFile fl) slug)) (\<lambda>creds.
     mapErr (\<lambda>e. ''provider init: '' @ e) (NewProvider (coRegistry X) slug creds)))"

definition applyTemplateExecutor ::
  "cli_env \<Rightarrow> 's cli_ops \<Rightarrow> cli_flags \<Rightarrow> string \<Rightarrow> Template \<Rightarrow> vars \<Rightarrow> 's \<Rightarrow> (string option \<times> PushResult list) \<times> 's" where
  "applyTemplateExecutor E X fl domain t vs s =
     (case executor_provider E X fl domain of
        Inl e \<Rightarrow> ((Some e, []), s)
      | Inr P \<Rightarrow>
          (case ApplyTemplateWithReport P (coVerify X) domain t vs s of
             (Inl e, s') \<Rightarrow> ((Some (coShowError X e), []), s')
           | (Inr a, s') \<Rightarrow> ((if asErrs a = [] then None else Some (Join (asErrs a) [newline]), asResults a), s')))"

text \<open>What comes before the template is applied; the cache may be refreshed on the way.\<close>

definition template_prepare ::
  "cli_env \<Rightarrow> 's cli_ops \<Rightarrow> cli_flags \<Rightarrow> apply_flags \<Rightarrow> tcache \<Rightarrow> (cli_error + Template \<times> vars \<times> Record list) \<times> tcache" where
  "template_prepare E X fl af c =
     (case failE (if afDryRun af then None else RequireYes (ceTTY E) (cfYes fl)) id (splitTemplateSlug (afTemplate af)) of
        Inl err \<Rightarrow> (Inl err, c)
      | Inr (prov, svc) \<Rightarrow>
          (case LoadTemplate (coSync X) (cli_template_opts (afCacheDir af)) prov svc c of
             (r, c') \<Rightarrow>
               (bindE (mapErr (user_error ''TEMPLATE_NOT_FOUND'') r) (\<lambda>t.
                bindE (ParseVarsFlags E (afVars af) (afVarsFile af)) (\<lambda>vs.
                bindE (mapErr (\<lambda>e. user_error ''VARIABLE_VALIDATION_FAILED'' (coShowError X e)) (Resolve t vs)) (\<lambda>recs.
                Inr (t, vs, recs)))), c')))"

definition applyTemplateRun ::
  "cli_env \<Rightarrow> 's cli_ops \<Rightarrow> cli_flags \<Rightarrow> apply_flags \<Rightarrow> string \<Rightarrow> out_mode \<Rightarrow> 's \<times> tcache \<Rightarrow> cmd_result \<times> 's \<times> tcache" where
  "applyTemplateRun E X fl af domain mode sc =
     (case sc of (s, c) \<Rightarrow>
        case template_prepare E X fl af c of
          (Inl err, c') \<Rightarrow> ((Some err, []), s, c')
        | (Inr (t, vs, recs), c') \<Rightarrow>
            if afDryRun af then ((None, EmitOK mode (JObj [(''domain'', enc_str domain), (''records'', recordsToJSON recs)])), s, c')
            else
              (case applyTemplateExecutor E X fl domain t vs s of
                 ((Some e, rs), s') \<Rightarrow>
                   ((Some (RuntimeError ''APPLY_FAILED'' e [(''results'', JArr (map cli_push_result_json rs))]), []), s', c')
               | ((None, rs), s') \<Rightarrow>
                   ((None, EmitOK mode (JObj [(''domain'', enc_str domain), (''results'', JArr (map cli_push_result_json rs))])), s', c')))"

definition applyCmd ::
  "cli_env \<Rightarrow> 's cli_ops \<Rightarrow> cli_flags \<Rightarrow> apply_flags \<Rightarrow> string \<Rightarrow> out_mode \<Rightarrow> 's \<times> tcache \<Rightarrow> cmd_result \<times> 's \<times> tcache" where
  "applyCmd E X fl af domain mode sc =
     (if afTemplate af \<noteq> [] \<and> afRecords af \<noteq> []
        then ((Some (user_error ''MUTUALLY_EXCLUSIVE_OPS'' ''--record and --template are mutually exclusive''), []), sc)
      else if afTemplate af = [] \<and> afRecords af = []
        then ((Some (user_error ''NO_OPERATION'' ''apply requires --record or --template''), []), sc)
      else if afTemplate af \<noteq> [] then applyTemplateRun E X fl af domain mode sc
      else (case runRecordBranch E X fl af domain mode (fst sc) of (r, s') \<Rightarrow> (r, s', snd sc)))"

subsection \<open>The template commands\<close>

definition templatesSync :: "'s cli_ops \<Rightarrow> string \<Rightarrow> out_mode \<Rightarrow> tcache \<Rightarrow> cmd_result \<times> tcache" where
  "templatesSync X cacheDir mode c =
     (case SyncTemplates (coSync X) (cli_template_opts cacheDir) c of
        (Some e, c') \<Rightarrow> ((Some (RuntimeError ''TEMPLATE_SYNC_FAILED'' e []), []), c')
      | (None, c') \<Rightarrow> ((None, EmitOK mode (JObj [(''cache_dir'', enc_str cacheDir), (''synced'', JBool True)])), c'))"

definition list_entry :: "TemplateSummary \<Rightarrow> json" where
  "list_entry t = JObj ([(''provider_id'', enc_str (tsProviderID t)), (''service_id'', enc_str (tsServiceID t))]
     @ opt_str ''provider_name'' (tsProviderName t) @ opt_str ''service_name'' (tsServiceName t))"

text \<open>Whether the error of the walk is \<open>fs.ErrNotExist\<close> is an argument.\<close>

definition templatesList :: "'s cli_ops \<Rightarrow> bool \<Rightarrow> string \<Rightarrow> out_mode \<Rightarrow> tcache \<Rightarrow> cmd_result" where
  "templatesList X missing cacheDir mode c =
     (case ListTemplates (coSync X) (cli_template_opts cacheDir) c of
        Inl e \<Rightarrow> (Some (if missing then user_error ''CACHE_NOT_FOUND'' ''template cache not found; run `entree templates sync` first''
                       else RuntimeError ''TEMPLATE_LIST_FAILED'' e []), [])
      | Inr ts \<Rightarrow> (None, EmitOK mode (JObj [(''templates'', JArr (map list_entry ts))])))"

definition templatesShow :: "'s cli_ops \<Rightarrow> string \<Rightarrow> string \<Rightarrow> out_mode \<Rightarrow> tcache \<Rightarrow> cmd_result \<times> tcache" where
  "templatesShow X cacheDir slug mode c =
     (case splitTemplateSlug slug of
        Inl err \<Rightarrow> ((Some err, []), c)
      | Inr (prov, svc) \<Rightarrow>
          (case LoadTemplate (coSync X) (cli_template_opts cacheDir) prov svc c of
             (Inl e, c') \<Rightarrow> ((Some (user_error ''TEMPLATE_NOT_FOUND'' e), []), c')
           | (Inr t, c') \<Rightarrow> ((None, EmitOK mode (templateToJSON t)), c')))"

definition templatesResolve ::
  "cli_env \<Rightarrow> 's cli_ops \<Rightarrow> string \<Rightarrow> string list \<Rightarrow> string \<Rightarrow> string \<Rightarrow> out_mode \<Rightarrow> tcache \<Rightarrow> cmd_result \<times> tcache" where
  "templatesResolve E X cacheDir varFlags varsFile slug mode c =
     (case bindE (splitTemplateSlug slug) (\<lambda>ps. bindE (ParseVarsFlags E varFlags varsFile) (\<lambda>vs. Inr (ps, vs))) of
        Inl err \<Rightarrow> ((Some err, []), c)
      | Inr ((prov, svc), vs) \<Rightarrow>
          (case LoadTemplate (coSync X) (cli_template_opts cacheDir) prov svc c of
             (Inl e, c') \<Rightarrow> ((Some (user_error ''TEMPLATE_NOT_FOUND'' e), []), c')
           | (Inr t, c') \<Rightarrow>
               ((case Resolve t vs of
                   Inl e \<Rightarrow> (Some (user_error ''VARIABLE_VALIDATION_FAILED'' (coShowError X e)), [])
                 | Inr recs \<Rightarrow> (None, EmitOK mode (JObj [(''records'', recordsToJSON recs)]))), c')))"

subsection \<open>Record specifications, exactly\<close>

lemma Index_char_split:
  assumes "Index s [c] = Some i"
  shows "s = take i s @ c # drop (i + 1) s \<and> c \<notin> set (take i s)"
proof -
  from assms have "c \<in> set s" by (metis Contains_def Contains_single option.simps(3))
  then obtain a b where s: "s = a @ c # b" "c \<notin> set a" by (metis split_list_first)
  with assms Index_first [OF s(2), of b] have "i = length a" by simp
  with s show ?thesis by simp
qed

text \<open>A record specification is accepted exactly if it is \<open>TYPE:NAME:VALUE\<close> with a type that can be applied, a name without
  colon, and a value that may hold colons, as an IPv6 address does; name and value are not empty and hold
  neither newline nor null byte. Then it is split at the first two colons.\<close>

theorem parseRecordSpec_exact:
  "parseRecordSpec spec = Inr pr \<longleftrightarrow>
     spec = prType pr @ '':'' @ prName pr @ '':'' @ prContent pr \<and> isApplyRecordType (prType pr)
     \<and> CHR '':'' \<notin> set (prName pr) \<and> prName pr \<noteq> [] \<and> prContent pr \<noteq> []
     \<and> list_all (\<lambda>c. c \<notin> set (prName pr @ prContent pr)) control_chars"
  (is "?l \<longleftrightarrow> ?r")
proof
  assume l: ?l
  then obtain i j where ij: "Index spec '':'' = Some i" "Index (drop (i + 1) spec) '':'' = Some j"
    and pr: "pr = \<lparr>prType = take i spec, prName = take j (drop (i + 1) spec), prContent = drop (j + 1) (drop (i + 1) spec)\<rparr>"
    by (auto simp: parseRecordSpec_def Let_def split: option.splits if_splits)
  from Index_char_split [OF ij(1)] Index_char_split [OF ij(2)] pr
  have s: "spec = prType pr @ '':'' @ prName pr @ '':'' @ prContent pr" "CHR '':'' \<notin> set (prName pr)" by simp_all
  from l ij pr have "prName pr \<noteq> []" "prContent pr \<noteq> []" "isApplyRecordType (prType pr)"
    "\<not> ContainsAny (prName pr) control_chars" "\<not> ContainsAny (prContent pr) control_chars"
    by (auto simp: parseRecordSpec_def Let_def split: if_splits)
  with s show ?r by (auto simp: ContainsAny_def list_ex_iff list_all_iff)
next
  assume r: ?r
  then have "CHR '':'' \<notin> set (prType pr)" "prType pr \<noteq> []" by (auto simp: isApplyRecordType_def)
  with r Index_first [of "CHR '':''" "prType pr" "prName pr @ '':'' @ prContent pr"]
    Index_first [of "CHR '':''" "prName pr" "prContent pr"]
  show ?l by (auto simp: parseRecordSpec_def Let_def ContainsAny_def list_ex_iff list_all_iff)
qed

subsection \<open>Confirmation\<close>

text \<open>Property C32. The apply command touches a provider only for a run that is no dry run and that is confirmed: standard output is a
  terminal or \<open>--yes\<close> was given. And it does so only once every record specification was accepted, or the template
  was found and resolved with the variables given.\<close>

theorem apply_confirmed:
  assumes "applyCmd E X fl af domain mode (s, c) = (res, s', c')" and "s' \<noteq> s"
  shows "\<not> afDryRun af \<and> (ceTTY E \<or> cfYes fl)
    \<and> ((afTemplate af = [] \<and> (\<exists>prs. mapE parseRecordSpec (afRecords af) = Inr prs))
       \<or> (afRecords af = [] \<and> (\<exists>prov svc t vs recs. splitTemplateSlug (afTemplate af) = Inr (prov, svc)
            \<and> fst (LoadTemplate (coSync X) (cli_template_opts (afCacheDir af)) prov svc c) = Inr t
            \<and> ParseVarsFlags E (afVars af) (afVarsFile af) = Inr vs \<and> Resolve t vs = Inr recs)))"
proof (cases "afTemplate af = []")
  case True
  with assms obtain r where r: "runRecordBranch E X fl af domain mode s = (r, s')"
    by (auto simp: applyCmd_def split: if_splits prod.splits)
  with assms(2) obtain parsed P where p: "record_prepare E X fl af domain = Inr (parsed, P)" "\<not> afDryRun af"
    "RequireYes (ceTTY E) (cfYes fl) = None"
    by (auto simp: runRecordBranch_def split: sum.splits if_splits option.splits)
  then have "ceTTY E \<or> cfYes fl" by (auto simp: RequireYes_def split: if_splits)
  moreover from p(1) have "\<exists>prs. mapE parseRecordSpec (afRecords af) = Inr prs"
    by (auto simp: record_prepare_def mapErr_Inr_iff split: if_splits)
  ultimately show ?thesis using p True by simp
next
  case False
  with assms have r: "applyTemplateRun E X fl af domain mode (s, c) = (res, s', c')" and recs: "afRecords af = []"
    by (auto simp: applyCmd_def split: if_splits)
  with assms(2) obtain t vs rs c1 where p: "template_prepare E X fl af c = (Inr (t, vs, rs), c1)" "\<not> afDryRun af"
    by (auto simp: applyTemplateRun_def split: prod.splits sum.splits if_splits)
  then have "ceTTY E \<or> cfYes fl" and "\<exists>prov svc t vs recs. splitTemplateSlug (afTemplate af) = Inr (prov, svc)
            \<and> fst (LoadTemplate (coSync X) (cli_template_opts (afCacheDir af)) prov svc c) = Inr t
            \<and> ParseVarsFlags E (afVars af) (afVarsFile af) = Inr vs \<and> Resolve t vs = Inr recs"
    by (auto simp: template_prepare_def failE_def RequireYes_def mapErr_Inr_iff split: sum.splits prod.splits if_splits)
  with p recs show ?thesis by simp
qed

subsection \<open>Agreement with the server\<close>

definition as_apply :: "parsedRecord \<Rightarrow> applyRecord" where
  "as_apply pr = \<lparr>arType = prType pr, arName = prName pr, arContent = prContent pr, arTTL = 0\<rparr>"

lemma as_apply_sel [simp]: "arType (as_apply pr) = prType pr" "arName (as_apply pr) = prName pr"
  "arContent (as_apply pr) = prContent pr" "arTTL (as_apply pr) = 0"
  by (simp_all add: as_apply_def)

lemma cli_push_one:
  "prType pr \<in> {''TXT'', ''CNAME''} \<Longrightarrow> cli_push P ver d pr s = push_one P ver d (as_apply pr) s"
  by (auto simp: cli_push_def push_one_def)

context record_provider
begin

lemma in_place_kept_set:
  assumes "in_place d rec s" and "s' = s \<or> pvSet P s d (pushed_record rec') = (None, s')" and "inv s"
    and "adm d (pushed_record rec')" and "(arType rec, arName rec) \<noteq> (arType rec', arName rec')"
  shows "in_place d rec s'"
proof -
  from assms(1) obtain xs q where x: "pvGet P s d (arType rec) = Inr xs" "findRecord xs (arName rec) = Some q" "settled_by rec q"
    and t: "arType rec \<in> push_types" by (auto simp: in_place_def)
  show ?thesis
  proof (cases "s' = s")
    case False
    with assms(2) have "pvSet P s d (pushed_record rec') = (None, s')" by blast
    from get_set_other [OF assms(3,4) this x(1), of "arName rec"] assms(5) x(2) obtain ys
      where "pvGet P s' d (arType rec) = Inr ys" "findRecord ys (arName rec) = Some q" by auto
    with x(3) t show ?thesis unfolding in_place_def by blast
  qed (use assms(1) in simp)
qed

lemma cli_push_in_place:
  assumes "cli_push P ver d pr s = ((None, r), s')" and "inv s" and "adm d (pushed_record (as_apply pr))"
    and "isApplyRecordType (prType pr)"
  shows "inv s' \<and> in_place d (as_apply pr) s' \<and> (s' = s \<or> pvSet P s d (pushed_record (as_apply pr)) = (None, s'))"
proof (cases "prType pr \<in> {''TXT'', ''CNAME''}")
  case True
  from push_in_place [OF assms(1) [unfolded cli_push_one [OF True]] assms(2,3)] show ?thesis .
next
  case False
  let ?r = "pushed_record (as_apply pr)"
  have "?r = mk_record (prType pr) (prName pr) (prContent pr) 300" by (simp add: pushed_record_def)
  with False assms(1) have w: "pvSet P s d ?r = (None, s')" by (auto simp: cli_push_def split: prod.splits)
  have t: "arType (as_apply pr) \<in> push_types" using assms(4) by (auto simp: push_types_def isApplyRecordType_def)
  from get_set [OF assms(2,3) w] obtain ys q where "pvGet P s' d (prType pr) = Inr ys" "findRecord ys (prName pr) = Some q"
    "settled_by (as_apply pr) q" using False by (auto simp: settled_by_def)
  with t have "in_place d (as_apply pr) s'" unfolding in_place_def by auto
  with w set_inv [OF assms(2,3) w] show ?thesis by blast
qed

lemma cli_pushes_in_place:
  assumes "cli_pushes P ver d prs s = ((es, False), s')" and "inv s" and "\<forall>pr \<in> set prs. adm d (pushed_record (as_apply pr))"
    and "\<forall>pr \<in> set prs. isApplyRecordType (prType pr)"
    and "distinct (map (\<lambda>pr. (prType pr, prName pr)) (before @ prs))" and "\<forall>pr \<in> set before. in_place d (as_apply pr) s"
  shows "\<forall>pr \<in> set (before @ prs). in_place d (as_apply pr) s'"
  using assms
proof (induction prs arbitrary: s es before)
  case (Cons pr prs)
  obtain out s1 where p: "cli_push P ver d pr s = (out, s1)" by fastforce
  with Cons.prems(1) obtain es' where o: "fst out = None" and r: "cli_pushes P ver d prs s1 = ((es', False), s')"
    by (auto split: prod.splits)
  then obtain r0 where p': "cli_push P ver d pr s = ((None, r0), s1)" using p by (metis prod.collapse)
  have a: "adm d (pushed_record (as_apply pr))" "isApplyRecordType (prType pr)" using Cons.prems(3,4) by simp_all
  note i = cli_push_in_place [OF p' Cons.prems(2) a]
  have "in_place d (as_apply x) s1" if "x \<in> set (before @ [pr])" for x
  proof (cases "x = pr")
    case False
    with that have x: "x \<in> set before" by simp
    with Cons.prems(6) have k: "in_place d (as_apply x) s" by blast
    have w: "s1 = s \<or> pvSet P s d (pushed_record (as_apply pr)) = (None, s1)" using i by blast
    from x Cons.prems(5) have n: "(prType x, prName x) \<noteq> (prType pr, prName pr)" by (simp add: image_iff) metis
    show ?thesis by (rule in_place_kept_set [OF k w Cons.prems(2) a(1)]) (use n in simp)
  qed (use i in simp)
  with Cons.IH [OF r, of "before @ [pr]"] i Cons.prems(3-5) show ?case by simp
qed simp

end


subsection \<open>Exit codes\<close>

lemma cli_push_status: "cli_push P ver d pr s = ((None, r), s') \<Longrightarrow> psStatus r \<noteq> StatusFailed"
  by (auto simp: cli_push_def PushTXTRecord_def PushCNAMERecord_def Let_def push_result_def dest!: push_set_result
      split: if_splits sum.splits prod.splits)

text \<open>Every record is tried, whatever happens to those before it, and the entries are in the order of the records; the
  run counts as failed exactly if some entry has the status of a failure.\<close>

lemma cli_pushes_entries:
  "cli_pushes P ver d prs s = ((es, failed), s') \<Longrightarrow>
     map (\<lambda>e. (roType e, roName e, roRecordValue e)) es = map (\<lambda>pr. (prType pr, prName pr, prContent pr)) prs
     \<and> (failed \<longleftrightarrow> (\<exists>e \<in> set es. roStatus e = ''failed''))"
proof (induction prs arbitrary: s es failed s')
  case (Cons pr prs)
  obtain e0 r0 s1 where p: "cli_push P ver d pr s = ((e0, r0), s1)" by (metis prod.collapse)
  obtain es1 f1 s2 where q: "cli_pushes P ver d prs s1 = ((es1, f1), s2)" by (metis prod.collapse)
  have st: "roStatus (cli_entry pr (e0, r0)) = ''failed'' \<longleftrightarrow> e0 \<noteq> None"
  proof (cases e0)
    case None
    with p cli_push_status [of P ver d pr s r0 s1] have "psStatus r0 \<noteq> StatusFailed" by simp
    with None show ?thesis by (cases "psStatus r0") (auto simp: cli_entry_def)
  qed (simp add: cli_entry_def)
  have "roType (cli_entry pr (e0, r0)) = prType pr" "roName (cli_entry pr (e0, r0)) = prName pr"
    "roRecordValue (cli_entry pr (e0, r0)) = prContent pr" by (cases e0; simp add: cli_entry_def)+
  with Cons.prems Cons.IH [OF q] p q st show ?case by auto
qed simp

text \<open>Setting a record of another type never looks at what is there: applying an A record again writes it again and
  reports it as created, where the server reports it as already configured.\<close>

lemma a_record_always_created:
  "cli_push fake_ops ver d \<lparr>prType = ''A'', prName = n, prContent = v\<rparr> s
     = ((None, push_result StatusCreated n v []), snd (fake_SetRecord s d (mk_record ''A'' n v 300)))"
  by (simp add: cli_push_def fake_ops_def fake_SetRecord_def)

text \<open>The same mistake of the user, no credentials, ends with exit code two for records and with one for a template.\<close>

lemma missing_credentials_exit:
  assumes "load_creds E (cfCredentialsFile fl) (cfProvider fl) = Inl (UserError code m ds)" and "cfProvider fl \<noteq> []" and "domain \<noteq> []"
  shows "afRecords af \<noteq> [] \<Longrightarrow> mapE parseRecordSpec (afRecords af) = Inr prs
      \<Longrightarrow> ClassifyExit (fst (fst (runRecordBranch E X fl af domain mode s))) = 2"
    and "template_prepare E X fl af c = (Inr (t, vs, recs), c') \<Longrightarrow> \<not> afDryRun af
      \<Longrightarrow> ClassifyExit (fst (fst (applyTemplateRun E X fl af domain mode (s, c)))) = 1"
  using assms
  by (simp_all add: runRecordBranch_def record_prepare_def resolve_slug_def mapErr_def ClassifyExit_def
      applyTemplateRun_def applyTemplateExecutor_def executor_provider_def)

text \<open>Witnesses on a small command line.\<close>

definition apply_cli :: cli_env where
  "apply_cli = \<lparr>ceEnv = \<lambda>_. [], ceFile = \<lambda>p. Inr ''{}'', ceWrite = \<lambda>p t. None, ceJSON = \<lambda>t. Some (JObj []), cePrint = \<lambda>j. [],
     ceHome = None, ceTTY = False\<rparr>"

definition apply_ops :: "fake_state cli_ops" where
  "apply_ops = \<lparr>coRegistry = RegisterProvider ''fake'' (\<lambda>creds. Inr fake_ops) Map.empty, coVerify = unverified,
     coLookupNS = (\<lambda>_. None), coRdap = (\<lambda>_. None), coSync = cache_env, coShowError = (\<lambda>_. [])\<rparr>"

definition apply_global :: cli_flags where
  "apply_global = \<lparr>cfJSON = True, cfQuiet = False, cfCredentialsFile = ''creds.json'', cfProvider = ''fake'', cfYes = True\<rparr>"

definition www_flags :: apply_flags where
  "www_flags = \<lparr>afRecords = [''A:www.example.com:192.0.2.1''], afDryRun = False, afTemplate = [], afVars = [], afVarsFile = [],
     afCacheDir = []\<rparr>"

definition www_parsed :: parsedRecord where
  "www_parsed = \<lparr>prType = ''A'', prName = ''www.example.com'', prContent = ''192.0.2.1''\<rparr>"

lemma www_parse: "mapE parseRecordSpec (afRecords www_flags) = Inr [www_parsed]"
proof -
  have "parseRecordSpec ''A:www.example.com:192.0.2.1'' = Inr www_parsed" by code_simp
  then show ?thesis by (simp add: www_flags_def)
qed

lemma www_apply:
  "\<exists>ems. applyCmd apply_cli apply_ops apply_global www_flags ''example.com'' ModeJSON (fake_New, c)
     = ((None, ems), fake_New(''A'' := [mk_record ''A'' ''www.example.com'' ''192.0.2.1'' 300]), c)"
proof -
  have l: "load_creds apply_cli ''creds.json'' ''fake'' = Inr no_creds" by code_simp
  have f: "afRecords www_flags \<noteq> []" "afTemplate www_flags = []" "\<not> afDryRun www_flags" "cfProvider apply_global = ''fake''"
    "cfCredentialsFile apply_global = ''creds.json''" "cfYes apply_global"
    by (simp_all add: www_flags_def apply_global_def)
  have r: "record_prepare apply_cli apply_ops apply_global www_flags ''example.com'' = Inr ([www_parsed], fake_ops)"
    using www_parse f by (simp add: record_prepare_def resolve_slug_def l mapErr_def NewProvider_def RegisterProvider_def apply_ops_def)
  have p: "cli_push fake_ops ver ''example.com'' www_parsed fake_New
      = ((None, push_result StatusCreated ''www.example.com'' ''192.0.2.1'' []), fake_New(''A'' := [mk_record ''A'' ''www.example.com'' ''192.0.2.1'' 300]))" for ver
    by (simp add: www_parsed_def a_record_always_created fake_SetRecord_def fake_New_def)
  show ?thesis
    using f r by (simp add: applyCmd_def runRecordBranch_def RequireYes_def p)
qed

definition no_templates :: tcache where
  "no_templates = \<lparr>tcClone = False, tcSentinel = None, tcFiles = []\<rparr>"

lemma apply_confirmed_witness: "\<not> afDryRun www_flags \<and> (ceTTY apply_cli \<or> cfYes apply_global)"
proof -
  obtain ems where h: "applyCmd apply_cli apply_ops apply_global www_flags ''example.com'' ModeJSON (fake_New, no_templates)
     = ((None, ems), demo_applied, no_templates)"
    using www_apply [of no_templates] by (auto simp: demo_applied_def)
  from apply_confirmed [OF h demo_applied_new] show ?thesis by blast
qed


end
