(* ===== verification/Cli_Zone.thy ===== *)
theory Cli_Zone
  imports Cli_Base Api_Extra
begin

text \<open>
  Zones on the command line: export and import of a zone (\<open>cmd/entree/cmd_zone.go\<close>) and the one-shot migration
  (\<open>cmd/entree/cmd_migrate.go\<close>), over \<open>ScrapeZone\<close>, \<open>ImportBIND\<close> and \<open>Migrate\<close>. Time limits, the rate of the writes and
  the time allowed for verification act inside \<open>migrate_env\<close>; the rate is a value of an abstract ordered type here. The
  zone file parser of the DNS library is a parameter, given the origin and the text.
\<close>

subsection \<open>Flags\<close>

record zone_flags =
  zfOutput :: string
  zfFormat :: string
  zfLabels :: "string list"
  zfLabelsOnly :: "string list"
  zfLabelsFile :: string
  zfNoAXFR :: bool
  zfFrom :: string
  zfTo :: string
  zfDryRun :: bool

subsection \<open>Files\<close>

definition plain_result :: "string option \<Rightarrow> emitted list \<Rightarrow> cmd_result" where
  "plain_result e ems = (map_option PlainError e, ems)"

definition writeOutput :: "cli_env \<Rightarrow> string \<Rightarrow> string \<Rightarrow> cmd_result" where
  "writeOutput E path body =
     (case ceWrite E path body of
        Some e \<Rightarrow> plain_result (Some e) []
      | None \<Rightarrow> plain_result None [Wrote path body])"

text \<open>\<open>bufio.ScanLines\<close>: the lines without their ends. A line of 65536 bytes or more does not fit the buffer.\<close>

definition scan_lines :: "string \<Rightarrow> string list" where
  "scan_lines data =
     (let ls = Split data newline in
      map (\<lambda>l. TrimSuffix l [char_of (13 :: nat)]) (if last ls = [] then butlast ls else ls))"

definition label_line :: "string \<Rightarrow> bool" where
  "label_line l \<longleftrightarrow> l \<noteq> [] \<and> \<not> HasPrefix l ''#''"

definition loadLabelsFile :: "cli_env \<Rightarrow> string \<Rightarrow> string + string list" where
  "loadLabelsFile E path =
     (if path = [] then Inr []
      else bindE (ceFile E path) (\<lambda>data.
        if \<exists>l \<in> set (Split data newline). length l \<ge> 65536 then Inl ''bufio.Scanner: token too long''
        else Inr (filter label_line (map TrimSpace (scan_lines data)))))"

subsection \<open>Zone files\<close>

definition ensureDot :: "string \<Rightarrow> string" where
  "ensureDot s = (if s = [] \<or> HasSuffix s ''.'' then s else s @ ''.'')"

definition bind_owner :: "string \<Rightarrow> string \<Rightarrow> string" where
  "bind_owner domain name =
     (if name = domain \<or> name = [] then ''@''
      else if HasSuffix name (CHR ''.'' # domain) then TrimSuffix name (CHR ''.'' # domain)
      else name)"

abbreviation "tab \<equiv> char_of (9 :: nat)"

definition bind_escape :: "string \<Rightarrow> string" where
  "bind_escape s = ReplaceChar dquote [backslash, dquote] (ReplaceChar backslash [backslash, backslash] s)"

definition bind_rdata :: "Record \<Rightarrow> string" where
  "bind_rdata r =
     (if recType r = ''TXT'' then [dquote] @ bind_escape (recContent r) @ [dquote]
      else if recType r = ''MX'' then Itoa (recPriority r) @ '' '' @ ensureDot (recContent r)
      else if recType r = ''CNAME'' \<or> recType r = ''NS'' then ensureDot (recContent r)
      else if recType r = ''SRV'' then
        Itoa (recPriority r) @ '' '' @ Itoa (recWeight r) @ '' '' @ Itoa (recPort r) @ '' '' @ ensureDot (recContent r)
      else recContent r)"

definition bind_line :: "string \<Rightarrow> Record \<Rightarrow> string" where
  "bind_line domain r =
     bind_owner domain (recName r) @ [tab] @ Itoa (if recTTL r \<le> 0 then 300 else recTTL r) @ [tab] @ ''IN'' @ [tab]
       @ recType r @ [tab] @ bind_rdata r @ [newline]"

definition renderBIND :: "MZone \<Rightarrow> string" where
  "renderBIND z =
     ''; dns-entree zone export for '' @ zDomain z @ [newline] @ ''; source='' @ zSource z @ [newline]
       @ ''$ORIGIN '' @ zDomain z @ ''.'' @ [newline] @ concat (map (bind_line (zDomain z)) (zRecords z))"

text \<open>The exported document, and its reading.\<close>

definition opt_list :: "string \<Rightarrow> string list \<Rightarrow> (string \<times> json) list" where
  "opt_list k vs = (if vs = [] then [] else [(k, JArr (map enc_str vs))])"

definition enc_zoneExport :: "MZone \<Rightarrow> json" where
  "enc_zoneExport z = JObj ([(''schema_version'', JNum 1), (''command'', enc_str ''zone.export''),
     (''domain'', enc_str (zDomain z)), (''source'', enc_str (zSource z)),
     (''nameservers'', JArr (map enc_str (zNameservers z))), (''records'', JArr (map enc_record (zRecords z)))]
     @ opt_list ''warnings'' (zWarnings z))"

definition dec_zoneExport :: "json \<Rightarrow> string + int \<times> MZone" where
  "dec_zoneExport j =
     bindE (dec_fields j) (\<lambda>kvs.
     bindE (dec_num (jfield kvs ''schema_version'')) (\<lambda>ver.
     bindE (dec_str (jfield kvs ''command'')) (\<lambda>_.
     bindE (dec_str (jfield kvs ''domain'')) (\<lambda>d.
     bindE (dec_str (jfield kvs ''source'')) (\<lambda>src.
     bindE (dec_list dec_str (jfield kvs ''nameservers'')) (\<lambda>nss.
     bindE (dec_list dec_record (jfield kvs ''records'')) (\<lambda>rs.
     bindE (dec_list dec_str (jfield kvs ''warnings'')) (\<lambda>ws.
     Inr (ver, \<lparr>zDomain = d, zRecords = rs, zSource = src, zNameservers = nss, zWarnings = ws\<rparr>)))))))))"

text \<open>The data of an envelope: the three fields decode, \<open>ok\<close> is there and not null, and so is \<open>data\<close>, where a null counts.\<close>

definition envelope_data :: "json \<Rightarrow> json option" where
  "envelope_data doc =
     (case dec_fields doc of
        Inl e \<Rightarrow> None
      | Inr kvs \<Rightarrow>
          (case (dec_ptr dec_bool (jfield kvs ''ok''), dec_num (jfield kvs ''schema_version'')) of
             (Inr (Some b), Inr n) \<Rightarrow> map_of kvs ''data''
           | _ \<Rightarrow> None))"

definition firstNonEmpty :: "string \<Rightarrow> string \<Rightarrow> string" where
  "firstNonEmpty a b = (if a \<noteq> [] then a else b)"

definition parseZoneJSON :: "cli_env \<Rightarrow> string \<Rightarrow> string \<Rightarrow> string + MZone" where
  "parseZoneJSON E data domain =
     (case ceJSON E data of
        None \<Rightarrow> Inl ''parse zone json: invalid JSON''
      | Some doc \<Rightarrow>
          (let payload = (case envelope_data doc of Some j \<Rightarrow> j | None \<Rightarrow> doc) in
           bindE (mapErr (\<lambda>e. ''parse zone json: '' @ e) (dec_zoneExport payload)) (\<lambda>(ver, z).
           if ver \<noteq> 0 \<and> ver \<noteq> 1 then Inl (''unsupported zone schema_version '' @ Itoa ver)
           else Inr (z\<lparr>zDomain := (if zDomain z = [] then domain else zDomain z), zSource := firstNonEmpty (zSource z) ''json''\<rparr>))))"

type_synonym zone_parser = "string \<Rightarrow> string \<Rightarrow> dns_rr list \<times> string option"

definition loadZoneFile :: "cli_env \<Rightarrow> (nat \<Rightarrow> string) \<Rightarrow> zone_parser \<Rightarrow> string \<Rightarrow> string \<Rightarrow> string + MZone" where
  "loadZoneFile E tn zp path domain =
     bindE (mapErr (\<lambda>e. ''read '' @ path @ '': '' @ e) (ceFile E path)) (\<lambda>data.
       let trimmed = TrimSpace data in
       if trimmed \<noteq> [] \<and> (hd trimmed = CHR ''{'' \<or> hd trimmed = CHR ''['') then parseZoneJSON E trimmed domain
       else ImportBIND tn (zp domain data) domain)"

subsection \<open>Export\<close>

definition export_scrape :: "zone_flags \<Rightarrow> string list \<Rightarrow> ScrapeOptions" where
  "export_scrape fl labs = \<lparr>soNameservers = [], soExtraLabels = zfLabels fl @ labs, soOnlyLabels = zfLabelsOnly fl,
     soSkipAXFR = zfNoAXFR fl\<rparr>"

definition runZoneExport :: "cli_env \<Rightarrow> scrape_env \<Rightarrow> zone_flags \<Rightarrow> string \<Rightarrow> out_mode \<Rightarrow> cmd_result" where
  "runZoneExport E SE fl arg mode =
     (let domain = TrimSpace arg; format = nonEmpty (ToLower (zfFormat fl)) ''json'';
          stop = (\<lambda>err. (Some err, [])) in
      if domain = [] then stop (user_error ''INVALID_DOMAIN'' ''domain required'')
      else if format \<noteq> ''json'' \<and> format \<noteq> ''bind'' then stop (user_error ''INVALID_FORMAT'' ''--format must be json or bind'')
      else case loadLabelsFile E (zfLabelsFile fl) of
        Inl e \<Rightarrow> stop (user_error ''LABELS_FILE_READ_FAILED'' e)
      | Inr labs \<Rightarrow>
          (case ScrapeZone SE domain (export_scrape fl labs) of
             Inl e \<Rightarrow> stop (RuntimeError ''SCRAPE_FAILED'' e [])
           | Inr zone \<Rightarrow>
               (let doc = enc_zoneExport zone; printed = cePrint E doc @ [newline] in
                if format = ''json'' \<and> mode = ModeJSON \<and> zfOutput fl = [] then (None, EmitOK mode doc)
                else let body = (if format = ''bind'' then renderBIND zone else printed) in
                  if zfOutput fl \<noteq> [] then writeOutput E (zfOutput fl) body
                  else (None, [OutText body]))))"

subsection \<open>Migration\<close>

record migrateCoreOpts =
  mcZone :: "MZone option"
  mcDryRun :: bool
  mcSkipAXFR :: bool
  mcLabels :: "string list"
  mcOnly :: "string list"

definition cli_provider_opts :: "Credentials \<Rightarrow> ProviderOpts" where
  "cli_provider_opts c = \<lparr>paAPIToken = crAPIToken c, paAPIKey = crAPIKey c, paAPISecret = crAPISecret c,
     paAccessKey = crAccessKey c, paSecretKey = crSecretKey c, paRegion = crRegion c, paToken = crToken c,
     paProjectID = crProjectID c, paAccountID = [], paEndpoint = []\<rparr>"

definition core_options :: "string \<Rightarrow> string \<Rightarrow> bool \<Rightarrow> migrateCoreOpts \<Rightarrow> 's provider \<Rightarrow> 's MigrateOptions" where
  "core_options domain slug apply' opts P = \<lparr>moDomain = domain, moTargetSlug = slug, moTarget = Some P,
     moScrapeOpts = \<lparr>soNameservers = [], soExtraLabels = mcLabels opts, soOnlyLabels = mcOnly opts, soSkipAXFR = mcSkipAXFR opts\<rparr>,
     moSourceBindFile = [], moPreloaded = mcZone opts, moApply = apply', moSourceProviderSlug = [], moSkipSourceDetect = True\<rparr>"

definition cli_needles :: "string list" where
  "cli_needles = [''Bearer '', ''Authorization:'', ''api_token'', ''api_key'', ''api_secret'']"

definition sanitizeString :: "string \<Rightarrow> string" where
  "sanitizeString s = cut_needles cli_needles s"

definition hasMismatch :: "MigrationReport \<Rightarrow> bool" where
  "hasMismatch rep \<longleftrightarrow> (\<exists>res \<in> set (rpResults rep). rsStatus res = StatusMismatch)"

definition enc_target_zone :: "ZoneInfo \<Rightarrow> json" where
  "enc_target_zone zi = JObj (opt_str ''zone_id'' (ziZoneID zi) @ opt_list ''nameservers'' (ziNameservers zi)
     @ [(''created'', JBool (ziCreated zi))])"

definition result_json :: "RecordResult \<Rightarrow> json" where
  "result_json res = JObj ([(''type'', enc_str (recType (rsRecord res))), (''name'', enc_str (recName (rsRecord res))),
     (''content'', enc_str (recContent (rsRecord res))), (''status'', enc_str (mig_status_String (rsStatus res)))]
     @ opt_str ''detail'' (sanitizeString (rsDetail res)))"

definition reportToJSON :: "MigrationReport \<Rightarrow> bool \<Rightarrow> json" where
  "reportToJSON r previewOnly = JObj ([(''schema_version'', JNum 1), (''command'', enc_str ''migrate''), (''domain'', enc_str (rpDomain r)),
     (''applied'', JBool (\<not> previewOnly)), (''source'', enc_str (rpSource r))] @ opt_str ''source_provider'' (rpSourceProvider r)
     @ [(''target_zone_status'', enc_str (rpTargetZoneStatus r)), (''target_zone'', enc_target_zone (rpTargetZone r)),
        (''preview'', JArr (map enc_record (rpPreview r)))]
     @ (if rpResults r = [] then [] else [(''results'', JArr (map result_json (rpResults r)))])
     @ opt_list ''warnings'' (rpWarnings r) @ opt_list ''errors'' (map sanitizeString (rpErrors r)) @ opt_str ''ns_change'' (rpNSChange r))"

definition renderReportHuman :: "MigrationReport \<Rightarrow> bool \<Rightarrow> emitted list" where
  "renderReportHuman r previewOnly =
     map OutText
       [''domain: '' @ rpDomain r @ [newline], ''source: '' @ rpSource r @ [newline],
        ''target_zone_status: '' @ rpTargetZoneStatus r @ [newline],
        ''preview_records: '' @ Itoa (int (length (rpPreview r))) @ [newline],
        (if previewOnly then ''mode: dry-run (pass --yes to apply)'' @ [newline]
         else ''results: '' @ Itoa (int (length (rpResults r))) @ [newline])]
     @ (if rpNSChange r = [] then [] else [ErrText (rpNSChange r @ [newline])])"

text \<open>What a command needs of the providers: the registry, the adapters and the environment of \<open>Migrate\<close>.\<close>

record 's cli_target =
  ctRegistry :: "string \<rightharpoonup> 's provider factory"
  ctAdapters :: "'s adapters"
  ctMigrate :: "'s migrate_env"

text \<open>The checks up to the provider, and what the report turns into.\<close>

definition core_prepare ::
  "cli_env \<Rightarrow> cli_flags \<Rightarrow> 's cli_target \<Rightarrow> string \<Rightarrow> bool \<Rightarrow> cli_error + Credentials \<times> 's provider" where
  "core_prepare E fl T slug apply' =
     (if slug = [] then Inl (user_error ''MISSING_TO'' ''--to <slug> required'')
      else failE (if apply' then RequireYes (ceTTY E) (cfYes fl) else None) id
        (bindE (load_creds E (cfCredentialsFile fl) slug) (\<lambda>creds.
         bindE (mapErr (\<lambda>e. RuntimeError ''PROVIDER_INIT_FAILED'' e []) (NewProvider (ctRegistry T) slug creds)) (\<lambda>P.
         Inr (creds, P)))))"

definition core_outcome :: "out_mode \<Rightarrow> bool \<Rightarrow> mig_outcome \<Rightarrow> cmd_result" where
  "core_outcome mode previewOnly out =
     (case out of (rep, err) \<Rightarrow>
        ((case err of
            None \<Rightarrow> None
          | Some es \<Rightarrow> Some (if hasMismatch rep then RuntimeError ''VERIFY_MISMATCH'' ''post-apply verification mismatch'' []
              else RuntimeError ''MIGRATE_PARTIAL_FAILURE'' (sanitizeString (Join es [newline])) [])),
         (if mode = ModeJSON then EmitOK mode (reportToJSON rep previewOnly) else renderReportHuman rep previewOnly)))"

text \<open>\<open>None\<close> is a migration that does not return.\<close>

definition runMigrateCore ::
  "cli_env \<Rightarrow> cli_flags \<Rightarrow> 's cli_target \<Rightarrow> string \<Rightarrow> string \<Rightarrow> migrateCoreOpts \<Rightarrow> out_mode \<Rightarrow> 's \<Rightarrow> (cmd_result \<times> 's) option" where
  "runMigrateCore E fl T domain slug opts mode s =
     (let apply' = (cfYes fl \<and> \<not> mcDryRun opts) in
      case core_prepare E fl T slug apply' of
        Inl err \<Rightarrow> Some ((Some err, []), s)
      | Inr (creds, P) \<Rightarrow>
          map_option (\<lambda>(out, s'). (core_outcome mode (mcDryRun opts \<or> \<not> apply') out, s'))
            (Migrate (with_adapters (ctAdapters T) (cli_provider_opts creds) (ctMigrate T)) (core_options domain slug apply' opts P) s))"

definition runZoneImport ::
  "cli_env \<Rightarrow> cli_flags \<Rightarrow> 's cli_target \<Rightarrow> zone_parser \<Rightarrow> zone_flags \<Rightarrow> string \<Rightarrow> out_mode \<Rightarrow> 's \<Rightarrow> (cmd_result \<times> 's) option" where
  "runZoneImport E fl T zp zf arg mode s =
     (let domain = TrimSpace arg; stop = (\<lambda>code msg. Some ((Some (user_error code msg), []), s)) in
      if domain = [] then stop ''INVALID_DOMAIN'' ''domain required''
      else if zfFrom zf = [] then stop ''MISSING_FROM'' ''--from <file> required''
      else if zfTo zf = [] then stop ''MISSING_TO'' ''--to <slug> required''
      else case loadZoneFile E (seTypeName (meScrape (ctMigrate T))) zp (zfFrom zf) domain of
        Inl e \<Rightarrow> stop ''ZONE_LOAD_FAILED'' e
      | Inr zone \<Rightarrow> runMigrateCore E fl T domain (zfTo zf)
          \<lparr>mcZone = Some zone, mcDryRun = zfDryRun zf, mcSkipAXFR = True, mcLabels = [], mcOnly = []\<rparr> mode s)"

text \<open>The migrate command bounds its rate; the import does not.\<close>

definition runMigrateCmd ::
  "cli_env \<Rightarrow> cli_flags \<Rightarrow> 's cli_target \<Rightarrow> zone_flags \<Rightarrow> ('f :: {zero, numeral, ord}) \<Rightarrow> string \<Rightarrow> out_mode \<Rightarrow> 's \<Rightarrow> (cmd_result \<times> 's) option" where
  "runMigrateCmd E fl T zf rate arg mode s =
     (let domain = TrimSpace arg; stop = (\<lambda>code msg. Some ((Some (user_error code msg), []), s)) in
      if domain = [] then stop ''INVALID_DOMAIN'' ''domain required''
      else if zfTo zf = [] then stop ''MISSING_TO'' ''--to <slug> required''
      else if rate < 0 \<or> 100 < rate then stop ''INVALID_RATE'' ''--rate must be between 0 and 100''
      else case loadLabelsFile E (zfLabelsFile zf) of
        Inl e \<Rightarrow> stop ''LABELS_FILE_READ_FAILED'' e
      | Inr labs \<Rightarrow> runMigrateCore E fl T domain (zfTo zf)
          \<lparr>mcZone = None, mcDryRun = zfDryRun zf, mcSkipAXFR = zfNoAXFR zf, mcLabels = zfLabels zf @ labs, mcOnly = zfLabelsOnly zf\<rparr> mode s)"

text \<open>The adapter of the fake provider, which exists only on the command line.\<close>

definition fakeAdapter :: "'s adapter" where
  "fakeAdapter domain opts s = (Inr \<lparr>ziZoneID = ''fake-zone-id'',
     ziNameservers = [''ns1.fake.example.'', ''ns2.fake.example.''], ziCreated = True\<rparr>, s)"

definition cli_adapters :: "'s vendor \<Rightarrow> 's adapters" where
  "cli_adapters V = RegisterAdapter ''fake'' fakeAdapter (init_adapters V)"

subsection \<open>Export and import\<close>

lemma dec_enc_zoneExport:
  assumes "zone_wf z"
  shows "dec_zoneExport (enc_zoneExport z) = Inr (1, z)"
proof -
  have c: "dec_str (enc_str ''zone.export'') = Inr ''zone.export''"
    by (simp add: enc_str_def) (code_simp?)
  have w: "dec_list dec_str (jfield (opt_list ''warnings'' (zWarnings z)) ''warnings'') = Inr (zWarnings z)"
    using assms by (simp add: opt_list_def zone_wf_def jfield_def jstr.mapE_dec_enc)
  show ?thesis
    using assms c w
    by (simp add: dec_zoneExport_def enc_zoneExport_def zone_wf_def jfield_Cons dec_enc_str jstr.mapE_dec_enc jrecord.mapE_dec_enc)
qed

lemma envelope_data_envelope: "envelope_data (ok_envelope d) = Some d"
  by (simp add: envelope_data_def ok_envelope_def jfield_def dec_ptr_def)

lemma envelope_data_export: "envelope_data (enc_zoneExport z) = None"
  by (simp add: envelope_data_def enc_zoneExport_def jfield_def dec_ptr_def opt_list_def split: sum.split)

lemma axfr_source: "zSource (fst (foldl (axfr_rr env d) (z, n) rrs)) = zSource z \<and> zDomain (fst (foldl (axfr_rr env d) (z, n) rrs)) = zDomain z"
proof (induction rrs arbitrary: z n)
  case (Cons rr rrs)
  obtain z1 n1 where s: "axfr_rr env d (z, n) rr = (z1, n1)" by fastforce
  have "zSource z1 = zSource z \<and> zDomain z1 = zDomain z" using s by (auto split: if_splits prod.splits option.splits)
  with Cons.IH [of z1 n1] s show ?case by (simp del: axfr_rr.simps)
qed simp

lemma axfrTransfer_source:
  assumes "axfrTransfer env d ns = Inr z" shows "zSource z = ''axfr'' \<and> zDomain z = d"
proof -
  from assms obtain rrs soa where "foldl (axfr_rr env d) (new_zone d ''axfr'', 0) rrs = (z, soa)"
    by (auto simp: axfrTransfer_def Let_def split: sum.splits if_splits prod.splits)
  with axfr_source [of env d "new_zone d ''axfr''" 0 rrs] show ?thesis by (simp add: new_zone_def del: axfr_rr.simps)
qed

lemma first_axfr_source: "first_axfr env d nss = Some z \<Longrightarrow> zSource z = ''axfr'' \<and> zDomain z = d"
  by (induction nss) (auto dest: axfrTransfer_source split: sum.splits)

lemma ScrapeZone_source:
  assumes "ScrapeZone env d opts = Inr z" shows "zSource z \<noteq> [] \<and> zDomain z = TrimSuffix d ''.''"
  using assms unfolding ScrapeZone_def Let_def
  by (auto simp: iteratedScrape_def new_zone_def simp del: first_axfr.simps dest!: first_axfr_source
      split: option.splits if_splits prod.splits bool.splits)

definition emitted_text :: "cli_env \<Rightarrow> emitted \<Rightarrow> string" where
  "emitted_text E em = (case em of
     OutJSON doc \<Rightarrow> cePrint E doc @ [newline] | OutText t \<Rightarrow> t | Wrote p t \<Rightarrow> t | OutPlain doc \<Rightarrow> [] | ErrText t \<Rightarrow> [])"

text \<open>What \<open>encoding/json\<close> does with a document: it prints an object without surrounding space and reads it back.\<close>

definition json_text :: "cli_env \<Rightarrow> json \<Rightarrow> bool" where
  "json_text E doc \<longleftrightarrow> ceJSON E (cePrint E doc) = Some doc \<and> trimmed (cePrint E doc) \<and> HasPrefix (cePrint E doc) ''{''"

lemma TrimSpace_line: "trimmed s \<Longrightarrow> TrimSpace (s @ [newline]) = s"
proof -
  assume s: "trimmed s"
  have "TrimSpace (s @ [newline]) = TrimSpace s"
  proof (cases s)
    case (Cons a as)
    with s have "\<not> is_space a" by (simp add: trimmed_def)
    moreover have "is_space newline" by code_simp
    ultimately show ?thesis using Cons by (simp add: TrimSpace_def)
  qed (simp add: TrimSpace_def, code_simp)
  with s show ?thesis by (simp add: TrimSpace_id)
qed

lemma loadZoneFile_text:
  assumes "json_text E doc" and "ceFile E' path = Inr (cePrint E doc @ [newline])" and "ceJSON E' = ceJSON E"
    and "doc = enc_zoneExport z \<or> doc = ok_envelope (enc_zoneExport z)"
    and "zone_wf z" and "zDomain z \<noteq> []" and "zSource z \<noteq> []"
  shows "loadZoneFile E' tn zp path domain = Inr z"
proof -
  let ?t = "cePrint E doc"
  from assms(1) have t: "?t \<noteq> []" "hd ?t = CHR ''{''" "TrimSpace (?t @ [newline]) = ?t"
    by (auto simp: json_text_def TrimSpace_line prefix_def)
  have "(case envelope_data doc of Some j \<Rightarrow> j | None \<Rightarrow> doc) = enc_zoneExport z"
    using assms(4) envelope_data_envelope envelope_data_export by auto
  then have "parseZoneJSON E' ?t domain = Inr z"
    using assms by (simp add: parseZoneJSON_def json_text_def dec_enc_zoneExport firstNonEmpty_def mapErr_def)
  with t assms(2) show ?thesis by (simp add: loadZoneFile_def Let_def mapErr_def)
qed

lemma runZoneExport_text:
  assumes "runZoneExport E SE fl arg mode = (None, [em])" and "ToLower (zfFormat fl) \<in> {[], ''json''}"
    and "loadLabelsFile E (zfLabelsFile fl) = Inr labs" and "ScrapeZone SE (TrimSpace arg) (export_scrape fl labs) = Inr z"
  shows "\<exists>doc. (doc = enc_zoneExport z \<or> doc = ok_envelope (enc_zoneExport z)) \<and> emitted_text E em = cePrint E doc @ [newline]"
proof -
  have "em \<in> {OutJSON (ok_envelope (enc_zoneExport z)), OutText (cePrint E (enc_zoneExport z) @ [newline]),
      Wrote (zfOutput fl) (cePrint E (enc_zoneExport z) @ [newline])}"
    using assms
    by (auto simp: runZoneExport_def Let_def nonEmpty_def writeOutput_def plain_result_def EmitOK_def
        split: if_splits option.splits out_mode.splits)
  then show ?thesis by (auto simp: emitted_text_def)
qed

text \<open>Property C30. An exported zone is imported as it was scraped, records, name servers and warnings: the document of \<open>zone export\<close>,
  on its own or in the envelope of \<open>--json\<close>, on standard output or in a file, is read back by \<open>zone import\<close>, whatever
  domain the import is for.\<close>

theorem export_import:
  assumes "runZoneExport E SE fl arg mode = (None, [em])" and "ToLower (zfFormat fl) \<in> {[], ''json''}"
    and "loadLabelsFile E (zfLabelsFile fl) = Inr labs" and "ScrapeZone SE (TrimSpace arg) (export_scrape fl labs) = Inr z"
    and "zone_wf z" and "TrimSuffix (TrimSpace arg) ''.'' \<noteq> []"
    and "json_text E (enc_zoneExport z)" and "json_text E (ok_envelope (enc_zoneExport z))"
    and "ceFile E' path = Inr (emitted_text E em)" and "ceJSON E' = ceJSON E"
  shows "loadZoneFile E' tn zp path domain = Inr z"
proof -
  obtain doc where d: "doc = enc_zoneExport z \<or> doc = ok_envelope (enc_zoneExport z)"
    "emitted_text E em = cePrint E doc @ [newline]" using runZoneExport_text [OF assms(1-4)] by blast
  with assms(7,8) have "json_text E doc" by auto
  moreover note ScrapeZone_source [OF assms(4)]
  ultimately show ?thesis using assms d by (intro loadZoneFile_text [where doc = doc and E = E]) auto
qed

definition demo_zone :: MZone where
  "demo_zone = \<lparr>zDomain = ''a.com'', zRecords = [mk_record ''A'' ''a.com'' ''192.0.2.7'' 300],
     zSource = ''iterated'', zNameservers = [''10.0.0.1:53''], zWarnings = []\<rparr>"

definition demo_cli :: cli_env where
  "demo_cli = \<lparr>ceEnv = \<lambda>_. [], ceFile = \<lambda>p. Inr (''{1}'' @ [newline]), ceWrite = \<lambda>p t. None,
     ceJSON = (\<lambda>t. Some (if t = ''{1}'' then ok_envelope (enc_zoneExport demo_zone) else enc_zoneExport demo_zone)),
     cePrint = (\<lambda>j. if j = ok_envelope (enc_zoneExport demo_zone) then ''{1}'' else ''{}''),
     ceHome = None, ceTTY = False\<rparr>"

definition demo_zone_flags :: zone_flags where
  "demo_zone_flags = \<lparr>zfOutput = [], zfFormat = ''JSON'', zfLabels = [], zfLabelsOnly = [''@'', ''www''], zfLabelsFile = [], zfNoAXFR = False,
     zfFrom = ''zone.json'', zfTo = ''fake'', zfDryRun = False\<rparr>"

lemma demo_zone_export:
  "loadLabelsFile demo_cli (zfLabelsFile demo_zone_flags) = Inr []"
  "export_scrape demo_zone_flags [] = demo_opts" "ToLower (zfFormat demo_zone_flags) = ''json''"
  "json_text demo_cli (enc_zoneExport demo_zone)" "json_text demo_cli (ok_envelope (enc_zoneExport demo_zone))"
  by code_simp+

lemma demo_zone_arg: "TrimSpace ''a.com'' = ''a.com''" "TrimSuffix ''a.com'' ''.'' = ''a.com''"
  by code_simp+

lemma demo_zone_wf: "zone_wf demo_zone"
  by (simp add: zone_wf_def demo_zone_def record_wf_def mk_record_def pred_option_def) (intro conjI; code_simp)

lemma export_import_witness:
  "loadZoneFile demo_cli (\<lambda>_. []) (\<lambda>d t. ([], None)) ''zone.json'' ''b.com'' = Inr demo_zone"
proof -
  have s: "ScrapeZone demo_env ''a.com'' demo_opts = Inr demo_zone" using demo_scrape by (simp add: demo_zone_def)
  have "cePrint demo_cli (ok_envelope (enc_zoneExport demo_zone)) = ''{1}''" by (simp add: demo_cli_def)
  then have t: "ceFile demo_cli ''zone.json'' = Inr (emitted_text demo_cli (OutJSON (ok_envelope (enc_zoneExport demo_zone))))"
    by (simp add: emitted_text_def demo_cli_def)
  have r: "runZoneExport demo_cli demo_env demo_zone_flags ''a.com'' ModeJSON = (None, [OutJSON (ok_envelope (enc_zoneExport demo_zone))])"
    using demo_zone_export s demo_zone_arg
    by (simp add: runZoneExport_def Let_def nonEmpty_def EmitOK_def) (simp add: demo_zone_flags_def)
  show ?thesis
    by (rule export_import [OF r _ demo_zone_export(1) _ demo_zone_wf _ demo_zone_export(4,5) t refl])
      (simp_all add: demo_zone_export s demo_zone_arg)
qed

subsection \<open>Zone files in BIND form\<close>

text \<open>The name an owner stands for in a zone file with an origin.\<close>

definition abs_name :: "string \<Rightarrow> string \<Rightarrow> string" where
  "abs_name origin owner =
     (if owner = ''@'' then origin else if HasSuffix owner ''.'' then TrimSuffix owner ''.'' else owner @ CHR ''.'' # origin)"

text \<open>The owners of an exported file denote the names of the records, for names that end in the domain as it is written.\<close>

lemma bind_owner_denotes:
  assumes "name = domain \<or> (\<exists>u. name = u @ CHR ''.'' # domain \<and> u \<noteq> ''@'' \<and> \<not> HasSuffix u ''.'')"
  shows "abs_name domain (bind_owner domain name) = name"
proof (cases "name = domain")
  case False
  with assms obtain u where "name = u @ CHR ''.'' # domain" "u \<noteq> ''@''" "\<not> HasSuffix u ''.''" by auto
  moreover have "HasSuffix (u @ CHR ''.'' # domain) (CHR ''.'' # domain)" by (simp add: suffix_def)
  ultimately show ?thesis using False by (auto simp: abs_name_def bind_owner_def)
qed (simp add: abs_name_def bind_owner_def)

text \<open>The comparison is sensitive to case, unlike the one that lets a record into the zone: in another case the
  owner becomes relative and denotes a name below the zone twice.\<close>

lemma bind_owner_other_case:
  "inZone ''www.Example.com'' ''example.com''
   \<and> abs_name ''example.com'' (bind_owner ''example.com'' ''www.Example.com'') = ''www.Example.com.example.com''"
  by code_simp

text \<open>Quoted text is read back: a parser that unescapes up to the closing quote finds the content.\<close>

fun read_quoted :: "string \<Rightarrow> (string \<times> string) option" where
  "read_quoted [] = None"
| "read_quoted (c # s) =
     (if c = dquote then Some ([], s)
      else if c = backslash then (case s of [] \<Rightarrow> None | d # t \<Rightarrow> map_option (\<lambda>(v, r). (d # v, r)) (read_quoted t))
      else map_option (\<lambda>(v, r). (c # v, r)) (read_quoted s))"

lemma bind_escape_simps [simp]:
  "bind_escape [] = []"
  "bind_escape (c # s) = (if c = backslash then [backslash, backslash] else if c = dquote then [backslash, dquote] else [c]) @ bind_escape s"
  by (auto simp del: char_of_eq_iff simp: bind_escape_def)

theorem read_bind_escape: "read_quoted (bind_escape s @ [dquote] @ rest) = Some (s, rest)"
  by (induction s) (auto simp del: char_of_eq_iff)

subsection \<open>What a run writes\<close>

lemma GetAdapter_ensure: "meEnsure (with_adapters A opts M) slug = Some f \<Longrightarrow> \<exists>a. A slug = Some a \<and> f = (\<lambda>s d. a d opts s)"
  by (auto simp: with_adapters_def GetAdapter_def split: sum.splits option.splits)

lemma runMigrateCore_unconfirmed:
  assumes "runMigrateCore E fl T domain slug opts mode s = Some (res, s')" and "\<not> cfYes fl \<or> mcDryRun opts"
  shows "s' = s \<or> (\<exists>a creds. ctAdapters T slug = Some a \<and> s' = snd (a domain (cli_provider_opts creds) s))"
proof (cases "core_prepare E fl T slug False")
  case (Inr cp)
  obtain creds P where c: "cp = (creds, P)" by fastforce
  let ?M = "with_adapters (ctAdapters T) (cli_provider_opts creds) (ctMigrate T)" and ?o = "core_options domain slug False opts P"
  have f: "(cfYes fl \<and> \<not> mcDryRun opts) = False" using assms(2) by auto
  from assms(1) obtain out where m: "Migrate ?M ?o s = Some (out, s')"
    unfolding runMigrateCore_def Let_def f Inr c by (auto split: option.splits)
  have "\<not> moApply ?o" "moTargetSlug ?o = slug" "moDomain ?o = domain" by (simp_all add: core_options_def)
  with Migrate_dry_run [OF m] have "s' = s \<or> (\<exists>ensure. meEnsure ?M slug = Some ensure \<and> s' = snd (ensure s domain))" by simp
  then show ?thesis using GetAdapter_ensure by metis
next
  case (Inl err)
  have f: "(cfYes fl \<and> \<not> mcDryRun opts) = False" using assms(2) by auto
  from assms(1) show ?thesis unfolding runMigrateCore_def Let_def f Inl by simp
qed

text \<open>Property C31. A run without \<open>--yes\<close>, or with \<open>--dry-run\<close>, writes no record: the provider is as it was, or as the adapter left
  it that makes sure the zone exists. The second case is there because a preview creates the zone, too.\<close>

theorem unconfirmed_writes_no_record:
  assumes "runZoneImport E fl T zp zf arg mode s = Some (res, s') \<or> runMigrateCmd E fl T zf rate arg mode s = Some (res, s')"
    and "\<not> cfYes fl \<or> zfDryRun zf"
  shows "s' = s \<or> (\<exists>a creds. ctAdapters T (zfTo zf) = Some a \<and> s' = snd (a (TrimSpace arg) (cli_provider_opts creds) s))"
proof -
  have "s' = s \<or> (\<exists>opts. mcDryRun opts = zfDryRun zf
      \<and> runMigrateCore E fl T (TrimSpace arg) (zfTo zf) opts mode s = Some (res, s'))"
    using assms(1)
    by (elim disjE) (auto simp: runZoneImport_def runMigrateCmd_def Let_def split: if_splits sum.splits;
      metis migrateCoreOpts.select_convs(2))+
  with runMigrateCore_unconfirmed [of E fl T "TrimSpace arg" "zfTo zf" _ mode s res s'] assms(2) show ?thesis by metis
qed

definition creating_adapter :: "fake_state adapter" where
  "creating_adapter domain opts s = (Inr \<lparr>ziZoneID = ''z'', ziNameservers = [''ns1.fake.example.''], ziCreated = True\<rparr>,
     s(domain := [mk_record ''NS'' domain ''ns1.fake.example'' 300]))"

definition demo_target :: "fake_state cli_target" where
  "demo_target = \<lparr>ctRegistry = [''fake'' \<mapsto> (\<lambda>c. Inr fake_ops)], ctAdapters = [''fake'' \<mapsto> creating_adapter], ctMigrate = demo_migrate_env\<rparr>"

definition demo_cli_flags :: cli_flags where
  "demo_cli_flags = \<lparr>cfJSON = False, cfQuiet = False, cfCredentialsFile = ''creds.json'', cfProvider = [], cfYes = False\<rparr>"

lemma demo_core_prepare: "core_prepare demo_cli demo_cli_flags demo_target ''fake'' False = Inr (no_creds, fake_ops)"
proof -
  have "load_creds demo_cli ''creds.json'' ''fake'' = Inr no_creds" by code_simp
  moreover have "cfCredentialsFile demo_cli_flags = ''creds.json''" by (simp add: demo_cli_flags_def)
  ultimately show ?thesis by (simp add: core_prepare_def failE_def mapErr_def NewProvider_def demo_target_def)
qed

text \<open>The preview of an import: nobody has confirmed it, and the zone is there afterwards.\<close>

lemma demo_import:
  "\<exists>res. runZoneImport demo_cli demo_cli_flags demo_target (\<lambda>d t. ([], None)) demo_zone_flags ''a.com'' ModeHuman s
     = Some (res, s(''a.com'' := [mk_record ''NS'' ''a.com'' ''ns1.fake.example'' 300])) \<and> fst res = None"
proof -
  have z: "loadZoneFile demo_cli tn (\<lambda>d t. ([], None)) ''zone.json'' ''a.com'' = Inr demo_zone" for tn
  proof -
    have "ceFile demo_cli ''zone.json'' = Inr (cePrint demo_cli (ok_envelope (enc_zoneExport demo_zone)) @ [newline])"
      by (simp add: demo_cli_def)
    then show ?thesis
      by (rule loadZoneFile_text [OF demo_zone_export(5) _ refl _ demo_zone_wf]) (simp_all add: demo_zone_def)
  qed
  have f: "zfFrom demo_zone_flags = ''zone.json''" "zfTo demo_zone_flags = ''fake''" "cfYes demo_cli_flags = False"
    by (simp_all add: demo_zone_flags_def demo_cli_flags_def)
  have v: "migrate_validateDomain ''a.com'' = None" by code_simp
  show ?thesis
    by (simp add: runZoneImport_def z f demo_zone_arg Let_def runMigrateCore_def demo_core_prepare Migrate_def core_options_def v
        acquire_zone_def with_adapters_def GetAdapter_def)
      (simp add: demo_target_def creating_adapter_def core_outcome_def finish_def Let_def)
qed

lemma unconfirmed_writes_no_record_witness:
  "\<exists>a creds. ctAdapters demo_target ''fake'' = Some a
     \<and> fake_New(''a.com'' := [mk_record ''NS'' ''a.com'' ''ns1.fake.example'' 300]) = snd (a ''a.com'' (cli_provider_opts creds) fake_New)"
proof -
  let ?s' = "fake_New(''a.com'' := [mk_record ''NS'' ''a.com'' ''ns1.fake.example'' 300])"
  from demo_import [of fake_New] obtain res where
    "runZoneImport demo_cli demo_cli_flags demo_target (\<lambda>d t. ([], None)) demo_zone_flags ''a.com'' ModeHuman fake_New = Some (res, ?s')" by blast
  then have r: "runZoneImport demo_cli demo_cli_flags demo_target (\<lambda>d t. ([], None)) demo_zone_flags ''a.com'' ModeHuman fake_New = Some (res, ?s')
     \<or> runMigrateCmd demo_cli demo_cli_flags demo_target demo_zone_flags (0 :: int) ''a.com'' ModeHuman fake_New = Some (res, ?s')" ..
  have y: "\<not> cfYes demo_cli_flags \<or> zfDryRun demo_zone_flags" by (simp add: demo_cli_flags_def)
  have "?s' \<noteq> fake_New"
  proof
    assume "?s' = fake_New"
    then have "?s' ''a.com'' = fake_New ''a.com''" by simp
    then show False by (simp add: fake_New_def)
  qed
  with unconfirmed_writes_no_record [OF r y] demo_zone_arg show ?thesis by (simp add: demo_zone_flags_def)
qed

subsection \<open>What is written\<close>

text \<open>Under \<open>--json\<close> a failed migration writes two documents, an accepted report and then the error; and \<open>--quiet\<close>
  does not keep the report from standard output.\<close>

lemma failed_migration_documents:
  assumes "snd out = Some es" and "cfJSON fl" and "\<not> cfQuiet fl"
  shows "\<exists>c m. fst (Execute None fl (\<lambda>mode. (core_outcome mode p out, s)) s0)
     = (1, [OutJSON (ok_envelope (reportToJSON (fst out) p)), OutJSON (err_envelope c m [])])"
  using assms by (cases out) (auto simp: core_outcome_def EmitOK_def ClassifyExit_def Execute_def ParseMode_def Let_def EmitError_def)

lemma quiet_prints_report: "snd (core_outcome ModeQuiet p out) = renderReportHuman (fst out) p"
  by (cases out) (simp add: core_outcome_def)

text \<open>The exit code of a migration: zero exactly when it reported no error, else one, also for user errors of the
  record data; what could not start ends with two.\<close>

lemma migrate_exit: "ClassifyExit (fst (core_outcome mode p out)) = (if snd out = None then 0 else 1)"
  by (cases out) (auto simp: core_outcome_def ClassifyExit_def split: option.split)

end
