(* ===== verification/Cli_Cmds.thy ===== *)
theory Cli_Cmds
  imports Cli_Apply Cli_Zone Api_Server
begin

text \<open>
  The remaining commands of the command line: detection, verification, Domain Connect discovery, SPF merging, the version and
  the server (\<open>cmd/entree/cmd_detect.go\<close>, \<open>cmd_verify.go\<close>, \<open>cmd_dcdiscover.go\<close>, \<open>cmd_spfmerge.go\<close>, \<open>version.go\<close>, \<open>cmd_serve.go\<close>).
  The number of arguments is cobra's to check.
\<close>

subsection \<open>Log level\<close>

definition parseLogLevel :: "string \<Rightarrow> int" where
  "parseLogLevel s =
     (if s = ''debug'' then - 4 else if s = ''info'' then 0 else if s = ''warn'' \<or> s = [] then 4
      else if s = ''error'' then 8 else if s = ''off'' then 127 else 4)"

subsection \<open>Detection and verification\<close>

definition detectCmd :: "'s cli_ops \<Rightarrow> string \<Rightarrow> out_mode \<Rightarrow> cmd_result" where
  "detectCmd X domain mode =
     (if domain = [] then (Some (user_error ''INVALID_DOMAIN'' ''domain required''), [])
      else case DetectProvider (coLookupNS X) (coRdap X) domain of
        Inl e \<Rightarrow> (Some (RuntimeError ''NS_LOOKUP_FAILED'' e []), [])
      | Inr d \<Rightarrow>
          (None, if mode = ModeHuman
            then [OutText (''provider='' @ drProvider d @ '' label='' @ go_quote (drLabel d) @ '' supported='' @ show_bool (drSupported d)
              @ '' method='' @ drMethod d @ [newline])]
            else EmitOK mode (enc_detection d)))"

definition isValidRecordType :: "string \<Rightarrow> bool" where
  "isValidRecordType t \<longleftrightarrow> t \<in> {''TXT'', ''CNAME'', ''MX'', ''A'', ''AAAA''}"

definition enc_verify :: "VerifyResult \<Rightarrow> json" where
  "enc_verify v = JObj [(''verified'', JBool (vrVerified v)), (''current_value'', enc_str (vrCurrentValue v)),
     (''method'', enc_str (vrMethod v)), (''nameservers_queried'', JArr (map enc_str (vrNameserversQueried v)))]"

definition verifyCmd :: "'s cli_ops \<Rightarrow> string \<Rightarrow> string \<Rightarrow> string \<Rightarrow> string \<Rightarrow> out_mode \<Rightarrow> cmd_result" where
  "verifyCmd X needle domain rtype name mode =
     (let stop = (\<lambda>err. (Some err, [])) in
      if domain = [] then stop (user_error ''INVALID_DOMAIN'' ''domain required'')
      else if \<not> isValidRecordType rtype then stop (user_error ''INVALID_RECORD_TYPE'' (''unsupported record type '' @ go_quote rtype))
      else if name = [] then stop (user_error ''INVALID_NAME'' ''name required'')
      else case coVerify X domain (verify_opts rtype name needle) of
        (Some e, _) \<Rightarrow> stop (RuntimeError ''DNS_QUERY_FAILED'' e [])
      | (None, v) \<Rightarrow>
          (None, if mode = ModeHuman
            then [OutText (''verified='' @ show_bool (vrVerified v) @ '' value='' @ go_quote (vrCurrentValue v) @ '' method='' @ vrMethod v @ [newline])]
            else EmitOK mode (enc_verify v)))"

subsection \<open>Domain Connect\<close>

definition opt_num :: "string \<Rightarrow> int \<Rightarrow> (string \<times> json) list" where
  "opt_num k n = (if n = 0 then [] else [(k, JNum n)])"

definition dcDiscoverResult :: "string \<Rightarrow> DiscoveryResult \<Rightarrow> json" where
  "dcDiscoverResult domain d = JObj ([(''domain'', enc_str domain), (''supported'', JBool (dcSupported d))]
     @ opt_str ''provider_id'' (dcProviderID d) @ opt_str ''provider_name'' (dcProviderName d) @ opt_str ''url_sync_ux'' (dcURLSyncUX d)
     @ opt_str ''url_async_ux'' (dcURLAsyncUX d) @ opt_str ''url_api'' (dcURLAPI d) @ opt_num ''width'' (dcWidth d)
     @ opt_num ''height'' (dcHeight d) @ opt_list ''nameservers'' (dcNameservers d))"

definition dcDiscoverCmd :: "discoverOptions \<Rightarrow> string \<Rightarrow> out_mode \<Rightarrow> cmd_result" where
  "dcDiscoverCmd D arg mode =
     (let domain = TrimSpace arg in
      if domain = [] then (Some (user_error ''INVALID_DOMAIN'' ''domain must not be empty''), [])
      else case fst (Discover D domain) of
        Inl e \<Rightarrow> (Some (user_error ''INVALID_DOMAIN'' e), [])
      | Inr d \<Rightarrow> (None, EmitOK mode (dcDiscoverResult domain d)))"

subsection \<open>SPF\<close>

definition enc_spf_merge :: "MergeResult \<Rightarrow> json" where
  "enc_spf_merge m = JObj [(''value'', enc_str (mrValue m)), (''changed'', JBool (mrChanged m)), (''broken_input'', JBool (mrBrokenInput m)),
     (''lookup_count'', JNum (int (mrLookupCount m))), (''lookup_limit_exceeded'', JBool (mrLookupLimitExceeded m)),
     (''warnings'', JArr (map enc_str (mrWarnings m)))]"

definition spfMergeCmd :: "string \<Rightarrow> string list \<Rightarrow> out_mode \<Rightarrow> cmd_result" where
  "spfMergeCmd current includes mode =
     (let m = MergeSPF current includes None in
      (None, if mode = ModeHuman
        then OutText (mrValue m @ [newline]) # map (\<lambda>w. ErrText (''warning: '' @ w @ [newline])) (mrWarnings m)
        else EmitOK mode (enc_spf_merge m)))"

subsection \<open>Version and server\<close>

definition versionCmd :: "string \<Rightarrow> string \<Rightarrow> string \<Rightarrow> out_mode \<Rightarrow> cmd_result" where
  "versionCmd ver commit date mode =
     (None, EmitOK mode (JObj [(''commit'', enc_str commit), (''date'', enc_str date), (''version'', enc_str ver)]))"

text \<open>The text of an error of the flag package is a parameter; \<open>listen\<close> is how serving ends.\<close>

definition serveCmd ::
  "'f parsers \<Rightarrow> process \<Rightarrow> (flag_error \<Rightarrow> string) \<Rightarrow> (('f :: {zero, numeral, ord}) options \<Rightarrow> string option) \<Rightarrow> string list \<Rightarrow> cli_error option" where
  "serveCmd A P show_flag listen args =
     (case configure A P args of
        Inl (Inl e) \<Rightarrow> Some (user_error ''BAD_FLAGS'' (show_flag e))
      | Inl (Inr e) \<Rightarrow> Some (user_error ''BAD_CONFIG'' e)
      | Inr o' \<Rightarrow> (case listen o' of Some e \<Rightarrow> Some (RuntimeError ''SERVER_ERROR'' e []) | None \<Rightarrow> None))"

subsection \<open>Properties\<close>

text \<open>The two ways to start the server end with the same exit code, for all flags, environments and ways in which the
  listener ends.\<close>

theorem serve_as_binary: "ClassifyExit (serveCmd A P show_flag listen args) = runServe A P listen args"
  by (simp add: serveCmd_def runServe_def ClassifyExit_def user_error_def split: sum.split option.split)

text \<open>No command answers both an error and a document, and without an error there is one document under \<open>--json\<close> and
  nothing at all under \<open>--quiet\<close>.\<close>

definition one_answer :: "out_mode \<Rightarrow> cmd_result \<Rightarrow> bool" where
  "one_answer mode r \<longleftrightarrow>
     (case r of (Some err, ems) \<Rightarrow> ems = [] | (None, ems) \<Rightarrow>
        (mode = ModeJSON \<longrightarrow> (\<exists>d. ems = [OutJSON (ok_envelope d)])) \<and> (mode = ModeQuiet \<longrightarrow> ems = []))"

lemma one_answer_simps [simp]:
  "one_answer mode (Some err, [])" "one_answer mode (None, EmitOK mode d)"
  "mode \<noteq> ModeHuman \<Longrightarrow> one_answer mode (None, if mode = ModeHuman then ems else EmitOK mode d)"
  "one_answer ModeHuman (None, ems)"
  by (auto simp: one_answer_def EmitOK_def)

lemma one_answer_human: "one_answer mode (None, if mode = ModeHuman then ems else EmitOK mode d)"
  by (cases mode) simp_all

lemma detect_answers: "one_answer mode (detectCmd X domain mode)"
  by (simp add: detectCmd_def one_answer_human split: sum.split)

lemma verify_answers: "one_answer mode (verifyCmd X needle domain rtype name mode)"
  by (simp add: verifyCmd_def Let_def one_answer_human split: prod.split option.split)

lemma discover_answers: "one_answer mode (dcDiscoverCmd D arg mode)"
  by (simp add: dcDiscoverCmd_def Let_def split: sum.split)

lemma spf_answers: "one_answer mode (spfMergeCmd current includes mode)"
  by (simp add: spfMergeCmd_def Let_def one_answer_human)

lemma version_answers: "one_answer mode (versionCmd ver commit date mode)"
  by (simp add: versionCmd_def)

lemma list_answers: "one_answer mode (templatesList X missing cacheDir mode c)"
  by (simp add: templatesList_def split: sum.split)

lemma sync_answers: "one_answer mode (fst (templatesSync X cacheDir mode c))"
  by (simp add: templatesSync_def split: prod.split option.split)

lemma show_answers: "one_answer mode (fst (templatesShow X cacheDir slug mode c))"
  by (simp add: templatesShow_def split: prod.split sum.split)

lemma resolve_answers: "one_answer mode (fst (templatesResolve E X cacheDir varFlags varsFile slug mode c))"
  by (simp add: templatesResolve_def split: prod.split sum.split)

lemma template_answers: "one_answer mode (fst (applyTemplateRun E X fl af domain mode sc))"
  by (simp add: applyTemplateRun_def split: prod.split sum.split option.split)

text \<open>The commands that only look, and the template branch of apply, answer once.\<close>

theorem queries_answer_once:
  "one_answer mode (detectCmd X domain mode) \<and> one_answer mode (verifyCmd X needle domain rtype name mode)
   \<and> one_answer mode (dcDiscoverCmd D arg mode) \<and> one_answer mode (spfMergeCmd current includes mode)
   \<and> one_answer mode (versionCmd ver commit date mode)
   \<and> one_answer mode (templatesList X missing cacheDir mode c) \<and> one_answer mode (fst (templatesSync X cacheDir mode c))
   \<and> one_answer mode (fst (templatesShow X cacheDir slug mode c))
   \<and> one_answer mode (fst (templatesResolve E X cacheDir varFlags varsFile slug mode c))
   \<and> one_answer mode (fst (applyTemplateRun E X fl af domain mode sc))"
  by (intro conjI detect_answers verify_answers discover_answers spf_answers version_answers list_answers sync_answers
      show_answers resolve_answers template_answers)

text \<open>Then \<open>Execute\<close> writes exactly one document under \<open>--json\<close>, of success with exit code zero and of the error else.\<close>

lemma one_document:
  assumes "one_answer ModeJSON (fst (cmd ModeJSON))" and "cfJSON fl" and "\<not> cfQuiet fl"
  shows "\<exists>doc. snd (fst (Execute None fl cmd s)) = [OutJSON doc] \<and> (fst (fst (Execute None fl cmd s)) = 0 \<longleftrightarrow> (\<exists>d. doc = ok_envelope d))"
  using assms
  by (cases "cmd ModeJSON"; cases "fst (fst (cmd ModeJSON))")
    (auto simp: Execute_def ParseMode_def Let_def one_answer_def EmitError_def ClassifyExit_def ok_envelope_def err_envelope_def
      split: prod.splits cli_error.split)

text \<open>Verification that does not find the value is no error: the exit code is zero, where the server answers a conflict.\<close>

lemma unverified_exit:
  assumes "coVerify X domain (verify_opts rtype name needle) = (None, v)" and "\<not> vrVerified v" and "domain \<noteq> []" and "name \<noteq> []"
    and "isValidRecordType rtype"
  shows "ClassifyExit (fst (verifyCmd X needle domain rtype name mode)) = 0"
  using assms by (simp add: verifyCmd_def ClassifyExit_def)

end
