(* ===== verification/Dc_Test.thy ===== *)
theory Dc_Test
  imports Domain_Connect Api_Routes
begin

text \<open>
  The mock Domain Connect provider (\<open>domainconnect/dctest/dctest.go\<close>), the receiving end of the client of
  \<open>Domain_Connect\<close>: discovery, apply requests with the check of their signature, and the list of the requests seen.
  \<open>url.ParseQuery\<close> is written out; RSA and base64 are those of \<open>crypto\<close>, a function gives the public key of a private one.
\<close>

subsection \<open>url.ParseQuery\<close>

definition QueryUnescape :: "string \<Rightarrow> string option" where
  "QueryUnescape s = (if escapes_ok s then Some (percent_decode (map (\<lambda>c. if c = CHR ''+'' then CHR '' '' else c) s)) else None)"

fun Values_Add :: "url_values \<Rightarrow> string \<Rightarrow> string \<Rightarrow> url_values" where
  "Values_Add [] k x = [(k, [x])]"
| "Values_Add ((k', ys) # v) k x = (if k' = k then (k, ys @ [x]) # v else (k', ys) # Values_Add v k x)"

definition query_pair :: "url_values \<Rightarrow> string \<Rightarrow> url_values" where
  "query_pair v w =
     (if CHR '';'' \<in> set w \<or> w = [] then v
      else case (QueryUnescape (fst (cut_at w CHR ''='')), QueryUnescape (snd (cut_at w CHR ''=''))) of
        (Some k, Some x) \<Rightarrow> Values_Add v k x
      | _ \<Rightarrow> v)"

definition ParseQuery :: "string \<Rightarrow> url_values" where
  "ParseQuery q = foldl query_pair [] (Split q CHR ''&'')"

subsection \<open>The server\<close>

record ApplyRequest =
  vqProviderID :: string
  vqServiceID :: string
  vqDomain :: string
  vqHost :: string
  vqParams :: url_values
  vqSignature :: string
  vqKeyHost :: string
  vqSigValid :: bool

record 'k mock_provider =
  mpURL :: string
  mpKey :: "'k option"
  mpProviderID :: string
  mpProviderName :: string
  mpApplyHandler :: "(ApplyRequest \<Rightarrow> string option) option"
  mpRequests :: "ApplyRequest list"

datatype 'k mock_option =
    WithKey "'k option"
  | WithProviderID string
  | WithProviderName string
  | WithApplyHandler "(ApplyRequest \<Rightarrow> string option) option"

fun mock_option_set :: "'k mock_option \<Rightarrow> 'k mock_provider \<Rightarrow> 'k mock_provider" where
  "mock_option_set (WithKey k) s = s\<lparr>mpKey := k\<rparr>"
| "mock_option_set (WithProviderID i) s = s\<lparr>mpProviderID := i\<rparr>"
| "mock_option_set (WithProviderName n) s = s\<lparr>mpProviderName := n\<rparr>"
| "mock_option_set (WithApplyHandler f) s = s\<lparr>mpApplyHandler := f\<rparr>"

text \<open>The generated key and the URL of the listener are parameters; a key that cannot be generated is a panic.\<close>

definition mock_NewServer :: "'k option \<Rightarrow> string \<Rightarrow> 'k mock_option list \<Rightarrow> 'k mock_provider option" where
  "mock_NewServer generated url opts =
     (let s = foldl (\<lambda>s o'. mock_option_set o' s)
        \<lparr>mpURL = [], mpKey = None, mpProviderID = ''dctest'', mpProviderName = ''DC Test Provider'', mpApplyHandler = None, mpRequests = []\<rparr> opts in
      case mpKey s of
        Some k \<Rightarrow> Some (s\<lparr>mpURL := url\<rparr>)
      | None \<Rightarrow> map_option (\<lambda>k. s\<lparr>mpKey := Some k, mpURL := url\<rparr>) generated)"

definition TXTRecord :: "'k mock_provider \<Rightarrow> string" where
  "TXTRecord s = (case url_parse (mpURL s) of Some (scheme, host) \<Rightarrow> host | None \<Rightarrow> [])"

definition PublicKeyBase64 :: "'k signer \<Rightarrow> 'k mock_provider \<Rightarrow> string option" where
  "PublicKeyBase64 sg s = (case mpKey s of None \<Rightarrow> None | Some k \<Rightarrow> map_option (sgB64 sg) (sgPublicDER sg k))"

definition ApplyRequests :: "'k mock_provider \<Rightarrow> ApplyRequest list" where
  "ApplyRequests s = mpRequests s"

definition mock_Reset :: "'k mock_provider \<Rightarrow> 'k mock_provider" where
  "mock_Reset s = s\<lparr>mpRequests := []\<rparr>"

datatype mock_reply = MockJSON json | MockError nat string

definition handleSettings :: "'k mock_provider \<Rightarrow> json" where
  "handleSettings s = JObj [(''height'', JNum 750), (''nameservers'', JArr [JStr ''ns1.dctest.example'', JStr ''ns2.dctest.example'']),
     (''providerID'', JStr (mpProviderID s)), (''providerName'', JStr (mpProviderName s)), (''urlAPI'', JStr (mpURL s)),
     (''urlAsyncUX'', JStr (mpURL s)), (''urlSyncUX'', JStr (mpURL s)), (''width'', JNum 750)]"

subsection \<open>Signatures\<close>

text \<open>\<open>sortStrings\<close>: the element at \<open>j\<close> goes down while it is smaller than the one before.\<close>

fun sift :: "string list \<Rightarrow> nat \<Rightarrow> string list" where
  "sift s 0 = s"
| "sift s (Suc j) = (if s ! Suc j < s ! j then sift (s[Suc j := s ! j, j := s ! Suc j]) j else s)"

definition sortStrings :: "string list \<Rightarrow> string list" where
  "sortStrings s = foldl sift s [1..<length s]"

definition signed_values :: "url_values \<Rightarrow> url_values" where
  "signed_values q = foldl (\<lambda>v (k, vs). if k = ''key'' \<or> k = ''sig'' then v else foldl (\<lambda>v x. Values_Add v k x) v vs) [] q"

definition signed_query :: "url_values \<Rightarrow> string" where
  "signed_query q = (let signed = signed_values q in
     Join (map (\<lambda>k. k @ ''='' @ dc_escape (Values_Get signed k)) (sortStrings (map fst signed))) ''&'')"

definition verifySignature :: "'p crypto \<Rightarrow> ('k \<Rightarrow> 'p) \<Rightarrow> 'k mock_provider \<Rightarrow> url_values \<Rightarrow> bool" where
  "verifySignature cry pub s q =
     (let sig = Values_Get q ''sig'' in
      sig \<noteq> [] \<and>
      (case cryB64 cry sig of
         None \<Rightarrow> False
       | Some raw \<Rightarrow> (case mpKey s of None \<Rightarrow> False | Some k \<Rightarrow> cryVerify cry (pub k) (signed_query q) raw)))"

subsection \<open>Apply requests\<close>

definition mock_handleApply :: "'p crypto \<Rightarrow> ('k \<Rightarrow> 'p) \<Rightarrow> string \<Rightarrow> string \<Rightarrow> 'k mock_provider \<Rightarrow> mock_reply \<times> 'k mock_provider" where
  "mock_handleApply cry pub path rawQuery s =
     (let parts = Split (TrimPrefix path ''/v2/domainTemplates/providers/'') CHR ''/'' in
      if length parts < 4 \<or> parts ! 1 \<noteq> ''services'' \<or> parts ! 3 \<noteq> ''apply'' then (MockError 400 ''invalid path'', s)
      else
        (let q = ParseQuery rawQuery;
             req = \<lparr>vqProviderID = parts ! 0, vqServiceID = parts ! 2, vqDomain = Values_Get q ''domain'', vqHost = Values_Get q ''host'',
               vqParams = q, vqSignature = Values_Get q ''sig'', vqKeyHost = Values_Get q ''key'', vqSigValid = verifySignature cry pub s q\<rparr>;
             s' = s\<lparr>mpRequests := mpRequests s @ [req]\<rparr> in
         case (case mpApplyHandler s of None \<Rightarrow> None | Some f \<Rightarrow> f req) of
           Some e \<Rightarrow> (MockError 400 e, s')
         | None \<Rightarrow> (MockJSON (JObj [(''status'', JStr ''applied'')]), s')))"

text \<open>The routes: \<open>http.ServeMux\<close> cleans the path first, then takes the exact pattern or the subtree.\<close>

definition mock_serve :: "'p crypto \<Rightarrow> ('k \<Rightarrow> 'p) \<Rightarrow> string \<times> string \<Rightarrow> 'k mock_provider \<Rightarrow> mock_reply \<times> 'k mock_provider" where
  "mock_serve cry pub target s =
     (case target of (epath, rawQuery) \<Rightarrow>
        let segs = path_segments epath; path = path_unescape epath in
        if \<not> escapes_ok epath then (MockError 400 [], s)
        else if cleanPath epath \<noteq> epath then (MockError 301 (cleanPath epath), s)
        else if segs = [''v2''] then (MockError 301 ''/v2/'', s)
        else if segs = [''.well-known'', ''domain-connect''] then (MockJSON (handleSettings s), s)
        else if hd segs = ''v2'' then
          (if HasSuffix path ''/settings'' then (MockJSON (handleSettings s), s)
           else if Contains path ''/domainTemplates/providers/'' then mock_handleApply cry pub path rawQuery s
           else (MockError 404 [], s))
        else (MockError 404 [], s))"

text \<open>A request for a URL of the server: what follows its address, without the fragment, cut at the question mark.\<close>

definition request_target :: "string \<Rightarrow> string \<Rightarrow> string \<times> string" where
  "request_target base url = cut_at (fst (cut_at (drop (length base) url) CHR ''#'')) CHR ''?''"

definition mock_get :: "'p crypto \<Rightarrow> ('k \<Rightarrow> 'p) \<Rightarrow> string \<Rightarrow> 'k mock_provider \<Rightarrow> mock_reply \<times> 'k mock_provider" where
  "mock_get cry pub url s = mock_serve cry pub (request_target (mpURL s) url) s"

subsection \<open>Facts on queries\<close>

lemma Values_Get_Nil [simp]: "Values_Get [] k = []" by (simp add: Values_Get_def)

lemma Values_Add_new: "k \<notin> fst ` set v \<Longrightarrow> Values_Add v k x = v @ [(k, [x])]"
  by (induction v k x rule: Values_Add.induct) auto

lemma cut_at_append: "c \<notin> set k \<Longrightarrow> cut_at (k @ c # x) c = (k, x)"
  by (induction k) (auto simp: cut_at_def)

lemma escapes_ok_dc: "escapes_ok (dc_escape s)"
proof (induction s)
  case (Cons c s)
  have "is_hex (hex_char n)" if "n < 16" for n using hex_digit_hex_char [OF that] by (simp add: is_hex_def hex_digit_def split: if_splits)
  moreover have "byte c div 16 < 16" using byte_less [of c] by linarith
  moreover have "is_hex CHR ''2''" "is_hex CHR ''0''" by code_simp+
  ultimately show ?case using Cons by (auto simp: dc_escape_Cons dest: query_unreserved_not)
qed (simp add: dc_escape_def QueryEscape_def)

lemma QueryUnescape_dc: "QueryUnescape (dc_escape s) = Some s"
proof -
  have "CHR ''+'' \<notin> set (dc_escape s)" by (auto simp: dc_escape_def)
  then have "map (\<lambda>c. if c = CHR ''+'' then CHR '' '' else c) (dc_escape s) = dc_escape s" by (intro map_idI) auto
  then show ?thesis by (simp add: QueryUnescape_def escapes_ok_dc percent_decode_dc_escape)
qed

lemma query_unreserved_plain: "list_all query_unreserved k \<Longrightarrow> QueryUnescape k = Some k \<and> CHR ''='' \<notin> set k \<and> CHR ''&'' \<notin> set k
    \<and> CHR '';'' \<notin> set k \<and> CHR ''#'' \<notin> set k"
proof (induction k)
  case (Cons c k)
  from Cons.prems have "c \<noteq> CHR ''%'' \<and> c \<noteq> CHR ''&'' \<and> c \<noteq> CHR ''='' \<and> c \<noteq> CHR ''+''" by (simp add: query_unreserved_not)
  moreover from Cons.prems have "c \<noteq> CHR '';''" "c \<noteq> CHR ''#''"
    by (auto simp: query_unreserved_def is_upper_def is_lower_def is_digit_def byte_def)
  ultimately show ?case using Cons by (auto simp: QueryUnescape_def split: if_splits)
qed (simp add: QueryUnescape_def)

lemma escape_char_split: "escape_char c = (if query_unreserved c then [c] else if c = CHR '' '' then ''+''
    else [CHR ''%'', hex_char (byte c div 16), hex_char (byte c mod 16)])"
  by (simp add: escape_char_def)

lemma hex_char_is_hex: "n < 16 \<Longrightarrow> is_hex (hex_char n) \<and> hex_char n \<noteq> CHR ''+'' \<and> hex_char n \<noteq> CHR '';'' \<and> hex_char n \<noteq> CHR ''#''
    \<and> hex_char n \<noteq> CHR ''&''"
  using hex_digit_hex_char [of n] hex_char_not [of n] by (auto simp: is_hex_def hex_digit_def is_digit_def byte_def)

lemma byte_halves: "byte c div 16 < 16" "byte c mod 16 < 16"
  using byte_less [of c] by linarith simp

lemma QueryUnescape_QueryEscape: "QueryUnescape (QueryEscape s) = Some s"
proof (induction s)
  case (Cons c s)
  have u: "query_unreserved c \<Longrightarrow> c \<noteq> CHR ''%'' \<and> c \<noteq> CHR ''+''" by (simp add: query_unreserved_not)
  note h = hex_char_is_hex [OF byte_halves(1) [of c]] hex_char_is_hex [OF byte_halves(2) [of c]]
  have q: "QueryEscape (c # s) = escape_char c @ QueryEscape s" by (simp add: QueryEscape_def)
  show ?case using Cons u h unfolding q escape_char_split
    by (auto simp: QueryUnescape_def escape_value_char split: if_splits)
qed (simp add: QueryUnescape_def QueryEscape_def)

lemma escape_char_clean: "d \<in> set (escape_char c) \<Longrightarrow> d \<noteq> CHR ''&'' \<and> d \<noteq> CHR '';'' \<and> d \<noteq> CHR ''#''"
proof -
  assume "d \<in> set (escape_char c)"
  moreover have "query_unreserved c \<Longrightarrow> c \<noteq> CHR ''&'' \<and> c \<noteq> CHR '';'' \<and> c \<noteq> CHR ''#''"
    using query_unreserved_plain [of "[c]"] by auto
  ultimately show ?thesis
    using hex_char_is_hex [OF byte_halves(1) [of c]] hex_char_is_hex [OF byte_halves(2) [of c]]
    unfolding escape_char_split by (auto split: if_splits)
qed

lemma QueryEscape_clean: "d \<in> set (QueryEscape s) \<Longrightarrow> d \<noteq> CHR ''&'' \<and> d \<noteq> CHR '';'' \<and> d \<noteq> CHR ''#''"
  using escape_char_clean by (fastforce simp: QueryEscape_def)

lemma dc_escape_clean': "d \<in> set (dc_escape s) \<Longrightarrow> d \<noteq> CHR ''&'' \<and> d \<noteq> CHR '';'' \<and> d \<noteq> CHR ''#''"
  using QueryEscape_clean by (fastforce simp: dc_escape_def split: if_splits)

text \<open>A pair whose name needs no escape is read back.\<close>

lemma query_pair_built:
  assumes "list_all query_unreserved k" and "k \<notin> fst ` set v" and "QueryUnescape x = Some y" and "CHR '';'' \<notin> set x"
  shows "query_pair v (k @ ''='' @ x) = v @ [(k, [y])]"
proof -
  note k = query_unreserved_plain [OF assms(1)]
  then have "cut_at (k @ ''='' @ x) CHR ''='' = (k, x)" by (simp add: cut_at_append)
  with k assms show ?thesis by (simp add: query_pair_def Values_Add_new)
qed

lemma query_pairs_built:
  assumes "distinct (map fst v @ map fst ps)" and "\<forall>(k, x, y) \<in> set ps. list_all query_unreserved k \<and> QueryUnescape x = Some y \<and> CHR '';'' \<notin> set x"
  shows "foldl query_pair v (map (\<lambda>(k, x, y). k @ ''='' @ x) ps) = v @ map (\<lambda>(k, x, y). (k, [y])) ps"
  using assms
proof (induction ps arbitrary: v)
  case (Cons p ps)
  obtain k x y where p: "p = (k, x, y)" by (cases p)
  with Cons.prems have "query_pair v (k @ ''='' @ x) = v @ [(k, [y])]" by (intro query_pair_built) auto
  moreover have "foldl query_pair (v @ [(k, [y])]) (map (\<lambda>(k, x, y). k @ ''='' @ x) ps) = (v @ [(k, [y])]) @ map (\<lambda>(k, x, y). (k, [y])) ps"
    using Cons.prems p by (intro Cons.IH) auto
  ultimately show ?case by (simp add: p)
qed simp

subsection \<open>Sorting\<close>

lemma sift_sorts:
  assumes "i < length s" and "sorted (take i s)"
  shows "length (sift s i) = length s \<and> mset (sift s i) = mset s \<and> sorted (take (Suc i) (sift s i)) \<and> drop (Suc i) (sift s i) = drop (Suc i) s"
  using assms
proof (induction s i rule: sift.induct)
  case (1 s)
  then show ?case by (cases s) auto
next
  case (2 s j)
  have tk: "take (Suc j) s = take j s @ [s ! j]" "take (Suc (Suc j)) s = take j s @ [s ! j, s ! Suc j]"
    using 2(2) by (simp_all add: take_Suc_conv_app_nth)
  show ?case
  proof (cases "s ! Suc j < s ! j")
    case True
    let ?s = "s[Suc j := s ! j, j := s ! Suc j]" and ?r = "sift s (Suc j)"
    have r: "?r = sift ?s j" using True by simp
    have "take j ?s = take j s" using 2(2) by simp
    moreover have "sorted (take j s)" using 2(3) tk by (simp add: sorted_append)
    ultimately have ih: "length ?r = length s" "mset ?r = mset ?s" "sorted (take (Suc j) ?r)" "drop (Suc j) ?r = drop (Suc j) ?s"
      using 2(1) [OF True] 2(2) unfolding r by simp_all
    have ms: "mset ?s = mset s" using 2(2) mset_swap [of j s "Suc j"] by (simp add: list_update_swap)
    have "drop (Suc j) ?s = s ! j # drop (Suc (Suc j)) s" using 2(2) by (simp add: Cons_nth_drop_Suc [symmetric])
    then have dr: "drop (Suc j) ?r = s ! j # drop (Suc (Suc j)) s" using ih(4) by simp
    have top: "?r ! Suc j = s ! j" by (rule nth_via_drop [OF dr])
    have dr': "drop (Suc (Suc j)) ?r = drop (Suc (Suc j)) s"
      using arg_cong [OF dr, of "drop 1"] by simp
    have "mset (take (Suc j) ?r) + mset (drop (Suc j) ?r) = mset (take (Suc j) ?s) + mset (drop (Suc j) ?s)"
      using ih(2) by (metis append_take_drop_id mset_append)
    then have "mset (take (Suc j) ?r) = mset (take (Suc j) ?s)" unfolding ih(4) by (rule add_right_imp_eq)
    then have "set (take (Suc j) ?r) = set (take (Suc j) ?s)" by (rule mset_eq_setD)
    also have "take (Suc j) ?s = take j s @ [s ! Suc j]" using 2(2) by (simp add: take_Suc_conv_app_nth)
    finally have "\<forall>x \<in> set (take (Suc j) ?r). x \<le> s ! j" using True 2(3) tk by (auto simp: sorted_append)
    moreover have "take (Suc (Suc j)) ?r = take (Suc j) ?r @ [s ! j]" using ih(1) 2(2) top by (simp add: take_Suc_conv_app_nth)
    ultimately have "sorted (take (Suc (Suc j)) ?r)" using ih(3) by (simp add: sorted_append)
    with ih ms dr' show ?thesis by simp
  next
    case False
    with 2 tk show ?thesis by (auto simp: sorted_append)
  qed
qed

lemma sortStrings_sort: "sortStrings s = sort s"
proof -
  have "n \<le> length s \<Longrightarrow> length (foldl sift s [1..<n]) = length s \<and> mset (foldl sift s [1..<n]) = mset s \<and> sorted (take n (foldl sift s [1..<n]))" for n
  proof (induction n)
    case (Suc n)
    show ?case
    proof (cases n)
      case 0
      with Suc show ?thesis by (cases s) simp_all
    next
      case (Suc m)
      then have "[1..<Suc n] = [1..<n] @ [n]" by simp
      with sift_sorts [of n "foldl sift s [1..<n]"] Suc.IH Suc.prems show ?thesis by simp
    qed
  qed simp
  from this [of "length s"] have *: "length (sortStrings s) = length s" "mset (sortStrings s) = mset s" "sorted (take (length s) (sortStrings s))"
    unfolding sortStrings_def by blast+
  then show ?thesis by (intro properties_for_sort [symmetric]) simp_all
qed

subsection \<open>From the client to the server\<close>

lemma fst_Values_Set [simp]: "fst ` set (Values_Set v k x) = insert k (fst ` set v)"
  by (induction v k x rule: Values_Set.induct) auto

lemma distinct_Values_Set: "distinct (map fst v) \<Longrightarrow> distinct (map fst (Values_Set v k x))"
  by (induction v k x rule: Values_Set.induct) auto

lemma distinct_Values_Set_fold: "distinct (map fst v) \<Longrightarrow> distinct (map fst (foldl (\<lambda>v (k, x). Values_Set v k x) v ps))"
  by (induction ps arbitrary: v) (auto intro: distinct_Values_Set)

lemma fst_Values_Set_fold: "fst ` set (foldl (\<lambda>v (k, x). Values_Set v k x) v ps) = fst ` set v \<union> fst ` set ps"
proof (induction ps arbitrary: v)
  case (Cons p ps)
  then show ?case by (cases p) simp
qed simp

lemma apply_values_names:
  "distinct (map fst (apply_values o'))"
  "fst ` set (apply_values o') \<subseteq> {''domain'', ''host'', ''redirect_uri'', ''state''} \<union> fst ` set (auParams o')"
  "''domain'' \<in> fst ` set (apply_values o')"
  by (auto simp: apply_values_def Let_def fst_Values_Set_fold intro: distinct_Values_Set_fold distinct_Values_Set)

definition plain_name :: "string \<Rightarrow> bool" where
  "plain_name k \<longleftrightarrow> list_all query_unreserved k \<and> k \<noteq> ''key'' \<and> k \<noteq> ''sig''"

lemma plain_name_standard: "plain_name ''domain''" "plain_name ''host''" "plain_name ''redirect_uri''" "plain_name ''state''"
  by (simp_all add: plain_name_def query_unreserved_def is_lower_def byte_def)

lemma apply_values_plain:
  assumes "\<forall>k \<in> fst ` set (auParams o'). plain_name k" and "k \<in> fst ` set (apply_values o')"
  shows "plain_name k"
proof -
  note subsetD [OF apply_values_names(2) assms(2)]
  then consider "k = ''domain''" | "k = ''host''" | "k = ''redirect_uri''" | "k = ''state''" | "k \<in> fst ` set (auParams o')"
    unfolding Un_iff insert_iff empty_iff by argo
  then show ?thesis using assms(1) by cases (simp_all only: plain_name_standard)
qed

lemma Join_append: "xs \<noteq> [] \<Longrightarrow> ys \<noteq> [] \<Longrightarrow> Join (xs @ ys) c = Join xs c @ c @ Join ys c"
proof (induction xs)
  case (Cons x xs)
  then show ?case by (cases "xs = []") (simp_all add: Join_Cons)
qed simp

text \<open>The values that a request line carries, read back by the receiver.\<close>

definition received :: "url_values \<Rightarrow> string \<Rightarrow> string \<Rightarrow> url_values" where
  "received params h sig = map (\<lambda>k. (k, [Values_Get params k])) (sort (map fst params)) @ [(''key'', [h]), (''sig'', [sig])]"

lemma ParseQuery_built:
  assumes "distinct (map fst params)" and "params \<noteq> []" and "\<forall>k \<in> fst ` set params. plain_name k"
  shows "ParseQuery (sorted_query params @ ''&key='' @ QueryEscape h @ ''&sig='' @ QueryEscape sig) = received params h sig"
proof -
  let ?ks = "sort (map fst params)"
  let ?ps = "map (\<lambda>k. (k, dc_escape (Values_Get params k), Values_Get params k)) ?ks @ [(''key'', QueryEscape h, h), (''sig'', QueryEscape sig, sig)]"
  let ?ws = "map (\<lambda>(k, x, y). k @ ''='' @ x) ?ps"
  have ne: "?ks \<noteq> []" using assms(2) by (metis list.map_disc_iff mset_zero_iff mset_sort)
  have "sorted_query params @ ''&key='' @ QueryEscape h @ ''&sig='' @ QueryEscape sig = Join ?ws ''&''"
    using ne by (simp add: sorted_query_def Join_append comp_def)
  moreover have "\<forall>w \<in> set ?ws. CHR ''&'' \<notin> set w"
    using assms(3) query_unreserved_plain dc_escape_clean' QueryEscape_clean by (fastforce simp: plain_name_def)
  ultimately have "Split (sorted_query params @ ''&key='' @ QueryEscape h @ ''&sig='' @ QueryEscape sig) CHR ''&'' = ?ws"
    using Split_Join [of ?ws] by simp
  moreover have "foldl query_pair [] ?ws = [] @ map (\<lambda>(k, x, y). (k, [y])) ?ps"
  proof (rule query_pairs_built)
    have "list_all query_unreserved ''key''" "list_all query_unreserved ''sig''"
      by (simp_all add: query_unreserved_def is_lower_def byte_def)
    then show "\<forall>(k, x, y) \<in> set ?ps. list_all query_unreserved k \<and> QueryUnescape x = Some y \<and> CHR '';'' \<notin> set x"
      using assms(3) dc_escape_clean' QueryEscape_clean by (fastforce simp: plain_name_def QueryUnescape_dc QueryUnescape_QueryEscape)
    have "''key'' \<notin> fst ` set params" "''sig'' \<notin> fst ` set params" using assms(3) by (auto simp: plain_name_def)
    then show "distinct (map fst ([] :: url_values) @ map fst ?ps)" using assms(1) by (simp add: comp_def)
  qed
  ultimately show ?thesis by (simp add: ParseQuery_def received_def comp_def)
qed

lemma received_Get:
  assumes "\<forall>k \<in> fst ` set params. plain_name k"
  shows "Values_Get (received params h sig) k = (if k = ''key'' then h else if k = ''sig'' then sig else Values_Get params k)"
proof -
  have *: "map_of (map (\<lambda>k. (k, [Values_Get params k])) ks) k = (if k \<in> set ks then Some [Values_Get params k] else None)" for ks
    by (induction ks) auto
  have nk: "''key'' \<notin> fst ` set params" "''sig'' \<notin> fst ` set params" using assms by (auto simp: plain_name_def)
  have m: "map_of (received params h sig) k = (if k \<in> fst ` set params then Some [Values_Get params k]
      else if k = ''key'' then Some [h] else if k = ''sig'' then Some [sig] else None)"
    using nk by (auto simp: received_def map_add_def *)
  have "k \<notin> fst ` set params \<Longrightarrow> map_of params k = None" by (simp add: map_of_eq_None_iff)
  with m nk show ?thesis by (auto simp: Values_Get_def)
qed

lemma signed_values_single:
  assumes "distinct (map fst q)" and "\<forall>(k, vs) \<in> set q. \<exists>x. vs = [x]"
  shows "signed_values q = filter (\<lambda>(k, vs). k \<noteq> ''key'' \<and> k \<noteq> ''sig'') q"
proof -
  let ?f = "\<lambda>v (k, vs). if k = ''key'' \<or> k = ''sig'' then v else foldl (\<lambda>v x. Values_Add v k x) v vs"
  have "distinct (map fst v @ map fst q) \<Longrightarrow> \<forall>(k, vs) \<in> set q. \<exists>x. vs = [x] \<Longrightarrow>
      foldl ?f v q = v @ filter (\<lambda>(k, vs). k \<noteq> ''key'' \<and> k \<noteq> ''sig'') q" for v
  proof (induction q arbitrary: v)
    case (Cons p q)
    obtain k vs where p: "p = (k, vs)" by (cases p)
    with Cons.prems obtain x where vs: "vs = [x]" by auto
    show ?case
    proof (cases "k = ''key'' \<or> k = ''sig''")
      case True
      with Cons p show ?thesis by auto
    next
      case False
      have "foldl ?f (v @ [(k, [x])]) q = (v @ [(k, [x])]) @ filter (\<lambda>(k, vs). k \<noteq> ''key'' \<and> k \<noteq> ''sig'') q"
        using Cons.prems p by (intro Cons.IH) auto
      moreover have "Values_Add v k x = v @ [(k, [x])]" using Cons.prems p by (intro Values_Add_new) auto
      ultimately show ?thesis using False by (simp add: p vs)
    qed
  qed simp
  from this [of "[]"] assms show ?thesis by (simp add: signed_values_def)
qed

lemma sort_sort: "sort (sort ks) = sort ks"
  by (intro sorted_sort_id) simp

text \<open>What the server checks the signature on is what the client signed.\<close>

lemma signed_query_received:
  assumes "distinct (map fst params)" and "\<forall>k \<in> fst ` set params. plain_name k"
  shows "signed_query (received params h sig) = sorted_query params"
proof -
  let ?ks = "sort (map fst params)"
  have nk: "''key'' \<notin> fst ` set params" "''sig'' \<notin> fst ` set params" using assms(2) by (auto simp: plain_name_def)
  have "distinct (map fst (received params h sig))" using assms(1) nk by (simp add: received_def comp_def)
  moreover have "\<forall>(k, vs) \<in> set (received params h sig). \<exists>x. vs = [x]" by (auto simp: received_def)
  ultimately have "signed_values (received params h sig) = filter (\<lambda>(k, vs). k \<noteq> ''key'' \<and> k \<noteq> ''sig'') (received params h sig)"
    by (rule signed_values_single)
  also have "... = map (\<lambda>k. (k, [Values_Get params k])) ?ks"
    using assms(2) by (auto simp: received_def filter_map comp_def plain_name_def intro!: arg_cong [where f = "map _"] filter_True)
  finally have sv: "signed_values (received params h sig) = map (\<lambda>k. (k, [Values_Get params k])) ?ks" .
  have g: "Values_Get (map (\<lambda>k. (k, [Values_Get params k])) ks) k = Values_Get params k" if "k \<in> set ks" for k ks
    using that by (induction ks) (auto simp: Values_Get_def)
  have "map (\<lambda>k. k @ ''='' @ dc_escape (Values_Get (map (\<lambda>k. (k, [Values_Get params k])) ?ks) k)) ?ks
      = map (\<lambda>k. k @ ''='' @ dc_escape (Values_Get params k)) ?ks"
    using g [of _ ?ks] by simp
  then show ?thesis by (simp only: signed_query_def sv Let_def sortStrings_sort sorted_query_def map_map comp_def fst_conv list.map_ident sort_sort)
qed

subsection \<open>Serving\<close>

definition apply_req_path :: "string \<Rightarrow> string \<Rightarrow> string" where
  "apply_req_path pid sid = ''/v2/domainTemplates/providers/'' @ pid @ ''/services/'' @ sid @ ''/apply''"

definition plain_id :: "string \<Rightarrow> bool" where
  "plain_id w \<longleftrightarrow> plain_seg w \<and> CHR ''%'' \<notin> set w \<and> CHR ''?'' \<notin> set w \<and> CHR ''#'' \<notin> set w"

lemma escapes_ok_plain: "CHR ''%'' \<notin> set s \<Longrightarrow> escapes_ok s"
  by (induction s) auto

lemma apply_req_path_segs:
  "apply_req_path pid sid = CHR ''/'' # Join [''v2'', ''domainTemplates'', ''providers'', pid, ''services'', sid, ''apply''] ''/''"
  by (simp add: apply_req_path_def)

lemma apply_req_path_routed:
  assumes "plain_id pid" and "plain_id sid"
  shows "mock_serve cry pub (apply_req_path pid sid, rq) s = mock_handleApply cry pub (apply_req_path pid sid) rq s"
proof -
  let ?p = "apply_req_path pid sid" and ?ws = "[''v2'', ''domainTemplates'', ''providers'', pid, ''services'', sid, ''apply'']"
  have ws: "list_all plain_seg ?ws" "\<forall>w \<in> set ?ws. CHR ''%'' \<notin> set w"
    using assms by (auto simp: plain_id_def plain_seg_def)
  have pc: "CHR ''%'' \<notin> set ?p" using assms by (auto simp: apply_req_path_def plain_id_def)
  have "cleanPath ?p = ?p" unfolding apply_req_path_segs by (rule cleanPath_plain [OF ws(1)]) simp
  moreover have "path_segments ?p = ?ws" unfolding apply_req_path_segs by (rule path_segments_plain [OF ws(1) _ ws(2)]) simp
  moreover have "escapes_ok ?p" "path_unescape ?p = ?p" using pc by (simp_all add: escapes_ok_plain percent_decode_plain)
  moreover have "\<not> HasSuffix ?p ''/settings''"
  proof
    assume "HasSuffix ?p ''/settings''"
    then obtain u where "?p = u @ ''/settings''" by (auto simp: suffix_def)
    then have "last ?p = CHR ''s''" by simp
    then show False by (simp add: apply_req_path_def)
  qed
  moreover have "Contains ?p ''/domainTemplates/providers/''"
    unfolding Contains_sublist sublist_def apply_req_path_def
    by (rule exI [of _ "''/v2''"], rule exI [of _ "pid @ ''/services/'' @ sid @ ''/apply''"]) simp
  ultimately show ?thesis by (simp add: mock_serve_def Let_def)
qed

lemma apply_req_path_parts:
  assumes "plain_id pid" and "plain_id sid"
  shows "Split (TrimPrefix (apply_req_path pid sid) ''/v2/domainTemplates/providers/'') CHR ''/'' = [pid, ''services'', sid, ''apply'']"
proof -
  have "TrimPrefix (apply_req_path pid sid) ''/v2/domainTemplates/providers/'' = Join [pid, ''services'', sid, ''apply''] ''/''"
    unfolding apply_req_path_def by (subst TrimPrefix_append) simp
  moreover have "\<forall>w \<in> set [pid, ''services'', sid, ''apply'']. CHR ''/'' \<notin> set w"
    using assms by (auto simp: plain_id_def plain_seg_def)
  ultimately show ?thesis using Split_Join [of "[pid, ''services'', sid, ''apply'']" "CHR ''/''"] by simp
qed

lemma mock_handleApply_records:
  assumes "plain_id pid" and "plain_id sid"
  shows "mock_handleApply cry pub (apply_req_path pid sid) rq s =
    (let q = ParseQuery rq;
         req = \<lparr>vqProviderID = pid, vqServiceID = sid, vqDomain = Values_Get q ''domain'', vqHost = Values_Get q ''host'',
           vqParams = q, vqSignature = Values_Get q ''sig'', vqKeyHost = Values_Get q ''key'', vqSigValid = verifySignature cry pub s q\<rparr>
     in (case (case mpApplyHandler s of None \<Rightarrow> None | Some f \<Rightarrow> f req) of
           Some e \<Rightarrow> MockError 400 e | None \<Rightarrow> MockJSON (JObj [(''status'', JStr ''applied'')]),
         s\<lparr>mpRequests := mpRequests s @ [req]\<rparr>))"
  by (simp add: mock_handleApply_def apply_req_path_parts [OF assms] Let_def split: option.split)

lemma cut_at_none: "c \<notin> set s \<Longrightarrow> cut_at s c = (s, [])"
  by (induction s) (auto simp: cut_at_def)

lemma request_target_built:
  assumes "CHR ''#'' \<notin> set (p @ q)" and "CHR ''?'' \<notin> set p"
  shows "request_target base (base @ p @ ''?'' @ q) = (p, q)"
proof -
  have "cut_at (p @ ''?'' @ q) CHR ''#'' = (p @ ''?'' @ q, [])" using assms(1) by (intro cut_at_none) auto
  then show ?thesis using cut_at_append [OF assms(2), of q] by (simp add: request_target_def)
qed

lemma sorted_query_clean:
  assumes "\<forall>k \<in> fst ` set params. plain_name k"
  shows "CHR ''#'' \<notin> set (sorted_query params)"
proof -
  have j: "c \<in> set (Join ws sep) \<Longrightarrow> c \<in> set sep \<or> (\<exists>w \<in> set ws. c \<in> set w)" for c ws sep
    by (induction ws sep rule: Join.induct) auto
  have "CHR ''#'' \<notin> set w" if w: "w \<in> set (map (\<lambda>k. k @ ''='' @ dc_escape (Values_Get params k)) (sort (map fst params)))" for w
  proof -
    obtain k where "k \<in> fst ` set params" "w = k @ ''='' @ dc_escape (Values_Get params k)" using w by auto
    then show ?thesis using assms query_unreserved_plain [of k] dc_escape_clean' [of "CHR ''#''"] by (auto simp: plain_name_def)
  qed
  then show ?thesis unfolding sorted_query_def by (auto dest: j)
qed

text \<open>An apply URL that is built with the server's key and address is taken for an apply request, recorded and found signed.\<close>

lemma built_url_received:
  assumes built: "BuildApplyURL sg o' = Inr url" and "auURLAsyncUX o' = mpURL s" and "auPrivateKey o' = mpKey s"
    and ids: "plain_id (auProviderID o')" "plain_id (auServiceID o')" and names: "\<forall>k \<in> fst ` set (auParams o'). plain_name k"
    and pair: "\<forall>k q raw. sgSign sg k q = Some raw \<longrightarrow> cryVerify cry (pub k) q raw"
    and b64: "\<forall>raw. cryB64 cry (sgB64 sg raw) = Some raw" "\<forall>raw. raw \<noteq> [] \<longrightarrow> sgB64 sg raw \<noteq> []"
    and nonempty: "\<forall>k q. sgSign sg k q \<noteq> Some []"
  shows "\<exists>req. mock_get cry pub url s =
      (case (case mpApplyHandler s of None \<Rightarrow> None | Some f \<Rightarrow> f req) of
         Some e \<Rightarrow> MockError 400 e | None \<Rightarrow> MockJSON (JObj [(''status'', JStr ''applied'')]),
       s\<lparr>mpRequests := mpRequests s @ [req]\<rparr>)
    \<and> vqSigValid req \<and> vqProviderID req = auProviderID o' \<and> vqServiceID req = auServiceID o' \<and> vqKeyHost req = auKeyHost o'
    \<and> (\<forall>k. k \<noteq> ''key'' \<longrightarrow> k \<noteq> ''sig'' \<longrightarrow> Values_Get (vqParams req) k = Values_Get (apply_values o') k)"
proof -
  let ?v = "apply_values o'" and ?p = "apply_req_path (auProviderID o') (auServiceID o')"
  obtain k where k: "mpKey s = Some k" using built assms(3) by (auto simp: BuildApplyURL_def split: if_splits)
  with built assms(3) obtain raw where raw: "sgSign sg k (sorted_query ?v) = Some raw" and
    url: "url = apply_path o' @ ''?'' @ sorted_query ?v @ ''&key='' @ QueryEscape (auKeyHost o') @ ''&sig='' @ QueryEscape (sgB64 sg raw)"
    by (auto simp: BuildApplyURL_def SortAndSignParams_def SignQueryString_def split: if_splits option.splits)
  let ?sig = "sgB64 sg raw" and ?h = "auKeyHost o'"
  let ?rq = "sorted_query ?v @ ''&key='' @ QueryEscape ?h @ ''&sig='' @ QueryEscape ?sig"
  have plain: "\<forall>k \<in> fst ` set ?v. plain_name k" using apply_values_plain [OF names] by blast
  have ne: "?v \<noteq> []" using apply_values_names(3) [of o'] by auto
  have "url = mpURL s @ ?p @ ''?'' @ ?rq" by (simp add: url apply_path_def apply_req_path_def assms(2))
  moreover have "CHR ''#'' \<notin> set (?p @ ?rq)" "CHR ''?'' \<notin> set ?p"
    using ids sorted_query_clean [OF plain] QueryEscape_clean [of "CHR ''#''"] by (auto simp: apply_req_path_def plain_id_def)
  ultimately have t: "request_target (mpURL s) url = (?p, ?rq)" using request_target_built by blast
  have q: "ParseQuery ?rq = received ?v ?h ?sig" by (rule ParseQuery_built [OF apply_values_names(1) ne plain])
  note get = received_Get [OF plain, of ?h ?sig]
  have "raw \<noteq> []" using raw nonempty by auto
  then have "?sig \<noteq> []" using b64 by blast
  then have "verifySignature cry pub s (received ?v ?h ?sig)"
    using raw k pair b64 by (simp add: verifySignature_def Let_def get signed_query_received [OF apply_values_names(1) plain])
  then have v: "verifySignature cry pub s (received ?v ?h ?sig) = True" by simp
  let ?q = "received ?v ?h ?sig"
  let ?req = "\<lparr>vqProviderID = auProviderID o', vqServiceID = auServiceID o', vqDomain = Values_Get ?q ''domain'', vqHost = Values_Get ?q ''host'',
    vqParams = ?q, vqSignature = Values_Get ?q ''sig'', vqKeyHost = Values_Get ?q ''key'', vqSigValid = True\<rparr>"
  have g: "mock_get cry pub url s = (case (case mpApplyHandler s of None \<Rightarrow> None | Some f \<Rightarrow> f ?req) of
      Some e \<Rightarrow> MockError 400 e | None \<Rightarrow> MockJSON (JObj [(''status'', JStr ''applied'')]), s\<lparr>mpRequests := mpRequests s @ [?req]\<rparr>)"
    unfolding mock_get_def t apply_req_path_routed [OF ids] mock_handleApply_records [OF ids] Let_def q v by simp
  have "vqSigValid ?req \<and> vqProviderID ?req = auProviderID o' \<and> vqServiceID ?req = auServiceID o' \<and> vqKeyHost ?req = ?h
    \<and> (\<forall>k. k \<noteq> ''key'' \<longrightarrow> k \<noteq> ''sig'' \<longrightarrow> Values_Get (vqParams ?req) k = Values_Get ?v k)"
    by (simp add: get)
  with g show ?thesis by blast
qed

subsection \<open>The whole flow\<close>

text \<open>The settings document as the client decodes it: the decoder finds a field by its name without regard to case.
  A redirect to the cleaned path, which the addresses of the flow never meet, is left as a status.\<close>

definition fold_field :: "(string \<times> json) list \<Rightarrow> string \<Rightarrow> json" where
  "fold_field kvs k = (case find (\<lambda>(k', j). EqualFold k' k) (rev kvs) of Some (k', j) \<Rightarrow> j | None \<Rightarrow> JNull)"

definition dec_settings :: "json \<Rightarrow> string + DiscoveryResult" where
  "dec_settings doc =
     bindE (dec_fields doc) (\<lambda>kvs.
     bindE (dec_str (fold_field kvs ''providerId'')) (\<lambda>i.
     bindE (dec_str (fold_field kvs ''providerName'')) (\<lambda>n.
     bindE (dec_str (fold_field kvs ''urlSyncUX'')) (\<lambda>us.
     bindE (dec_str (fold_field kvs ''urlAsyncUX'')) (\<lambda>ua.
     bindE (dec_str (fold_field kvs ''urlAPI'')) (\<lambda>api.
     bindE (dec_num (fold_field kvs ''width'')) (\<lambda>w.
     bindE (dec_num (fold_field kvs ''height'')) (\<lambda>h.
     Inr \<lparr>dcSupported = False, dcProviderID = i, dcProviderName = n, dcURLSyncUX = us, dcURLAsyncUX = ua, dcURLAPI = api,
       dcWidth = w, dcHeight = h, dcNameservers = []\<rparr>))))))))"

definition settings_reply :: "mock_reply \<Rightarrow> Domain_Connect.http_reply" where
  "settings_reply r =
     (case r of MockJSON j \<Rightarrow> Reply 200 (case dec_settings j of Inr d \<Rightarrow> Some d | Inl e \<Rightarrow> None) | MockError code e \<Rightarrow> Reply code None)"

lemma settings_decoded: "dec_settings (handleSettings s) =
    Inr \<lparr>dcSupported = False, dcProviderID = mpProviderID s, dcProviderName = mpProviderName s, dcURLSyncUX = mpURL s, dcURLAsyncUX = mpURL s,
      dcURLAPI = mpURL s, dcWidth = 750, dcHeight = 750, dcNameservers = []\<rparr>"
proof -
  have f: "fold_field [(''height'', a), (''nameservers'', b), (''providerID'', c), (''providerName'', d), (''urlAPI'', e),
       (''urlAsyncUX'', f), (''urlSyncUX'', g), (''width'', h)] k
     = (if ToLower k = ''width'' then h else if ToLower k = ''urlsyncux'' then g else if ToLower k = ''urlasyncux'' then f
        else if ToLower k = ''urlapi'' then e else if ToLower k = ''providername'' then d else if ToLower k = ''providerid'' then c
        else if ToLower k = ''nameservers'' then b else if ToLower k = ''height'' then a else JNull)" for a b c d e f g h k
  proof -
    have "ToLower ''height'' = ''height''" "ToLower ''nameservers'' = ''nameservers''" "ToLower ''providerID'' = ''providerid''"
      "ToLower ''providerName'' = ''providername''" "ToLower ''urlAPI'' = ''urlapi''" "ToLower ''urlAsyncUX'' = ''urlasyncux''"
      "ToLower ''urlSyncUX'' = ''urlsyncux''" "ToLower ''width'' = ''width''" by code_simp+
    then show ?thesis by (simp add: fold_field_def EqualFold_def eq_commute [of _ "ToLower k"])
  qed
  have l: "ToLower ''height'' = ''height''" "ToLower ''providerId'' = ''providerid''" "ToLower ''providerName'' = ''providername''"
    "ToLower ''urlAPI'' = ''urlapi''" "ToLower ''urlAsyncUX'' = ''urlasyncux''" "ToLower ''urlSyncUX'' = ''urlsyncux''"
    "ToLower ''width'' = ''width''" by code_simp+
  show ?thesis unfolding dec_settings_def handleSettings_def dec_fields.simps bindE_simps f l by simp
qed

lemma settings_served:
  assumes "plain_id domain"
  shows "mock_get cry pub (mpURL s @ ''/v2/'' @ domain @ ''/settings'') s = (MockJSON (handleSettings s), s)"
proof -
  let ?p = "CHR ''/'' # Join [''v2'', domain, ''settings''] ''/''"
  have ws: "list_all plain_seg [''v2'', domain, ''settings'']" "\<forall>w \<in> set [''v2'', domain, ''settings'']. CHR ''%'' \<notin> set w"
    using assms by (auto simp: plain_id_def plain_seg_def)
  have p: "?p = ''/v2/'' @ domain @ ''/settings''" by simp
  have "CHR ''#'' \<notin> set ?p" "CHR ''?'' \<notin> set ?p" "CHR ''%'' \<notin> set ?p" unfolding p using assms by (auto simp: plain_id_def)
  then have "cut_at ?p CHR ''#'' = (?p, [])" "cut_at ?p CHR ''?'' = (?p, [])" "escapes_ok ?p" "path_unescape ?p = ?p"
    by (simp_all add: cut_at_none escapes_ok_plain percent_decode_plain)
  moreover have "cleanPath ?p = ?p" by (rule cleanPath_plain [OF ws(1)]) simp
  moreover have "path_segments ?p = [''v2'', domain, ''settings'']" by (rule path_segments_plain [OF ws(1) _ ws(2)]) simp
  moreover have "HasSuffix ?p ''/settings''" by (auto simp: suffix_def)
  ultimately show ?thesis
    unfolding p [symmetric] by (simp add: mock_get_def request_target_def mock_serve_def Let_def del: Join.simps)
qed

text \<open>Discovery against the provider: the record points at it, and its address may be contacted.\<close>

definition mock_discoverable :: "'p crypto \<Rightarrow> ('k \<Rightarrow> 'p) \<Rightarrow> discoverOptions \<Rightarrow> string \<Rightarrow> nat list list \<Rightarrow> 'k mock_provider \<Rightarrow> bool" where
  "mock_discoverable cry pub D domain ips s \<longleftrightarrow>
     doTXT D (''_domainconnect.'' @ domain) = Some [TXTRecord s] \<and> mpURL s = ''https://'' @ TXTRecord s
     \<and> TXTRecord s \<noteq> [] \<and> TrimSpace (TXTRecord s) = TXTRecord s \<and> validateDomain domain = None \<and> plain_id domain
     \<and> doIP D (dc_host (TXTRecord s)) = Some ips \<and> \<not> anyIPBlocked ips
     \<and> doHTTP D (mpURL s @ ''/v2/'' @ domain @ ''/settings'') = settings_reply (fst (mock_get cry pub (mpURL s @ ''/v2/'' @ domain @ ''/settings'') s))"

lemma Discover_mock:
  assumes m: "mock_discoverable cry pub D domain ips s"
  shows "fst (Discover D domain) = Inr \<lparr>dcSupported = True, dcProviderID = mpProviderID s, dcProviderName = mpProviderName s, dcURLSyncUX = mpURL s,
      dcURLAsyncUX = mpURL s, dcURLAPI = mpURL s, dcWidth = 750, dcHeight = 750, dcNameservers = map (doIPText D) ips\<rparr>"
proof -
  from m have dns: "doTXT D (''_domainconnect.'' @ domain) = Some [TXTRecord s]" "mpURL s = ''https://'' @ TXTRecord s"
      "TXTRecord s \<noteq> []" "TrimSpace (TXTRecord s) = TXTRecord s" "validateDomain domain = None" "plain_id domain"
    and ips: "doIP D (dc_host (TXTRecord s)) = Some ips" "\<not> anyIPBlocked ips"
    and http: "doHTTP D (mpURL s @ ''/v2/'' @ domain @ ''/settings'') = settings_reply (fst (mock_get cry pub (mpURL s @ ''/v2/'' @ domain @ ''/settings'') s))"
    unfolding mock_discoverable_def by blast+
  have ne: "domain \<noteq> []" using dns(6) by (simp add: plain_id_def plain_seg_def)
  have dt: "dc_txt D domain = [TXTRecord s]" using dns(1) by (simp add: dc_txt_def)
  have "doHTTP D (''https://'' @ TXTRecord s @ ''/v2/'' @ domain @ ''/settings'') = settings_reply (MockJSON (handleSettings s))"
    using http settings_served [OF dns(6), of cry pub s] by (simp add: dns(2))
  then have "follow D [] (dc_host (TXTRecord s)) (''https://'' @ TXTRecord s @ ''/v2/'' @ domain @ ''/settings'')
      = (Some (200, Some \<lparr>dcSupported = False, dcProviderID = mpProviderID s, dcProviderName = mpProviderName s, dcURLSyncUX = mpURL s,
          dcURLAsyncUX = mpURL s, dcURLAPI = mpURL s, dcWidth = 750, dcHeight = 750, dcNameservers = []\<rparr>),
         [(dc_host (TXTRecord s), ''https://'' @ TXTRecord s @ ''/v2/'' @ domain @ ''/settings'')])"
    by (subst follow.simps) (simp add: settings_reply_def settings_decoded)
  then show ?thesis using ne dns(3,4,5) ips by (simp add: Discover_def dt Let_def)
qed

text \<open>Property C37. The flow of an application against the mock provider, for all domains, parameters and keys: discovery finds
  the provider; an apply URL built with what was discovered and signed with the provider's key is taken for an apply request of its
  provider and service, every parameter is read back whatever its value holds, the signature is found valid, and the request is
  recorded, even if the handler of the test then refuses it.\<close>

theorem discover_sign_apply:
  assumes m: "mock_discoverable cry pub D domain ips s"
    and found: "fst (Discover D domain) = Inr d"
    and built: "BuildApplyURL sg o' = Inr url" "auURLAsyncUX o' = dcURLAsyncUX d" "auProviderID o' = dcProviderID d" "auPrivateKey o' = mpKey s"
    and ids: "plain_id (auProviderID o')" "plain_id (auServiceID o')" and names: "\<forall>k \<in> fst ` set (auParams o'). plain_name k"
    and pair: "\<forall>k q raw. sgSign sg k q = Some raw \<longrightarrow> cryVerify cry (pub k) q raw"
    and b64: "\<forall>raw. cryB64 cry (sgB64 sg raw) = Some raw" "\<forall>raw. raw \<noteq> [] \<longrightarrow> sgB64 sg raw \<noteq> []"
    and nonempty: "\<forall>k q. sgSign sg k q \<noteq> Some []"
  shows "dcSupported d \<and> dcNameservers d = map (doIPText D) ips \<and>
    (\<exists>req. mock_get cry pub url s =
      (case (case mpApplyHandler s of None \<Rightarrow> None | Some f \<Rightarrow> f req) of
         Some e \<Rightarrow> MockError 400 e | None \<Rightarrow> MockJSON (JObj [(''status'', JStr ''applied'')]),
       s\<lparr>mpRequests := mpRequests s @ [req]\<rparr>)
    \<and> vqSigValid req \<and> vqProviderID req = mpProviderID s \<and> vqServiceID req = auServiceID o' \<and> vqKeyHost req = auKeyHost o'
    \<and> (\<forall>k. k \<noteq> ''key'' \<longrightarrow> k \<noteq> ''sig'' \<longrightarrow> Values_Get (vqParams req) k = Values_Get (apply_values o') k))"
proof -
  have d: "d = \<lparr>dcSupported = True, dcProviderID = mpProviderID s, dcProviderName = mpProviderName s, dcURLSyncUX = mpURL s,
      dcURLAsyncUX = mpURL s, dcURLAPI = mpURL s, dcWidth = 750, dcHeight = 750, dcNameservers = map (doIPText D) ips\<rparr>"
    using Discover_mock [OF m] found by simp
  have "auURLAsyncUX o' = mpURL s" "auProviderID o' = mpProviderID s" using built(2,3) d by simp_all
  with built_url_received [OF built(1) _ built(4) ids names pair b64 nonempty] show ?thesis by (simp add: d)
qed

text \<open>A run: signing appends a mark, the parameter's value holds a space, an ampersand and a plus sign.\<close>

definition demo_signer :: "unit signer" where
  "demo_signer = \<lparr>sgSign = \<lambda>_ q. Some (q @ ''!''), sgPublicDER = \<lambda>_. Some ''der'', sgSHA256 = \<lambda>x. x, sgB64 = \<lambda>x. x\<rparr>"

definition demo_crypto :: "unit crypto" where
  "demo_crypto = \<lparr>cryB64 = Some, cryParsePKIX = \<lambda>_. Some (Some ()), cryVerify = \<lambda>_ q s. s = q @ ''!''\<rparr>"

definition demo_mock :: "unit mock_provider" where
  "demo_mock = \<lparr>mpURL = ''https://127.0.0.1:4443'', mpKey = Some (), mpProviderID = ''dctest'', mpProviderName = ''DC Test Provider'',
     mpApplyHandler = None, mpRequests = []\<rparr>"

definition demo_net :: discoverOptions where
  "demo_net = \<lparr>doIP = \<lambda>_. Some [[93, 184, 216, 34]], doTXT = \<lambda>_. Some [''127.0.0.1:4443''],
     doHTTP = \<lambda>url. settings_reply (fst (mock_get demo_crypto id url demo_mock)), doIPText = \<lambda>_. ''93.184.216.34''\<rparr>"

definition demo_apply :: "(string \<times> string) list \<Rightarrow> unit ApplyURLOpts" where
  "demo_apply ps = \<lparr>auURLAsyncUX = ''https://127.0.0.1:4443'', auProviderID = ''dctest'', auServiceID = ''email'', auDomain = ''a.com'',
     auHost = [], auParams = ps, auPrivateKey = Some (), auKeyHost = ''k'', auRedirectURI = [], auState = []\<rparr>"

lemma demo_new: "mock_NewServer (Some ()) ''https://127.0.0.1:4443'' [] = Some demo_mock"
  by (simp add: mock_NewServer_def demo_mock_def)

lemma demo_url: "BuildApplyURL demo_signer (demo_apply [(''spf'', ''a & b+c'')])
    = Inr ''https://127.0.0.1:4443/v2/domainTemplates/providers/dctest/services/email/apply?domain=a.com&spf=a%20%26%20b%2Bc&key=k&sig=domain%3Da.com%26spf%3Da%2520%2526%2520b%252Bc%21''"
  by code_simp

lemma demo_discoverable: "mock_discoverable demo_crypto id demo_net ''a.com'' [[93, 184, 216, 34]] demo_mock"
proof -
  have "TXTRecord demo_mock = ''127.0.0.1:4443''" "TrimSpace ''127.0.0.1:4443'' = ''127.0.0.1:4443''" "validateDomain ''a.com'' = None"
    "plain_id ''a.com''" "\<not> anyIPBlocked [[93, 184, 216, 34]]" by code_simp+
  then show ?thesis by (simp add: mock_discoverable_def demo_net_def demo_mock_def)
qed

text \<open>A parameter with the name of the signature hides it: the first value counts, and what was signed is not checked.\<close>

lemma reserved_name_url:
  "BuildApplyURL demo_signer (demo_apply [(''sig'', ''x'')])
     = Inr ''https://127.0.0.1:4443/v2/domainTemplates/providers/dctest/services/email/apply?domain=a.com&sig=x&key=k&sig=domain%3Da.com%26sig%3Dx%21''"
  by code_simp

lemma reserved_name_invalid:
  "map vqSigValid (mpRequests (snd (mock_get demo_crypto id
     ''https://127.0.0.1:4443/v2/domainTemplates/providers/dctest/services/email/apply?domain=a.com&sig=x&key=k&sig=domain%3Da.com%26sig%3Dx%21'' demo_mock))) = [False]"
proof -
  let ?rq = "''domain=a.com&sig=x&key=k&sig=domain%3Da.com%26sig%3Dx%21''"
  have ids: "plain_id ''dctest''" "plain_id ''email''" by code_simp+
  have t: "request_target (mpURL demo_mock) ''https://127.0.0.1:4443/v2/domainTemplates/providers/dctest/services/email/apply?domain=a.com&sig=x&key=k&sig=domain%3Da.com%26sig%3Dx%21''
      = (apply_req_path ''dctest'' ''email'', ?rq)" by code_simp
  have q: "ParseQuery ?rq = [(''domain'', [''a.com'']), (''sig'', [''x'', ''domain=a.com&sig=x!'']), (''key'', [''k''])]" by code_simp
  have "verifySignature demo_crypto id demo_mock (ParseQuery ?rq) = False"
    unfolding q by (simp add: verifySignature_def demo_crypto_def demo_mock_def Values_Get_def Let_def)
  then show ?thesis
    unfolding mock_get_def t apply_req_path_routed [OF ids] mock_handleApply_records [OF ids] Let_def by (simp add: demo_mock_def)
qed

lemma discover_sign_apply_witness:
  "\<exists>url req. BuildApplyURL demo_signer (demo_apply [(''spf'', ''a & b+c'')]) = Inr url \<and> vqSigValid req
    \<and> mock_get demo_crypto id url demo_mock = (MockJSON (JObj [(''status'', JStr ''applied'')]), demo_mock\<lparr>mpRequests := [req]\<rparr>)
    \<and> Values_Get (vqParams req) ''spf'' = ''a & b+c''"
proof -
  let ?o = "demo_apply [(''spf'', ''a & b+c'')]"
  obtain url where url: "BuildApplyURL demo_signer ?o = Inr url" using demo_url by blast
  have ids: "plain_id (auProviderID ?o)" "plain_id (auServiceID ?o)"
    by (simp_all add: demo_apply_def plain_id_def plain_seg_def)
  have names: "\<forall>k \<in> fst ` set (auParams ?o). plain_name k"
    by (simp add: demo_apply_def plain_name_def query_unreserved_def is_lower_def byte_def)
  have opts: "auURLAsyncUX ?o = mpURL demo_mock" "auProviderID ?o = mpProviderID demo_mock" "auPrivateKey ?o = mpKey demo_mock"
    by (simp_all add: demo_apply_def demo_mock_def)
  have sg: "\<forall>k q raw. sgSign demo_signer k q = Some raw \<longrightarrow> cryVerify demo_crypto (id k) q raw"
    "\<forall>raw. cryB64 demo_crypto (sgB64 demo_signer raw) = Some raw" "\<forall>raw. raw \<noteq> [] \<longrightarrow> sgB64 demo_signer raw \<noteq> []"
    "\<forall>k q. sgSign demo_signer k q \<noteq> Some []"
    by (simp_all add: demo_signer_def demo_crypto_def)
  note d = Discover_mock [OF demo_discoverable]
  let ?d = "\<lparr>dcSupported = True, dcProviderID = mpProviderID demo_mock, dcProviderName = mpProviderName demo_mock, dcURLSyncUX = mpURL demo_mock,
      dcURLAsyncUX = mpURL demo_mock, dcURLAPI = mpURL demo_mock, dcWidth = 750, dcHeight = 750, dcNameservers = map (doIPText demo_net) [[93, 184, 216, 34]]\<rparr>"
  have o': "auURLAsyncUX ?o = dcURLAsyncUX ?d" "auProviderID ?o = dcProviderID ?d" by (simp_all add: opts)
  obtain req where req: "vqSigValid req" "\<forall>k. k \<noteq> ''key'' \<longrightarrow> k \<noteq> ''sig'' \<longrightarrow> Values_Get (vqParams req) k = Values_Get (apply_values ?o) k"
    and get: "mock_get demo_crypto id url demo_mock = (case (case mpApplyHandler demo_mock of None \<Rightarrow> None | Some f \<Rightarrow> f req) of
       Some e \<Rightarrow> MockError 400 e | None \<Rightarrow> MockJSON (JObj [(''status'', JStr ''applied'')]), demo_mock\<lparr>mpRequests := mpRequests demo_mock @ [req]\<rparr>)"
    using discover_sign_apply [OF demo_discoverable d url o' opts(3) ids names sg] by blast
  have "mock_get demo_crypto id url demo_mock = (MockJSON (JObj [(''status'', JStr ''applied'')]), demo_mock\<lparr>mpRequests := [req]\<rparr>)"
    unfolding get by (simp add: demo_mock_def)
  moreover have "Values_Get (apply_values ?o) ''spf'' = ''a & b+c''" by (simp add: apply_values_def demo_apply_def Values_Get_def)
  then have "Values_Get (vqParams req) ''spf'' = ''a & b+c''" using spec [OF req(2), of "''spf''"] by simp
  ultimately show ?thesis using url req(1) by blast
qed

end
