(* ===== verification/Store_Query.thy ===== *)
theory Store_Query
  imports Store_Json Store_Sql
begin

text \<open>
  Listing and sweeping on the map of rows, and the contract of a store in an environment without faults, the locale
  \<open>plain_store\<close>: all six operations of \<open>MigrationStore\<close> are those of the map. Both backends satisfy it, on rows whose texts are
  valid, whose id starts with no dot (the JSON store hides such a file from \<open>List\<close> and \<open>SweepExpired\<close>) and whose times are
  those that 64 bits of nanoseconds hold after 1970.
\<close>

subsection \<open>The map\<close>

definition listed :: "int \<Rightarrow> ListFilter \<Rightarrow> row_map \<Rightarrow> string set" where
  "listed now f M = {i. \<exists>m. M i = Some m \<and> list_keep now f m}"

definition expired_ids :: "int \<Rightarrow> row_map \<Rightarrow> string set" where
  "expired_ids t M = {i. \<exists>m. M i = Some m \<and> row_expired t m}"

definition spec_list :: "int \<Rightarrow> ListFilter \<Rightarrow> row_map \<Rightarrow> StoredMigration list \<Rightarrow> bool" where
  "spec_list now f M rs \<longleftrightarrow> finite (listed now f M) \<and> mset rs = image_mset (the \<circ> M) (mset_set (listed now f M))
     \<and> sorted (map smCreatedAt rs)"

definition spec_sweep :: "int \<Rightarrow> row_map \<Rightarrow> row_map" where
  "spec_sweep t M = (\<lambda>i. if i \<in> expired_ids t M then None else M i)"

definition time_ok :: "int \<Rightarrow> bool" where
  "time_ok t \<longleftrightarrow> 0 \<le> t \<and> t \<le> int64_max"

definition row_ok :: "int \<Rightarrow> StoredMigration \<Rightarrow> bool" where
  "row_ok now m \<longleftrightarrow> row_wf m \<and> smID m \<noteq> [] \<and> hd (smID m) \<noteq> CHR ''.'' \<and> list_all time_ok [now, smExpiresAt m, smCreatedAt m]"

lemma time_ok_json: "time_ok t \<Longrightarrow> time_json_ok t"
  by (simp add: time_ok_def time_json_ok_def int64_max_def)

lemma time_ok_int64: "time_ok t \<Longrightarrow> int64_ok t"
  by (simp add: time_ok_def int64_ok_def int64_min_def)

lemma row_ok_storable: "row_ok now m \<Longrightarrow> storable now m" "row_ok now m \<Longrightarrow> sq_storable now m"
  by (auto simp: row_ok_def storable_def sq_storable_def blobs_wf_def row_wf_def time_ok_json time_ok_int64)

text \<open>Listing by ids that are each named once.\<close>

lemma spec_list_ids:
  assumes "distinct is" and "set is = dom M" and "mset rs = mset (map (the \<circ> M) (filter (list_keep now f \<circ> the \<circ> M) is))"
    and "sorted (map smCreatedAt rs)"
  shows "spec_list now f M rs"
proof -
  have s: "set (filter (list_keep now f \<circ> the \<circ> M) is) = listed now f M" using assms(2) by (auto simp: listed_def dom_def)
  then have "finite (listed now f M)" by (metis List.finite_set)
  moreover have "mset (filter (list_keep now f \<circ> the \<circ> M) is) = mset_set (listed now f M)"
    using assms(1) s by (metis distinct_filter mset_set_set)
  ultimately show ?thesis using assms(3,4) by (simp add: spec_list_def)
qed

lemma expired_count:
  assumes "distinct is" and "set is = dom M"
  shows "length (filter (row_expired t \<circ> the \<circ> M) is) = card (expired_ids t M)"
proof -
  have "set (filter (row_expired t \<circ> the \<circ> M) is) = expired_ids t M" using assms(2) by (auto simp: expired_ids_def dom_def)
  then show ?thesis using assms(1) by (metis distinct_card distinct_filter)
qed

subsection \<open>The contract\<close>

locale plain_store =
  fixes S :: "('e, 's) store_ops"
    and env :: "int \<Rightarrow> 'e"
    and s0 :: 's
    and abs :: "'s \<Rightarrow> row_map"
    and ok :: "'s \<Rightarrow> bool"
  assumes start: "ok s0 \<and> abs s0 = Map.empty"
    and keyed: "ok s \<Longrightarrow> abs s i = Some m \<Longrightarrow> smID m = i"
    and create: "ok s \<Longrightarrow> row_ok now m \<Longrightarrow>
      \<exists>y m' s'. stCreate S (env now) m s = ((y, m'), s') \<and> ok s' \<and> (y = None, abs s') = spec_create now m (abs s)
        \<and> (y = None \<longrightarrow> m' = stamp_new now m)"
    and get: "ok s \<Longrightarrow> stGet S (env now) i s = spec_get now i (abs s)"
    and update: "ok s \<Longrightarrow> row_ok now m \<Longrightarrow>
      \<exists>y m' s'. stUpdate S (env now) m s = ((y, m'), s') \<and> ok s' \<and> (y, abs s') = spec_update now m (abs s) \<and> smVersion m' = smVersion m"
    and delete: "ok s \<Longrightarrow> \<exists>s'. stDelete S (env now) i s = (None, s') \<and> ok s' \<and> abs s' = spec_delete i (abs s)"
    and list: "ok s \<Longrightarrow> time_ok now \<Longrightarrow>
      \<exists>rs. stList S (env now) f s = Inr (page (lfOffset f) (lfLimit f) rs) \<and> spec_list now f (abs s) rs"
    and sweep: "ok s \<Longrightarrow> time_ok t \<Longrightarrow>
      \<exists>s'. stSweep S (env now) t s = ((None, card (expired_ids t (abs s))), s') \<and> ok s' \<and> abs s' = spec_sweep t (abs s)"

subsection \<open>The JSON store\<close>

definition file_ok :: "string \<times> json \<Rightarrow> bool" where
  "file_ok p = (case dec_row (snd p) of Inl e \<Rightarrow> False
     | Inr m \<Rightarrow> fst p = pathFor (smID m) \<and> smID m \<noteq> [] \<and> hd (smID m) \<noteq> CHR ''.'' \<and> time_json_ok (smCreatedAt m))"

definition js_ok :: "json_dir \<Rightarrow> bool" where
  "js_ok d \<longleftrightarrow> distinct (map fst d) \<and> list_all file_ok d"

definition js_ids :: "json_dir \<Rightarrow> string list" where
  "js_ids d = map (\<lambda>n. TrimSuffix n ''.json'') (row_names d)"

lemma TrimSuffix_pathFor [simp]: "TrimSuffix (pathFor i) ''.json'' = i"
  by (simp add: TrimSuffix_def pathFor_def suffix_def)

lemma js_okD:
  "js_ok d \<Longrightarrow> (name, j) \<in> set d \<Longrightarrow>
    \<exists>m. dec_row j = Inr m \<and> name = pathFor (smID m) \<and> smID m \<noteq> [] \<and> hd (smID m) \<noteq> CHR ''.'' \<and> time_json_ok (smCreatedAt m)"
  by (cases "dec_row j") (auto simp: js_ok_def file_ok_def list_all_iff)

lemma js_ok_row:
  assumes "js_ok d"
  shows "js_rows d i = Some m \<longleftrightarrow> (\<exists>j. (pathFor i, j) \<in> set d \<and> dec_row j = Inr m \<and> smID m = i)"
proof
  assume "js_rows d i = Some m"
  then obtain j where j: "map_of d (pathFor i) = Some j" "dec_row j = Inr m" by (auto simp: js_rows_def split: option.splits sum.splits)
  from js_okD [OF assms map_of_SomeD [OF j(1)]] j(2) have "smID m = i" by auto
  with map_of_SomeD [OF j(1)] j(2) show "\<exists>j. (pathFor i, j) \<in> set d \<and> dec_row j = Inr m \<and> smID m = i" by blast
next
  assume "\<exists>j. (pathFor i, j) \<in> set d \<and> dec_row j = Inr m \<and> smID m = i"
  then show "js_rows d i = Some m" using assms by (auto simp: js_rows_def js_ok_def)
qed

lemma js_ok_valid: "js_ok d \<Longrightarrow> js_valid d"
proof -
  assume ok: "js_ok d"
  have "readable d" unfolding readable_def list_all_iff using js_okD [OF ok] by fastforce
  moreover have "time_json_ok (smCreatedAt m)" if "js_rows d i = Some m" for i m
  proof -
    from that obtain j where "(pathFor i, j) \<in> set d" "dec_row j = Inr m" by (auto simp: js_ok_row [OF ok])
    with js_okD [OF ok this(1)] show ?thesis by auto
  qed
  ultimately show ?thesis by (simp add: js_valid_def)
qed

lemma js_ok_names: "js_ok d \<Longrightarrow> row_names d = sort (map fst d)"
proof -
  assume ok: "js_ok d"
  have "HasSuffix name ''.json'' \<and> \<not> HasPrefix name ''.''" if "name \<in> set (sort (map fst d))" for name
  proof -
    from that obtain j where "(name, j) \<in> set d" by auto
    from js_okD [OF ok this] obtain i where "name = pathFor i" "i \<noteq> []" "hd i \<noteq> CHR ''.''" by blast
    then show ?thesis by (cases i) (auto simp: pathFor_def suffix_def)
  qed
  then show "row_names d = sort (map fst d)" unfolding row_names_def by (intro filter_True) blast
qed

lemma js_ids_props:
  assumes "js_ok d"
  shows "row_names d = map pathFor (js_ids d)" and "distinct (js_ids d)" and "set (js_ids d) = dom (js_rows d)"
proof -
  have p: "\<exists>i. name = pathFor i" if "name \<in> set (row_names d)" for name
    using that js_okD [OF assms] by (fastforce simp: js_ok_names [OF assms])
  then show r: "row_names d = map pathFor (js_ids d)" by (auto simp: js_ids_def comp_def intro!: map_idI [symmetric] dest!: p)
  have "distinct (row_names d)" using assms by (simp add: js_ok_names js_ok_def)
  then show "distinct (js_ids d)" unfolding r by (simp add: distinct_map)
  have "set (row_names d) = fst ` set d" by (simp add: js_ok_names [OF assms])
  then have im: "pathFor ` set (js_ids d) = fst ` set d" unfolding r by simp
  have "i \<in> set (js_ids d) \<longleftrightarrow> pathFor i \<in> pathFor ` set (js_ids d)" for i by auto
  then have "i \<in> set (js_ids d) \<longleftrightarrow> pathFor i \<in> fst ` set d" for i unfolding im .
  moreover have "pathFor i \<in> fst ` set d \<longleftrightarrow> i \<in> dom (js_rows d)" for i
  proof
    assume "pathFor i \<in> fst ` set d"
    then obtain j where j: "(pathFor i, j) \<in> set d" by auto
    with js_okD [OF assms j] have "\<exists>m. js_rows d i = Some m" unfolding js_ok_row [OF assms] by auto
    then show "i \<in> dom (js_rows d)" by auto
  next
    assume "i \<in> dom (js_rows d)"
    then obtain m where "js_rows d i = Some m" by auto
    then obtain j where "(pathFor i, j) \<in> set d" unfolding js_ok_row [OF assms] by auto
    then show "pathFor i \<in> fst ` set d" by (rule image_eqI [rotated]) simp
  qed
  ultimately show "set (js_ids d) = dom (js_rows d)" by blast
qed

lemma js_ok_put:
  assumes "js_ok d" and "row_wf m" and "smID m \<noteq> []" and "hd (smID m) \<noteq> CHR ''.''" and "time_json_ok (smCreatedAt m)"
  shows "js_ok (AList.update (pathFor (smID m)) (JObj (row_fields m)) d)"
proof -
  have "set (AList.update k v xs) \<subseteq> insert (k, v) (set xs)" for k :: string and v :: json and xs
    by (induction xs) auto
  moreover have "file_ok (pathFor (smID m), JObj (row_fields m))" using assms by (simp add: file_ok_def dec_enc_row)
  moreover have "\<forall>x \<in> set d. file_ok x" "distinct (map fst d)" using assms(1) by (simp_all add: js_ok_def list_all_iff)
  ultimately show ?thesis unfolding js_ok_def list_all_iff by (intro conjI distinct_update) blast+
qed

lemma js_ok_drop: "js_ok d \<Longrightarrow> js_ok (AList.delete k d)"
proof -
  have "set (AList.delete k d) \<subseteq> set d" by (induction d) auto
  then show "js_ok d \<Longrightarrow> ?thesis" by (auto simp: js_ok_def list_all_iff distinct_delete)
qed

lemma stamp_new_time:
  assumes "row_ok now m"
  shows "time_json_ok (smCreatedAt (stamp_new now m))" "list_all time_json_ok [smExpiresAt (stamp_new now m), smCreatedAt (stamp_new now m), smUpdatedAt (stamp_new now m)]"
  using assms time_ok_json by (auto simp: row_ok_def stamp_new_def)

lemma js_plain_create:
  assumes "js_ok d" and "fault_free E" and "jeNow E = now" and "row_ok now m"
  shows "\<exists>y m' d'. js_Create E m d = ((y, m'), d') \<and> js_ok d' \<and> (y = None, js_rows d') = spec_create now m (js_rows d)
    \<and> (y = None \<longrightarrow> m' = stamp_new now m)"
proof -
  obtain y m' d' where c: "js_Create E m d = ((y, m'), d')" by (metis prod.collapse)
  have r: "readable d" using js_ok_valid [OF assms(1)] by (simp add: js_valid_def)
  have "(y = None, js_rows d') = spec_create now m (js_rows d)"
    using js_create_refines [OF assms(2) r, of m] row_ok_storable(1) [OF assms(4)] c assms(3) by simp
  moreover have "js_ok d' \<and> (y = None \<longrightarrow> m' = stamp_new now m)"
    using c
  proof (cases rule: js_Create_cases)
    case stored
    let ?m = "stamp_new now m"
    have "row_wf ?m" "smID ?m \<noteq> []" "hd (smID ?m) \<noteq> CHR ''.''" using assms(4) by (simp_all add: row_ok_def row_wf_stamps row_simps)
    from js_ok_put [OF assms(1) this stamp_new_time(1) [OF assms(4)]] stored(3,4) writeRow_fault_free [OF assms(2) stamp_new_time(2) [OF assms(4)], of d]
    show ?thesis by (simp add: assms(3))
  qed (use assms(1) in auto)
  ultimately show ?thesis using c by blast
qed

lemma js_plain_update:
  assumes "js_ok d" and "fault_free E" and "jeNow E = now" and "row_ok now m"
  shows "\<exists>y m' d'. js_Update E m d = ((y, m'), d') \<and> js_ok d' \<and> (y, js_rows d') = spec_update now m (js_rows d) \<and> smVersion m' = smVersion m"
proof -
  obtain y m' d' where c: "js_Update E m d = ((y, m'), d')" by (metis prod.collapse)
  have "(y, js_rows d') = spec_update now m (js_rows d)"
    using js_update_refines [OF assms(2) js_ok_valid [OF assms(1)], of m] row_ok_storable(1) [OF assms(4)] c assms(3) by simp
  moreover have "js_ok d'" using c
  proof (cases rule: js_Update_cases)
    case (stored r)
    have cr: "time_json_ok (smCreatedAt r)" using js_ok_valid [OF assms(1)] stored(1) by (simp add: js_valid_def)
    have w: "row_wf m'" "smID m' \<noteq> []" "hd (smID m') \<noteq> CHR ''.''" "time_json_ok (smCreatedAt m')" 
      "list_all time_json_ok [smExpiresAt m', smCreatedAt m', smUpdatedAt m']"
      using assms(3,4) cr time_ok_json by (simp_all add: stored(3) row_ok_def row_wf_stamps)
    show ?thesis using js_ok_put [OF assms(1) w(1-4)] writeRow_fault_free [OF assms(2) w(5), of d] stored(4) by simp
  qed (use assms(1) in auto)
  moreover have "smVersion m' = smVersion m"
    using c by (auto simp: js_Update_def Let_def split: option.splits sum.splits if_splits prod.splits)
  ultimately show ?thesis using c by blast
qed

lemma collect_rows_ids:
  assumes "js_ok d" and "\<forall>i. jeRead E i = None" and "set is \<subseteq> dom (js_rows d)"
  shows "collect_rows E d (map pathFor is) = Inr (map (the \<circ> js_rows d) is)"
  using assms(3)
proof (induction "is")
  case (Cons i "is")
  from Cons.prems obtain m where "js_rows d i = Some m" by auto
  moreover have "readable d" using js_ok_valid [OF assms(1)] by (simp add: js_valid_def)
  ultimately have "readRow E d i = Inr m" using readRow_spec [of d E i] assms(2) by simp
  with Cons \<open>js_rows d i = Some m\<close> show ?case by simp
qed simp

lemma js_plain_list:
  assumes "js_ok d" and "fault_free E" and "jeNow E = now"
  shows "\<exists>rs. js_List E f d = Inr (page (lfOffset f) (lfLimit f) rs) \<and> spec_list now f (js_rows d) rs"
proof -
  note ids = js_ids_props [OF assms(1)]
  let ?rs = "sort_key smCreatedAt (sort_key (jeTie E) (filter (list_keep now f) (map (the \<circ> js_rows d) (js_ids d))))"
  have "collect_rows E d (row_names d) = Inr (map (the \<circ> js_rows d) (js_ids d))"
    unfolding ids(1) using assms(1,2) ids(3) by (intro collect_rows_ids) (auto simp: fault_free_def)
  then have "js_List E f d = Inr (page (lfOffset f) (lfLimit f) ?rs)" using assms(2,3) by (simp add: js_List_def fault_free_def)
  moreover have "spec_list now f (js_rows d) ?rs"
    by (rule spec_list_ids [OF ids(2,3)]) (simp_all add: filter_map comp_assoc)
  ultimately show ?thesis by blast
qed

lemma sweep_rows_ids:
  assumes "js_ok d" and "fault_free E" and "distinct is" and "set is \<subseteq> dom (js_rows d)"
  shows "\<exists>d'. sweep_rows E t (map pathFor is) cnt d = ((None, cnt + length (filter (row_expired t \<circ> the \<circ> js_rows d) is)), d')
    \<and> js_ok d' \<and> js_rows d' = (\<lambda>i. if i \<in> set is \<and> i \<in> expired_ids t (js_rows d) then None else js_rows d i)"
  using assms(1,3,4)
proof (induction "is" arbitrary: d cnt)
  case (Cons i "is")
  from Cons.prems obtain m where m: "js_rows d i = Some m" by auto
  have "readable d" using js_ok_valid [OF Cons.prems(1)] by (simp add: js_valid_def)
  then have rd: "readRow E d i = Inr m" using readRow_spec [of d E i] m assms(2) by (simp add: fault_free_def)
  show ?case
  proof (cases "row_expired t m")
    case False
    then have "i \<notin> expired_ids t (js_rows d)" using m by (simp add: expired_ids_def)
    with Cons.IH [of d cnt] Cons.prems False rd m show ?thesis
      by (auto simp: Let_def row_expired_def fun_eq_iff)
  next
    case True
    let ?d = "AList.delete (pathFor i) d"
    have del: "js_Delete E i d = (None, ?d)" using assms(2) by (simp add: js_Delete_def fault_free_def Let_def)
    have rows: "js_rows ?d = (js_rows d)(i := None)" by (rule js_rows_delete)
    have e: "i \<in> expired_ids t (js_rows d)" using True m by (simp add: expired_ids_def)
    have ex: "expired_ids t ((js_rows d)(i := None)) = expired_ids t (js_rows d) - {i}" by (auto simp: expired_ids_def)
    have fl: "filter (row_expired t \<circ> the \<circ> js_rows ?d) is = filter (row_expired t \<circ> the \<circ> js_rows d) is"
      using Cons.prems(2) by (intro filter_cong) (auto simp: rows)
    have "set is \<subseteq> dom (js_rows ?d)" using Cons.prems by (auto simp: rows)
    then obtain d' where "sweep_rows E t (map pathFor is) (Suc cnt) ?d = ((None, Suc cnt + length (filter (row_expired t \<circ> the \<circ> js_rows d) is)), d')"
      "js_ok d'" "js_rows d' = (\<lambda>j. if j \<in> set is \<and> j \<in> expired_ids t (js_rows ?d) then None else js_rows ?d j)"
      using Cons.IH [OF js_ok_drop [OF Cons.prems(1), of "pathFor i"], of "Suc cnt"] Cons.prems(2) unfolding fl by auto
    note step = this
    have "js_rows d' = (\<lambda>j. if j \<in> set (i # is) \<and> j \<in> expired_ids t (js_rows d) then None else js_rows d j)"
      unfolding step(3) rows ex using e by auto
    moreover have "sweep_rows E t (map pathFor (i # is)) cnt d = sweep_rows E t (map pathFor is) (Suc cnt) ?d"
      using True rd del by (simp add: row_expired_def)
    ultimately show ?thesis using step(1,2) True m by (simp add: comp_def)
  qed
qed auto

lemma js_plain_sweep:
  assumes "js_ok d" and "fault_free E"
  shows "\<exists>d'. js_SweepExpired E t d = ((None, card (expired_ids t (js_rows d))), d') \<and> js_ok d' \<and> js_rows d' = spec_sweep t (js_rows d)"
proof -
  note ids = js_ids_props [OF assms(1)]
  obtain d' where d': "sweep_rows E t (row_names d) 0 d = ((None, 0 + length (filter (row_expired t \<circ> the \<circ> js_rows d) (js_ids d))), d')"
    "js_ok d'" "js_rows d' = (\<lambda>i. if i \<in> set (js_ids d) \<and> i \<in> expired_ids t (js_rows d) then None else js_rows d i)"
    using sweep_rows_ids [OF assms ids(2), of t 0] unfolding ids(1) ids(3) by blast
  moreover have "js_rows d' = spec_sweep t (js_rows d)"
    unfolding d'(3) spec_sweep_def ids(3) by (auto simp: fun_eq_iff expired_ids_def)
  ultimately show ?thesis using assms(2) expired_count [OF ids(2,3)] by (simp add: js_SweepExpired_def fault_free_def)
qed

lemma json_plain:
  assumes "\<And>now. fault_free (env now) \<and> jeNow (env now) = now"
  shows "plain_store json_store env [] js_rows js_ok"
proof (unfold_locales, unfold json_store_def store_ops.simps, goal_cases)
  case 1 show ?case by (simp add: js_ok_def js_rows_def fun_eq_iff)
next
  case (2 s i m) then show ?case by (auto simp: js_ok_row)
next
  case (3 s now m) with assms [of now] show ?case by (intro js_plain_create) auto
next
  case (4 s now i)
  then have "readable s" using js_ok_valid by (simp add: js_valid_def)
  with assms [of now] readRow_spec [of s "env now" i] show ?case
    by (auto simp: js_Get_def spec_get_def fault_free_def split: option.split)
next
  case (5 s now m) with assms [of now] show ?case by (intro js_plain_update) auto
next
  case (6 s now i)
  with assms [of now] show ?case by (simp add: js_Delete_def fault_free_def Let_def js_ok_drop js_rows_delete spec_delete_def)
next
  case (7 s now f) with assms [of now] show ?case by (intro js_plain_list) auto
next
  case (8 s t now) with assms [of now] show ?case by (intro js_plain_sweep) auto
qed

interpretation json_quiet: plain_store json_store quiet "[]" js_rows js_ok
  by (rule json_plain) simp

subsection \<open>The SQLite store\<close>

lemma sq_validD: "sq_valid tab \<Longrightarrow> (i, c) \<in> set (DAList.impl_of tab) \<Longrightarrow> \<exists>m. scanRow i c = Inr m \<and> sq_rows tab i = Some m"
proof -
  assume v: "sq_valid tab" and ic: "(i, c) \<in> set (DAList.impl_of tab)"
  then have "DAList.lookup tab i = Some c" using DAList.impl_of [of tab] by (simp add: DAList.lookup_def)
  with sq_lookup_row [OF v, of i] show ?thesis by auto
qed

lemma sq_valid_put: "sq_valid tab \<Longrightarrow> scanRow i c = Inr m \<Longrightarrow> sq_valid (DAList.update i c tab)"
proof -
  have "set (AList.update i c xs) \<subseteq> insert (i, c) (set xs)" for xs :: "(string \<times> sql_row) list"
    by (induction xs) auto
  then show "sq_valid tab \<Longrightarrow> scanRow i c = Inr m \<Longrightarrow> sq_valid (DAList.update i c tab)"
    unfolding sq_valid_def list_all_iff DAList.update.rep_eq by fastforce
qed

lemma sq_valid_drop: "sq_valid tab \<Longrightarrow> sq_valid (DAList.delete i tab)"
proof -
  have "set (AList.delete i xs) \<subseteq> set xs" for xs :: "(string \<times> sql_row) list" by (induction xs) auto
  then show "sq_valid tab \<Longrightarrow> sq_valid (DAList.delete i tab)"
    unfolding sq_valid_def list_all_iff DAList.delete.rep_eq by blast
qed

lemma sq_valid_filter: "sq_valid tab \<Longrightarrow> sq_valid (DAList.filter p tab)"
  by (auto simp: sq_valid_def list_all_iff filter.rep_eq)

lemma sq_dom: "sq_valid tab \<Longrightarrow> set (map fst (DAList.impl_of tab)) = dom (sq_rows tab)"
proof -
  assume v: "sq_valid tab"
  have "i \<in> fst ` set (DAList.impl_of tab) \<longleftrightarrow> DAList.lookup tab i \<noteq> None" for i
    unfolding DAList.lookup_def by (simp add: map_of_eq_None_iff)
  with sq_lookup_row [OF v] show ?thesis by (fastforce split: option.splits)
qed

lemma sq_plain_create:
  assumes "sq_valid tab" and "sq_fault_free E" and "sqNow E = now" and "row_ok now m"
  shows "\<exists>y m' t. sq_Create E m tab = ((y, m'), t) \<and> sq_valid t \<and> (y = None, sq_rows t) = spec_create now m (sq_rows tab)
    \<and> (y = None \<longrightarrow> m' = stamp_new now m)"
proof -
  obtain y m' t where c: "sq_Create E m tab = ((y, m'), t)" by (metis prod.collapse)
  have s: "sq_storable now m" by (rule row_ok_storable [OF assms(4)])
  have "(y = None, sq_rows t) = spec_create now m (sq_rows tab)"
    using sq_create_refines [OF assms(2,1), of m] s c assms(3) by simp
  moreover have "sq_valid t \<and> (y = None \<longrightarrow> m' = stamp_new now m)"
  proof (cases y)
    case None
    note ok = sq_Create_ok [OF c [unfolded None]]
    have "blobs_wf m'" using s ok(3) by (auto simp: sq_storable_def blobs_wf_def stamp_new_def)
    from scan_bind_row [OF this] ok(3) have "\<exists>r. scanRow (smID m) (bind_row m') = Inr r" by (simp add: row_simps)
    with sq_valid_put [OF assms(1)] ok(3,4) assms(3) show ?thesis by auto
  next
    case (Some x)
    with sq_Create_err [OF c [unfolded Some]] assms(1) show ?thesis by simp
  qed
  ultimately show ?thesis using c by blast
qed

lemma sq_plain_update:
  assumes "sq_valid tab" and "sq_fault_free E" and "sqNow E = now" and "row_ok now m"
  shows "\<exists>y m' t. sq_Update E m tab = ((y, m'), t) \<and> sq_valid t \<and> (y, sq_rows t) = spec_update now m (sq_rows tab) \<and> smVersion m' = smVersion m"
proof -
  obtain y m' t where c: "sq_Update E m tab = ((y, m'), t)" by (metis prod.collapse)
  have s: "sq_storable now m" by (rule row_ok_storable [OF assms(4)])
  have "(y, sq_rows t) = spec_update now m (sq_rows tab)"
    using sq_update_refines [OF assms(2,1), of m] s c assms(3) by simp
  moreover have "sq_valid t"
  proof -
    have "blobs_wf m" using s by (simp add: sq_storable_def)
    then have "\<exists>r. scanRow (smID m) ((bind_row (m\<lparr>smUpdatedAt := now\<rparr>))\<lparr>scCreatedAt := k\<rparr>) = Inr r" for k
      using scan_bind_row [of m] by (auto simp: scanRow_def bind_row_def bindE_Inr_iff)
    then obtain r where "scanRow (smID m) ((bind_row (m\<lparr>smUpdatedAt := now\<rparr>))\<lparr>scCreatedAt := k\<rparr>) = Inr (r k)" for k by metis
    from sq_valid_put [OF assms(1) this] c assms(1,2,3) show ?thesis
      by (auto simp: sq_Update_def sql_update_def sq_fault_free_def Let_def split: if_splits option.splits)
  qed
  moreover have "smVersion m' = smVersion m"
    using c by (auto simp: sq_Update_def Let_def split: option.splits if_splits prod.splits)
  ultimately show ?thesis using c by blast
qed

lemma mapE_Inr_map: "(\<And>x. x \<in> set xs \<Longrightarrow> f x = Inr (g x)) \<Longrightarrow> mapE f xs = Inr (map g xs)"
  by (induction xs) auto

lemma page_map: "page off lim (map g xs) = map g (page off lim xs)"
  by (simp add: page_def Let_def take_map drop_map)

lemma sq_expired:
  assumes "time_ok now" and "scanRow i c = Inr r"
  shows "row_expired now r \<longleftrightarrow> sql_old now c"
proof -
  have "smExpiresAt r \<noteq> zero_time"
    using sint_ge [of "scExpiresAt c"] scanRow_sel(5) [OF assms(2)] by (simp add: unixTime_def zero_time_def)
  moreover have "sint (UnixNano now) = now"
    using assms(1) by (simp add: UnixNano_def time_ok_def int64_word int64_min_def)
  ultimately show ?thesis using scanRow_sel(5) [OF assms(2)] by (simp add: row_expired_def sql_old_def unixTime_def)
qed

lemma sql_where_keep:
  assumes "time_ok now" and "scanRow i c = Inr r"
  shows "sql_where now f c \<longleftrightarrow> list_keep now f r"
proof -
  have "smTenantID r = scTenantID c" "smStatus r = scStatus c" using assms(2) by (auto simp: scanRow_def bindE_Inr_iff)
  moreover have "\<not> row_expired now r \<longleftrightarrow> sint (UnixNano now) \<le> sint (scExpiresAt c)"
    unfolding sq_expired [OF assms] sql_old_def by auto
  ultimately show ?thesis by (simp add: sql_where_def list_keep_def)
qed

lemma sq_plain_list:
  assumes "sq_valid tab" and "sq_fault_free E" and "sqNow E = now" and "time_ok now"
  shows "\<exists>rs. sq_List E f tab = Inr (page (lfOffset f) (lfLimit f) rs) \<and> spec_list now f (sq_rows tab) rs"
proof -
  let ?xs = "sort_key (\<lambda>(i, c). sint (scCreatedAt c)) (sort_key (\<lambda>(i, c). sqTie E c) (filter (\<lambda>(i, c). sql_where now f c) (DAList.impl_of tab)))"
  let ?g = "\<lambda>(i, c). the (sq_rows tab i)"
  have row: "scanRow i c = Inr (?g (i, c)) \<and> sq_rows tab i = Some (?g (i, c))" if "(i, c) \<in> set (DAList.impl_of tab)" for i c
    using sq_validD [OF assms(1) that] by auto
  have "mapE (\<lambda>(i, c). scanRow i c) (page (lfOffset f) (lfLimit f) ?xs) = Inr (map ?g (page (lfOffset f) (lfLimit f) ?xs))"
    by (rule mapE_Inr_map) (use row subsetD [OF set_page] in fastforce)
  then have "sq_List E f tab = Inr (page (lfOffset f) (lfLimit f) (map ?g ?xs))"
    using assms(2,3) by (simp add: sq_List_def sq_fault_free_def page_map)
  moreover have "spec_list now f (sq_rows tab) (map ?g ?xs)"
  proof (rule spec_list_ids)
    show "distinct (map fst (DAList.impl_of tab))" using DAList.impl_of [of tab] by simp
    show "set (map fst (DAList.impl_of tab)) = dom (sq_rows tab)" by (rule sq_dom [OF assms(1)])
    have w: "sql_where now f c \<longleftrightarrow> list_keep now f (the (sq_rows tab i))" if "(i, c) \<in> set (DAList.impl_of tab)" for i c
      using row [OF that] sql_where_keep [OF assms(4), of i c "the (sq_rows tab i)" f] by simp
    have fl: "filter (\<lambda>(i, c). sql_where now f c) (DAList.impl_of tab) = filter (\<lambda>(i, c). list_keep now f (the (sq_rows tab i))) (DAList.impl_of tab)"
      using w by (intro filter_cong) auto
    have "mset (map ?g ?xs) = mset (map ?g (filter (\<lambda>(i, c). sql_where now f c) (DAList.impl_of tab)))" by simp
    then show "mset (map ?g ?xs) = mset (map (the \<circ> sq_rows tab) (filter (list_keep now f \<circ> the \<circ> sq_rows tab) (map fst (DAList.impl_of tab))))"
      unfolding fl by (simp add: filter_map comp_def case_prod_unfold)
    have sc: "map smCreatedAt (map ?g ?xs) = map (\<lambda>(i, c). sint (scCreatedAt c)) ?xs"
    proof -
      have "smCreatedAt (?g (i, c)) = sint (scCreatedAt c)" if "(i, c) \<in> set (DAList.impl_of tab)" for i c
        using row [OF that] scanRow_sel(6) [of i c] by (simp add: unixTime_def)
      then show ?thesis by auto
    qed
    show "sorted (map smCreatedAt (map ?g ?xs))" by (simp only: sc sorted_sort_key)
  qed
  ultimately show ?thesis by blast
qed

lemma sq_plain_sweep:
  assumes "sq_valid tab" and "sq_fault_free E" and "time_ok t"
  shows "\<exists>tab'. sq_SweepExpired E t tab = ((None, card (expired_ids t (sq_rows tab))), tab') \<and> sq_valid tab' \<and> sq_rows tab' = spec_sweep t (sq_rows tab)"
proof -
  let ?al = "DAList.impl_of tab" and ?tab = "DAList.filter (\<lambda>(i, c). \<not> sql_old t c) tab"
  have dist: "distinct (map fst ?al)" using DAList.impl_of [of tab] by simp
  have old: "sql_old t c \<longleftrightarrow> row_expired t (the (sq_rows tab i))" if "(i, c) \<in> set ?al" for i c
    using sq_validD [OF assms(1) that] sq_expired [OF assms(3)] by auto
  have "length (filter (\<lambda>(i, c). sql_old t c) ?al) = length (filter (\<lambda>(i, c). row_expired t (the (sq_rows tab i))) ?al)"
    using old by (intro arg_cong [where f = length] filter_cong) auto
  also have "... = length (filter (row_expired t \<circ> the \<circ> sq_rows tab) (map fst ?al))"
    by (simp add: filter_map comp_def case_prod_unfold)
  finally have n: "length (filter (\<lambda>(i, c). sql_old t c) ?al) = card (expired_ids t (sq_rows tab))"
    using expired_count [OF dist sq_dom [OF assms(1)]] by simp
  have l: "DAList.lookup ?tab i = (case DAList.lookup tab i of None \<Rightarrow> None | Some c \<Rightarrow> if sql_old t c then None else Some c)" for i
    using dist by (simp add: DAList.lookup_def filter.rep_eq map_of_filter_values)
  have "sq_rows ?tab i = spec_sweep t (sq_rows tab) i" for i
    using sq_lookup_row [OF assms(1), of i] sq_expired [OF assms(3), of i]
    by (auto simp: sq_rows_def [of ?tab] l spec_sweep_def expired_ids_def split: option.splits)
  then show ?thesis using assms(2) n sq_valid_filter [OF assms(1)] by (simp add: sq_SweepExpired_def sq_fault_free_def Let_def fun_eq_iff)
qed

lemma sql_plain:
  assumes "\<And>now. sq_fault_free (env now) \<and> sqNow (env now) = now"
  shows "plain_store sql_store env DAList.empty sq_rows sq_valid"
proof (unfold_locales, unfold sql_store_def store_ops.simps, goal_cases)
  case 1 show ?case by (simp add: sq_valid_def DAList.empty.rep_eq sq_rows_def fun_eq_iff)
next
  case (2 s i m) then show ?case by (auto simp: sq_rows_def scanRow_sel split: option.splits sum.splits)
next
  case (3 s now m) with assms [of now] show ?case by (intro sq_plain_create) auto
next
  case (4 s now i)
  with assms [of now] sq_lookup_row [of s i] show ?case
    by (auto simp: sq_Get_def spec_get_def sq_fault_free_def split: option.splits)
next
  case (5 s now m) with assms [of now] show ?case by (intro sq_plain_update) auto
next
  case (6 s now i)
  with assms [of now] show ?case by (simp add: sq_Delete_def sq_fault_free_def sq_valid_drop sq_rows_drop spec_delete_def)
next
  case (7 s now f) with assms [of now] show ?case by (intro sq_plain_list) auto
next
  case (8 s t now) with assms [of now] show ?case by (intro sq_plain_sweep) auto
qed

interpretation sql_quiet: plain_store sql_store sq_quiet DAList.empty sq_rows sq_valid
  by (rule sql_plain) simp

end
