(* ===== verification/Store_Conformance.thy ===== *)
theory Store_Conformance
  imports Store_Query
begin

text \<open>
  The conformance suite of migration stores (\<open>migrate/storetest/conformance.go\<close>). A sub-test takes the store, its environment at a time,
  a fresh state and the clock: \<open>t k\<close> is what the k-th look at the time sees. It is true if the sub-test passes. The ten workers of the
  race take turns, since an update is one step of the store; their order does not matter, as they send the same row.
  The suite is proved to pass in the context of \<open>plain_store\<close>, hence for both backends.
\<close>

subsection \<open>The suite\<close>

definition hour :: int where
  "hour = 3600 * 10 ^ 9"

definition newFixture :: "string \<Rightarrow> string \<Rightarrow> string \<Rightarrow> int \<Rightarrow> int \<Rightarrow> StoredMigration" where
  "newFixture i tenant status expiresAt clock =
     (let now = clock div 10 ^ 9 * 10 ^ 9 in
      \<lparr>smID = i, smTenantID = tenant, smStatus = status, smDomain = ''example.com'', smSourceSlug = [], smTargetSlug = [],
       smPreview = Some \<lparr>zDomain = ''example.com'', zRecords = [], zSource = [], zNameservers = [], zWarnings = []\<rparr>, smPreviewRecords = [],
       smTargetZoneID = [], smTargetNameservers = [], smApplyResults = [], smNSChangeInstructions = [], smErrorMessage = [],
       smCredentialBlob = [], smAccessToken = [], smExpiresAt = expiresAt, smVersion = 1, smCreatedAt = now, smUpdatedAt = now\<rparr>)"

text \<open>A failing call ends a sub-test.\<close>

definition must :: "(store_error option \<times> 'a) \<times> 's \<Rightarrow> ('a \<Rightarrow> 's \<Rightarrow> bool) \<Rightarrow> bool" where
  "must r k = (case r of ((None, x), s) \<Rightarrow> k x s | ((Some e, x), s) \<Rightarrow> False)"

definition must_get :: "store_error + 'a \<Rightarrow> ('a \<Rightarrow> bool) \<Rightarrow> bool" where
  "must_get r k = (case r of Inr x \<Rightarrow> k x | Inl e \<Rightarrow> False)"

type_synonym ('e, 's) subtest = "('e, 's) store_ops \<Rightarrow> (int \<Rightarrow> 'e) \<Rightarrow> 's \<Rightarrow> (nat \<Rightarrow> int) \<Rightarrow> bool"

definition create_and_get :: "('e, 's) subtest" where
  "create_and_get S env s0 t =
     must (stCreate S (env (t 2)) (newFixture ''m1'' ''tenant-a'' StatusPreview (t 0 + hour) (t 1)) s0) (\<lambda>_ s.
     must_get (stGet S (env (t 3)) ''m1'' s) (\<lambda>got.
     smID got = ''m1'' \<and> smTenantID got = ''tenant-a'' \<and> smStatus got = StatusPreview \<and> smDomain got = ''example.com''))"

definition get_not_found :: "('e, 's) subtest" where
  "get_not_found S env s0 t \<longleftrightarrow> stGet S (env (t 0)) ''missing'' s0 = Inl ErrNotFound"

definition create_duplicate :: "('e, 's) subtest" where
  "create_duplicate S env s0 t =
     must (stCreate S (env (t 2)) (newFixture ''dup'' ''t'' StatusPreview (t 0 + hour) (t 1)) s0) (\<lambda>m s.
     fst (fst (stCreate S (env (t 3)) m s)) \<noteq> None)"

definition update_happy_path :: "('e, 's) subtest" where
  "update_happy_path S env s0 t =
     must (stCreate S (env (t 2)) (newFixture ''u1'' ''t'' StatusPreview (t 0 + hour) (t 1)) s0) (\<lambda>_ s1.
     must_get (stGet S (env (t 3)) ''u1'' s1) (\<lambda>loaded.
     must (stUpdate S (env (t 4)) (loaded\<lparr>smStatus := StatusApplying, smVersion := smVersion loaded + 1\<rparr>) s1) (\<lambda>loaded s2.
     must_get (stGet S (env (t 5)) ''u1'' s2) (\<lambda>got.
     smStatus got = StatusApplying \<and> smVersion got = smVersion loaded))))"

definition update_stale_version :: "('e, 's) subtest" where
  "update_stale_version S env s0 t =
     must (stCreate S (env (t 2)) (newFixture ''u2'' ''t'' StatusPreview (t 0 + hour) (t 1)) s0) (\<lambda>_ s1.
     must_get (stGet S (env (t 3)) ''u2'' s1) (\<lambda>a.
     must_get (stGet S (env (t 4)) ''u2'' s1) (\<lambda>b.
     must (stUpdate S (env (t 5)) (a\<lparr>smStatus := StatusApplying, smVersion := smVersion a + 1\<rparr>) s1) (\<lambda>_ s2.
     fst (fst (stUpdate S (env (t 6)) (b\<lparr>smStatus := StatusFailedRow, smVersion := smVersion b + 1\<rparr>) s2)) = Some ErrVersionMismatch))))"

definition update_not_found :: "('e, 's) subtest" where
  "update_not_found S env s0 t \<longleftrightarrow>
     fst (fst (stUpdate S (env (t 2)) ((newFixture ''ghost'' ''t'' StatusPreview (t 0 + hour) (t 1))\<lparr>smVersion := 2\<rparr>) s0))
       \<in> {Some ErrNotFound, Some ErrVersionMismatch}"

definition delete_happy_path :: "('e, 's) subtest" where
  "delete_happy_path S env s0 t =
     must (stCreate S (env (t 2)) (newFixture ''d1'' ''t'' StatusPreview (t 0 + hour) (t 1)) s0) (\<lambda>_ s1.
     case stDelete S (env (t 3)) ''d1'' s1 of (e, s2) \<Rightarrow> e = None \<and> stGet S (env (t 4)) ''d1'' s2 = Inl ErrNotFound)"

definition delete_idempotent :: "('e, 's) subtest" where
  "delete_idempotent S env s0 t \<longleftrightarrow> fst (stDelete S (env (t 0)) ''never-existed'' s0) = None"

definition no_filter :: ListFilter where
  "no_filter = \<lparr>lfTenantID = [], lfStatus = [], lfLimit = 0, lfOffset = 0\<rparr>"

definition list_empty :: "('e, 's) subtest" where
  "list_empty S env s0 t = must_get (stList S (env (t 0)) no_filter s0) (\<lambda>rows. rows = [])"

text \<open>Rows created one after the other, from the k-th look at the clock on: every error ends the sub-test, or is ignored.\<close>

type_synonym fixture = "string \<times> string \<times> string \<times> int"

fun create_all :: "('e, 's) store_ops \<Rightarrow> (int \<Rightarrow> 'e) \<Rightarrow> (nat \<Rightarrow> int) \<Rightarrow> nat \<Rightarrow> fixture list \<Rightarrow> 's \<Rightarrow> ('s \<Rightarrow> bool) \<Rightarrow> bool" where
  "create_all S env t k [] s c = c s"
| "create_all S env t k ((i, tenant, status, expires) # fs) s c =
     must (stCreate S (env (t (k + 1))) (newFixture i tenant status expires (t k)) s) (\<lambda>_ s'. create_all S env t (k + 2) fs s' c)"

fun create_some :: "('e, 's) store_ops \<Rightarrow> (int \<Rightarrow> 'e) \<Rightarrow> (nat \<Rightarrow> int) \<Rightarrow> nat \<Rightarrow> fixture list \<Rightarrow> 's \<Rightarrow> 's" where
  "create_some S env t k [] s = s"
| "create_some S env t k ((i, tenant, status, expires) # fs) s =
     create_some S env t (k + 2) fs (snd (stCreate S (env (t (k + 1))) (newFixture i tenant status expires (t k)) s))"

definition list_all_rows :: "('e, 's) subtest" where
  "list_all_rows S env s0 t =
     create_all S env t 1 (map (\<lambda>i. (i, ''t'', StatusPreview, t 0 + hour)) [''a'', ''b'', ''c'']) s0 (\<lambda>s.
     must_get (stList S (env (t 7)) no_filter s) (\<lambda>rows. length rows = 3))"

definition list_filter_tenant :: "('e, 's) subtest" where
  "list_filter_tenant S env s0 t =
     (let s = create_some S env t 1 [(''a'', ''t1'', StatusPreview, t 0 + hour), (''b'', ''t2'', StatusPreview, t 0 + hour),
                (''c'', ''t1'', StatusPreview, t 0 + hour)] s0 in
      must_get (stList S (env (t 7)) (no_filter\<lparr>lfTenantID := ''t1''\<rparr>) s) (\<lambda>rows.
      length rows = 2 \<and> list_all (\<lambda>r. smTenantID r = ''t1'') rows))"

definition list_filter_status :: "('e, 's) subtest" where
  "list_filter_status S env s0 t =
     (let s = create_some S env t 1 [(''a'', ''t'', StatusPreview, t 0 + hour), (''b'', ''t'', StatusComplete, t 0 + hour),
                (''c'', ''t'', StatusComplete, t 0 + hour)] s0 in
      must_get (stList S (env (t 7)) (no_filter\<lparr>lfStatus := StatusComplete\<rparr>) s) (\<lambda>rows.
      length rows = 2 \<and> list_all (\<lambda>r. smStatus r = StatusComplete) rows))"

definition list_pagination :: "('e, 's) subtest" where
  "list_pagination S env s0 t =
     create_all S env t 1 (map (\<lambda>i. (i, ''t'', StatusPreview, t 0 + hour)) [''a'', ''b'', ''c'', ''d'', ''e'']) s0 (\<lambda>s.
     must_get (stList S (env (t 11)) (no_filter\<lparr>lfLimit := 2\<rparr>) s) (\<lambda>rows. length rows = 2
       \<and> must_get (stList S (env (t 12)) (no_filter\<lparr>lfLimit := 2, lfOffset := 2\<rparr>) s) (\<lambda>rows2. length rows2 = 2)))"

definition sweep_expired :: "('e, 's) subtest" where
  "sweep_expired S env s0 t =
     (let s = create_some S env t 2 [(''old1'', ''t'', StatusPreview, t 0 - hour), (''old2'', ''t'', StatusPreview, t 0 - hour),
                (''new1'', ''t'', StatusPreview, t 1 + hour)] s0 in
      case stSweep S (env (t 9)) (t 8) s of ((e, n), s') \<Rightarrow>
        e = None \<and> n = 2 \<and> stGet S (env (t 10)) ''old1'' s' = Inl ErrNotFound \<and> must_get (stGet S (env (t 11)) ''new1'' s') (\<lambda>_. True))"

definition sweep_none_expired :: "('e, 's) subtest" where
  "sweep_none_expired S env s0 t =
     (let s = create_some S env t 1 [(''a'', ''t'', StatusPreview, t 0 + hour)] s0 in
      case stSweep S (env (t 4)) (t 3) s of ((e, n), s') \<Rightarrow> e = None \<and> n = 0)"

text \<open>The workers in the order of their updates: how many win, how many see a mismatch; no other error is allowed.\<close>

fun race :: "('e, 's) store_ops \<Rightarrow> (int \<Rightarrow> 'e) \<Rightarrow> (nat \<Rightarrow> int) \<Rightarrow> StoredMigration \<Rightarrow> nat \<Rightarrow> nat \<Rightarrow> 's \<Rightarrow> (nat \<times> nat) option" where
  "race S env t base k 0 s = Some (0, 0)"
| "race S env t base k (Suc n) s =
     (case stUpdate S (env (t k)) (base\<lparr>smStatus := StatusApplying, smVersion := smVersion base + 1\<rparr>) s of
        ((e, _), s') \<Rightarrow>
          (case race S env t base (Suc k) n s' of
             None \<Rightarrow> None
           | Some (wins, mismatches) \<Rightarrow>
               if e = None then Some (Suc wins, mismatches)
               else if e = Some ErrVersionMismatch then Some (wins, Suc mismatches)
               else None))"

definition concurrent_update :: "('e, 's) subtest" where
  "concurrent_update S env s0 t =
     must (stCreate S (env (t 2)) (newFixture ''race'' ''t'' StatusPreview (t 0 + hour) (t 1)) s0) (\<lambda>_ s1.
     must_get (stGet S (env (t 3)) ''race'' s1) (\<lambda>base.
     race S env t base 4 10 s1 = Some (1, 9)))"

definition RunConformance :: "('e, 's) subtest" where
  "RunConformance S env s0 t \<longleftrightarrow>
     create_and_get S env s0 t \<and> get_not_found S env s0 t \<and> create_duplicate S env s0 t \<and> update_happy_path S env s0 t
     \<and> update_stale_version S env s0 t \<and> update_not_found S env s0 t \<and> delete_happy_path S env s0 t \<and> delete_idempotent S env s0 t
     \<and> list_empty S env s0 t \<and> list_all_rows S env s0 t \<and> list_filter_tenant S env s0 t \<and> list_filter_status S env s0 t
     \<and> list_pagination S env s0 t \<and> sweep_expired S env s0 t \<and> sweep_none_expired S env s0 t \<and> concurrent_update S env s0 t"

text \<open>A run that takes less than an hour, between 1970 and the end of the 64-bit nanoseconds.\<close>

definition prompt :: "(nat \<Rightarrow> int) \<Rightarrow> bool" where
  "prompt t \<longleftrightarrow> hour \<le> t 0 \<and> t 0 + 2 * hour \<le> int64_max \<and> (\<forall>k. t 0 \<le> t k \<and> t k < t 0 + hour)"

subsection \<open>Fixtures\<close>

lemma zero_time_neg: "zero_time < 0"
  by (simp add: zero_time_def)

lemma stamped [simp]:
  "smID (stamp_new now (newFixture i tn st ex c)) = i" "smTenantID (stamp_new now (newFixture i tn st ex c)) = tn"
  "smStatus (stamp_new now (newFixture i tn st ex c)) = st" "smDomain (stamp_new now (newFixture i tn st ex c)) = ''example.com''"
  "smExpiresAt (stamp_new now (newFixture i tn st ex c)) = ex" "smVersion (stamp_new now (newFixture i tn st ex c)) = 1"
  "smID (newFixture i tn st ex c) = i" "smVersion (newFixture i tn st ex c) = 1" "smExpiresAt (newFixture i tn st ex c) = ex"
  by (simp_all add: stamp_new_def newFixture_def Let_def)

definition fixture_ok :: "fixture \<Rightarrow> bool" where
  "fixture_ok f \<longleftrightarrow> (case f of (i, tenant, status, expires) \<Rightarrow>
     list_all (\<lambda>c. byte c < 128) (i @ tenant @ status) \<and> i \<noteq> [] \<and> hd i \<noteq> CHR ''.'' \<and> time_ok expires)"

lemma fixture_row:
  assumes "fixture_ok (i, tn, st, ex)" and "time_ok c" and "time_ok now"
  shows "row_ok now (newFixture i tn st ex c)" and "row_ok now (stamp_new now' (newFixture i tn st ex c))"
    and "row_ok now ((newFixture i tn st ex c)\<lparr>smVersion := v\<rparr>)"
proof -
  have u: "utf8_ok i" "utf8_ok tn" "utf8_ok st" "utf8_ok ''example.com''" using assms(1) by (auto simp: fixture_ok_def intro!: utf8_ascii) (simp_all add: byte_def)
  have c: "time_ok (c div 10 ^ 9 * 10 ^ 9)"
  proof -
    have "0 \<le> c div 10 ^ 9 * 10 ^ 9" "c div 10 ^ 9 * 10 ^ 9 \<le> c" using assms(2) by (simp_all add: time_ok_def pos_imp_zdiv_nonneg_iff minus_mod_eq_div_mult [symmetric] zmod_le_nonneg_dividend)
    with assms(2) show ?thesis unfolding time_ok_def by linarith
  qed
  then have nz: "c div 10 ^ 9 * 10 ^ 9 \<noteq> zero_time" using zero_time_neg by (auto simp: time_ok_def)
  have w: "row_wf (newFixture i tn st ex c)" using u by (simp add: row_wf_def newFixture_def Let_def zone_wf_def)
  then show r: "row_ok now (newFixture i tn st ex c)" using assms c by (simp add: row_ok_def fixture_ok_def newFixture_def Let_def)
  show "row_ok now (stamp_new now' (newFixture i tn st ex c))"
    using r nz by (simp add: row_ok_def row_wf_stamps row_simps) (simp add: stamp_new_def newFixture_def Let_def)
  show "row_ok now ((newFixture i tn st ex c)\<lparr>smVersion := v\<rparr>)" using r by (simp add: row_ok_def row_wf_def)
qed

lemma row_ok_change: "row_ok now m \<Longrightarrow> list_all (\<lambda>c. byte c < 128) st \<Longrightarrow> row_ok now (m\<lparr>smStatus := st, smVersion := v\<rparr>)"
  by (simp add: row_ok_def row_wf_def utf8_ascii)

lemma prompt_times:
  assumes "prompt t"
  shows "time_ok (t k)" "time_ok (t k + hour)" "time_ok (t k - hour)" "\<not> t j + hour < t k" "t j - hour < t k" "t k + hour \<noteq> zero_time" "t k - hour \<noteq> zero_time"
proof -
  have h: "t 0 \<le> t k" "t k < t 0 + hour" "hour \<le> t 0" "t 0 + 2 * hour \<le> int64_max" "t 0 \<le> t j" "t j < t 0 + hour" "0 < hour"
    using assms by (simp_all add: prompt_def) (simp add: hour_def)
  then show "time_ok (t k)" "time_ok (t k + hour)" "time_ok (t k - hour)" "\<not> t j + hour < t k" "t j - hour < t k"
    unfolding time_ok_def by linarith+
  show "t k + hour \<noteq> zero_time" "t k - hour \<noteq> zero_time" using h zero_time_neg by linarith+
qed

fun batch :: "(nat \<Rightarrow> int) \<Rightarrow> nat \<Rightarrow> fixture list \<Rightarrow> row_map \<Rightarrow> row_map" where
  "batch t k [] M = M"
| "batch t k ((i, tn, st, ex) # fs) M = batch t (k + 2) fs (M(i \<mapsto> stamp_new (t (k + 1)) (newFixture i tn st ex (t k))))"

lemma listed_empty [simp]: "listed now f Map.empty = {}"
  by (simp add: listed_def)

lemma listed_upd [simp]:
  "listed now f (M(i \<mapsto> m)) = (if list_keep now f m then insert i (listed now f M) else listed now f M - {i})"
  by (auto simp: listed_def)

lemma expired_empty [simp]: "expired_ids now Map.empty = {}"
  by (simp add: expired_ids_def)

lemma expired_upd [simp]:
  "expired_ids now (M(i \<mapsto> m)) = (if row_expired now m then insert i (expired_ids now M) else expired_ids now M - {i})"
  by (auto simp: expired_ids_def)

lemma spec_list_length: "spec_list now f M rs \<Longrightarrow> length rs = card (listed now f M)"
  unfolding spec_list_def by (metis size_image_mset size_mset size_mset_set)

lemma spec_list_mem: "spec_list now f M rs \<Longrightarrow> r \<in> set rs \<Longrightarrow> \<exists>i m. M i = Some m \<and> r = m \<and> list_keep now f m"
proof -
  assume s: "spec_list now f M rs" and r: "r \<in> set rs"
  then have "r \<in> (the \<circ> M) ` listed now f M" unfolding spec_list_def by (metis finite_set_mset_mset_set set_image_mset set_mset_mset)
  then show ?thesis by (auto simp: listed_def)
qed

subsection \<open>Steps\<close>

context plain_store
begin

lemma must_create:
  assumes "ok s" and "row_ok now m" and "abs s (smID m) = None"
    and "\<And>s'. ok s' \<Longrightarrow> abs s' = (abs s)(smID m \<mapsto> stamp_new now m) \<Longrightarrow> k (stamp_new now m) s'"
  shows "must (stCreate S (env now) m s) k"
  using create [OF assms(1,2)] assms(3,4) by (auto simp: spec_create_def must_def)

lemma must_update:
  assumes "ok s" and "row_ok now m" and "abs s (smID m) = Some r" and "smVersion r + 1 = smVersion m"
    and "\<And>m' s'. ok s' \<Longrightarrow> smVersion m' = smVersion m
      \<Longrightarrow> abs s' = (abs s)(smID m \<mapsto> m\<lparr>smCreatedAt := smCreatedAt r, smUpdatedAt := now\<rparr>) \<Longrightarrow> k m' s'"
  shows "must (stUpdate S (env now) m s) k"
  using update [OF assms(1,2)] assms(3,4,5) by (auto simp: spec_update_def must_def)

lemma update_refused:
  assumes "ok s" and "row_ok now m" and "abs s (smID m) = Some r" and "smVersion r + 1 \<noteq> smVersion m"
  shows "\<exists>m' s'. stUpdate S (env now) m s = ((Some ErrVersionMismatch, m'), s') \<and> ok s' \<and> abs s' = abs s"
  using update [OF assms(1,2)] assms(3,4) by (auto simp: spec_update_def)

lemma must_get_row:
  assumes "ok s" and "abs s i = Some m" and "\<not> row_expired now m"
  shows "must_get (stGet S (env now) i s) k = k m"
  using get [OF assms(1), of now i] assms by (simp add: spec_get_def must_get_def)

lemma create_some_batch:
  assumes "ok s" and "prompt t" and "list_all fixture_ok fs" and "distinct (map fst fs)" and "\<forall>i \<in> fst ` set fs. abs s i = None"
  shows "ok (create_some S env t k fs s) \<and> abs (create_some S env t k fs s) = batch t k fs (abs s)"
  using assms(1,3-)
proof (induction fs arbitrary: k s)
  case (Cons f fs)
  obtain i tn st ex where f: "f = (i, tn, st, ex)" by (cases f)
  let ?m = "newFixture i tn st ex (t k)"
  have "row_ok (t (k + 1)) ?m" using Cons.prems(2) prompt_times(1) [OF assms(2)] f by (intro fixture_row) simp_all
  moreover have "abs s i = None" using Cons.prems(4) f by auto
  ultimately obtain m' s' where s': "stCreate S (env (t (k + 1))) ?m s = ((None, m'), s')" "ok s'" "abs s' = (abs s)(i \<mapsto> stamp_new (t (k + 1)) ?m)"
    using create [OF Cons.prems(1), of "t (k + 1)" ?m] by (auto simp: spec_create_def)
  have new: "\<forall>j \<in> fst ` set fs. abs s' j = None" using Cons.prems(3,4) f s'(3) by auto
  have "list_all fixture_ok fs" "distinct (map fst fs)" using Cons.prems(2,3) by simp_all
  from Cons.IH [OF s'(2) this new, of "k + 2"] show ?case
    unfolding f create_some.simps batch.simps s'(1) snd_conv s'(3) .
qed simp

lemma create_all_batch:
  assumes "ok s" and "prompt t" and "list_all fixture_ok fs" and "distinct (map fst fs)" and "\<forall>i \<in> fst ` set fs. abs s i = None"
    and "\<And>s'. ok s' \<Longrightarrow> abs s' = batch t k fs (abs s) \<Longrightarrow> c s'"
  shows "create_all S env t k fs s c"
  using assms(1,3-)
proof (induction fs arbitrary: k s)
  case (Cons f fs)
  obtain i tn st ex where f: "f = (i, tn, st, ex)" by (cases f)
  have "row_ok (t (k + 1)) (newFixture i tn st ex (t k))" using Cons.prems(2) prompt_times(1) [OF assms(2)] f by (intro fixture_row) simp_all
  then show ?case unfolding f create_all.simps
  proof (rule must_create [OF Cons.prems(1)])
    show "abs s (smID (newFixture i tn st ex (t k))) = None" using Cons.prems(4) f by auto
    fix s' assume s': "ok s'" "abs s' = (abs s)(smID (newFixture i tn st ex (t k)) \<mapsto> stamp_new (t (k + 1)) (newFixture i tn st ex (t k)))"
    have new: "\<forall>j \<in> fst ` set fs. abs s' j = None" using Cons.prems(3,4) f s'(2) by auto
    have rest: "list_all fixture_ok fs" "distinct (map fst fs)" using Cons.prems(2,3) by simp_all
    show "create_all S env t (k + 2) fs s' c"
      by (rule Cons.IH [OF s'(1) rest new]) (use Cons.prems(5) in \<open>simp only: f batch.simps s'(2) stamped\<close>)
  qed
qed simp

lemma must_list:
  assumes "ok s" and "time_ok now"
    and "\<And>rs. spec_list now f (abs s) rs \<Longrightarrow> k (page (lfOffset f) (lfLimit f) rs)"
  shows "must_get (stList S (env now) f s) k"
  using list [OF assms(1,2), of f] assms(3) by (auto simp: must_get_def)

end

subsection \<open>The suite passes\<close>

lemma ascii_names: "fixture_ok (i, tn, st, ex) \<longleftrightarrow> list_all (\<lambda>c. of_char c < (128 :: nat)) (i @ tn @ st) \<and> i \<noteq> [] \<and> hd i \<noteq> CHR ''.'' \<and> time_ok ex"
  by (simp add: fixture_ok_def byte_def)

context plain_store
begin

text \<open>A sub-test that starts with the creation of one row.\<close>

lemma must_create_first:
  assumes "prompt t" and "fixture_ok (i, tn, st, t 0 + hour)"
    and "\<And>s. ok s \<Longrightarrow> abs s = [i \<mapsto> stamp_new (t 2) (newFixture i tn st (t 0 + hour) (t 1))] \<Longrightarrow>
      k (stamp_new (t 2) (newFixture i tn st (t 0 + hour) (t 1))) s"
  shows "must (stCreate S (env (t 2)) (newFixture i tn st (t 0 + hour) (t 1)) s0) k"
  using start assms(3) by (intro must_create fixture_row assms(1,2) prompt_times) auto

lemma fresh_row: "prompt t \<Longrightarrow> \<not> row_expired (t j) (stamp_new now (newFixture i tn st (t k + hour) c))"
  using prompt_times(4) [of t k j] by (simp add: row_expired_def)

lemma pass_create_and_get: "prompt t \<Longrightarrow> create_and_get S env s0 t"
  unfolding create_and_get_def
  by (rule must_create_first) (simp_all add: ascii_names prompt_times must_get_row [OF _ _ fresh_row])

lemma pass_get_not_found: "get_not_found S env s0 t"
  using start get [of s0] by (simp add: get_not_found_def spec_get_def)

lemma pass_create_duplicate:
  assumes p: "prompt t"
  shows "create_duplicate S env s0 t"
  unfolding create_duplicate_def
proof (rule must_create_first [OF p])
  show f: "fixture_ok (''dup'', ''t'', StatusPreview, t 0 + hour)" using p by (simp add: ascii_names prompt_times)
  let ?m = "stamp_new (t 2) (newFixture ''dup'' ''t'' StatusPreview (t 0 + hour) (t 1))"
  fix s assume s: "ok s" "abs s = [''dup'' \<mapsto> ?m]"
  have "row_ok (t 3) ?m" by (intro fixture_row(2) [OF f] prompt_times(1) [OF p])
  from create [OF s(1) this] s(2) show "fst (fst (stCreate S (env (t 3)) ?m s)) \<noteq> None" by (auto simp: spec_create_def)
qed

lemma pass_update_happy_path:
  assumes p: "prompt t"
  shows "update_happy_path S env s0 t"
  unfolding update_happy_path_def
proof (rule must_create_first [OF p])
  show f: "fixture_ok (''u1'', ''t'', StatusPreview, t 0 + hour)" using p by (simp add: ascii_names prompt_times)
  let ?m = "stamp_new (t 2) (newFixture ''u1'' ''t'' StatusPreview (t 0 + hour) (t 1))"
  let ?u = "?m\<lparr>smStatus := StatusApplying, smVersion := smVersion ?m + 1\<rparr>"
  have u: "row_ok (t 4) ?u" by (intro row_ok_change fixture_row(2) [OF f] prompt_times(1) [OF p]) (simp add: byte_def)
  fix s assume s: "ok s" "abs s = [''u1'' \<mapsto> ?m]"
  then have "abs s ''u1'' = Some ?m" by simp
  from must_get_row [OF s(1) this fresh_row [OF p]] have g: "must_get (stGet S (env (t j)) ''u1'' s) c = c ?m" for j c .
  have "must (stUpdate S (env (t 4)) ?u s) (\<lambda>loaded s2. must_get (stGet S (env (t 5)) ''u1'' s2) (\<lambda>got.
     smStatus got = StatusApplying \<and> smVersion got = smVersion loaded))"
  proof (rule must_update [OF s(1) u])
    fix m' s' assume a: "ok s'" "smVersion m' = smVersion ?u"
      "abs s' = (abs s)(smID ?u \<mapsto> ?u\<lparr>smCreatedAt := smCreatedAt ?m, smUpdatedAt := t 4\<rparr>)"
    have e: "\<not> row_expired (t 5) (?u\<lparr>smCreatedAt := smCreatedAt ?m, smUpdatedAt := t 4\<rparr>)"
      using fresh_row [OF p, of 5] by (simp add: row_expired_def)
    have "abs s' ''u1'' = Some (?u\<lparr>smCreatedAt := smCreatedAt ?m, smUpdatedAt := t 4\<rparr>)" using a(3) by simp
    from must_get_row [OF a(1) this e] a(2)
    show "must_get (stGet S (env (t 5)) ''u1'' s') (\<lambda>got. smStatus got = StatusApplying \<and> smVersion got = smVersion m')" by simp
  qed (simp_all add: s(2))
  then show "must_get (stGet S (env (t 3)) ''u1'' s) (\<lambda>loaded. must (stUpdate S (env (t 4)) (loaded\<lparr>smStatus := StatusApplying, smVersion := smVersion loaded + 1\<rparr>) s)
      (\<lambda>loaded s2. must_get (stGet S (env (t 5)) ''u1'' s2) (\<lambda>got. smStatus got = StatusApplying \<and> smVersion got = smVersion loaded)))"
    unfolding g .
qed

lemma pass_update_stale_version:
  assumes p: "prompt t"
  shows "update_stale_version S env s0 t"
  unfolding update_stale_version_def
proof (rule must_create_first [OF p])
  show f: "fixture_ok (''u2'', ''t'', StatusPreview, t 0 + hour)" using p by (simp add: ascii_names prompt_times)
  let ?m = "stamp_new (t 2) (newFixture ''u2'' ''t'' StatusPreview (t 0 + hour) (t 1))"
  let ?u = "\<lambda>st. ?m\<lparr>smStatus := st, smVersion := smVersion ?m + 1\<rparr>"
  have u: "row_ok (t k) (?u StatusApplying)" "row_ok (t k) (?u StatusFailedRow)" for k
    by (intro row_ok_change fixture_row(2) [OF f] prompt_times(1) [OF p]; simp add: byte_def)+
  fix s assume s: "ok s" "abs s = [''u2'' \<mapsto> ?m]"
  then have "abs s ''u2'' = Some ?m" by simp
  from must_get_row [OF s(1) this fresh_row [OF p]] have g: "must_get (stGet S (env (t j)) ''u2'' s) c = c ?m" for j c .
  have "must (stUpdate S (env (t 5)) (?u StatusApplying) s) (\<lambda>_ s2. fst (fst (stUpdate S (env (t 6)) (?u StatusFailedRow) s2)) = Some ErrVersionMismatch)"
  proof (rule must_update [OF s(1) u(1)])
    fix m' s' assume a: "ok s'"
      "abs s' = (abs s)(smID (?u StatusApplying) \<mapsto> (?u StatusApplying)\<lparr>smCreatedAt := smCreatedAt ?m, smUpdatedAt := t 5\<rparr>)"
    from update_refused [OF a(1) u(2) [of 6]] a(2) show "fst (fst (stUpdate S (env (t 6)) (?u StatusFailedRow) s')) = Some ErrVersionMismatch"
      by auto
  qed (simp_all add: s(2))
  then show "must_get (stGet S (env (t 3)) ''u2'' s) (\<lambda>a. must_get (stGet S (env (t 4)) ''u2'' s) (\<lambda>b.
      must (stUpdate S (env (t 5)) (a\<lparr>smStatus := StatusApplying, smVersion := smVersion a + 1\<rparr>) s) (\<lambda>_ s2.
      fst (fst (stUpdate S (env (t 6)) (b\<lparr>smStatus := StatusFailedRow, smVersion := smVersion b + 1\<rparr>) s2)) = Some ErrVersionMismatch)))"
    unfolding g .
qed

lemma pass_update_not_found:
  assumes p: "prompt t"
  shows "update_not_found S env s0 t"
proof -
  have f: "fixture_ok (''ghost'', ''t'', StatusPreview, t 0 + hour)" using p by (simp add: ascii_names prompt_times)
  have "row_ok (t 2) ((newFixture ''ghost'' ''t'' StatusPreview (t 0 + hour) (t 1))\<lparr>smVersion := 2\<rparr>)"
    by (intro fixture_row(3) [OF f] prompt_times(1) [OF p])
  with update [of s0] start show ?thesis by (fastforce simp: update_not_found_def spec_update_def)
qed

lemma pass_delete_happy_path:
  assumes p: "prompt t"
  shows "delete_happy_path S env s0 t"
  unfolding delete_happy_path_def
proof (rule must_create_first [OF p])
  show "fixture_ok (''d1'', ''t'', StatusPreview, t 0 + hour)" using p by (simp add: ascii_names prompt_times)
  fix s assume s: "ok s" "abs s = [''d1'' \<mapsto> stamp_new (t 2) (newFixture ''d1'' ''t'' StatusPreview (t 0 + hour) (t 1))]"
  from delete [OF s(1)] obtain s' where "stDelete S (env (t 3)) ''d1'' s = (None, s')" "ok s'" "abs s' = spec_delete ''d1'' (abs s)" by blast
  with get [of s'] show "case stDelete S (env (t 3)) ''d1'' s of (e, s2) \<Rightarrow> e = None \<and> stGet S (env (t 4)) ''d1'' s2 = Inl ErrNotFound"
    by (simp add: spec_delete_def spec_get_def)
qed

lemma pass_delete_idempotent: "delete_idempotent S env s0 t"
  using delete [of s0 "t 0" "''never-existed''"] start by (auto simp: delete_idempotent_def)

lemma pass_list_empty:
  assumes p: "prompt t"
  shows "list_empty S env s0 t"
  unfolding list_empty_def
proof (rule must_list)
  fix rs assume "spec_list (t 0) no_filter (abs s0) rs"
  from spec_list_length [OF this] start show "page (lfOffset no_filter) (lfLimit no_filter) rs = []" by (simp add: page_def no_filter_def)
qed (use start prompt_times [OF p] in auto)

lemma pass_list_all_rows:
  assumes p: "prompt t"
  shows "list_all_rows S env s0 t"
  unfolding list_all_rows_def
proof (rule create_all_batch [OF _ p])
  let ?fs = "map (\<lambda>i. (i, ''t'', StatusPreview, t 0 + hour)) [''a'', ''b'', ''c'']"
  fix s assume s: "ok s" "abs s = batch t 1 ?fs (abs s0)"
  have k: "list_keep (t 7) no_filter (stamp_new now (newFixture i tn st (t 0 + hour) c))" for now i tn st c
    using fresh_row [OF p] by (simp add: list_keep_def no_filter_def)
  show "must_get (stList S (env (t 7)) no_filter s) (\<lambda>rows. length rows = 3)"
  proof (rule must_list [OF s(1) prompt_times(1) [OF p]])
    fix rs assume "spec_list (t 7) no_filter (abs s) rs"
    from spec_list_length [OF this] k start show "length (page (lfOffset no_filter) (lfLimit no_filter) rs) = 3"
      by (simp add: s(2) page_def no_filter_def [symmetric]) (simp add: no_filter_def)
  qed
qed (use start p in \<open>auto simp: ascii_names prompt_times\<close>)

end

context plain_store
begin

lemma keep_fresh: "prompt t \<Longrightarrow> list_keep (t j) f (stamp_new now (newFixture i tn st (t k + hour) c))
    \<longleftrightarrow> (lfTenantID f = [] \<or> tn = lfTenantID f) \<and> (lfStatus f = [] \<or> st = lfStatus f)"
  using fresh_row by (simp add: list_keep_def)

lemma pass_list_filter_tenant:
  assumes p: "prompt t"
  shows "list_filter_tenant S env s0 t"
proof -
  let ?fs = "[(''a'', ''t1'', StatusPreview, t 0 + hour), (''b'', ''t2'', StatusPreview, t 0 + hour), (''c'', ''t1'', StatusPreview, t 0 + hour)]"
  let ?s = "create_some S env t 1 ?fs s0" and ?f = "no_filter\<lparr>lfTenantID := ''t1''\<rparr>"
  have s: "ok ?s \<and> abs ?s = batch t 1 ?fs (abs s0)"
    by (rule create_some_batch [OF _ p]) (use start p in \<open>auto simp: ascii_names prompt_times\<close>)
  have "must_get (stList S (env (t 7)) ?f ?s) (\<lambda>rows. length rows = 2 \<and> list_all (\<lambda>r. smTenantID r = ''t1'') rows)"
  proof (rule must_list [OF conjunct1 [OF s] prompt_times(1) [OF p]])
    fix rs assume rs: "spec_list (t 7) ?f (abs ?s) rs"
    have "length rs = 2" using spec_list_length [OF rs] start unfolding conjunct2 [OF s] by (simp add: keep_fresh [OF p]) (simp add: no_filter_def)
    moreover have "list_all (\<lambda>r. smTenantID r = ''t1'') rs" using spec_list_mem [OF rs] by (fastforce simp: list_all_iff list_keep_def)
    moreover have "page (lfOffset ?f) (lfLimit ?f) rs = rs" by (simp add: page_def no_filter_def)
    ultimately show "length (page (lfOffset ?f) (lfLimit ?f) rs) = 2 \<and> list_all (\<lambda>r. smTenantID r = ''t1'') (page (lfOffset ?f) (lfLimit ?f) rs)" by simp
  qed
  then show ?thesis by (simp add: list_filter_tenant_def Let_def)
qed

lemma pass_list_filter_status:
  assumes p: "prompt t"
  shows "list_filter_status S env s0 t"
proof -
  let ?fs = "[(''a'', ''t'', StatusPreview, t 0 + hour), (''b'', ''t'', StatusComplete, t 0 + hour), (''c'', ''t'', StatusComplete, t 0 + hour)]"
  let ?s = "create_some S env t 1 ?fs s0" and ?f = "no_filter\<lparr>lfStatus := StatusComplete\<rparr>"
  have s: "ok ?s \<and> abs ?s = batch t 1 ?fs (abs s0)"
    by (rule create_some_batch [OF _ p]) (use start p in \<open>auto simp: ascii_names prompt_times\<close>)
  have "must_get (stList S (env (t 7)) ?f ?s) (\<lambda>rows. length rows = 2 \<and> list_all (\<lambda>r. smStatus r = StatusComplete) rows)"
  proof (rule must_list [OF conjunct1 [OF s] prompt_times(1) [OF p]])
    fix rs assume rs: "spec_list (t 7) ?f (abs ?s) rs"
    have "length rs = 2" using spec_list_length [OF rs] start unfolding conjunct2 [OF s] by (simp add: keep_fresh [OF p]) (simp add: no_filter_def)
    moreover have "list_all (\<lambda>r. smStatus r = StatusComplete) rs" using spec_list_mem [OF rs] by (fastforce simp: list_all_iff list_keep_def)
    moreover have "page (lfOffset ?f) (lfLimit ?f) rs = rs" by (simp add: page_def no_filter_def)
    ultimately show "length (page (lfOffset ?f) (lfLimit ?f) rs) = 2 \<and> list_all (\<lambda>r. smStatus r = StatusComplete) (page (lfOffset ?f) (lfLimit ?f) rs)" by simp
  qed
  then show ?thesis by (simp add: list_filter_status_def Let_def)
qed

lemma pass_list_pagination:
  assumes p: "prompt t"
  shows "list_pagination S env s0 t"
  unfolding list_pagination_def
proof (rule create_all_batch [OF _ p])
  let ?fs = "map (\<lambda>i. (i, ''t'', StatusPreview, t 0 + hour)) [''a'', ''b'', ''c'', ''d'', ''e'']"
  fix s assume s: "ok s" "abs s = batch t 1 ?fs (abs s0)"
  have five: "length rs = 5" if "spec_list (t j) f (abs s) rs" "lfTenantID f = []" "lfStatus f = []" for rs j f
    using spec_list_length [OF that(1)] start unfolding s(2) by (simp add: keep_fresh [OF p] that)
  have "must_get (stList S (env (t 12)) (no_filter\<lparr>lfLimit := 2, lfOffset := 2\<rparr>) s) (\<lambda>rows2. length rows2 = 2)"
    by (rule must_list [OF s(1) prompt_times(1) [OF p]]) (auto dest!: five simp: no_filter_def page_def)
  then show "must_get (stList S (env (t 11)) (no_filter\<lparr>lfLimit := 2\<rparr>) s) (\<lambda>rows. length rows = 2
       \<and> must_get (stList S (env (t 12)) (no_filter\<lparr>lfLimit := 2, lfOffset := 2\<rparr>) s) (\<lambda>rows2. length rows2 = 2))"
    by (intro must_list [OF s(1) prompt_times(1) [OF p]]) (auto dest!: five simp: no_filter_def page_def)
qed (use start p in \<open>auto simp: ascii_names prompt_times\<close>)

lemma old_row: "prompt t \<Longrightarrow> row_expired (t j) (stamp_new now (newFixture i tn st (t k - hour) c))"
  using prompt_times(5,7) [of t k] by (simp add: row_expired_def)

lemma pass_sweep_expired:
  assumes p: "prompt t"
  shows "sweep_expired S env s0 t"
proof -
  let ?fs = "[(''old1'', ''t'', StatusPreview, t 0 - hour), (''old2'', ''t'', StatusPreview, t 0 - hour), (''new1'', ''t'', StatusPreview, t 1 + hour)]"
  define s where "s = create_some S env t 2 ?fs s0"
  have "ok s \<and> abs s = batch t 2 ?fs (abs s0)"
    unfolding s_def by (rule create_some_batch [OF _ p]) (use start p in \<open>auto simp: ascii_names prompt_times\<close>)
  then have s: "ok s" "abs s = batch t 2 ?fs Map.empty" using start by simp_all
  have x: "expired_ids (t 8) (abs s) = {''old1'', ''old2''}"
    using fresh_row [OF p] old_row [OF p] by (auto simp: s(2) simp del: One_nat_def)
  have c: "card {''old1'', ''old2''} = 2" by simp
  obtain s' where s': "stSweep S (env (t 9)) (t 8) s = ((None, 2), s')" "ok s'" "abs s' = spec_sweep (t 8) (abs s)"
    using sweep [OF s(1) prompt_times(1) [OF p], where now = "t 9" and k1 = 8] unfolding x c by blast
  have "abs s' ''old1'' = None" by (simp add: s'(3) spec_sweep_def x)
  then have "stGet S (env (t 10)) ''old1'' s' = Inl ErrNotFound" using get [OF s'(2)] by (simp add: spec_get_def)
  moreover have "abs s' ''new1'' = Some (stamp_new (t 7) (newFixture ''new1'' ''t'' StatusPreview (t 1 + hour) (t 6)))"
    unfolding s'(3) spec_sweep_def x by (simp add: s(2))
  then have "must_get (stGet S (env (t 11)) ''new1'' s') (\<lambda>_. True)" by (simp add: must_get_row [OF s'(2) _ fresh_row [OF p]])
  ultimately show ?thesis using s'(1) unfolding sweep_expired_def Let_def s_def [symmetric] by simp
qed

lemma pass_sweep_none_expired:
  assumes p: "prompt t"
  shows "sweep_none_expired S env s0 t"
proof -
  let ?fs = "[(''a'', ''t'', StatusPreview, t 0 + hour)]"
  define s where "s = create_some S env t 1 ?fs s0"
  have "ok s \<and> abs s = batch t 1 ?fs (abs s0)"
    unfolding s_def by (rule create_some_batch [OF _ p]) (use start p in \<open>auto simp: ascii_names prompt_times\<close>)
  then have s: "ok s" "abs s = batch t 1 ?fs Map.empty" using start by simp_all
  have x: "expired_ids (t 3) (abs s) = {}" using fresh_row [OF p] by (auto simp: s(2) simp del: One_nat_def)
  have "\<exists>s'. stSweep S (env (t 4)) (t 3) s = ((None, 0), s')"
    using sweep [OF s(1) prompt_times(1) [OF p], where now = "t 4" and k1 = 3] x by auto
  then show ?thesis unfolding sweep_none_expired_def Let_def s_def [symmetric] by auto
qed

text \<open>Once one worker has won, the others see a mismatch.\<close>

lemma race_lost:
  assumes "ok s" and "\<And>k. row_ok (t k) (base\<lparr>smStatus := StatusApplying, smVersion := smVersion base + 1\<rparr>)"
    and "abs s (smID base) = Some r" and "smVersion r = smVersion base + 1"
  shows "race S env t base k n s = Some (0, n)"
  using assms(1,3)
proof (induction n arbitrary: k s)
  case (Suc n)
  let ?u = "base\<lparr>smStatus := StatusApplying, smVersion := smVersion base + 1\<rparr>"
  have "abs s (smID ?u) = Some r" "smVersion r + 1 \<noteq> smVersion ?u" using Suc.prems(2) assms(4) by simp_all
  from update_refused [OF Suc.prems(1) assms(2) this, of k] obtain m' s' where
    "stUpdate S (env (t k)) ?u s = ((Some ErrVersionMismatch, m'), s')" "ok s'" "abs s' = abs s" by blast
  with Suc.IH [of s' "Suc k"] Suc.prems(2) show ?case by simp
qed simp

lemma pass_concurrent_update:
  assumes p: "prompt t"
  shows "concurrent_update S env s0 t"
  unfolding concurrent_update_def
proof (rule must_create_first [OF p])
  show f: "fixture_ok (''race'', ''t'', StatusPreview, t 0 + hour)" using p by (simp add: ascii_names prompt_times)
  let ?m = "stamp_new (t 2) (newFixture ''race'' ''t'' StatusPreview (t 0 + hour) (t 1))"
  let ?u = "?m\<lparr>smStatus := StatusApplying, smVersion := smVersion ?m + 1\<rparr>"
  have u: "row_ok (t k) ?u" for k by (intro row_ok_change fixture_row(2) [OF f] prompt_times(1) [OF p]) (simp add: byte_def)
  fix s assume s: "ok s" "abs s = [''race'' \<mapsto> ?m]"
  then have m: "abs s ''race'' = Some ?m" by simp
  from update [OF s(1) u, of 4] obtain m' s' where s': "stUpdate S (env (t 4)) ?u s = ((None, m'), s')" "ok s'"
    "abs s' ''race'' = Some (?u\<lparr>smCreatedAt := smCreatedAt ?m, smUpdatedAt := t 4\<rparr>)"
    by (auto simp: spec_update_def s(2))
  have "race S env t ?m 5 9 s' = Some (0, 9)" using s'(2,3) u by (intro race_lost) auto
  moreover have "(10 :: nat) = Suc 9" "Suc 4 = (5 :: nat)" by simp_all
  ultimately have "race S env t ?m 4 10 s = Some (1, 9)" using s'(1) by (simp only: race.simps) simp
  then show "must_get (stGet S (env (t 3)) ''race'' s) (\<lambda>base. race S env t base 4 10 s = Some (1, 9))"
    by (simp only: must_get_row [OF s(1) m fresh_row [OF p]])
qed

lemma conforms: "prompt t \<Longrightarrow> RunConformance S env s0 t"
  unfolding RunConformance_def
  by (intro conjI pass_create_and_get pass_get_not_found pass_create_duplicate pass_update_happy_path pass_update_stale_version
      pass_update_not_found pass_delete_happy_path pass_delete_idempotent pass_list_empty pass_list_all_rows pass_list_filter_tenant
      pass_list_filter_status pass_list_pagination pass_sweep_expired pass_sweep_none_expired pass_concurrent_update)

end

text \<open>Property C36. Both backends pass the conformance suite, whatever the clock shows in a run of less than an hour and whatever
  order they give to rows created at the same time.\<close>

theorem backends_conform:
  assumes "prompt t" and "\<forall>now. fault_free (env now) \<and> jeNow (env now) = now" and "\<forall>now. sq_fault_free (env' now) \<and> sqNow (env' now) = now"
  shows "RunConformance json_store env [] t \<and> RunConformance sql_store env' DAList.empty t"
  using assms plain_store.conforms [OF json_plain [of env]] plain_store.conforms [OF sql_plain [of env']] by blast

lemma backends_conform_witness:
  "RunConformance json_store quiet [] (\<lambda>k. 10 ^ 18 + int (min k 100)) \<and> RunConformance sql_store sq_quiet DAList.empty (\<lambda>k. 10 ^ 18 + int (min k 100))"
  by (rule backends_conform) (auto simp: prompt_def hour_def int64_max_def min_def)

end
