(* ===== verification/Store_Lock.thy ===== *)
theory Store_Lock
  imports Store_Json
begin

text \<open>
  The lock of a row (\<open>migrate/store_json_unix.go\<close>, \<open>migrate/store_json_windows.go\<close>) and what it makes of the operations of
  \<open>migrate/store_json.go\<close>, whose steps other processes may interleave: open and lock the sidecar file, look at the row, write it,
  release; \<open>Delete\<close> also unlinks the sidecar, after the release. A lock file is a path that is bound to an inode, the lock belongs to the
  inode; on Windows the table of mutexes is never emptied, so unlinking has no effect on it. \<open>Store_Json\<close> takes each operation as one step:
  here this is a theorem, with the condition under which it holds and a run that shows what happens without it.
\<close>

subsection \<open>Lock files\<close>

datatype platform = Unix | Windows

record lock_fs =
  lkPath :: "string \<Rightarrow> nat option"
  lkNext :: nat
  lkHolder :: "nat \<Rightarrow> nat option"

definition lock_open :: "string \<Rightarrow> lock_fs \<Rightarrow> nat \<times> lock_fs" where
  "lock_open path fs =
     (case lkPath fs path of
        Some i \<Rightarrow> (i, fs)
      | None \<Rightarrow> (lkNext fs, fs\<lparr>lkPath := (lkPath fs)(path \<mapsto> lkNext fs), lkNext := Suc (lkNext fs)\<rparr>))"

text \<open>A process that waits takes no step.\<close>

definition lock_take :: "nat \<Rightarrow> nat \<Rightarrow> lock_fs \<Rightarrow> lock_fs option" where
  "lock_take p i fs = (if lkHolder fs i = None then Some (fs\<lparr>lkHolder := (lkHolder fs)(i \<mapsto> p)\<rparr>) else None)"

definition lock_close :: "nat \<Rightarrow> lock_fs \<Rightarrow> lock_fs" where
  "lock_close i fs = fs\<lparr>lkHolder := (lkHolder fs)(i := None)\<rparr>"

definition lock_remove :: "platform \<Rightarrow> string \<Rightarrow> lock_fs \<Rightarrow> lock_fs" where
  "lock_remove plat path fs = (case plat of Unix \<Rightarrow> fs\<lparr>lkPath := (lkPath fs)(path := None)\<rparr> | Windows \<Rightarrow> fs)"

subsection \<open>Operations in phases\<close>

datatype lop = LCreate StoredMigration | LUpdate StoredMigration | LDelete string

fun lop_id :: "lop \<Rightarrow> string" where
  "lop_id (LCreate m) = smID m"
| "lop_id (LUpdate m) = smID m"
| "lop_id (LDelete i) = i"

definition lockPathFor :: "string \<Rightarrow> string" where
  "lockPathFor i = i @ ''.lock''"

text \<open>What ends an operation before it has the lock.\<close>

definition before_lock :: "js_env \<Rightarrow> lop \<Rightarrow> store_error option" where
  "before_lock E op =
     (case jeCtx E of
        Some e \<Rightarrow> Some (StoreErr e)
      | None \<Rightarrow>
          (case (op, lop_id op) of
             (LCreate m, []) \<Rightarrow> Some (StoreErr ''migrate: Create: missing ID'')
           | (LUpdate m, []) \<Rightarrow> Some (StoreErr ''migrate: Update: missing ID'')
           | _ \<Rightarrow> map_option (\<lambda>e. StoreErr (''migrate: lock: '' @ e)) (jeLock E)))"

text \<open>What is done under the lock with what was seen of the row: the error, and the document to write.\<close>

definition write_seen :: "js_env \<Rightarrow> StoredMigration \<Rightarrow> store_error option \<times> json option" where
  "write_seen E m =
     (case enc_row m of
        Inl e \<Rightarrow> (Some (StoreErr (''migrate: encode row: '' @ e)), None)
      | Inr j \<Rightarrow> (case jeWrite E of Some e \<Rightarrow> (Some (StoreErr e), None) | None \<Rightarrow> (None, Some j)))"

definition create_seen :: "js_env \<Rightarrow> StoredMigration \<Rightarrow> json option \<Rightarrow> store_error option \<times> json option" where
  "create_seen E m seen =
     (case jeStat E of
        Some e \<Rightarrow> (Some (StoreErr (''migrate: stat: '' @ e)), None)
      | None \<Rightarrow>
          if seen \<noteq> None then (Some (StoreErr (''migrate: row '' @ smID m @ '' already exists'')), None)
          else write_seen E (stamp_new (jeNow E) m))"

definition update_seen :: "js_env \<Rightarrow> StoredMigration \<Rightarrow> json option \<Rightarrow> store_error option \<times> json option" where
  "update_seen E m seen =
     (case jeRead E (smID m) of
        Some e \<Rightarrow> (Some (StoreErr (''migrate: read row '' @ smID m @ '': '' @ e)), None)
      | None \<Rightarrow>
          (case seen of
             None \<Rightarrow> (Some ErrNotFound, None)
           | Some j \<Rightarrow>
               (case dec_row j of
                  Inl e \<Rightarrow> (Some (StoreErr (''migrate: decode row '' @ smID m @ '': '' @ e)), None)
                | Inr existing \<Rightarrow>
                    if smVersion existing + 1 \<noteq> smVersion m then (Some ErrVersionMismatch, None)
                    else write_seen E (m\<lparr>smCreatedAt := smCreatedAt existing, smUpdatedAt := jeNow E\<rparr>))))"

fun op_seen :: "js_env \<Rightarrow> lop \<Rightarrow> json option \<Rightarrow> store_error option \<times> json option" where
  "op_seen E (LCreate m) seen = create_seen E m seen"
| "op_seen E (LUpdate m) seen = update_seen E m seen"
| "op_seen E (LDelete i) seen = (None, None)"

text \<open>How far a process is; each runs one operation.\<close>

datatype pc =
    Start
  | Opened nat
  | Held nat
  | Seen nat "json option"
  | Wrote nat "store_error option"
  | Removed nat
  | Unlinking
  | Finished "store_error option"

type_synonym programs = "nat \<Rightarrow> js_env \<times> lop"

record lock_sys =
  syFs :: lock_fs
  syDir :: json_dir
  syPc :: "nat \<Rightarrow> pc"
  syLog :: "nat list"

definition goto :: "nat \<Rightarrow> pc \<Rightarrow> lock_sys \<Rightarrow> lock_sys" where
  "goto p c s = s\<lparr>syPc := (syPc s)(p := c)\<rparr>"

definition put_doc :: "string \<Rightarrow> json option \<Rightarrow> json_dir \<Rightarrow> json_dir" where
  "put_doc i w d = (case w of None \<Rightarrow> d | Some j \<Rightarrow> AList.update (pathFor i) j d)"

text \<open>The next step of a process, if it has one. The log names the processes in the order in which they acted on the directory.\<close>

definition proc_step :: "platform \<Rightarrow> programs \<Rightarrow> nat \<Rightarrow> lock_sys \<Rightarrow> lock_sys option" where
  "proc_step plat prog p s =
     (let E = fst (prog p); op = snd (prog p); i = lop_id op in
      case syPc s p of
        Start \<Rightarrow>
          (case before_lock E op of
             Some e \<Rightarrow> Some (goto p (Finished (Some e)) s)
           | None \<Rightarrow> (case lock_open (lockPathFor i) (syFs s) of (n, fs) \<Rightarrow> Some (goto p (Opened n) (s\<lparr>syFs := fs\<rparr>))))
      | Opened n \<Rightarrow> map_option (\<lambda>fs. goto p (Held n) (s\<lparr>syFs := fs\<rparr>)) (lock_take p n (syFs s))
      | Held n \<Rightarrow>
          (case op of
             LDelete _ \<Rightarrow>
               (case jeRemove E of
                  Some e \<Rightarrow> Some (goto p (Wrote n (Some (StoreErr (''migrate: remove row: '' @ e)))) (s\<lparr>syLog := syLog s @ [p]\<rparr>))
                | None \<Rightarrow> Some (goto p (Removed n) (s\<lparr>syDir := AList.delete (pathFor i) (syDir s), syLog := syLog s @ [p]\<rparr>)))
           | _ \<Rightarrow> Some (goto p (Seen n (map_of (syDir s) (pathFor i))) s))
      | Seen n seen \<Rightarrow>
          (case op_seen E op seen of
             (r, w) \<Rightarrow> Some (goto p (Wrote n r) (s\<lparr>syDir := put_doc i w (syDir s), syLog := syLog s @ [p]\<rparr>)))
      | Wrote n r \<Rightarrow> Some (goto p (Finished r) (s\<lparr>syFs := lock_close n (syFs s)\<rparr>))
      | Removed n \<Rightarrow> Some (goto p Unlinking (s\<lparr>syFs := lock_close n (syFs s)\<rparr>))
      | Unlinking \<Rightarrow>
          (case jeRemoveLock E of
             Some e \<Rightarrow> Some (goto p (Finished (Some (StoreErr (''migrate: remove lock: '' @ e)))) s)
           | None \<Rightarrow> Some (goto p (Finished None) (s\<lparr>syFs := lock_remove plat (lockPathFor i) (syFs s)\<rparr>)))
      | Finished r \<Rightarrow> None)"

definition lock_init :: "json_dir \<Rightarrow> lock_sys" where
  "lock_init d = \<lparr>syFs = \<lparr>lkPath = Map.empty, lkNext = 0, lkHolder = Map.empty\<rparr>, syDir = d, syPc = (\<lambda>_. Start), syLog = []\<rparr>"

inductive lock_reach :: "platform \<Rightarrow> programs \<Rightarrow> json_dir \<Rightarrow> lock_sys \<Rightarrow> bool" for plat prog d where
  init: "lock_reach plat prog d (lock_init d)"
| step: "lock_reach plat prog d s \<Longrightarrow> proc_step plat prog p s = Some s' \<Longrightarrow> lock_reach plat prog d s'"

fun run_schedule :: "platform \<Rightarrow> programs \<Rightarrow> nat list \<Rightarrow> lock_sys \<Rightarrow> lock_sys option" where
  "run_schedule plat prog [] s = Some s"
| "run_schedule plat prog (p # ps) s = (case proc_step plat prog p s of None \<Rightarrow> None | Some s' \<Rightarrow> run_schedule plat prog ps s')"

lemma run_schedule_reach: "run_schedule plat prog ps s = Some s' \<Longrightarrow> lock_reach plat prog d s \<Longrightarrow> lock_reach plat prog d s'"
  by (induction ps arbitrary: s) (auto split: option.splits intro: lock_reach.step)

subsection \<open>Operations as steps of the store\<close>

definition exec_op :: "programs \<Rightarrow> nat \<Rightarrow> json_dir \<Rightarrow> store_error option \<times> json_dir" where
  "exec_op prog p d =
     (case prog p of
        (E, LCreate m) \<Rightarrow> (case js_Create E m d of ((r, m'), d') \<Rightarrow> (r, d'))
      | (E, LUpdate m) \<Rightarrow> (case js_Update E m d of ((r, m'), d') \<Rightarrow> (r, d'))
      | (E, LDelete i) \<Rightarrow> js_Delete E i d)"

definition run_log :: "programs \<Rightarrow> json_dir \<Rightarrow> nat list \<Rightarrow> (nat \<rightharpoonup> store_error option) \<times> json_dir" where
  "run_log prog d ps = foldl (\<lambda>(rs, d) p. case exec_op prog p d of (r, d') \<Rightarrow> (rs(p \<mapsto> r), d')) (Map.empty, d) ps"

definition is_delete :: "lop \<Rightarrow> bool" where
  "is_delete op = (case op of LDelete _ \<Rightarrow> True | _ \<Rightarrow> False)"

lemma run_log_snoc: "run_log prog d ps = (rs, d') \<Longrightarrow> exec_op prog p d' = (r, d'') \<Longrightarrow> run_log prog d (ps @ [p]) = (rs(p \<mapsto> r), d'')"
  by (simp add: run_log_def)

lemma writeRow_seen: "writeRow E d m = (case write_seen E m of (r, w) \<Rightarrow> (r, put_doc (smID m) w d))"
  by (auto simp: writeRow_def write_seen_def put_doc_def split: sum.split option.split)

text \<open>Under the lock an operation is the one of the store.\<close>

lemma exec_seen:
  assumes "before_lock (fst (prog p)) (snd (prog p)) = None" and "\<not> is_delete (snd (prog p))"
    and "op_seen (fst (prog p)) (snd (prog p)) (map_of d (pathFor (lop_id (snd (prog p))))) = (r, w)"
  shows "exec_op prog p d = (r, put_doc (lop_id (snd (prog p))) w d)"
proof -
  obtain E op where p: "prog p = (E, op)" by (cases "prog p")
  have ctx: "jeCtx E = None" "jeLock E = None" "lop_id op \<noteq> []"
    using assms(1,2) p by (auto simp: before_lock_def is_delete_def split: option.splits lop.splits list.splits)
  show ?thesis
  proof (cases op)
    case (LCreate m)
    with assms(3) ctx p show ?thesis
      by (auto simp: exec_op_def js_Create_def create_seen_def Let_def writeRow_seen put_doc_def row_simps split: option.splits prod.splits if_splits)
  next
    case (LUpdate m)
    with assms(3) ctx p show ?thesis
      by (auto simp: exec_op_def js_Update_def update_seen_def readRow_def Let_def writeRow_seen put_doc_def split: option.splits prod.splits sum.splits if_splits)
  next
    case (LDelete i)
    with assms(2) p show ?thesis by (simp add: is_delete_def)
  qed
qed

lemma exec_delete:
  assumes "prog p = (E, LDelete i)" and "before_lock E (LDelete i) = None"
  shows "exec_op prog p d = (case jeRemove E of
      Some e \<Rightarrow> (Some (StoreErr (''migrate: remove row: '' @ e)), d)
    | None \<Rightarrow> (map_option (\<lambda>e. StoreErr (''migrate: remove lock: '' @ e)) (jeRemoveLock E), AList.delete (pathFor i) d))"
  using assms by (auto simp: exec_op_def js_Delete_def before_lock_def Let_def split: option.splits list.splits)

subsection \<open>The invariant\<close>

fun pc_inode :: "pc \<Rightarrow> nat option" where
  "pc_inode (Opened n) = Some n" | "pc_inode (Held n) = Some n" | "pc_inode (Seen n seen) = Some n"
| "pc_inode (Wrote n r) = Some n" | "pc_inode (Removed n) = Some n" | "pc_inode c = None"

fun holds :: "pc \<Rightarrow> nat option" where
  "holds (Opened n) = None" | "holds c = pc_inode c"

text \<open>What a process that acted on the directory will return.\<close>

definition outcome :: "programs \<Rightarrow> nat \<Rightarrow> pc \<Rightarrow> store_error option option" where
  "outcome prog p c =
     (let E = fst (prog p); gone = Some (map_option (\<lambda>e. StoreErr (''migrate: remove lock: '' @ e)) (jeRemoveLock E)) in
      case c of
        Wrote n r \<Rightarrow> Some r
      | Removed n \<Rightarrow> gone
      | Unlinking \<Rightarrow> gone
      | Finished r \<Rightarrow> if before_lock E (snd (prog p)) = None then Some r else None
      | _ \<Rightarrow> None)"

definition results :: "programs \<Rightarrow> lock_sys \<Rightarrow> nat \<rightharpoonup> store_error option" where
  "results prog s = (\<lambda>p. outcome prog p (syPc s p))"

text \<open>A lock has one holder: on every platform, whatever is unlinked.\<close>

definition holders_ok :: "lock_sys \<Rightarrow> bool" where
  "holders_ok s \<longleftrightarrow> (\<forall>p n. lkHolder (syFs s) n = Some p \<longleftrightarrow> holds (syPc s p) = Some n)"

text \<open>A process acts on the kind of its operation, after the checks.\<close>

definition pc_ok :: "programs \<Rightarrow> nat \<Rightarrow> pc \<Rightarrow> bool" where
  "pc_ok prog p c \<longleftrightarrow>
     (c \<noteq> Start \<longrightarrow> (\<forall>r. c \<noteq> Finished r) \<longrightarrow> before_lock (fst (prog p)) (snd (prog p)) = None)
     \<and> (\<forall>n seen. c = Seen n seen \<longrightarrow> \<not> is_delete (snd (prog p)))
     \<and> ((\<exists>n. c = Removed n) \<or> c = Unlinking \<longrightarrow> is_delete (snd (prog p)))"

abbreviation row_of :: "programs \<Rightarrow> nat \<Rightarrow> string" where
  "row_of prog p \<equiv> lop_id (snd (prog p))"

text \<open>Without unlinking, everyone who opened the lock file of a row has the same inode.\<close>

definition bound_ok :: "programs \<Rightarrow> lock_sys \<Rightarrow> bool" where
  "bound_ok prog s \<longleftrightarrow> (\<forall>p n. pc_inode (syPc s p) = Some n \<longrightarrow> lkPath (syFs s) (lockPathFor (row_of prog p)) = Some n)"

definition seen_ok :: "programs \<Rightarrow> lock_sys \<Rightarrow> bool" where
  "seen_ok prog s \<longleftrightarrow> (\<forall>p n seen. syPc s p = Seen n seen \<longrightarrow> seen = map_of (syDir s) (pathFor (row_of prog p)))"

definition logged_ok :: "programs \<Rightarrow> json_dir \<Rightarrow> lock_sys \<Rightarrow> bool" where
  "logged_ok prog d s \<longleftrightarrow> run_log prog d (syLog s) = (results prog s, syDir s)"

lemma goto_sel [simp]:
  "syFs (goto p c s) = syFs s" "syDir (goto p c s) = syDir s" "syLog (goto p c s) = syLog s"
  "syPc (goto p c s) = (syPc s)(p := c)"
  by (simp_all add: goto_def)

lemma results_goto: "results prog (goto p c s) = (results prog s)(p := outcome prog p c)"
  by (auto simp: results_def)

lemma results_upd [simp]: "results prog (s\<lparr>syFs := fs\<rparr>) = results prog s" "results prog (s\<lparr>syDir := d\<rparr>) = results prog s"
  "results prog (s\<lparr>syLog := l\<rparr>) = results prog s" "results prog (s\<lparr>syDir := d, syLog := l\<rparr>) = results prog s"
  by (simp_all add: results_def)

lemma lock_open_cases:
  assumes "lock_open path fs = (n, fs')"
  shows "lkHolder fs' = lkHolder fs" "lkPath fs' path = Some n" "lkPath fs q = Some k \<Longrightarrow> lkPath fs' q = Some k"
  using assms by (auto simp: lock_open_def split: option.splits)

text \<open>The cases of a step.\<close>

lemma proc_step_cases:
  assumes "proc_step plat prog p s = Some s'"
  obtains (rejected) e where "syPc s p = Start" "before_lock (fst (prog p)) (snd (prog p)) = Some e" "s' = goto p (Finished (Some e)) s"
  | (opened) n fs where "syPc s p = Start" "before_lock (fst (prog p)) (snd (prog p)) = None"
      "lock_open (lockPathFor (row_of prog p)) (syFs s) = (n, fs)" "s' = goto p (Opened n) (s\<lparr>syFs := fs\<rparr>)"
  | (locked) n where "syPc s p = Opened n" "lkHolder (syFs s) n = None"
      "s' = goto p (Held n) (s\<lparr>syFs := (syFs s)\<lparr>lkHolder := (lkHolder (syFs s))(n \<mapsto> p)\<rparr>\<rparr>)"
  | (looked) n where "syPc s p = Held n" "\<not> is_delete (snd (prog p))" "s' = goto p (Seen n (map_of (syDir s) (pathFor (row_of prog p)))) s"
  | (kept) n e where "syPc s p = Held n" "is_delete (snd (prog p))" "jeRemove (fst (prog p)) = Some e"
      "s' = goto p (Wrote n (Some (StoreErr (''migrate: remove row: '' @ e)))) (s\<lparr>syLog := syLog s @ [p]\<rparr>)"
  | (removed) n where "syPc s p = Held n" "is_delete (snd (prog p))" "jeRemove (fst (prog p)) = None"
      "s' = goto p (Removed n) (s\<lparr>syDir := AList.delete (pathFor (row_of prog p)) (syDir s), syLog := syLog s @ [p]\<rparr>)"
  | (wrote) n seen r w where "syPc s p = Seen n seen" "op_seen (fst (prog p)) (snd (prog p)) seen = (r, w)"
      "s' = goto p (Wrote n r) (s\<lparr>syDir := put_doc (row_of prog p) w (syDir s), syLog := syLog s @ [p]\<rparr>)"
  | (closed) n r where "syPc s p = Wrote n r" "s' = goto p (Finished r) (s\<lparr>syFs := lock_close n (syFs s)\<rparr>)"
  | (released) n where "syPc s p = Removed n" "s' = goto p Unlinking (s\<lparr>syFs := lock_close n (syFs s)\<rparr>)"
  | (unlink_failed) e where "syPc s p = Unlinking" "jeRemoveLock (fst (prog p)) = Some e"
      "s' = goto p (Finished (Some (StoreErr (''migrate: remove lock: '' @ e)))) s"
  | (unlinked) "syPc s p = Unlinking" "jeRemoveLock (fst (prog p)) = None"
      "s' = goto p (Finished None) (s\<lparr>syFs := lock_remove plat (lockPathFor (row_of prog p)) (syFs s)\<rparr>)"
proof (cases "syPc s p")
  case Start
  with assms rejected opened show thesis by (cases "before_lock (fst (prog p)) (snd (prog p))") (auto simp: proc_step_def Let_def split: prod.splits)
next
  case (Opened n)
  with assms locked show thesis by (cases "lkHolder (syFs s) n") (auto simp: proc_step_def Let_def lock_take_def)
next
  case (Held n)
  with assms looked kept removed show thesis
    by (cases "snd (prog p)"; cases "jeRemove (fst (prog p))") (simp_all add: proc_step_def Let_def is_delete_def)
next
  case (Seen n seen)
  with assms wrote show thesis by (auto simp: proc_step_def Let_def split: prod.splits)
next
  case (Wrote n r)
  with assms closed show thesis by (simp add: proc_step_def Let_def)
next
  case (Removed n)
  with assms released show thesis by (simp add: proc_step_def Let_def)
next
  case Unlinking
  with assms unlink_failed unlinked show thesis by (cases "jeRemoveLock (fst (prog p))") (simp_all add: proc_step_def Let_def)
next
  case (Finished r)
  with assms show thesis by (simp add: proc_step_def Let_def)
qed

lemma holders_step:
  assumes "holders_ok s" and "proc_step plat prog p s = Some s'"
  shows "holders_ok s'"
proof -
  have h: "holds (syPc s q) = Some n \<longleftrightarrow> lkHolder (syFs s) n = Some q" for q n using assms(1) by (simp add: holders_ok_def)
  from assms(2) show ?thesis
  proof (cases rule: proc_step_cases)
    case (opened n fs)
    with assms(1) show ?thesis by (auto simp: holders_ok_def lock_open_cases(1))
  next
    case (locked n)
    then show ?thesis using h [of p] by (auto simp: holders_ok_def h)
  next
    case (closed n r)
    then have "lkHolder (syFs s) n = Some p" "\<And>m. m \<noteq> n \<Longrightarrow> lkHolder (syFs s) m \<noteq> Some p" using h [of p, symmetric] by simp_all
    with closed show ?thesis by (auto simp: holders_ok_def h lock_close_def)
  next
    case (released n)
    then have "lkHolder (syFs s) n = Some p" "\<And>m. m \<noteq> n \<Longrightarrow> lkHolder (syFs s) m \<noteq> Some p" using h [of p, symmetric] by simp_all
    with released show ?thesis by (auto simp: holders_ok_def h lock_close_def)
  next
    case unlinked
    with assms(1) show ?thesis by (auto simp: holders_ok_def lock_remove_def split: platform.splits)
  qed (use assms(1) in \<open>auto simp: holders_ok_def\<close>)
qed

lemma pc_ok_step:
  assumes "\<forall>q. pc_ok prog q (syPc s q)" and "proc_step plat prog p s = Some s'"
  shows "\<forall>q. pc_ok prog q (syPc s' q)"
proof -
  have "pc_ok prog p (syPc s p)" using assms(1) by blast
  from assms(2) this have "pc_ok prog p (syPc s' p)"
    by (cases rule: proc_step_cases) (auto simp: pc_ok_def)
  moreover have "syPc s' q = syPc s q" if "q \<noteq> p" for q
    using assms(2) that by (cases rule: proc_step_cases) auto
  ultimately show ?thesis using assms(1) by (metis (full_types))
qed

definition safe_delete :: "platform \<Rightarrow> programs \<Rightarrow> bool" where
  "safe_delete plat prog \<longleftrightarrow> plat = Windows \<or> (\<forall>p. \<not> is_delete (snd (prog p)))"

lemma bound_step:
  assumes "bound_ok prog s" and "safe_delete plat prog" and "pc_ok prog p (syPc s p)" and "proc_step plat prog p s = Some s'"
  shows "bound_ok prog s'"
  using assms(4)
proof (cases rule: proc_step_cases)
  case (opened n fs)
  with assms(1) lock_open_cases(2,3) [OF opened(3)] show ?thesis by (auto simp: bound_ok_def)
next
  case unlinked
  then have "lock_remove plat (lockPathFor (row_of prog p)) (syFs s) = syFs s"
    using assms(2,3) by (auto simp: safe_delete_def pc_ok_def lock_remove_def)
  with assms(1) unlinked show ?thesis by (auto simp: bound_ok_def)
qed (use assms(1) in \<open>auto simp: bound_ok_def lock_close_def\<close>)

text \<open>Where the inode of a row is one, its lock excludes.\<close>

lemma lock_excludes:
  assumes "holders_ok s" and "bound_ok prog s" and "holds (syPc s p) \<noteq> None" and "holds (syPc s q) \<noteq> None" and "row_of prog p = row_of prog q"
  shows "p = q"
proof -
  have h: "holds c = Some n \<Longrightarrow> pc_inode c = Some n" for c n by (cases c) auto
  obtain m n where "holds (syPc s p) = Some m" "holds (syPc s q) = Some n" using assms(3,4) by auto
  moreover from this have "m = n" using assms(2,5) h by (metis bound_ok_def option.inject)
  ultimately show ?thesis using assms(1) by (metis holders_ok_def option.inject)
qed

lemma seen_step:
  assumes "seen_ok prog s" and "holders_ok s" and "bound_ok prog s" and "proc_step plat prog p s = Some s'"
  shows "seen_ok prog s'"
proof -
  have other: "row_of prog q \<noteq> row_of prog p" if "syPc s q = Seen n seen" "holds (syPc s p) \<noteq> None" "q \<noteq> p" for q n seen
    using lock_excludes [OF assms(2,3), of q p] that by auto
  from assms(4) show ?thesis
  proof (cases rule: proc_step_cases)
    case (removed n)
    with assms(1) other show ?thesis by (auto simp: seen_ok_def delete_conv')
  next
    case (wrote n seen r w)
    with assms(1) other show ?thesis by (auto simp: seen_ok_def put_doc_def update_conv' split: option.splits)
  qed (use assms(1) in \<open>auto simp: seen_ok_def\<close>)
qed

lemma logged_step:
  assumes "logged_ok prog d s" and "seen_ok prog s" and "pc_ok prog p (syPc s p)" and "proc_step plat prog p s = Some s'"
  shows "logged_ok prog d s'"
  using assms(4)
proof (cases rule: proc_step_cases)
  case (kept n e)
  then obtain E i where p: "prog p = (E, LDelete i)" by (cases "prog p"; cases "snd (prog p)") (auto simp: is_delete_def)
  have b: "before_lock E (LDelete i) = None" using assms(3) kept(1) p by (simp add: pc_ok_def)
  have "exec_op prog p (syDir s) = (Some (StoreErr (''migrate: remove row: '' @ e)), syDir s)"
    using exec_delete [of prog p E i, OF p b] kept(3) p by simp
  from run_log_snoc [OF assms(1) [unfolded logged_ok_def] this] show ?thesis
    by (simp add: kept(4) logged_ok_def results_goto outcome_def Let_def)
next
  case (removed n)
  then obtain E i where p: "prog p = (E, LDelete i)" by (cases "prog p"; cases "snd (prog p)") (auto simp: is_delete_def)
  have b: "before_lock E (LDelete i) = None" using assms(3) removed(1) p by (simp add: pc_ok_def)
  have "exec_op prog p (syDir s) = (map_option (\<lambda>e. StoreErr (''migrate: remove lock: '' @ e)) (jeRemoveLock E), AList.delete (pathFor i) (syDir s))"
    using exec_delete [of prog p E i, OF p b] removed(3) p by simp
  from run_log_snoc [OF assms(1) [unfolded logged_ok_def] this] show ?thesis
    by (simp add: removed(4) logged_ok_def results_goto outcome_def Let_def p)
next
  case (wrote n seen r w)
  have "before_lock (fst (prog p)) (snd (prog p)) = None" "\<not> is_delete (snd (prog p))" using assms(3) wrote(1) by (auto simp: pc_ok_def)
  moreover have "seen = map_of (syDir s) (pathFor (row_of prog p))" using assms(2) wrote(1) by (auto simp: seen_ok_def)
  ultimately have "exec_op prog p (syDir s) = (r, put_doc (row_of prog p) w (syDir s))" using exec_seen wrote(2) by blast
  from run_log_snoc [OF assms(1) [unfolded logged_ok_def] this] show ?thesis
    by (simp add: wrote(3) logged_ok_def results_goto outcome_def Let_def)
qed (use assms(1,3) in \<open>auto simp: logged_ok_def results_goto results_def outcome_def pc_ok_def Let_def fun_eq_iff\<close>)

definition lock_inv :: "programs \<Rightarrow> json_dir \<Rightarrow> lock_sys \<Rightarrow> bool" where
  "lock_inv prog d s \<longleftrightarrow> holders_ok s \<and> (\<forall>q. pc_ok prog q (syPc s q)) \<and> bound_ok prog s \<and> seen_ok prog s \<and> logged_ok prog d s"

lemma lock_inv_init: "lock_inv prog d (lock_init d)"
  by (auto simp: lock_inv_def lock_init_def holders_ok_def pc_ok_def bound_ok_def seen_ok_def logged_ok_def run_log_def results_def outcome_def)

lemma lock_inv_reach: "lock_reach plat prog d s \<Longrightarrow> safe_delete plat prog \<Longrightarrow> lock_inv prog d s"
proof (induction rule: lock_reach.induct)
  case (step s p s')
  then show ?case
    unfolding lock_inv_def using holders_step pc_ok_step bound_step seen_step logged_step by meson
qed (rule lock_inv_init)

subsection \<open>Atomicity\<close>


subsection \<open>What unlinking breaks\<close>

text \<open>One after the other, two creations of an id never both succeed.\<close>

lemma second_create_fails:
  assumes "js_Create E m d = ((None, m'), d')" and "smID n = smID m"
  shows "fst (fst (js_Create E' n d')) \<noteq> None"
proof
  assume "fst (fst (js_Create E' n d')) = None"
  then obtain n' d'' where c: "js_Create E' n d' = ((None, n'), d'')" by (metis prod.collapse)
  have "js_ver d' (smID m) \<noteq> None" using js_Create_ok [OF assms(1)] by simp
  moreover have "js_ver d' (smID n) = None" using js_Create_ok [OF c] by simp
  ultimately show False by (simp add: assms(2))
qed

definition twin_row :: StoredMigration where
  "twin_row = sample_row\<lparr>smTenantID := ''u''\<rparr>"

text \<open>One process deletes the row, two create it anew.\<close>

definition race_programs :: programs where
  "race_programs p = (quiet 5, if p = 0 then LDelete ''m1'' else if p = 1 then LCreate sample_row else LCreate twin_row)"

definition race_schedule :: "nat list" where
  "race_schedule = [0, 0, 1, 0, 0, 1, 0, 2, 2, 1, 2, 1, 2]"

lemma race_create:
  "smID sample_row = ''m1''" "smID twin_row = ''m1''"
  "create_seen (quiet 5) sample_row None = (None, Some (JObj (row_fields (stamp_new 5 sample_row))))"
  "create_seen (quiet 5) twin_row None = (None, Some (JObj (row_fields (stamp_new 5 twin_row))))"
  by (simp_all add: create_seen_def write_seen_def enc_row_def quiet_def sample_row_def twin_row_def stamp_new_def time_json_ok_def)

lemma race_before:
  "before_lock (quiet 5) (LDelete i) = None" "before_lock (quiet 5) (LCreate sample_row) = None" "before_lock (quiet 5) (LCreate twin_row) = None"
  by (simp_all add: before_lock_def quiet_def race_create)

lemma race_run:
  "\<exists>s. run_schedule Unix race_programs race_schedule (lock_init sample_dir) = Some s \<and> syPc s 1 = Wrote 0 None \<and> syPc s 2 = Wrote 1 None
    \<and> map_of (syDir s) (pathFor ''m1'') = Some (JObj (row_fields (stamp_new 5 twin_row)))"
proof -
  note step = proc_step_def Let_def race_programs_def race_before race_create lock_open_def lock_take_def lock_close_def lock_remove_def
  have q: "jeRemove (quiet 5) = None" "jeRemoveLock (quiet 5) = None" by (simp_all add: quiet_def)
  have d: "AList.delete (pathFor ''m1'') sample_dir = []" by (simp add: sample_dir_def)
  show ?thesis unfolding race_schedule_def lock_init_def
    by (simp add: step q d goto_def put_doc_def)
qed

lemma race_exec:
  "exec_op race_programs 0 d = (None, AList.delete (pathFor ''m1'') d)"
  "exec_op race_programs 1 [(pathFor ''m1'', j)] = (Some (StoreErr ''migrate: row m1 already exists''), [(pathFor ''m1'', j)])"
  "exec_op race_programs 2 [(pathFor ''m1'', j)] = (Some (StoreErr ''migrate: row m1 already exists''), [(pathFor ''m1'', j)])"
  "exec_op race_programs 1 [] = (None, [(pathFor ''m1'', JObj (row_fields (stamp_new 5 sample_row)))])"
  "exec_op race_programs 2 [] = (None, [(pathFor ''m1'', JObj (row_fields (stamp_new 5 twin_row)))])"
proof -
  have q: "jeRemove (quiet 5) = None" "jeRemoveLock (quiet 5) = None" "jeStat (quiet 5) = None" by (simp_all add: quiet_def)
  show "exec_op race_programs 0 d = (None, AList.delete (pathFor ''m1'') d)"
    using exec_delete [of race_programs 0 "quiet 5" "''m1''"] by (simp add: race_programs_def race_before q)
  have x: "exec_op race_programs p d = (r, put_doc ''m1'' w d)"
    if "p = 1 \<and> m = sample_row \<or> p = 2 \<and> m = twin_row" "create_seen (quiet 5) m (map_of d (pathFor ''m1'')) = (r, w)" for p m d r w
    using exec_seen [of race_programs p d r w] that by (auto simp: race_programs_def race_before race_create is_delete_def)
  show "exec_op race_programs 1 [] = (None, [(pathFor ''m1'', JObj (row_fields (stamp_new 5 sample_row)))])"
    "exec_op race_programs 2 [] = (None, [(pathFor ''m1'', JObj (row_fields (stamp_new 5 twin_row)))])"
    using x [of 1 sample_row "[]"] x [of 2 twin_row "[]"] by (simp_all add: race_create put_doc_def)
  have s: "create_seen (quiet 5) m (Some j) = (Some (StoreErr (''migrate: row '' @ smID m @ '' already exists'')), None)" for m
    by (simp add: create_seen_def q)
  show "exec_op race_programs 1 [(pathFor ''m1'', j)] = (Some (StoreErr ''migrate: row m1 already exists''), [(pathFor ''m1'', j)])"
    "exec_op race_programs 2 [(pathFor ''m1'', j)] = (Some (StoreErr ''migrate: row m1 already exists''), [(pathFor ''m1'', j)])"
    using x [of 1 sample_row "[(pathFor ''m1'', j)]"] x [of 2 twin_row "[(pathFor ''m1'', j)]"] by (simp_all add: s race_create put_doc_def)
qed

lemma race_orders:
  assumes "distinct ps" and "set ps = {0, 1, 2 :: nat}"
  shows "ps \<in> {[0, 1, 2], [0, 2, 1], [1, 0, 2], [1, 2, 0], [2, 0, 1], [2, 1, 0]}"
proof -
  have "length ps = 3" using assms distinct_card [of ps] by simp
  then obtain a b c where ps: "ps = [a, b, c]" by (auto simp: numeral_3_eq_3 length_Suc_conv)
  have "a \<in> set ps" "b \<in> set ps" "c \<in> set ps" "a \<noteq> b" "a \<noteq> c" "b \<noteq> c" using assms(1) by (simp_all add: ps)
  then show ?thesis unfolding assms(2) by (elim insertE emptyE) (simp_all add: ps)
qed

text \<open>Property C35. With a deletion among the processes the lock on Unix does not exclude: there is a run in which two creations of a deleted
  row are each under a lock of that row, both succeed and one row is lost, while in no order of the three operations both succeed.\<close>

theorem unlink_breaks_lock:
  "(\<exists>s. lock_reach Unix race_programs sample_dir s \<and> results race_programs s 1 = Some None \<and> results race_programs s 2 = Some None
      \<and> holds (syPc s 1) \<noteq> None \<and> holds (syPc s 2) \<noteq> None \<and> row_of race_programs 1 = row_of race_programs 2)
   \<and> \<not> (\<exists>ps rs d. distinct ps \<and> set ps = {0, 1, 2} \<and> run_log race_programs sample_dir ps = (rs, d) \<and> rs 1 = Some None \<and> rs 2 = Some None)"
proof
  obtain s where s: "run_schedule Unix race_programs race_schedule (lock_init sample_dir) = Some s" "syPc s 1 = Wrote 0 None" "syPc s 2 = Wrote 1 None"
    using race_run by blast
  have "row_of race_programs 1 = row_of race_programs 2" by (simp add: race_programs_def race_create)
  with run_schedule_reach [OF s(1) lock_reach.init] s(2,3)
  show "\<exists>s. lock_reach Unix race_programs sample_dir s \<and> results race_programs s 1 = Some None \<and> results race_programs s 2 = Some None
      \<and> holds (syPc s 1) \<noteq> None \<and> holds (syPc s 2) \<noteq> None \<and> row_of race_programs 1 = row_of race_programs 2"
    by (intro exI [of _ s]) (simp add: results_def outcome_def)
  have d: "sample_dir = [(pathFor ''m1'', JObj (row_fields sample_row))]" by (simp add: sample_dir_def)
  show "\<not> (\<exists>ps rs d. distinct ps \<and> set ps = {0, 1, 2} \<and> run_log race_programs sample_dir ps = (rs, d) \<and> rs 1 = Some None \<and> rs 2 = Some None)"
  proof (intro notI, elim exE conjE)
    fix ps rs d' assume ps: "distinct ps" "set ps = {0, 1, 2}" and r: "run_log race_programs sample_dir ps = (rs, d')" "rs 1 = Some None" "rs 2 = Some None"
    from race_orders [OF ps] r show False unfolding d run_log_def
      by (elim insertE emptyE) (auto simp: race_exec simp del: One_nat_def)
  qed
qed


end
