(* ===== verification/Provider_Link.thy ===== *)
theory Provider_Link
  imports Cli_Apply Cli_Zone Migrate_Safety Cloud_Providers Godaddy Namecheap
begin

text \<open>
  Which providers a program knows: the registrations of the provider packages (their \<open>init\<close> functions), the programs of
  the repository as lists of the provider packages that they link, and what the credentials that the command line and the
  server accept are worth to the constructors. The client libraries (\<open>cloudflare-go\<close>, the AWS SDK) and the connection to
  an API are a parameter \<open>clients\<close>: what each package builds from checked credentials.
\<close>

subsection \<open>Registrations\<close>

record 'p clients =
  clCloudflare :: "string \<Rightarrow> string + 'p"
  clRoute53 :: "string \<times> string \<times> string \<Rightarrow> string + 'p"
  clGodaddy :: "string \<times> string \<Rightarrow> 'p"
  clGCDNS :: "string \<times> string \<Rightarrow> 'p"
  clNamecheap :: "nc_provider \<Rightarrow> 'p"
  clFake :: 'p

definition cf_NewProvider :: "(string \<Rightarrow> string + 'c) \<Rightarrow> string \<Rightarrow> string + 'c" where
  "cf_NewProvider NewWithAPIToken apiToken =
     (if apiToken = [] then Inl ''cloudflare: APIToken required''
      else mapErr (\<lambda>e. ''cloudflare api: '' @ e) (NewWithAPIToken apiToken))"

datatype package = Pkg_cloudflare | Pkg_gcdns | Pkg_godaddy | Pkg_namecheap | Pkg_route53 | Pkg_fakeprovider

type_synonym 'p registry = "string \<rightharpoonup> 'p factory"

definition cloudflare_init :: "'p clients \<Rightarrow> 'p registry \<Rightarrow> 'p registry" where
  "cloudflare_init B = RegisterProvider ''cloudflare'' (\<lambda>creds. cf_NewProvider (clCloudflare B) (crAPIToken creds))"

definition gcdns_init :: "'p clients \<Rightarrow> 'p registry \<Rightarrow> 'p registry" where
  "gcdns_init B = RegisterProvider ''google_cloud_dns''
     (\<lambda>creds. bindE (gc_NewProvider (crToken creds) (crProjectID creds)) (\<lambda>c. Inr (clGCDNS B c)))"

definition godaddy_init :: "'p clients \<Rightarrow> 'p registry \<Rightarrow> 'p registry" where
  "godaddy_init B = RegisterProvider ''godaddy''
     (\<lambda>creds. bindE (gd_NewProvider (crAPIKey creds) (crAPISecret creds)) (\<lambda>c. Inr (clGodaddy B c)))"

definition namecheap_init :: "'p clients \<Rightarrow> 'p registry \<Rightarrow> 'p registry" where
  "namecheap_init B = RegisterProvider ''namecheap''
     (\<lambda>creds. bindE (nc_NewProvider (crAPIUser creds) (crAPIKey creds) (crUsername creds) (crClientIP creds))
       (\<lambda>c. Inr (clNamecheap B c)))"

definition aws_config_error :: "string \<Rightarrow> string" where
  "aws_config_error e = ''aws config: '' @ e"

definition route53_init :: "'p clients \<Rightarrow> 'p registry \<Rightarrow> 'p registry" where
  "route53_init B = RegisterProvider ''route53''
     (\<lambda>creds. bindE (r53_NewProvider (crAccessKey creds) (crSecretKey creds) (crRegion creds))
       (\<lambda>c. mapErr aws_config_error (clRoute53 B c)))"

definition fakeprovider_init :: "'p clients \<Rightarrow> 'p registry \<Rightarrow> 'p registry" where
  "fakeprovider_init B = RegisterProvider ''fake'' (\<lambda>creds. Inr (clFake B))"

fun package_init :: "'p clients \<Rightarrow> package \<Rightarrow> 'p registry \<Rightarrow> 'p registry" where
  "package_init B Pkg_cloudflare = cloudflare_init B"
| "package_init B Pkg_gcdns = gcdns_init B"
| "package_init B Pkg_godaddy = godaddy_init B"
| "package_init B Pkg_namecheap = namecheap_init B"
| "package_init B Pkg_route53 = route53_init B"
| "package_init B Pkg_fakeprovider = fakeprovider_init B"

text \<open>The registry of a program before \<open>main\<close>: the \<open>init\<close> functions of the packages it links, in some order.\<close>

definition linked :: "'p clients \<Rightarrow> package list \<Rightarrow> 'p registry" where
  "linked B pkgs = fold (package_init B) pkgs Map.empty"

text \<open>The provider packages that the two programs import, directly or through another package of the repository.\<close>

definition entree_packages :: "package list" where
  "entree_packages = [Pkg_fakeprovider]"

definition entree_api_packages :: "package list" where
  "entree_api_packages = []"

text \<open>The verification of pushes: importing the in-memory provider lets a variable of the environment turn it off, whatever
  provider is used.\<close>

definition linked_verifier :: "package list \<Rightarrow> (string \<Rightarrow> string) \<Rightarrow> dns_env \<Rightarrow> verifier" where
  "linked_verifier pkgs env E =
     (if Pkg_fakeprovider \<in> set pkgs \<and> env ''ENTREE_TEST_NO_VERIFY'' = ''1'' then unverified else Verify E)"

definition all_packages :: "package list" where
  "all_packages = [Pkg_cloudflare, Pkg_gcdns, Pkg_godaddy, Pkg_namecheap, Pkg_route53, Pkg_fakeprovider]"

subsection \<open>The registry does not depend on the order\<close>

fun package_slug :: "package \<Rightarrow> string" where
  "package_slug Pkg_cloudflare = ''cloudflare''"
| "package_slug Pkg_gcdns = ''google_cloud_dns''"
| "package_slug Pkg_godaddy = ''godaddy''"
| "package_slug Pkg_namecheap = ''namecheap''"
| "package_slug Pkg_route53 = ''route53''"
| "package_slug Pkg_fakeprovider = ''fake''"

lemmas package_inits = cloudflare_init_def gcdns_init_def godaddy_init_def namecheap_init_def route53_init_def
  fakeprovider_init_def RegisterProvider_def

lemma package_slug_inj: "package_slug p = package_slug q \<longleftrightarrow> p = q"
  by (cases p; cases q) simp_all

definition package_factory :: "'p clients \<Rightarrow> package \<Rightarrow> 'p factory" where
  "package_factory B p = the (package_init B p Map.empty (package_slug p))"

lemma package_init_at:
  "package_init B p reg (package_slug q) = (if p = q then Some (package_factory B q) else reg (package_slug q))"
  by (cases p; cases q) (simp_all add: package_inits package_factory_def)

lemma package_init_other: "slug \<noteq> package_slug p \<Longrightarrow> package_init B p reg slug = reg slug"
  by (cases p) (simp_all add: package_inits)

lemma linked_out: "slug \<notin> package_slug ` set pkgs \<Longrightarrow> linked B pkgs slug = None"
proof -
  have "slug \<notin> package_slug ` set pkgs \<Longrightarrow> fold (package_init B) pkgs reg slug = reg slug" for reg
    by (induction pkgs arbitrary: reg) (simp_all add: package_init_other)
  then show "slug \<notin> package_slug ` set pkgs \<Longrightarrow> linked B pkgs slug = None" by (simp add: linked_def)
qed

lemma linked_in: "p \<in> set pkgs \<Longrightarrow> linked B pkgs (package_slug p) = Some (package_factory B p)"
proof -
  have "fold (package_init B) pkgs reg (package_slug p)
      = (if p \<in> set pkgs then Some (package_factory B p) else reg (package_slug p))" for reg
    by (induction pkgs arbitrary: reg) (simp_all add: package_init_at)
  then show "p \<in> set pkgs \<Longrightarrow> linked B pkgs (package_slug p) = Some (package_factory B p)"
    by (simp add: linked_def)
qed

lemma linked_registered: "RegisteredProviders (linked B pkgs) = package_slug ` set pkgs"
proof (rule set_eqI)
  fix slug
  show "slug \<in> RegisteredProviders (linked B pkgs) \<longleftrightarrow> slug \<in> package_slug ` set pkgs"
  proof (cases "slug \<in> package_slug ` set pkgs")
    case True
    then obtain p where "p \<in> set pkgs" "slug = package_slug p" by (rule imageE)
    then show ?thesis by (simp add: RegisteredProviders_def domIff linked_in)
  qed (simp add: RegisteredProviders_def domIff linked_out)
qed

text \<open>Only which packages are linked counts: Go may run their \<open>init\<close> functions in any order.\<close>

lemma linked_order:
  assumes "set pkgs = set pkgs'"
  shows "linked B pkgs = linked B pkgs'"
proof (rule ext)
  fix slug
  show "linked B pkgs slug = linked B pkgs' slug"
  proof (cases "slug \<in> package_slug ` set pkgs")
    case True
    then obtain p where "p \<in> set pkgs" "slug = package_slug p" by (rule imageE)
    with assms show ?thesis by (simp add: linked_in)
  qed (use assms in \<open>simp add: linked_out\<close>)
qed

subsection \<open>Credentials and constructors\<close>

lemma NewProvider_all:
  "NewProvider (linked B all_packages) slug c =
     (if slug = ''fake'' then Inr (clFake B)
      else if slug = ''route53'' then bindE (r53_NewProvider (crAccessKey c) (crSecretKey c) (crRegion c))
        (\<lambda>k. mapErr aws_config_error (clRoute53 B k))
      else if slug = ''namecheap'' then bindE (nc_NewProvider (crAPIUser c) (crAPIKey c) (crUsername c) (crClientIP c))
        (\<lambda>k. Inr (clNamecheap B k))
      else if slug = ''godaddy'' then bindE (gd_NewProvider (crAPIKey c) (crAPISecret c)) (\<lambda>k. Inr (clGodaddy B k))
      else if slug = ''google_cloud_dns'' then bindE (gc_NewProvider (crToken c) (crProjectID c)) (\<lambda>k. Inr (clGCDNS B k))
      else if slug = ''cloudflare'' then cf_NewProvider (clCloudflare B) (crAPIToken c)
      else Inl ''unknown provider'')"
  by (simp add: linked_def all_packages_def package_inits NewProvider_def)

text \<open>What every way of giving credentials checks of them.\<close>

definition checked :: "string \<Rightarrow> Credentials \<Rightarrow> bool" where
  "checked slug c \<longleftrightarrow> slug = ''cloudflare'' \<and> crAPIToken c \<noteq> [] \<or> slug = ''route53'' \<and> crAccessKey c \<noteq> [] \<and> crSecretKey c \<noteq> []
    \<or> slug = ''godaddy'' \<and> crAPIKey c \<noteq> [] \<and> crAPISecret c \<noteq> [] \<or> slug = ''google_cloud_dns'' \<or> HasPrefix slug ''fake''"

lemma header_credentials:
  assumes "parseCredentialHeaders r = Inr (slug, c)"
  shows "checked slug c"
proof -
  have f: "HasPrefix ''fake'' ''fake''" by code_simp
  have g: "cred_header r ''X-Entree-Provider'' = slug"
    using assms by (auto simp: parseCredentialHeaders_def Let_def split: if_splits option.splits)
  obtain expected where "map_of providerHeaderSpecs slug = Some expected"
    using assms by (auto simp: parseCredentialHeaders_def Let_def split: if_splits option.splits)
  then have "(slug, expected) \<in> set providerHeaderSpecs" by (rule map_of_SomeD)
  then consider "slug = ''cloudflare''" | "slug = ''route53''" | "slug = ''godaddy''" | "slug = ''google_cloud_dns''" | "slug = ''fake''"
    unfolding providerHeaderSpecs_def list.set prod.inject by (elim insertE emptyE) simp_all
  then show ?thesis
  proof cases
    case 1
    with assms g show ?thesis
      by (simp add: checked_def parseCredentialHeaders_def providerHeaderSpecs_def Let_def split: if_splits) auto
  next
    case 2
    with assms g show ?thesis
      by (simp add: checked_def parseCredentialHeaders_def providerHeaderSpecs_def Let_def split: if_splits) auto
  next
    case 3
    with assms g show ?thesis
      by (simp add: checked_def parseCredentialHeaders_def providerHeaderSpecs_def Let_def split: if_splits) auto
  qed (use f in \<open>simp_all add: checked_def\<close>)
qed

lemma file_credentials: "parseAndExtract E text' slug = Inr c \<Longrightarrow> checked slug c"
  by (auto simp: checked_def parseAndExtract_def split: if_splits sum.splits)

lemma env_credentials: "loadFromEnv E slug = Some c \<Longrightarrow> checked slug c"
  by (auto simp: checked_def loadFromEnv_def Let_def split: if_splits sum.splits)

lemma loaded_credentials: "load_creds E path slug = Inr c \<Longrightarrow> checked slug c"
  by (auto simp: load_creds_def loadFromFile_def Let_def split: if_splits sum.splits option.splits
      intro: file_credentials env_credentials)

text \<open>Property C38. Credentials that the command line or the server accepts are credentials of which the package of the provider makes
  a provider, in a program that links all packages, but for three cases: a Google Cloud project that is missing (neither
  asks for it) or a token that is empty, a slug that merely begins with fake, and a refusal of the client library.\<close>

theorem accepted_credentials_construct:
  assumes "load_creds E path slug = Inr c \<or> parseCredentialHeaders r = Inr (slug, c)"
    and "NewProvider (linked B all_packages) slug c = Inl e"
  shows "slug = ''google_cloud_dns'' \<and> (crToken c = [] \<or> crProjectID c = [])
    \<or> HasPrefix slug ''fake'' \<and> slug \<noteq> ''fake''
    \<or> slug = ''cloudflare'' \<and> isl (clCloudflare B (crAPIToken c))
    \<or> slug = ''route53'' \<and> isl (clRoute53 B (crAccessKey c, crSecretKey c, if crRegion c = [] then ''us-east-1'' else crRegion c))"
proof -
  from assms(1) have "checked slug c" by (elim disjE) (rule loaded_credentials header_credentials, assumption)+
  then consider
      "slug = ''cloudflare''" "crAPIToken c \<noteq> []" | "slug = ''route53''" "crAccessKey c \<noteq> []" "crSecretKey c \<noteq> []"
    | "slug = ''godaddy''" "crAPIKey c \<noteq> []" "crAPISecret c \<noteq> []" | "slug = ''google_cloud_dns''" | "HasPrefix slug ''fake''"
    unfolding checked_def by (elim disjE conjE)
  then show ?thesis
  proof cases
    case 1
    with assms(2) show ?thesis
      by (auto simp: NewProvider_all cf_NewProvider_def mapErr_Inl_iff)
  next
    case 2
    with assms(2) show ?thesis
      by (auto simp: NewProvider_all r53_NewProvider_def mapErr_Inl_iff)
  next
    case 3
    with assms(2) show ?thesis
      by (auto simp: NewProvider_all gd_NewProvider_def)
  next
    case 4
    with assms(2) show ?thesis
      by (auto simp: NewProvider_all gc_NewProvider_def split: if_splits)
  next
    case 5
    have "slug \<noteq> ''fake''"
    proof
      assume "slug = ''fake''"
      with assms(2) show False by (simp add: NewProvider_all)
    qed
    with 5 show ?thesis by simp
  qed
qed

definition demo_clients :: "fake_state provider clients" where
  "demo_clients = \<lparr>clCloudflare = (\<lambda>_. Inr fake_ops), clRoute53 = (\<lambda>_. Inr fake_ops), clGodaddy = (\<lambda>_. fake_ops),
     clGCDNS = (\<lambda>_. fake_ops), clNamecheap = (\<lambda>_. fake_ops), clFake = fake_ops\<rparr>"

definition gcdns_env :: cli_env where
  "gcdns_env = apply_cli\<lparr>ceEnv := (\<lambda>v. if v = ''DNSENTREE_GCDNS_SERVICE_ACCOUNT_JSON'' then ''key.json'' else []),
     ceFile := (\<lambda>p. if p = ''key.json'' then Inr ''ya29.token'' else Inl ''no such file'')\<rparr>"

definition gcdns_creds :: Credentials where
  "gcdns_creds = no_creds\<lparr>crToken := ''ya29.token''\<rparr>"

text \<open>A service account without a project is accepted from the environment and refused by the package.\<close>

lemma accepted_credentials_construct_witness:
  "load_creds gcdns_env [] ''google_cloud_dns'' = Inr gcdns_creds \<and> crToken gcdns_creds \<noteq> [] \<and> crProjectID gcdns_creds = []"
proof -
  have l: "load_creds gcdns_env [] ''google_cloud_dns'' = Inr gcdns_creds" by code_simp
  have "NewProvider (linked demo_clients all_packages) ''google_cloud_dns'' gcdns_creds = Inl ''gcdns: ProjectID required''"
    by (simp add: NewProvider_all gc_NewProvider_def gcdns_creds_def no_creds_def)
  from accepted_credentials_construct [OF disjI1 [OF l] this] l
  show ?thesis by (simp add: demo_clients_def gcdns_creds_def no_creds_def)
qed

text \<open>No way of giving credentials leads to the Namecheap package: the command line and the headers do not know its slug,
  and the body of a migration request has no place for the address of the client.\<close>

lemma namecheap_unreachable:
  "load_creds E path ''namecheap'' \<noteq> Inr c"
  "parseCredentialHeaders r \<noteq> Inr (''namecheap'', c)"
  "NewProvider (linked B pkgs) ''namecheap'' (toEntreeCredentials b) \<noteq> Inr P"
proof -
  have f: "\<not> HasPrefix ''namecheap'' ''fake''" by code_simp
  show "load_creds E path ''namecheap'' \<noteq> Inr c" using loaded_credentials [of E path "''namecheap''" c] f by (auto simp: checked_def)
  show "parseCredentialHeaders r \<noteq> Inr (''namecheap'', c)" using header_credentials [of r "''namecheap''" c] f by (auto simp: checked_def)
  show "NewProvider (linked B pkgs) ''namecheap'' (toEntreeCredentials b) \<noteq> Inr P"
  proof (cases "Pkg_namecheap \<in> set pkgs")
    case True
    from linked_in [OF this, of B] show ?thesis
      by (simp add: package_factory_def namecheap_init_def RegisterProvider_def NewProvider_def nc_NewProvider_def toEntreeCredentials_def empty_credentials_def)
  next
    case False
    have "p = Pkg_namecheap" if "''namecheap'' = package_slug p" for p using that by (cases p) simp_all
    with False have "''namecheap'' \<notin> package_slug ` set pkgs" by (blast elim: imageE)
    then have "linked B pkgs ''namecheap'' = None" by (rule linked_out)
    then show ?thesis by (simp add: NewProvider_def)
  qed
qed

subsection \<open>The programs\<close>

lemma entree_registry:
  "NewProvider (linked B entree_packages) slug c = (if slug = ''fake'' then Inr (clFake B) else Inl ''unknown provider'')"
  by (simp add: linked_def entree_packages_def fakeprovider_init_def NewProvider_registered) (simp add: NewProvider_def)

lemma entree_api_registry: "NewProvider (linked B entree_api_packages) slug c = Inl ''unknown provider''"
  by (simp add: linked_def entree_api_packages_def NewProvider_def)

text \<open>Under the variable for tests the command line reports every record that it pushes to any provider as not seen, whatever
  the name servers hold.\<close>

lemma test_variable_unverifies:
  assumes "env ''ENTREE_TEST_NO_VERIFY'' = ''1''"
  shows "runVerify (linked_verifier entree_packages env E) domain opts (push_result st name val prev)
    = (push_result st name val prev)\<lparr>psVerifyError := Some ''post-push verification did not observe record''\<rparr>"
  using assms by (simp add: linked_verifier_def entree_packages_def runVerify_def unverified_def push_result_def)

lemma server_verifies: "linked_verifier entree_api_packages env E = Verify E"
  by (simp add: linked_verifier_def entree_api_packages_def)


definition linked_api :: "fake_state api_env" where
  "linked_api = demo_api\<lparr>xeRegistry := linked demo_clients entree_api_packages\<rparr>"

lemma demo_linked: "linked demo_clients entree_packages = RegisterProvider ''fake'' (\<lambda>creds. Inr fake_ops) Map.empty"
  by (simp add: linked_def entree_packages_def fakeprovider_init_def demo_clients_def)




end
