(* ===== verification/Examples.thy ===== *)
theory Examples
  imports Provider_Link Cli_Cmds
begin

text \<open>
  The programs under \<open>examples/\<close>: each is a function of its arguments (without the name of the program), its environment
  and the zone to the way it ends, whether with status 0 and what it printed on standard output, and the zone after it.
  Deadlines are outside the model, and so are the texts of \<open>log\<close>, which go to standard error.
\<close>

subsection \<open>The programs\<close>

type_synonym example_end = "bool \<times> string list"

abbreviation fatal :: example_end where
  "fatal \<equiv> (False, [])"

definition pushed_line :: "PushResult \<Rightarrow> string" where
  "pushed_line res = ''status='' @ push_status_text (psStatus res) @ '' verified='' @ show_bool (psVerified res)
     @ '' value='' @ go_quote (psRecordValue res)"

definition push_end :: "(string option \<times> PushResult) \<times> 's \<Rightarrow> example_end \<times> 's" where
  "push_end out =
     (case out of ((err, res), s) \<Rightarrow> ((case err of Some e \<Rightarrow> fatal | None \<Rightarrow> (True, [pushed_line res])), s))"

definition push_dmarc ::
  "'s provider clients \<Rightarrow> (string \<Rightarrow> string) \<Rightarrow> verifier \<Rightarrow> string list \<Rightarrow> 's \<Rightarrow> example_end \<times> 's" where
  "push_dmarc B env ver args s =
     (case args of
        domain # rua # rest \<Rightarrow>
          (let token = env ''DNSENTREE_CLOUDFLARE_TOKEN'' in
           if token = [] then (fatal, s)
           else case cf_NewProvider (clCloudflare B) token of
             Inl e \<Rightarrow> (fatal, s)
           | Inr prov \<Rightarrow>
               (let policy = ''v=DMARC1; p=none; rua=mailto:'' @ rua in
                push_end (PushTXTRecord prov ver domain (''_dmarc.'' @ domain) policy s)))
      | _ \<Rightarrow> (fatal, s))"

definition push_dkim ::
  "'s provider clients \<Rightarrow> (string \<Rightarrow> string) \<Rightarrow> verifier \<Rightarrow> string list \<Rightarrow> 's \<Rightarrow> example_end \<times> 's" where
  "push_dkim B env ver args s =
     (case args of
        domain # selector # target # rest \<Rightarrow>
          (let ak = env ''DNSENTREE_AWS_ACCESS_KEY_ID'';
               sk = env ''DNSENTREE_AWS_SECRET_ACCESS_KEY'';
               region = (if env ''DNSENTREE_AWS_REGION'' = [] then ''us-east-1'' else env ''DNSENTREE_AWS_REGION'') in
           if ak = [] \<or> sk = [] then (fatal, s)
           else case bindE (r53_NewProvider ak sk region) (\<lambda>c. mapErr aws_config_error (clRoute53 B c)) of
             Inl e \<Rightarrow> (fatal, s)
           | Inr prov \<Rightarrow>
               (let name = selector @ ''._domainkey.'' @ domain in
                push_end (PushCNAMERecord prov ver domain name target s)))
      | _ \<Rightarrow> (fatal, s))"

definition result_line :: "PushResult \<Rightarrow> string" where
  "result_line r = ''  '' @ push_status_text (psStatus r) @ '' '' @ psRecordName r @ '' -> '' @ psRecordValue r
     @ '' (verified='' @ show_bool (psVerified r) @ '')''"

definition detected_line :: "DetectionResult \<Rightarrow> string" where
  "detected_line det = ''detected: provider='' @ drProvider det @ '' label='' @ go_quote (drLabel det)
     @ '' supported='' @ show_bool (drSupported det) @ '' method='' @ drMethod det"

text \<open>A failed application is logged, and the program ends with status 0 all the same.\<close>

definition detect_and_apply ::
  "'s provider clients \<Rightarrow> (string \<Rightarrow> string) \<Rightarrow> 's cli_ops \<Rightarrow> string list \<Rightarrow> 's \<times> tcache \<Rightarrow> example_end \<times> 's \<times> tcache" where
  "detect_and_apply B env X args sc =
     (case (args, sc) of
        (domain # providerID # serviceID # rest, (s, c)) \<Rightarrow>
          (case DetectProvider (coLookupNS X) (coRdap X) domain of
             Inl e \<Rightarrow> (fatal, s, c)
           | Inr det \<Rightarrow>
               (let stop = (False, [detected_line det]) in
                if drProvider det \<noteq> ''cloudflare'' then (stop, s, c)
                else let token = env ''DNSENTREE_CLOUDFLARE_TOKEN'' in
                if token = [] then (stop, s, c)
                else case cf_NewProvider (clCloudflare B) token of
                  Inl e \<Rightarrow> (stop, s, c)
                | Inr prov \<Rightarrow>
                    (case SyncTemplates (coSync X) [] c of
                       (Some e, c1) \<Rightarrow> (stop, s, c1)
                     | (None, c1) \<Rightarrow>
                         (case LoadTemplate (coSync X) [] providerID serviceID c1 of
                            (Inl e, c2) \<Rightarrow> (stop, s, c2)
                          | (Inr tmpl, c2) \<Rightarrow>
                              (case ApplyTemplateWithReport prov (coVerify X) domain tmpl [''domain'' \<mapsto> domain] s of
                                 (Inl e, s1) \<Rightarrow> ((True, [detected_line det]), s1, c2)
                               | (Inr a, s1) \<Rightarrow> ((True, detected_line det # map result_line (asResults a)), s1, c2))))))
      | _ \<Rightarrow> (fatal, sc))"

definition dc_discover :: "discoverOptions \<Rightarrow> string list \<Rightarrow> example_end" where
  "dc_discover D args =
     (case args of
        [] \<Rightarrow> fatal
      | domain # rest \<Rightarrow>
          (case fst (Discover D domain) of
             Inl e \<Rightarrow> fatal
           | Inr res \<Rightarrow>
               if \<not> dcSupported res then (True, [''Domain Connect: not supported''])
               else (True, [''providerId:   '' @ dcProviderID res, ''providerName: '' @ dcProviderName res,
                 ''urlSyncUX:    '' @ dcURLSyncUX res, ''urlAsyncUX:   '' @ dcURLAsyncUX res, ''urlAPI:       '' @ dcURLAPI res,
                 ''width/height: '' @ Itoa (dcWidth res) @ ''x'' @ Itoa (dcHeight res)])))"

definition spf_merge :: "string list \<Rightarrow> example_end" where
  "spf_merge args =
     (case args of
        current # inc # incs \<Rightarrow>
          (let res = MergeSPF current (inc # incs) None in
           (True, [''value: '' @ mrValue res, ''changed: '' @ show_bool (mrChanged res),
              ''lookup_count: '' @ Itoa (int (mrLookupCount res)),
              ''lookup_limit_exceeded: '' @ show_bool (mrLookupLimitExceeded res)] @ map (\<lambda>w. ''warning: '' @ w) (mrWarnings res)))
      | _ \<Rightarrow> fatal)"

subsection \<open>Running an example again\<close>

lemma push_end_ok: "push_end out = ((True, ls), s') \<longleftrightarrow> (\<exists>r. out = ((None, r), s') \<and> ls = [pushed_line r])"
  by (auto simp: push_end_def split: prod.splits option.splits)

context record_provider
begin

text \<open>An example that has ended well ends well again, reports the record as configured and changes nothing.\<close>

lemma push_dmarc_again:
  assumes "push_dmarc B env ver [domain, rua] s = ((True, ls), s')" and "clCloudflare B (env ''DNSENTREE_CLOUDFLARE_TOKEN'') = Inr P"
    and "inv s" and "adm domain (mk_record ''TXT'' (''_dmarc.'' @ domain) (''v=DMARC1; p=none; rua=mailto:'' @ rua) 300)"
  shows "push_dmarc B env ver' [domain, rua] s' = ((True, [''status=already_configured verified=false value=''
    @ go_quote (''v=DMARC1; p=none; rua=mailto:'' @ rua)]), s')"
proof -
  let ?v = "''v=DMARC1; p=none; rua=mailto:'' @ rua" and ?n = "''_dmarc.'' @ domain"
  have t: "env ''DNSENTREE_CLOUDFLARE_TOKEN'' \<noteq> []"
    using assms(1) by (auto simp: push_dmarc_def Let_def)
  have c: "cf_NewProvider (clCloudflare B) (env ''DNSENTREE_CLOUDFLARE_TOKEN'') = Inr P"
    using t assms(2) by (simp add: cf_NewProvider_def)
  obtain r where "PushTXTRecord P ver domain ?n ?v s = ((None, r), s')"
    using assms(1) t unfolding push_dmarc_def Let_def list.case c sum.case by (auto simp only: push_end_ok if_False)
  from PushTXT_again [OF this assms(3,4)]
  have "PushTXTRecord P ver' domain ?n ?v s' = ((None, push_result StatusAlreadyConfigured ?n ?v []), s')" .
  with t c show ?thesis
    unfolding push_dmarc_def Let_def list.case c sum.case by (simp add: push_end_ok pushed_line_def push_result_def show_bool_def)
qed

lemma push_dkim_again:
  assumes "push_dkim B env ver [domain, selector, target] s = ((True, ls), s')"
    and "\<And>k. clRoute53 B k = Inr P" and "inv s"
    and "adm domain (mk_record ''CNAME'' (selector @ ''._domainkey.'' @ domain) target 300)"
  shows "push_dkim B env ver' [domain, selector, target] s' = ((True, [''status=already_configured verified=false value=''
    @ go_quote target]), s')"
proof -
  let ?n = "selector @ ''._domainkey.'' @ domain"
  let ?ak = "env ''DNSENTREE_AWS_ACCESS_KEY_ID''" and ?sk = "env ''DNSENTREE_AWS_SECRET_ACCESS_KEY''"
  have t: "(?ak = [] \<or> ?sk = []) = False"
    using assms(1) by (auto simp: push_dkim_def Let_def)
  have c: "bindE (r53_NewProvider ?ak ?sk region) (\<lambda>c. mapErr aws_config_error (clRoute53 B c)) = Inr P" for region
    using t assms(2) by (simp add: r53_NewProvider_def)
  obtain r where "PushCNAMERecord P ver domain ?n target s = ((None, r), s')"
    using assms(1) unfolding push_dkim_def Let_def list.case t if_False c sum.case by (auto simp only: push_end_ok)
  from PushCNAME_again [OF this assms(3,4)]
  have "PushCNAMERecord P ver' domain ?n target s' = ((None, push_result StatusAlreadyConfigured ?n target []), s')" .
  then show ?thesis
    unfolding push_dkim_def Let_def list.case t if_False c sum.case
    by (simp add: push_end_ok pushed_line_def push_result_def show_bool_def)
qed

end

text \<open>The template example prints a line for every record of the template when it ends well, except when the template does not
  resolve: then it prints what it has detected alone, and still ends with status 0.\<close>

lemma detect_and_apply_lines:
  assumes "detect_and_apply B env X [domain, pid, sid] (s, c) = ((True, ls), s', c')"
  shows "\<exists>det tmpl prov. DetectProvider (coLookupNS X) (coRdap X) domain = Inr det \<and> drProvider det = ''cloudflare''
    \<and> (case ApplyTemplateWithReport prov (coVerify X) domain tmpl [''domain'' \<mapsto> domain] s of
         (Inl e, s1) \<Rightarrow> ls = [detected_line det] \<and> s' = s1
       | (Inr a, s1) \<Rightarrow> ls = detected_line det # map result_line (asResults a) \<and> s' = s1)"
proof -
  let ?env = "env ''DNSENTREE_CLOUDFLARE_TOKEN''"
  obtain det where d: "DetectProvider (coLookupNS X) (coRdap X) domain = Inr det"
    using assms by (auto simp: detect_and_apply_def split: sum.splits)
  have p: "drProvider det = ''cloudflare''"
    using assms by (auto simp: detect_and_apply_def d Let_def split: if_splits)
  have t: "(?env = []) = False" using assms by (auto simp: detect_and_apply_def d Let_def split: if_splits)
  obtain prov where n: "cf_NewProvider (clCloudflare B) ?env = Inr prov"
    using assms by (auto simp: detect_and_apply_def d p t Let_def split: sum.splits)
  obtain c1 where y: "SyncTemplates (coSync X) [] c = (None, c1)"
    using assms by (auto simp: detect_and_apply_def d p t n Let_def split: prod.splits option.splits)
  obtain tmpl c2 where l: "LoadTemplate (coSync X) [] pid sid c1 = (Inr tmpl, c2)"
    using assms by (auto simp: detect_and_apply_def d p t n y Let_def split: prod.splits sum.splits)
  have "case ApplyTemplateWithReport prov (coVerify X) domain tmpl [''domain'' \<mapsto> domain] s of
         (Inl e, s1) \<Rightarrow> ls = [detected_line det] \<and> s' = s1
       | (Inr a, s1) \<Rightarrow> ls = detected_line det # map result_line (asResults a) \<and> s' = s1"
    using assms by (auto simp: detect_and_apply_def d p t n y l Let_def split: prod.splits sum.splits)
  with d p show ?thesis by (intro exI conjI)
qed

end
