(* ===== verification/Spec2Isabelle.thy ===== *)
theory Spec2Isabelle
  imports Template_Process Template_Apply Fake_Provider Namecheap Godaddy Cloud_Providers Inspect Migrate_Run
    Migrate_Safety Api_Extra Api_Start Api_Routes Cli_Cmds Dc_Test Store_Conformance Store_Lock Provider_Link Examples
begin

text \<open>
  dns-entree: management of DNS records across providers, Domain Connect templates, and migration
  of zones. The development models the Go code under \<open>src/\<close>; a theory follows the source files named
  below and keeps their names where Isabelle allows it.

  Shared. \<open>Prelude\<close> (errors as sums, list and multiset facts), \<open>Go_Strings\<close> (the \<open>strings\<close> and \<open>strconv\<close>
  functions, on bytes; case mapping is for ASCII), \<open>Dns_Types\<close> (\<open>entree.go\<close>: records, zones and credentials as HOL
  records), \<open>Net_IP\<close> and \<open>Net_URL\<close> (\<open>net.ParseIP\<close>, \<open>url.Parse\<close>, \<open>url.QueryEscape\<close>).

  Record service. \<open>Spf\<close> (\<open>spf.go\<close>: merging and counting; the recursive count ends by the depth bound of
  the code and the threaded set of visited names), \<open>Validate\<close> (\<open>validate.go\<close>), \<open>Verify_Dns\<close> (\<open>verify.go\<close>), \<open>Push\<close>
  (\<open>push.go\<close>, \<open>apply.go\<close>) over the locale \<open>record_provider\<close>, \<open>Fake_Provider\<close> (\<open>internal/fakeprovider\<close>, \<open>registry.go\<close>), which interprets the
  locale and inherits that every push is idempotent. \<open>Namecheap\<close>, \<open>Godaddy\<close> and \<open>Cloud_Providers\<close> are the
  providers under \<open>providers/\<close>: their operations over an abstract service with explicit state.

  Templates. \<open>Template_Types\<close>, \<open>Template_Validate\<close>, \<open>Template_Sig\<close>, \<open>Template_Zone\<close> and \<open>Template_Process\<close> model
  \<open>template/template.go\<close>, \<open>resolve.go\<close>, \<open>sigverify.go\<close> and \<open>process.go\<close>: substitution, validation, the request signature, one step
  per template record on the zone, and the whole of \<open>ProcessRecords\<close> with its accounting theorem. \<open>Template_Apply\<close>
  is \<open>apply.go\<close>, a client of the push service.

  Discovery. \<open>Detect\<close> (\<open>detect.go\<close>), \<open>Esp\<close> (package \<open>esp\<close>), \<open>Domain_Connect\<close> (package \<open>domainconnect\<close>), with its receiving end \<open>Dc_Test\<close> (\<open>domainconnect/dctest\<close>), \<open>Inspect\<close>
  (package \<open>inspect\<close>). The walk of \<open>Esp\<close> takes 11 levels, the depth bound of the code; it is exact where at
  most eleven hosts can be reached and a counterexample shows what it misses beyond.

  Migration. \<open>Migrate_Zone\<close> (\<open>convert.go\<close>, \<open>bind.go\<close>, \<open>scrape.go\<close>), \<open>Migrate_Verify\<close> (\<open>verify_target.go\<close>, \<open>report.go\<close>), \<open>Migrate_Run\<close>
  (\<open>migrate.go\<close>, \<open>nschange.go\<close>, \<open>adapter.go\<close>). The label walk ends because every queued name lies one level
  deeper, at most at level four. The verification loop is a partial function into an option: that
  it returns is a theorem.

  Stateful migrations. \<open>Json\<close> is what \<open>encoding/json\<close> makes of the structures that are stored and answered, with the
  locale \<open>json_codec\<close> for the round trips. \<open>Store\<close> (\<open>migrate/store.go\<close>) is the contract of a store: the locale \<open>migration_store\<close>
  states what each operation does to the rows and their versions, with optimistic locking proved inside it.
  \<open>Store_Json\<close> (\<open>store_json.go\<close>, files) and \<open>Store_Sql\<close> (\<open>sqlstore/store.go\<close>, a table) interpret it, and both refine one map of versioned rows.
  \<open>Store_Query\<close> adds listing and sweeping to that map, as the locale \<open>plain_store\<close> of a store without faults; in its context
  \<open>Store_Conformance\<close> proves that the suite of \<open>migrate/storetest\<close> passes, hence for both backends.
  \<open>Store_Lock\<close> interleaves the steps of processes on one directory, with the lock files (\<open>store_json_unix.go\<close>,
  \<open>store_json_windows.go\<close>): operations are atomic as long as no lock file is unlinked, and a run shows what unlinking does.
  \<open>Crypt\<close> (\<open>crypt.go\<close>) is the key and the sealing of credentials, \<open>Migrate_Adapters\<close> the zone creation of each provider.
  \<open>Api_Migrate\<close> has the endpoints, cut at their store operations; \<open>Migrate_System\<close> interleaves them as a step relation and
  extends the store's locale to \<open>migration_server\<close>, whose invariant gives that a migration is claimed once;
  \<open>Migrate_Safety\<close> states the results for the server on each backend, with a sample run. The bound of \<open>2 ^ 63\<close>
  steps there keeps the 64-bit version from wrapping: a version never exceeds the number of steps by more than one.

  API. \<open>Api_Http\<close> (envelopes, middleware, credential headers, guards), \<open>Api_Core\<close> (\<open>handlers_core.go\<close>) and \<open>Api_Extra\<close> (\<open>handlers_dc.go\<close>,
  \<open>handlers_templates.go\<close>, \<open>handlers_migrate.go\<close>), over \<open>Template_Sync\<close> (\<open>template/sync.go\<close>, the template cache). A handler is a function
  from the request with its decoded body and the state to the response and the state. \<open>Api_Core\<close> proves in
  the context of \<open>record_provider\<close> that applying twice is applying once, and the interpretation in \<open>Fake_Provider\<close> gives it for the endpoint.

  Server. \<open>Go_Flag\<close> and \<open>Go_Path\<close> are the packages \<open>flag\<close> and \<open>path/filepath\<close>. \<open>Api_Metrics\<close> (\<open>metrics.go\<close>) has the registry and its text
  form, \<open>Api_Server\<close> (\<open>options.go\<close>, \<open>options_flags.go\<close>, \<open>server.go\<close>, \<open>cmd/entree-api\<close>) the options with their precedence, the start of the
  server and its sweeper, \<open>Api_Start\<close> what a start means for rows and credentials of an earlier run, \<open>Api_Routes\<close> (\<open>routes_core.go\<close>, \<open>routes_extra.go\<close>)
  the table of routes with the matching of \<open>http.ServeMux\<close> for the patterns in use.

  Command line (\<open>cmd/entree\<close>). \<open>Cli_Base\<close> has errors, exit codes, output, credentials and template variables; \<open>Cli_Zone\<close> export, import and
  migration of zones over \<open>ScrapeZone\<close> and \<open>Migrate\<close>; \<open>Cli_Apply\<close> records and templates over the push service; \<open>Cli_Cmds\<close> the other
  commands, among them the server, whose start has the exit codes of the standalone binary. A command is a function of the
  flags and the state to an error, what it wrote, and the state. \<open>Cli_Apply\<close> continues the context \<open>record_provider\<close> of
  \<open>Api_Core\<close>: what the command line applies, the server finds applied.

  Programs as linked. \<open>Provider_Link\<close> has the registrations of the provider packages and the packages that each program imports, and
  compares the credentials that are accepted with those that the constructors take. \<open>Examples\<close> (\<open>examples/\<close>) has the five
  sample programs over the provider packages, the push service, templates and discovery.

  What is outside the repository (DNS, HTTP, TLS and vendor libraries, cryptography, time) is a
  parameter of the definitions that use it: a field of an environment record, with what the code
  relies on stated as hypotheses of the theorems.

  Not modelled: the parsing of the command line by cobra, the listener of the HTTP server, log lines, which are
  input and output around the functions modelled here; a nil slice and an empty one are the same list, also in answers.
\<close>

end
